(* ===== verification/Prelude.thy ===== *)
theory Prelude
  imports
    Main
    "HOL-Library.AList"
    "HOL-Library.Multiset"
    "HOL-Library.Product_Lexorder"
    "HOL-Library.List_Lexorder"
    "HOL-Library.Char_ord"
begin

text \<open>
  Shared vocabulary of the development: the types the components exchange (identifiers, instants,
  JSON values, Python dictionaries), the relational operations every repository is written with
  (\<open>UPDATE .. WHERE\<close>, \<open>DELETE .. WHERE\<close>, \<open>ORDER BY .. LIMIT\<close>, \<open>GROUP BY\<close> counts), and the lemmas on
  lists and association lists that carry the component proofs.

  Conventions.  A UUID is a natural number (the order of the numbers is the order Postgres gives the
  version 7 identifiers).  An instant is a number of microseconds, a date a day number.  A Python
  dictionary is an association list with distinct keys: \<open>AList.update\<close> overwrites in place
  and appends a new key, as the Python dictionary does.  A table is the list of its rows.
\<close>

section \<open>Types\<close>

type_synonym uuid = nat
type_synonym instant = int
type_synonym date = int
type_synonym ('k, 'v) dict = "('k \<times> 'v) list"

abbreviation seconds :: "int \<Rightarrow> int" where
  "seconds n \<equiv> n * 1000000"

abbreviation days :: "int \<Rightarrow> int" where
  "days n \<equiv> n * 86400000000"

datatype json =
    JNull
  | JBool bool
  | JNum int
  | JStr string
  | JArr "json list"
  | JObj "(string \<times> json) list"

type_synonym payload = "(string, json) dict"

named_theorems table_simps \<open>how the relational operations act on lookups, counts and keys\<close>
named_theorems invs \<open>preservation of the invariants, component by component\<close>

section \<open>Tables\<close>

text \<open>\<open>UPDATE rows SET f WHERE P\<close> and \<open>DELETE FROM rows WHERE P\<close>.\<close>

definition update_where :: "('a \<Rightarrow> bool) \<Rightarrow> ('a \<Rightarrow> 'a) \<Rightarrow> 'a list \<Rightarrow> 'a list" where
  "update_where P f rows = map (\<lambda>r. if P r then f r else r) rows"

definition delete_where :: "('a \<Rightarrow> bool) \<Rightarrow> 'a list \<Rightarrow> 'a list" where
  "delete_where P rows = filter (\<lambda>r. \<not> P r) rows"

definition count_where :: "('a \<Rightarrow> bool) \<Rightarrow> 'a list \<Rightarrow> nat" where
  "count_where P rows = length (filter P rows)"

lemma update_where_Nil [simp]: "update_where P f [] = []"
  by (simp add: update_where_def)

lemma update_where_Cons [simp]:
  "update_where P f (r # rows) = (if P r then f r else r) # update_where P f rows"
  by (simp add: update_where_def)

lemma update_where_append [simp]:
  "update_where P f (xs @ ys) = update_where P f xs @ update_where P f ys"
  by (simp add: update_where_def)

lemma length_update_where [simp]: "length (update_where P f rows) = length rows"
  by (simp add: update_where_def)

lemma in_update_where [table_simps]:
  "r \<in> set (update_where P f rows) \<longleftrightarrow> (\<exists>q \<in> set rows. r = (if P q then f q else q))"
  by (auto simp: update_where_def)

lemma map_update_where_key:
  assumes "\<And>r. P r \<Longrightarrow> key (f r) = key r"
  shows "map key (update_where P f rows) = map key rows"
  using assms by (induction rows) auto

lemma filter_update_where_outside:
  assumes "\<And>r. P r \<Longrightarrow> \<not> Q r" and "\<And>r. P r \<Longrightarrow> \<not> Q (f r)"
  shows "filter Q (update_where P f rows) = filter Q rows"
  using assms by (induction rows) auto

lemma filter_update_where_same:
  assumes "\<And>r. r \<in> set rows \<Longrightarrow> P r \<Longrightarrow> Q (f r) = Q r"
  shows "filter Q (update_where P f rows) = update_where P f (filter Q rows)"
  using assms by (induction rows) auto

lemma update_where_id:
  assumes "\<And>r. r \<in> set rows \<Longrightarrow> \<not> P r"
  shows "update_where P f rows = rows"
  using assms by (induction rows) auto

lemma count_where_Nil [simp]: "count_where P [] = 0"
  by (simp add: count_where_def)

lemma count_where_Cons [simp]:
  "count_where P (r # rows) = (if P r then 1 else 0) + count_where P rows"
  by (simp add: count_where_def)

lemma count_where_append [simp]:
  "count_where P (xs @ ys) = count_where P xs + count_where P ys"
  by (simp add: count_where_def)

lemma count_where_0_iff: "count_where P rows = 0 \<longleftrightarrow> (\<forall>r \<in> set rows. \<not> P r)"
  by (induction rows) auto

lemma count_where_le_length: "count_where P rows \<le> length rows"
  by (simp add: count_where_def)

lemma count_where_mono:
  assumes "\<And>r. r \<in> set rows \<Longrightarrow> P r \<Longrightarrow> Q r"
  shows "count_where P rows \<le> count_where Q rows"
  using assms by (induction rows) (auto simp: le_Suc_eq)

lemma count_where_update_le:
  assumes "\<And>r. r \<in> set rows \<Longrightarrow> P r \<Longrightarrow> Q (f r) \<Longrightarrow> Q r"
  shows "count_where Q (update_where P f rows) \<le> count_where Q rows"
  using assms
proof (induction rows)
  case (Cons r rows)
  then have "count_where Q (update_where P f rows) \<le> count_where Q rows" by simp
  then show ?case using Cons.prems[of r] by auto
qed simp

lemma count_where_delete_le: "count_where Q (delete_where P rows) \<le> count_where Q rows"
  by (induction rows) (auto simp: delete_where_def)

text \<open>An update that keeps the key and only ever takes rows out of a partial unique index.\<close>

lemma distinct_map_filter_update:
  assumes "distinct (map key (filter Q rows))"
    and keep: "\<And>r. key (f r) = key r"
    and out: "\<And>r. Q (f r) \<Longrightarrow> Q r"
  shows "distinct (map key (filter Q (update_where P f rows)))"
proof -
  define g where "g = (\<lambda>r. if P r then f r else r)"
  have "key \<circ> g = key" by (simp add: g_def keep fun_eq_iff)
  have "Q (g r) \<Longrightarrow> Q r" for r
    unfolding g_def by (cases "P r") (use out in \<open>simp_all only: if_True if_False\<close>)
  then have "filter (Q \<circ> g) rows = filter (Q \<circ> g) (filter Q rows)"
    unfolding filter_filter by (intro filter_cong refl) (auto simp only: comp_apply)
  moreover have "map key (filter Q (update_where P f rows)) = map (key \<circ> g) (filter (Q \<circ> g) rows)"
    unfolding update_where_def g_def [symmetric] filter_map map_map ..
  ultimately show ?thesis
    using assms(1) \<open>key \<circ> g = key\<close> distinct_map_filter by metis
qed

lemma delete_where_Nil [simp]: "delete_where P [] = []"
  by (simp add: delete_where_def)

lemma delete_where_Cons [simp]:
  "delete_where P (r # rows) = (if P r then delete_where P rows else r # delete_where P rows)"
  by (simp add: delete_where_def)

lemma delete_where_append [simp]:
  "delete_where P (xs @ ys) = delete_where P xs @ delete_where P ys"
  by (simp add: delete_where_def)

lemma in_delete_where [table_simps]:
  "r \<in> set (delete_where P rows) \<longleftrightarrow> r \<in> set rows \<and> \<not> P r"
  by (auto simp: delete_where_def)

lemma distinct_map_delete_where:
  "distinct (map key rows) \<Longrightarrow> distinct (map key (delete_where P rows))"
  by (induction rows) (auto simp: delete_where_def)

lemma count_plus_delete:
  "count_where P rows + length (delete_where P rows) = length rows"
  by (induction rows) auto

text \<open>The row of a key.\<close>

definition row_by :: "('a \<Rightarrow> 'k) \<Rightarrow> 'k \<Rightarrow> 'a list \<Rightarrow> 'a option" where
  "row_by key k rows = find (\<lambda>r. key r = k) rows"

lemma row_by_Nil [simp]: "row_by key k [] = None"
  by (simp add: row_by_def)

lemma row_by_Cons [simp]:
  "row_by key k (r # rows) = (if key r = k then Some r else row_by key k rows)"
  by (simp add: row_by_def)

lemma row_by_append:
  "row_by key k (xs @ ys) = (case row_by key k xs of Some r \<Rightarrow> Some r | None \<Rightarrow> row_by key k ys)"
  by (induction xs) auto

lemma row_by_SomeD: "row_by key k rows = Some r \<Longrightarrow> r \<in> set rows \<and> key r = k"
  by (induction rows) (auto split: if_splits)

lemma row_by_None_iff: "row_by key k rows = None \<longleftrightarrow> k \<notin> key ` set rows"
  by (induction rows) auto

lemma row_by_eq_Some:
  "distinct (map key rows) \<Longrightarrow> row_by key k rows = Some r \<longleftrightarrow> r \<in> set rows \<and> key r = k"
  by (induction rows) force+

lemma row_by_update_where [table_simps]:
  assumes "\<And>r. key (f r) = key r"
  shows "row_by key k (update_where P f rows)
       = map_option (\<lambda>r. if P r then f r else r) (row_by key k rows)"
  using assms by (induction rows) auto

lemma row_by_delete_where_None:
  "row_by key k rows = None \<Longrightarrow> row_by key k (delete_where P rows) = None"
  by (induction rows) (auto split: if_splits)

lemma row_by_delete_where:
  assumes "distinct (map key rows)"
  shows "row_by key k (delete_where P rows)
       = (case row_by key k rows of None \<Rightarrow> None | Some r \<Rightarrow> if P r then None else Some r)"
  using assms
proof (induction rows)
  case (Cons r rows)
  moreover have "row_by key k rows = None" if "key r = k"
    using Cons.prems that by (auto simp: row_by_None_iff)
  ultimately show ?case by (auto simp: row_by_delete_where_None)
qed simp

section \<open>Ordering and limits\<close>

lemma sorted_take_le_drop:
  assumes "sorted (map f xs)" and "x \<in> set (take n xs)" and "y \<in> set (drop n xs)"
  shows "f x \<le> (f y :: 'b :: linorder)"
proof -
  have "sorted (map f (take n xs) @ map f (drop n xs))"
    using assms(1) by (metis append_take_drop_id map_append)
  then show ?thesis using assms(2,3) by (auto simp: sorted_append)
qed

lemma set_take_drop: "set (take n xs) \<union> set (drop n xs) = set xs"
  by (metis append_take_drop_id set_append)

lemma take_sort_key_least:
  assumes "x \<in> set (take n (sort_key f xs))" and "y \<in> set xs"
    and "y \<notin> set (take n (sort_key f xs))"
  shows "f x \<le> (f y :: 'b :: linorder)"
proof -
  have "y \<in> set (drop n (sort_key f xs))"
    using assms(2,3) set_take_drop[of n "sort_key f xs"] by auto
  then show ?thesis
    using assms(1) sorted_take_le_drop[of f "sort_key f xs"] by simp
qed

lemma distinct_map_sort_key:
  "distinct (map key (sort_key f xs)) \<longleftrightarrow> distinct (map key xs)"
  by (metis distinct_map distinct_sort set_sort)

lemma set_takeWhileD_all: "x \<in> set (takeWhile P xs) \<Longrightarrow> x \<in> set xs \<and> P x"
  by (rule set_takeWhileD)

lemma sorted_distinct_strict:
  assumes "sorted (map f xs)" "distinct (map f xs)" "i < j" "j < length xs"
  shows "f (xs ! i) < (f (xs ! j) :: 'b :: linorder)"
proof -
  have "f (xs ! i) \<le> f (xs ! j)"
    using assms sorted_nth_mono[of "map f xs" i j] by simp
  moreover have "f (xs ! i) \<noteq> f (xs ! j)"
    using assms(2-4) nth_eq_iff_index_eq[of "map f xs" i j] by simp
  ultimately show ?thesis by simp
qed

section \<open>First occurrences and first maxima\<close>

text \<open>The elements of a list that are not yet seen, each once, at its first position.\<close>

fun first_occurrences :: "'a list \<Rightarrow> 'a list \<Rightarrow> 'a list" where
  "first_occurrences seen [] = []" |
  "first_occurrences seen (x # xs) =
     (if x \<in> set seen then first_occurrences seen xs else x # first_occurrences (x # seen) xs)"

lemma first_occurrences_props:
  "set (first_occurrences seen xs) = set xs - set seen \<and> distinct (first_occurrences seen xs)"
  by (induction seen xs rule: first_occurrences.induct) auto

text \<open>The first element with the greatest value, as \<open>max(xs, key=f)\<close> returns it.\<close>

fun first_max :: "('a \<Rightarrow> 'b :: linorder) \<Rightarrow> 'a list \<Rightarrow> 'a option" where
  "first_max f [] = None" |
  "first_max f (x # xs) = (case first_max f xs of
     None \<Rightarrow> Some x | Some y \<Rightarrow> Some (if f x \<ge> f y then x else y))"

lemma first_max_None [simp]: "first_max f xs = None \<longleftrightarrow> xs = []"
  by (cases xs) (auto split: option.splits)

lemma first_max_greatest:
  "first_max f xs = Some m \<Longrightarrow> m \<in> set xs \<and> (\<forall>x \<in> set xs. f x \<le> f m)"
proof (induction xs arbitrary: m)
  case (Cons x xs)
  show ?case
  proof (cases "first_max f xs")
    case None
    then show ?thesis using Cons.prems by simp
  next
    case (Some y)
    then show ?thesis using Cons.prems Cons.IH[OF Some] by (auto split: if_splits)
  qed
qed simp

section \<open>Grouping\<close>

lemma zero_hot: "a \<notin> set ks \<Longrightarrow> sum_list (map (\<lambda>k. if a = k then 1 else 0) ks) = (0 :: nat)"
  by (induction ks) auto

lemma one_hot: "distinct ks \<Longrightarrow> a \<in> set ks \<Longrightarrow> sum_list (map (\<lambda>k. if a = k then 1 else 0) ks) = (1 :: nat)"
proof (induction ks)
  case (Cons k ks)
  then show ?case using zero_hot[of a ks] by (cases "a = k") auto
qed simp

text \<open>The sizes of the groups of a list add up to its length.\<close>

lemma length_partition:
  "distinct ks \<Longrightarrow> set (map f xs) \<subseteq> set ks \<Longrightarrow>
   sum_list (map (\<lambda>k. length (filter (\<lambda>x. f x = k) xs)) ks) = length xs"
proof (induction xs)
  case (Cons x xs)
  have "sum_list (map (\<lambda>k. length (filter (\<lambda>y. f y = k) (x # xs))) ks)
      = sum_list (map (\<lambda>k. (if f x = k then 1 else 0) + length (filter (\<lambda>y. f y = k) xs)) ks)"
    by (intro arg_cong[where f = sum_list] map_cong) auto
  also have "\<dots> = sum_list (map (\<lambda>k. if f x = k then 1 else 0) ks) + length xs"
    using Cons by (simp add: sum_list_addf)
  also have "sum_list (map (\<lambda>k. if f x = k then 1 else (0 :: nat)) ks) = 1"
    using Cons.prems one_hot[of ks "f x"] by simp
  finally show ?case by simp
qed simp

section \<open>Dictionaries\<close>

lemma map_of_AList_update: "map_of (AList.update k v d) = (map_of d)(k \<mapsto> v)"
  by (rule update_conv')

lemma keys_AList_update:
  "map fst (AList.update k v d) = (if k \<in> fst ` set d then map fst d else map fst d @ [k])"
  by (induction d) auto

lemma distinct_keys_update:
  "distinct (map fst (AList.update k v d)) \<longleftrightarrow> distinct (map fst d)"
  by (auto simp: keys_AList_update)

definition dict_get :: "('k, 'v) dict \<Rightarrow> 'k \<Rightarrow> 'v \<Rightarrow> 'v" where
  "dict_get d k dflt = (case map_of d k of None \<Rightarrow> dflt | Some v \<Rightarrow> v)"

lemma dict_get_update: "dict_get (AList.update k v d) j x = (if j = k then v else dict_get d j x)"
  by (simp add: dict_get_def map_of_AList_update)

definition dict_union :: "('k, 'v) dict \<Rightarrow> ('k, 'v) dict \<Rightarrow> ('k, 'v) dict" where
  "dict_union d e = fold (\<lambda>(k, v). AList.update k v) e d"

lemma map_of_dict_union:
  "distinct (map fst e) \<Longrightarrow> map_of (dict_union d e) = map_of d ++ map_of e"
proof (induction e arbitrary: d)
  case (Cons kv e)
  obtain k v where kv: "kv = (k, v)" by force
  have "map_of (dict_union d (kv # e)) = (map_of d)(k \<mapsto> v) ++ map_of e"
    using Cons by (simp add: dict_union_def kv map_of_AList_update)
  moreover have "map_of e k = None"
    using Cons.prems by (simp add: kv map_of_eq_None_iff)
  ultimately show ?case
    by (auto simp: kv map_add_def fun_eq_iff split: option.splits)
qed (simp add: dict_union_def)

text \<open>A dictionary opened at a key: where the update and the deletion happen.\<close>

lemma dict_split:
  assumes "map_of d k = Some v"
  obtains a b where "d = a @ (k, v) # b" "k \<notin> fst ` set a"
    "\<And>w. AList.update k w d = a @ (k, w) # b"
    "distinct (map fst d) \<Longrightarrow> AList.delete k d = a @ b"
  using assms
proof (induction d arbitrary: thesis)
  case (Cons e d)
  obtain l w where e: "e = (l, w)" by force
  show ?case
  proof (cases "l = k")
    case True
    have del: "k \<notin> fst ` set d \<Longrightarrow> AList.delete k d = d"
      by (induction d) auto
    then show ?thesis using Cons.prems True
      by (intro Cons.prems(1)[of "[]" d]) (auto simp: e)
  next
    case False
    then have "map_of d k = Some v" using Cons.prems(2) by (simp add: e)
    then obtain a b where ab: "d = a @ (k, v) # b" "k \<notin> fst ` set a"
      "\<And>w. AList.update k w d = a @ (k, w) # b"
      "distinct (map fst d) \<Longrightarrow> AList.delete k d = a @ b"
      using Cons.IH by blast
    then show ?thesis using False
      by (intro Cons.prems(1)[of "(l, w) # a" b]) (simp_all add: e)
  qed
qed simp

section \<open>Sums as results\<close>

definition bind_err :: "('e + 'a) \<Rightarrow> ('a \<Rightarrow> 'e + 'b) \<Rightarrow> 'e + 'b" where
  "bind_err m f = (case m of Inl e \<Rightarrow> Inl e | Inr a \<Rightarrow> f a)"

lemma bind_err_simps [simp]:
  "bind_err (Inl e) f = Inl e" "bind_err (Inr a) f = f a"
  by (simp_all add: bind_err_def)

lemma bind_err_Inr_iff: "bind_err m f = Inr b \<longleftrightarrow> (\<exists>a. m = Inr a \<and> f a = Inr b)"
  by (cases m) auto

lemma bind_err_Inl_iff:
  "bind_err m f = Inl e \<longleftrightarrow> m = Inl e \<or> (\<exists>a. m = Inr a \<and> f a = Inl e)"
  by (cases m) auto

lemma bind_err_cong [fundef_cong]:
  "m = n \<Longrightarrow> (\<And>a. n = Inr a \<Longrightarrow> f a = g a) \<Longrightarrow> bind_err m f = bind_err n g"
  by (cases n) auto

definition isl_err :: "('e + 'a) \<Rightarrow> bool" where
  "isl_err m = (case m of Inl _ \<Rightarrow> True | Inr _ \<Rightarrow> False)"

section \<open>Searching a list\<close>

lemma find_SomeD: "List.find P xs = Some x \<Longrightarrow> x \<in> set xs \<and> P x"
  by (auto simp: find_Some_iff)

lemma find_append: "List.find P (xs @ ys) = (case List.find P xs of Some x \<Rightarrow> Some x | None \<Rightarrow> List.find P ys)"
  by (induction xs) auto

lemma map_filter_Some: "(\<And>x. x \<in> set xs \<Longrightarrow> f x = Some (g x)) \<Longrightarrow> List.map_filter f xs = map g xs"
  by (induction xs) (simp_all add: List.map_filter_simps)

lemma in_map_filter: "y \<in> set (List.map_filter f xs) \<longleftrightarrow> (\<exists>x \<in> set xs. f x = Some y)"
  by (induction xs) (auto simp: List.map_filter_simps split: option.splits)

section \<open>Sums over dictionaries and groups\<close>

lemma sum_dict_lookup:
  fixes f :: "'k \<Rightarrow> 'v \<Rightarrow> int"
  assumes "distinct (map fst cur)" "distinct (map fst prev)" "fst ` set prev \<subseteq> fst ` set cur"
  shows "sum_list (map (\<lambda>(k, _). case map_of prev k of None \<Rightarrow> 0 | Some v \<Rightarrow> f k v) cur)
       = sum_list (map (\<lambda>(k, v). f k v) prev)"
proof -
  let ?g = "\<lambda>k. case map_of prev k of None \<Rightarrow> 0 | Some v \<Rightarrow> f k v"
  have "sum_list (map (\<lambda>(k, _). ?g k) cur) = sum_list (map ?g (map fst cur))"
    by (simp add: split_def comp_def)
  also have "\<dots> = sum ?g (set (map fst cur))" by (rule sum_list_distinct_conv_sum_set[OF assms(1)])
  also have "\<dots> = sum ?g (set (map fst prev))"
    using assms(3) map_of_eq_None_iff[of prev]
    by (intro sum.mono_neutral_right) (auto split: option.splits simp: map_of_eq_None_iff[of prev, symmetric] simp del: map_of_eq_None_iff)
  also have "\<dots> = sum_list (map ?g (map fst prev))"
    by (rule sum_list_distinct_conv_sum_set[OF assms(2), symmetric])
  also have "\<dots> = sum_list (map (\<lambda>(k, v). f k v) prev)"
    using assms(2) by (auto simp: comp_def intro!: arg_cong[of _ _ sum_list])
  finally show ?thesis .
qed

lemma sum_list_update_dict:
  fixes f :: "'k \<Rightarrow> 'v \<Rightarrow> int"
  shows "distinct (map fst d) \<Longrightarrow> sum_list (map (\<lambda>(k, v). f k v) (AList.update k v d))
    = sum_list (map (\<lambda>(k, v). f k v) d) + f k v - (case map_of d k of None \<Rightarrow> 0 | Some w \<Rightarrow> f k w)"
proof (induction d)
  case (Cons e d)
  have "map_of d k = None" if "k = fst e" using Cons.prems that by (simp add: map_of_eq_None_iff)
  then show ?case using Cons by (cases e) auto
qed simp

lemma sum_groups:
  fixes f :: "'a \<Rightarrow> 'b :: comm_monoid_add"
  assumes "distinct ks" "set (map key xs) \<subseteq> set ks"
  shows "sum_list (map (\<lambda>k. sum_list (map f (filter (\<lambda>x. key x = k) xs))) ks) = sum_list (map f xs)"
  using assms
proof (induction xs)
  case (Cons x xs)
  have hot: "sum_list (map (\<lambda>k. if key x = k then f x else 0) ks) = (if key x \<in> set ks then f x else 0)"
    using Cons.prems(1) by (induction ks) auto
  have "sum_list (map (\<lambda>k. sum_list (map f (filter (\<lambda>y. key y = k) (x # xs)))) ks)
      = sum_list (map (\<lambda>k. (if key x = k then f x else 0) + sum_list (map f (filter (\<lambda>y. key y = k) xs))) ks)"
    by (intro arg_cong[of _ _ sum_list] map_cong) auto
  also have "\<dots> = f x + sum_list (map f xs)" using Cons hot by (simp add: sum_list_addf)
  finally show ?case by simp
qed simp

end
