(* ===== verification/Py_Text.thy ===== *)
theory Py_Text
  imports Prelude
begin

text \<open>
  The part of Python's \<open>str\<close> and \<open>int\<close> the components use, on ASCII strings: \<open>lower\<close>, \<open>strip\<close>,
  \<open>split\<close>, \<open>startswith\<close>, \<open>in\<close>, \<open>str(int)\<close>, \<open>int(str)\<close> (surrounding white space, a sign, single
  underscores between digits) and the round trip between the last two.
\<close>

section \<open>Characters\<close>

definition is_upper :: "char \<Rightarrow> bool" where
  "is_upper c \<longleftrightarrow> 65 \<le> (of_char c :: nat) \<and> (of_char c :: nat) \<le> 90"

definition is_lower :: "char \<Rightarrow> bool" where
  "is_lower c \<longleftrightarrow> 97 \<le> (of_char c :: nat) \<and> (of_char c :: nat) \<le> 122"

definition is_digit :: "char \<Rightarrow> bool" where
  "is_digit c \<longleftrightarrow> 48 \<le> (of_char c :: nat) \<and> (of_char c :: nat) \<le> 57"

definition is_space :: "char \<Rightarrow> bool" where
  "is_space c \<longleftrightarrow> (let n = (of_char c :: nat) in (9 \<le> n \<and> n \<le> 13) \<or> (28 \<le> n \<and> n \<le> 32))"

definition lower_char :: "char \<Rightarrow> char" where
  "lower_char c = (if is_upper c then char_of ((of_char c :: nat) + 32) else c)"

definition digit_value :: "char \<Rightarrow> nat" where
  "digit_value c = of_char c - 48"

definition digit_char :: "nat \<Rightarrow> char" where
  "digit_char d = char_of (48 + d mod 10)"

lemma of_digit_char: "(of_char (digit_char d) :: nat) = 48 + d mod 10"
proof -
  have "48 + d mod 10 < 256" using mod_less_divisor[of 10 d] by linarith
  then show ?thesis by (simp add: digit_char_def)
qed

lemma is_digit_digit_char [simp]: "is_digit (digit_char d)"
  using mod_less_divisor[of 10 d] by (simp add: is_digit_def of_digit_char)

lemma digit_value_digit_char [simp]: "digit_value (digit_char d) = d mod 10"
  by (simp add: digit_value_def of_digit_char)

lemma digit_not_space: "is_digit c \<Longrightarrow> \<not> is_space c"
  by (auto simp: is_digit_def is_space_def Let_def)

lemma digit_not_sign: "is_digit c \<Longrightarrow> c \<noteq> CHR ''-'' \<and> c \<noteq> CHR ''+'' \<and> c \<noteq> CHR ''_''"
  by (auto simp: is_digit_def)

section \<open>Strings\<close>

definition lower :: "string \<Rightarrow> string" where
  "lower s = map lower_char s"

definition lstrip :: "string \<Rightarrow> string" where
  "lstrip s = dropWhile is_space s"

definition strip :: "string \<Rightarrow> string" where
  "strip s = rev (lstrip (rev (lstrip s)))"

definition strip_chars :: "char list \<Rightarrow> string \<Rightarrow> string" where
  "strip_chars cs s =
     rev (dropWhile (\<lambda>c. c \<in> set cs) (rev (dropWhile (\<lambda>c. c \<in> set cs) s)))"

fun startswith :: "string \<Rightarrow> string \<Rightarrow> bool" where
  "startswith s [] = True" |
  "startswith [] (p # ps) = False" |
  "startswith (c # s) (p # ps) = (c = p \<and> startswith s ps)"

definition endswith :: "string \<Rightarrow> string \<Rightarrow> bool" where
  "endswith s suf = startswith (rev s) (rev suf)"

text \<open>Python's \<open>sub in s\<close>.\<close>

fun contains :: "string \<Rightarrow> string \<Rightarrow> bool" where
  "contains [] sub = (sub = [])" |
  "contains (c # s) sub = (startswith (c # s) sub \<or> contains s sub)"

text \<open>Python's \<open>s.split(sep)\<close> for a one-character separator.\<close>

fun split_on :: "char \<Rightarrow> string \<Rightarrow> string list" where
  "split_on sep [] = [[]]" |
  "split_on sep (c # s) = (if c = sep then [] # split_on sep s
     else (case split_on sep s of w # ws \<Rightarrow> (c # w) # ws | [] \<Rightarrow> [[c]]))"

fun join_with :: "string \<Rightarrow> string list \<Rightarrow> string" where
  "join_with sep [] = []" |
  "join_with sep [w] = w" |
  "join_with sep (w # ws) = w @ sep @ join_with sep ws"

lemma startswith_iff: "startswith s p \<longleftrightarrow> (\<exists>t. s = p @ t)"
  by (induction s p rule: startswith.induct) auto

lemma contains_iff: "contains s sub \<longleftrightarrow> (\<exists>a b. s = a @ sub @ b)"
proof (induction s)
  case (Cons c s)
  show ?case
  proof
    assume "contains (c # s) sub"
    then consider "startswith (c # s) sub" | "contains s sub" by auto
    then show "\<exists>a b. c # s = a @ sub @ b"
    proof cases
      case 1
      then show ?thesis by (metis append_Nil startswith_iff)
    next
      case 2
      then show ?thesis using Cons by (metis append_Cons)
    qed
  next
    assume "\<exists>a b. c # s = a @ sub @ b"
    then obtain a b where ab: "c # s = a @ sub @ b" by blast
    show "contains (c # s) sub"
    proof (cases a)
      case Nil
      then show ?thesis using ab by (metis append_Nil contains.simps(2) startswith_iff)
    next
      case (Cons d a')
      then show ?thesis using ab Cons.IH by auto
    qed
  qed
qed auto

lemma split_on_nonempty [simp]: "split_on sep s \<noteq> []"
  by (cases "(sep, s)" rule: split_on.cases) (auto split: list.splits)

lemma split_on_no_sep: "sep \<notin> set s \<Longrightarrow> split_on sep s = [s]"
  by (induction s) auto

lemma split_on_append_sep:
  "sep \<notin> set s \<Longrightarrow> split_on sep (s @ sep # t) = s # split_on sep t"
  by (induction s) auto

lemma in_split_on_no_sep: "w \<in> set (split_on sep s) \<Longrightarrow> sep \<notin> set w"
proof (induction s arbitrary: w)
  case (Cons c s)
  then show ?case by (cases "split_on sep s") (auto split: if_splits)
qed simp

lemma dropWhile_set_all: "dropWhile P xs = [] \<longleftrightarrow> (\<forall>x \<in> set xs. P x)"
  by (rule dropWhile_eq_Nil_conv)

lemma lstrip_no_space: "(s = [] \<or> \<not> is_space (hd s)) \<Longrightarrow> lstrip s = s"
  by (cases s) (auto simp: lstrip_def)

lemma strip_no_space:
  assumes "\<forall>c \<in> set s. \<not> is_space c"
  shows "strip s = s"
proof -
  have "lstrip s = s" using assms by (intro lstrip_no_space) (cases s, auto)
  moreover have "lstrip (rev s) = rev s"
    using assms by (intro lstrip_no_space) (cases s rule: rev_cases, auto)
  ultimately show ?thesis by (simp add: strip_def)
qed

lemma lower_char_idem [simp]: "lower_char (lower_char c) = lower_char c"
proof (cases "is_upper c")
  case True
  then have "(of_char c :: nat) + 32 < 256" by (simp add: is_upper_def)
  with True show ?thesis by (simp add: lower_char_def is_upper_def)
qed (simp add: lower_char_def)

lemma lower_idem [simp]: "lower (lower s) = lower s"
  by (simp add: lower_def)

lemma length_lower [simp]: "length (lower s) = length s"
  by (simp add: lower_def)

lemma lower_append [simp]: "lower (s @ t) = lower s @ lower t"
  by (simp add: lower_def)

section \<open>SQL pattern matching\<close>

text \<open>
  \<open>LIKE\<close>: \<open>%\<close> stands for any substring, \<open>_\<close> for any character, a backslash quotes the next one.
  \<open>ILIKE\<close> compares without case.
\<close>

fun like_match :: "string \<Rightarrow> string \<Rightarrow> bool" where
  "like_match [] s = (s = [])" |
  "like_match (p # ps) s =
     (if p = CHR ''%'' then like_match ps s \<or> (case s of [] \<Rightarrow> False | _ # t \<Rightarrow> like_match (p # ps) t)
      else if p = CHR ''_'' then (case s of [] \<Rightarrow> False | _ # t \<Rightarrow> like_match ps t)
      else if p = CHR 0x5C then
        (case ps of [] \<Rightarrow> False
         | q # qs \<Rightarrow> (case s of [] \<Rightarrow> False | c # t \<Rightarrow> c = q \<and> like_match qs t))
      else (case s of [] \<Rightarrow> False | c # t \<Rightarrow> c = p \<and> like_match ps t))"

definition ilike :: "string \<Rightarrow> string \<Rightarrow> bool" where
  "ilike s pat = like_match (lower pat) (lower s)"

definition like_fragment :: "string \<Rightarrow> string" where
  "like_fragment t = ''%'' @ t @ ''%''"

definition like_plain :: "string \<Rightarrow> bool" where
  "like_plain t \<longleftrightarrow> (\<forall>c \<in> set t. c \<noteq> CHR ''%'' \<and> c \<noteq> CHR ''_'' \<and> c \<noteq> CHR 0x5C)"

lemma like_match_percent: "like_match [CHR ''%''] s"
  by (induction s) auto

lemma like_match_prefix:
  "like_plain t \<Longrightarrow> like_match (t @ ''%'') s \<longleftrightarrow> startswith s t"
proof (induction t arbitrary: s)
  case Nil
  then show ?case using like_match_percent by simp
next
  case (Cons c t)
  then have "like_plain t" by (simp add: like_plain_def)
  then show ?case using Cons by (cases s) (auto simp: like_plain_def)
qed

lemma like_match_fragment: "like_plain t \<Longrightarrow> like_match (like_fragment t) s \<longleftrightarrow> contains s t"
proof (induction s)
  case Nil
  then show ?case using like_match_prefix[of t "[]"] by (cases t) (auto simp: like_fragment_def)
next
  case (Cons c s)
  then show ?case using like_match_prefix[of t "c # s"] by (auto simp: like_fragment_def)
qed

lemma lower_char_special:
  "c \<noteq> CHR ''%'' \<and> c \<noteq> CHR ''_'' \<and> c \<noteq> CHR 0x5C \<Longrightarrow>
   lower_char c \<noteq> CHR ''%'' \<and> lower_char c \<noteq> CHR ''_'' \<and> lower_char c \<noteq> CHR 0x5C"
proof (cases "is_upper c")
  case True
  then have "(of_char c :: nat) + 32 < 256" by (simp add: is_upper_def)
  then have "(of_char (lower_char c) :: nat) = of_char c + 32"
    using True by (simp add: lower_char_def)
  then have "97 \<le> (of_char (lower_char c) :: nat)" using True by (simp add: is_upper_def)
  then show ?thesis by auto
qed (simp add: lower_char_def)

lemma like_plain_lower: "like_plain t \<Longrightarrow> like_plain (lower t)"
  using lower_char_special by (auto simp: like_plain_def lower_def)

lemma ilike_fragment:
  "like_plain t \<Longrightarrow> ilike s (like_fragment t) \<longleftrightarrow> contains (lower s) (lower t)"
proof -
  assume "like_plain t"
  moreover have "lower (like_fragment t) = like_fragment (lower t)"
    by (simp add: like_fragment_def lower_def lower_char_def is_upper_def)
  ultimately show ?thesis
    by (simp add: ilike_def like_match_fragment like_plain_lower)
qed

section \<open>Decimal numerals\<close>

fun str_nat :: "nat \<Rightarrow> string" where
  "str_nat n = (if n < 10 then [digit_char n] else str_nat (n div 10) @ [digit_char n])"

declare str_nat.simps [simp del]

definition str_int :: "int \<Rightarrow> string" where
  "str_int i = (if i < 0 then CHR ''-'' # str_nat (nat (- i)) else str_nat (nat i))"

text \<open>The digits of a numeral: single underscores may stand between digits.\<close>

fun digits_from :: "nat \<Rightarrow> string \<Rightarrow> nat option" where
  "digits_from acc [] = Some acc" |
  "digits_from acc (c # s) =
     (if is_digit c then digits_from (10 * acc + digit_value c) s
      else if c = CHR ''_''
        then (case s of d # _ \<Rightarrow> if is_digit d then digits_from acc s else None | [] \<Rightarrow> None)
      else None)"

definition parse_nat :: "string \<Rightarrow> nat option" where
  "parse_nat s = (case s of c # _ \<Rightarrow> if is_digit c then digits_from 0 s else None | [] \<Rightarrow> None)"

text \<open>\<open>int(s)\<close>; \<open>None\<close> is the \<open>ValueError\<close>.\<close>

definition py_int :: "string \<Rightarrow> int option" where
  "py_int s = (case strip s of
       [] \<Rightarrow> None
     | c # t \<Rightarrow>
         if c = CHR ''-'' then map_option (\<lambda>n. - int n) (parse_nat t)
         else if c = CHR ''+'' then map_option int (parse_nat t)
         else map_option int (parse_nat (c # t)))"

lemma str_nat_digits: "c \<in> set (str_nat n) \<Longrightarrow> is_digit c"
  by (induction n arbitrary: c rule: str_nat.induct)
     (subst (asm) (2) str_nat.simps, auto split: if_splits)

lemma str_nat_nonempty [simp]: "str_nat n \<noteq> []"
  by (subst str_nat.simps) simp

lemma digits_from_append:
  "\<forall>c \<in> set s. is_digit c \<Longrightarrow>
   digits_from acc (s @ t) = (case digits_from acc s of None \<Rightarrow> None | Some a \<Rightarrow> digits_from a t)"
  by (induction s arbitrary: acc) auto

lemma digits_from_str_nat: "digits_from 0 (str_nat n) = Some n"
proof (induction n rule: str_nat.induct)
  case (1 n)
  show ?case
  proof (cases "n < 10")
    case True
    then show ?thesis by (subst str_nat.simps) simp
  next
    case False
    have "digits_from 0 (str_nat n) = digits_from 0 (str_nat (n div 10) @ [digit_char n])"
      using False by (subst str_nat.simps) simp
    also have "\<dots> = Some (10 * (n div 10) + n mod 10)"
      using 1[OF False] str_nat_digits by (subst digits_from_append) auto
    finally show ?thesis by simp
  qed
qed

lemma parse_str_nat [simp]: "parse_nat (str_nat n) = Some n"
proof -
  obtain c s where cs: "str_nat n = c # s" by (cases "str_nat n") auto
  then have "is_digit c" using str_nat_digits[of c n] by simp
  then show ?thesis using digits_from_str_nat[of n] by (simp add: parse_nat_def cs)
qed

lemma str_nat_inj: "str_nat m = str_nat n \<Longrightarrow> m = n"
  by (metis option.inject parse_str_nat)

lemma str_int_no_space: "c \<in> set (str_int i) \<Longrightarrow> \<not> is_space c"
proof -
  assume "c \<in> set (str_int i)"
  then have "is_digit c \<or> c = CHR ''-''"
    by (auto simp: str_int_def dest: str_nat_digits split: if_splits)
  then show ?thesis
  proof
    assume "c = CHR ''-''"
    then show ?thesis by (simp add: is_space_def)
  qed (rule digit_not_space)
qed

lemma py_int_str_int [simp]: "py_int (str_int i) = Some i"
proof -
  have strip: "strip (str_int i) = str_int i"
    by (intro strip_no_space ballI str_int_no_space)
  show ?thesis
  proof (cases "i < 0")
    case True
    then show ?thesis using strip by (simp add: py_int_def str_int_def)
  next
    case False
    then obtain c s where cs: "str_int i = c # s" "str_nat (nat i) = c # s"
      by (cases "str_nat (nat i)") (auto simp: str_int_def)
    then have "is_digit c" using str_nat_digits[of c "nat i"] by simp
    then have "c \<noteq> CHR ''-'' \<and> c \<noteq> CHR ''+''" using digit_not_sign by blast
    moreover have "parse_nat (c # s) = Some (nat i)" using cs(2) by (metis parse_str_nat)
    ultimately show ?thesis using strip False cs(1) by (simp add: py_int_def)
  qed
qed

lemma str_int_inj: "str_int i = str_int j \<longleftrightarrow> i = j"
  by (metis option.inject py_int_str_int)

lemma str_int_nonempty [simp]: "str_int i \<noteq> []"
  by (simp add: str_int_def)

section \<open>Identifiers as text\<close>

definition hex_char :: "nat \<Rightarrow> char" where
  "hex_char d = (if d < 10 then char_of (48 + d) else char_of (87 + d))"

definition hex_digits :: "nat \<Rightarrow> nat \<Rightarrow> string" where
  "hex_digits w n = map (\<lambda>i. hex_char (n div 16 ^ (w - 1 - i) mod 16)) [0..<w]"

text \<open>\<open>str(uuid)\<close>.\<close>

definition uuid_str :: "uuid \<Rightarrow> string" where
  "uuid_str u = (let h = hex_digits 32 u in
     take 8 h @ ''-'' @ take 4 (drop 8 h) @ ''-'' @ take 4 (drop 12 h) @ ''-'' @ take 4 (drop 16 h)
       @ ''-'' @ drop 20 h)"

text \<open>
  \<open>uuid.UUID(text)\<close>: an optional prefix, braces and dashes are dropped, 32 hexadecimal digits must be
  left.
\<close>

definition hex_value :: "char \<Rightarrow> nat option" where
  "hex_value c = (let n = (of_char (lower_char c) :: nat) in
     if 48 \<le> n \<and> n \<le> 57 then Some (n - 48)
     else if 97 \<le> n \<and> n \<le> 102 then Some (n - 87) else None)"

fun hex_nat :: "nat \<Rightarrow> string \<Rightarrow> nat option" where
  "hex_nat acc [] = Some acc" |
  "hex_nat acc (c # s) = (case hex_value c of None \<Rightarrow> None | Some d \<Rightarrow> hex_nat (16 * acc + d) s)"

fun replace_all :: "nat \<Rightarrow> string \<Rightarrow> string \<Rightarrow> string" where
  "replace_all 0 old s = s" |
  "replace_all (Suc fuel) old [] = []" |
  "replace_all (Suc fuel) old (c # s) =
     (if startswith (c # s) old then replace_all fuel old (drop (length old) (c # s))
      else c # replace_all fuel old s)"

definition uuid_parse :: "string \<Rightarrow> uuid option" where
  "uuid_parse text =
     (let bare = replace_all (length text) ''uuid:'' (replace_all (length text) ''urn:'' text);
          h = filter (\<lambda>c. c \<noteq> CHR ''-'') (strip_chars ''{}'' bare) in
      if length h = 32 then hex_nat 0 h else None)"

lemma of_hex_char:
  "d < 16 \<Longrightarrow> (of_char (hex_char d) :: nat) = (if d < 10 then 48 + d else 87 + d)"
  by (simp add: hex_char_def)

lemma hex_value_hex_char: "d < 16 \<Longrightarrow> hex_value (hex_char d) = Some d"
proof -
  assume d: "d < 16"
  then have "\<not> is_upper (hex_char d)" by (auto simp: is_upper_def of_hex_char)
  then show ?thesis using d by (auto simp: hex_value_def lower_char_def of_hex_char Let_def)
qed

lemma hex_char_plain: "d < 16 \<Longrightarrow> hex_char d \<notin> {CHR ''-'', CHR ''{'', CHR ''}'', CHR ''u'', CHR ''.''}"
proof -
  assume d: "d < 16"
  have "(of_char (hex_char d) :: nat) \<notin> {45, 123, 125, 117, 46}"
    using d by (auto simp: of_hex_char)
  then show ?thesis by auto
qed

lemma length_hex_digits [simp]: "length (hex_digits w n) = w"
  by (simp add: hex_digits_def)

lemma hex_digits_Suc: "hex_digits (Suc w) n = hex_digits w (n div 16) @ [hex_char (n mod 16)]"
proof -
  have "map (\<lambda>i. hex_char (n div 16 ^ (w - i) mod 16)) [0..<w]
      = map (\<lambda>i. hex_char (n div 16 div 16 ^ (w - 1 - i) mod 16)) [0..<w]"
  proof (intro map_cong refl)
    fix i assume "i \<in> set [0..<w]"
    then have "w - i = Suc (w - 1 - i)" by auto
    then show "hex_char (n div 16 ^ (w - i) mod 16) = hex_char (n div 16 div 16 ^ (w - 1 - i) mod 16)"
      by (simp only: power_Suc div_mult2_eq)
  qed
  then show ?thesis by (simp add: hex_digits_def)
qed

lemma hex_digits_plain:
  "c \<in> set (hex_digits w n) \<Longrightarrow> c \<notin> {CHR ''-'', CHR ''{'', CHR ''}'', CHR ''u'', CHR ''.''}"
proof -
  assume "c \<in> set (hex_digits w n)"
  then obtain d where "c = hex_char (d mod 16)" by (auto simp: hex_digits_def)
  then show ?thesis using hex_char_plain[of "d mod 16"] by simp
qed

lemma hex_nat_append:
  "hex_nat acc s = Some a \<Longrightarrow> hex_nat acc (s @ t) = hex_nat a t"
  by (induction s arbitrary: acc) (auto split: option.splits)

lemma hex_nat_hex_digits: "n < 16 ^ w \<Longrightarrow> hex_nat 0 (hex_digits w n) = Some n"
proof (induction w arbitrary: n)
  case (Suc w)
  have "n div 16 < 16 ^ w" using Suc.prems by (simp add: less_mult_imp_div_less mult.commute)
  from hex_nat_append[OF Suc.IH[OF this]] show ?case
    by (simp add: hex_digits_Suc hex_value_hex_char)
qed (simp add: hex_digits_def)

lemma replace_all_absent: "c \<notin> set s \<Longrightarrow> replace_all fuel (c # old) s = s"
  by (induction fuel "c # old" s rule: replace_all.induct) auto

lemma strip_chars_absent:
  assumes "\<forall>c \<in> set s. c \<notin> set cs"
  shows "strip_chars cs s = s"
proof -
  have id: "dropWhile (\<lambda>c. c \<in> set cs) t = t" if "set t \<subseteq> set s" for t
    using that assms by (cases t) auto
  show ?thesis by (simp add: strip_chars_def id)
qed

lemma uuid_parse_uuid_str:
  assumes "n < 2 ^ 128"
  shows "uuid_parse (uuid_str n) = Some n"
proof -
  define h where "h = hex_digits 32 n"
  define groups where "groups = [take 8 h, take 4 (drop 8 h), take 4 (drop 12 h), take 4 (drop 16 h), drop 20 h]"
  have len: "length h = 32" by (simp add: h_def)
  have h: "concat groups = h"
  proof -
    have "take 4 (drop 16 h) @ drop 20 h = drop 16 h"
      using append_take_drop_id[of 4 "drop 16 h"] by simp
    moreover have "take 4 (drop 12 h) @ drop 16 h = drop 12 h"
      using append_take_drop_id[of 4 "drop 12 h"] by simp
    moreover have "take 4 (drop 8 h) @ drop 12 h = drop 8 h"
      using append_take_drop_id[of 4 "drop 8 h"] by simp
    ultimately show ?thesis by (simp add: groups_def)
  qed
  have str: "uuid_str n = take 8 h @ ''-'' @ take 4 (drop 8 h) @ ''-'' @ take 4 (drop 12 h) @ ''-''
      @ take 4 (drop 16 h) @ ''-'' @ drop 20 h"
    by (simp add: uuid_str_def h_def Let_def)
  have in_h: "c \<in> set g \<Longrightarrow> g \<in> set groups \<Longrightarrow> c \<in> set h" for c g
    using h by (metis UN_I set_concat)
  have plain: "c \<in> set h \<Longrightarrow> c \<notin> {CHR ''-'', CHR ''{'', CHR ''}'', CHR ''u'', CHR ''.''}" for c
    using hex_digits_plain by (simp add: h_def)
  have chars: "c \<in> set (uuid_str n) \<Longrightarrow> c = CHR ''-'' \<or> c \<in> set h" for c
    unfolding str by (auto dest: in_set_takeD in_set_dropD)
  have "CHR ''u'' \<notin> set (uuid_str n)" using chars plain by fastforce
  then have "replace_all f ''uuid:'' (replace_all f ''urn:'' (uuid_str n)) = uuid_str n" for f
    by (simp add: replace_all_absent)
  moreover have "strip_chars ''{}'' (uuid_str n) = uuid_str n"
    by (rule strip_chars_absent) (use chars plain in fastforce)
  moreover have "filter (\<lambda>c. c \<noteq> CHR ''-'') g = g" if "g \<in> set groups" for g
    using in_h[OF _ that] plain by (fastforce simp: filter_id_conv)
  then have "filter (\<lambda>c. c \<noteq> CHR ''-'') (uuid_str n) = h"
    using h unfolding str by (simp add: groups_def)
  moreover have "hex_nat 0 h = Some n"
    unfolding h_def using assms by (intro hex_nat_hex_digits) simp
  ultimately show ?thesis by (simp add: uuid_parse_def Let_def len)
qed

lemma uuid_str_inj: "m < 2 ^ 128 \<Longrightarrow> n < 2 ^ 128 \<Longrightarrow> uuid_str m = uuid_str n \<longleftrightarrow> m = n"
  by (metis option.inject uuid_parse_uuid_str)

end
