(* ===== verification/Task_Queue.thy ===== *)
theory Task_Queue
  imports Py_Text
begin

text \<open>
  The table behind \<open>apps/shared/queue.py\<close>: the rows of \<open>task_queue\<close>, the statements that write it
  (enqueue, plant, purge, claim, complete, retry, park) and the reads the console shows.  The
  table's partial unique index (one pending row per recurring topic) is part of every insert.  The
  worker that runs the claimed tasks is in the theory Task\_Worker.
\<close>

section \<open>Rows\<close>

record task_row =
  tk_id :: uuid
  tk_topic :: string
  tk_payload :: payload
  tk_user_id :: "uuid option"
  tk_recurring :: "int option"
  tk_run_at :: instant
  tk_attempts :: int
  tk_max_attempts :: int
  tk_locked_at :: "instant option"
  tk_done_at :: "instant option"
  tk_failed_at :: "instant option"
  tk_last_error :: "string option"

text \<open>The database as the queue sees it: the rows, the clock \<open>now()\<close> reads, the next key.\<close>

record task_store =
  tq_rows :: "task_row list"
  tq_clock :: instant
  tq_next_id :: uuid

definition retry_backoff_seconds :: int where "retry_backoff_seconds = 60"
definition visibility_timeout_seconds :: int where "visibility_timeout_seconds = 300"
definition queue_purge_topic :: string where "queue_purge_topic = ''task_queue.purge''"
definition queue_purge_every_seconds :: int where "queue_purge_every_seconds = 86400"
definition queue_retention_days :: int where "queue_retention_days = 7"

definition task_pending :: "task_row \<Rightarrow> bool" where
  "task_pending r \<longleftrightarrow> tk_done_at r = None \<and> tk_failed_at r = None"

text \<open>The rows the index \<open>task_queue_recurring_singleton_idx\<close> covers.\<close>

definition recurring_pending :: "task_row \<Rightarrow> bool" where
  "recurring_pending r \<longleftrightarrow> tk_recurring r \<noteq> None \<and> task_pending r"

section \<open>Correlation\<close>

definition correlation_keys :: "string list" where
  "correlation_keys = [''request_id'', ''event_id'', ''user_id'', ''org_id'']"

text \<open>\<open>str(value)\<close> of a JSON scalar; \<open>str_of\<close> renders the containers, which no correlation key holds.\<close>

fun str_json :: "(json \<Rightarrow> string) \<Rightarrow> json \<Rightarrow> string" where
  "str_json str_of (JStr s) = s" |
  "str_json str_of (JNum i) = str_int i" |
  "str_json str_of (JBool b) = (if b then ''True'' else ''False'')" |
  "str_json str_of JNull = ''None''" |
  "str_json str_of v = str_of v"

definition delivery_context :: "(json \<Rightarrow> string) \<Rightarrow> payload \<Rightarrow> (string, string) dict" where
  "delivery_context str_of payload =
     List.map_filter (\<lambda>key. case map_of payload key of
         None \<Rightarrow> None
       | Some JNull \<Rightarrow> None
       | Some v \<Rightarrow> Some (key, str_json str_of v)) correlation_keys"

section \<open>Writes\<close>

text \<open>A row as an insert leaves it, the other columns at their defaults.\<close>

definition new_task ::
  "uuid \<Rightarrow> string \<Rightarrow> payload \<Rightarrow> uuid option \<Rightarrow> int option \<Rightarrow> int \<Rightarrow> instant \<Rightarrow> task_row"
where
  "new_task i topic payload user every max_att run_at =
     \<lparr>tk_id = i, tk_topic = topic, tk_payload = payload, tk_user_id = user, tk_recurring = every,
      tk_run_at = run_at, tk_attempts = 0, tk_max_attempts = max_att, tk_locked_at = None,
      tk_done_at = None, tk_failed_at = None, tk_last_error = None\<rparr>"

text \<open>An insert; \<open>None\<close> is the unique violation, which leaves the table alone.\<close>

definition insert_task ::
  "string \<Rightarrow> payload \<Rightarrow> uuid option \<Rightarrow> int option \<Rightarrow> int \<Rightarrow> instant \<Rightarrow> task_store \<Rightarrow> task_store option"
where
  "insert_task topic payload user every max_att run_at st =
     (let r = new_task (tq_next_id st) topic payload user every max_att run_at in
      if recurring_pending r \<and> (\<exists>q \<in> set (tq_rows st). recurring_pending q \<and> tk_topic q = topic)
      then None
      else Some (st\<lparr>tq_rows := tq_rows st @ [r], tq_next_id := Suc (tq_next_id st)\<rparr>))"

text \<open>\<open>enqueue\<close>: the row has no interval, so the index never refuses it.\<close>

definition enqueue :: "string \<Rightarrow> payload \<Rightarrow> uuid option \<Rightarrow> int \<Rightarrow> task_store \<Rightarrow> task_store" where
  "enqueue topic payload user max_att st =
     (case insert_task topic payload user None max_att (tq_clock st) st of
        Some st' \<Rightarrow> st' | None \<Rightarrow> st)"

text \<open>\<open>ensure_scheduled\<close>: the column defaults give the rest, a conflict does nothing.\<close>

definition ensure_scheduled :: "string \<Rightarrow> int \<Rightarrow> task_store \<Rightarrow> task_store" where
  "ensure_scheduled topic every st =
     (case insert_task topic [] None (Some every) 5 (tq_clock st) st of
        Some st' \<Rightarrow> st' | None \<Rightarrow> st)"

definition purge_finished_tasks :: "int \<Rightarrow> task_store \<Rightarrow> task_store \<times> nat" where
  "purge_finished_tasks retention_days st =
     (let old = (\<lambda>r. case tk_done_at r of None \<Rightarrow> False
                     | Some t \<Rightarrow> t < tq_clock st - days retention_days) in
      (st\<lparr>tq_rows := delete_where old (tq_rows st)\<rparr>, count_where old (tq_rows st)))"

section \<open>The claim\<close>

definition claimable :: "instant \<Rightarrow> task_row \<Rightarrow> bool" where
  "claimable now r \<longleftrightarrow> task_pending r \<and> tk_run_at r \<le> now
     \<and> (case tk_locked_at r of None \<Rightarrow> True
        | Some t \<Rightarrow> t < now - seconds visibility_timeout_seconds)"

text \<open>The keys of the sub-select: the ready rows by due time, at most a batch of them.\<close>

definition claim_ids :: "nat \<Rightarrow> task_store \<Rightarrow> uuid list" where
  "claim_ids batch st =
     map tk_id (take batch (sort_key tk_run_at (filter (claimable (tq_clock st)) (tq_rows st))))"

definition lease :: "instant \<Rightarrow> task_row \<Rightarrow> task_row" where
  "lease now r = r\<lparr>tk_locked_at := Some now, tk_attempts := tk_attempts r + 1\<rparr>"

text \<open>The update and its \<open>RETURNING\<close> rows, in table order.\<close>

definition claim :: "nat \<Rightarrow> task_store \<Rightarrow> task_store \<times> task_row list" where
  "claim batch st =
     (let ids = set (claim_ids batch st);
          rows' = update_where (\<lambda>r. tk_id r \<in> ids) (lease (tq_clock st)) (tq_rows st) in
      (st\<lparr>tq_rows := rows'\<rparr>, filter (\<lambda>r. tk_id r \<in> ids) rows'))"

section \<open>The outcomes\<close>

definition set_row :: "uuid \<Rightarrow> (task_row \<Rightarrow> task_row) \<Rightarrow> task_store \<Rightarrow> task_store" where
  "set_row i f st = st\<lparr>tq_rows := update_where (\<lambda>r. tk_id r = i) f (tq_rows st)\<rparr>"

text \<open>
  \<open>_complete\<close>: the mark and, for a recurring task, the next row, in one transaction: a refused insert
  (\<open>None\<close>) undoes the mark as well.
\<close>

definition complete_task :: "task_row \<Rightarrow> task_store \<Rightarrow> task_store option" where
  "complete_task task st =
     (let now = tq_clock st;
          marked = set_row (tk_id task) (\<lambda>r. r\<lparr>tk_done_at := Some now, tk_locked_at := None\<rparr>) st in
      case tk_recurring task of
        None \<Rightarrow> Some marked
      | Some every \<Rightarrow>
          if every = 0 then Some marked
          else insert_task (tk_topic task) (tk_payload task) (tk_user_id task) (Some every)
                 (tk_max_attempts task) (now + seconds every) marked)"

definition retry_task :: "task_row \<Rightarrow> string \<Rightarrow> task_store \<Rightarrow> task_store" where
  "retry_task task error st =
     set_row (tk_id task) (\<lambda>r. r\<lparr>tk_locked_at := None, tk_last_error := Some error,
        tk_run_at := tq_clock st + seconds retry_backoff_seconds\<rparr>) st"

definition fail_task :: "task_row \<Rightarrow> string \<Rightarrow> task_store \<Rightarrow> task_store" where
  "fail_task task error st =
     set_row (tk_id task) (\<lambda>r. r\<lparr>tk_failed_at := Some (tq_clock st), tk_locked_at := None,
        tk_last_error := Some error\<rparr>) st"

section \<open>Reads\<close>

text \<open>The derived state of a row.\<close>

definition task_state :: "task_row \<Rightarrow> string" where
  "task_state r =
     (if tk_done_at r \<noteq> None then ''done''
      else if tk_failed_at r \<noteq> None then ''parked''
      else if tk_attempts r > 0 then ''retrying''
      else ''pending'')"

definition task_states :: "string list" where
  "task_states = [''parked'', ''retrying'', ''pending'']"

definition task_moment :: "task_row \<Rightarrow> instant" where
  "task_moment r = (case tk_done_at r of Some t \<Rightarrow> t
     | None \<Rightarrow> (case tk_failed_at r of Some t \<Rightarrow> t | None \<Rightarrow> tk_run_at r))"

text \<open>\<open>ORDER BY failed_at DESC NULLS LAST, run_at DESC\<close>.\<close>

definition unfinished_order :: "task_row \<Rightarrow> (nat \<times> int) \<times> int" where
  "unfinished_order r =
     ((case tk_failed_at r of None \<Rightarrow> (1, 0) | Some t \<Rightarrow> (0, - t)), - tk_run_at r)"

definition list_unfinished_tasks :: "string \<Rightarrow> string \<Rightarrow> nat \<Rightarrow> task_store \<Rightarrow> task_row list" where
  "list_unfinished_tasks state topic limit st =
     take limit (sort_key unfinished_order
       (filter (\<lambda>r. tk_done_at r = None
                  \<and> (state = [] \<or> task_state r = state)
                  \<and> (topic = [] \<or> ilike (tk_topic r) (like_fragment topic))) (tq_rows st)))"

definition unfinished_task_topics :: "task_store \<Rightarrow> string list" where
  "unfinished_task_topics st =
     sort (remdups (map tk_topic (filter (\<lambda>r. tk_done_at r = None) (tq_rows st))))"

definition count_unfinished_tasks :: "task_store \<Rightarrow> (string, nat) dict" where
  "count_unfinished_tasks st =
     (let unfinished = filter (\<lambda>r. tk_done_at r = None) (tq_rows st);
          counted = map (\<lambda>s. (s, count_where (\<lambda>r. task_state r = s) unfinished))
                      (remdups (map task_state unfinished)) in
      map (\<lambda>s. (s, dict_get counted s 0)) task_states)"

record task_bucket =
  tb_topic :: string
  tb_slot :: instant
  tb_state :: string
  tb_runs :: nat
  tb_recurring :: "int option"

definition bucket_slot :: "int \<Rightarrow> instant \<Rightarrow> instant" where
  "bucket_slot bucket t = t div seconds bucket * seconds bucket"

definition max_option :: "int option list \<Rightarrow> int option" where
  "max_option xs = (let ys = List.map_filter id xs in if ys = [] then None else Some (Max (set ys)))"

text \<open>\<open>bucketed_runs\<close>: the rows of the window, grouped by topic, slot and state.\<close>

definition in_family :: "instant \<Rightarrow> instant \<Rightarrow> bool \<Rightarrow> task_row \<Rightarrow> bool" where
  "in_family since until recurring r \<longleftrightarrow>
     (tk_recurring r \<noteq> None) = recurring \<and> since \<le> task_moment r \<and> task_moment r \<le> until"

definition bucket_key :: "int \<Rightarrow> task_row \<Rightarrow> string \<times> instant \<times> string" where
  "bucket_key bucket r = (tk_topic r, bucket_slot bucket (task_moment r), task_state r)"

definition bucketed_runs ::
  "instant \<Rightarrow> instant \<Rightarrow> int \<Rightarrow> bool \<Rightarrow> task_store \<Rightarrow> task_bucket list" where
  "bucketed_runs since until bucket recurring st =
     (let rows = filter (in_family since until recurring) (tq_rows st);
          keys = sort_key (\<lambda>(topic, slot, _). (topic, slot)) (remdups (map (bucket_key bucket) rows)) in
      map (\<lambda>(topic, slot, state).
             let group = filter (\<lambda>r. bucket_key bucket r = (topic, slot, state)) rows in
             \<lparr>tb_topic = topic, tb_slot = slot, tb_state = state, tb_runs = length group,
              tb_recurring = max_option (map tk_recurring group)\<rparr>) keys)"

text \<open>A recurring topic's interval and next run.\<close>

definition live_recurring_topics :: "task_store \<Rightarrow> (string, int \<times> instant) dict" where
  "live_recurring_topics st =
     (let rows = filter recurring_pending (tq_rows st) in
      map (\<lambda>topic. let group = filter (\<lambda>r. tk_topic r = topic) rows in
             (topic, (Max (set (List.map_filter tk_recurring group)), Min (set (map tk_run_at group)))))
        (sort (remdups (map tk_topic rows))))"

section \<open>The invariant of the table\<close>

text \<open>
  Keys are distinct and below the next one; no recurring topic has two pending rows.
\<close>

definition queue_ok :: "task_store \<Rightarrow> bool" where
  "queue_ok st \<longleftrightarrow> distinct (map tk_id (tq_rows st))
     \<and> (\<forall>r \<in> set (tq_rows st). tk_id r < tq_next_id st)
     \<and> distinct (map tk_topic (filter recurring_pending (tq_rows st)))"

lemma queue_okD:
  assumes "queue_ok st"
  shows "distinct (map tk_id (tq_rows st))"
    and "r \<in> set (tq_rows st) \<Longrightarrow> tk_id r < tq_next_id st"
    and "distinct (map tk_topic (filter recurring_pending (tq_rows st)))"
  using assms by (simp_all add: queue_ok_def)

lemma new_task_simps [simp]:
  "tk_id (new_task i topic p u every m t) = i" "tk_topic (new_task i topic p u every m t) = topic"
  "tk_payload (new_task i topic p u every m t) = p" "tk_user_id (new_task i topic p u every m t) = u"
  "tk_recurring (new_task i topic p u every m t) = every"
  "tk_run_at (new_task i topic p u every m t) = t" "tk_attempts (new_task i topic p u every m t) = 0"
  "tk_max_attempts (new_task i topic p u every m t) = m"
  "tk_locked_at (new_task i topic p u every m t) = None"
  "tk_done_at (new_task i topic p u every m t) = None"
  "tk_failed_at (new_task i topic p u every m t) = None"
  "recurring_pending (new_task i topic p u every m t) = (every \<noteq> None)"
  "task_pending (new_task i topic p u every m t)"
  by (simp_all add: new_task_def recurring_pending_def task_pending_def)

lemma insert_task_SomeD:
  assumes "insert_task topic p u every m t st = Some st'"
  shows "st' = st\<lparr>tq_rows := tq_rows st @ [new_task (tq_next_id st) topic p u every m t],
      tq_next_id := Suc (tq_next_id st)\<rparr>
    \<and> (every \<noteq> None \<longrightarrow> topic \<notin> set (map tk_topic (filter recurring_pending (tq_rows st))))"
  using assms by (auto simp: insert_task_def Let_def split: if_splits)

lemma insert_task_None:
  "insert_task topic p u every m t st = None \<longleftrightarrow>
     every \<noteq> None \<and> (\<exists>q \<in> set (tq_rows st). recurring_pending q \<and> tk_topic q = topic)"
  by (simp add: insert_task_def Let_def)

lemma queue_ok_insert [invs]:
  assumes "queue_ok st" and "insert_task topic p u every m t st = Some st'"
  shows "queue_ok st'"
proof -
  let ?r = "new_task (tq_next_id st) topic p u every m t"
  have "tk_id ?r \<notin> set (map tk_id (tq_rows st))"
    using queue_okD(2)[OF assms(1)] by fastforce
  moreover have "tk_id q < Suc (tq_next_id st)" if "q \<in> set (tq_rows st)" for q
    using queue_okD(2)[OF assms(1) that] by simp
  ultimately show ?thesis
    using queue_okD(1,3)[OF assms(1)] insert_task_SomeD[OF assms(2)] by (auto simp: queue_ok_def)
qed

lemma queue_ok_enqueue [invs]: "queue_ok st \<Longrightarrow> queue_ok (enqueue topic p u m st)"
  by (auto simp: enqueue_def split: option.splits intro: queue_ok_insert)

lemma queue_ok_ensure_scheduled [invs]: "queue_ok st \<Longrightarrow> queue_ok (ensure_scheduled topic every st)"
  by (auto simp: ensure_scheduled_def split: option.splits intro: queue_ok_insert)

lemma distinct_map_filter_delete:
  "distinct (map f (filter P xs)) \<Longrightarrow> distinct (map f (filter P (delete_where Q xs)))"
  by (induction xs) (auto simp: delete_where_def)

lemma queue_ok_purge [invs]: "queue_ok st \<Longrightarrow> queue_ok (fst (purge_finished_tasks d st))"
  by (auto simp: queue_ok_def purge_finished_tasks_def Let_def in_delete_where
      intro: distinct_map_delete_where distinct_map_filter_delete)

text \<open>An update that keeps keys and topics and only ever takes rows out of the index.\<close>

lemma queue_ok_update:
  assumes "queue_ok st" and "\<And>r. tk_id (f r) = tk_id r" and "\<And>r. tk_topic (f r) = tk_topic r"
    and "\<And>r. recurring_pending (f r) \<Longrightarrow> recurring_pending r"
  shows "queue_ok (st\<lparr>tq_rows := update_where P f (tq_rows st)\<rparr>)"
  using assms(1-3) distinct_map_filter_update[of tk_topic recurring_pending "tq_rows st" f P,
      OF queue_okD(3)[OF assms(1)] assms(3,4)]
  by (auto simp: queue_ok_def map_update_where_key in_update_where)

lemma lease_simps [simp]:
  "tk_id (lease t r) = tk_id r" "tk_topic (lease t r) = tk_topic r"
  "tk_done_at (lease t r) = tk_done_at r" "tk_failed_at (lease t r) = tk_failed_at r"
  "tk_recurring (lease t r) = tk_recurring r" "tk_run_at (lease t r) = tk_run_at r"
  "tk_payload (lease t r) = tk_payload r" "tk_user_id (lease t r) = tk_user_id r"
  "tk_max_attempts (lease t r) = tk_max_attempts r" "tk_last_error (lease t r) = tk_last_error r"
  "tk_attempts (lease t r) = tk_attempts r + 1" "tk_locked_at (lease t r) = Some t"
  "task_pending (lease t r) = task_pending r" "recurring_pending (lease t r) = recurring_pending r"
  by (simp_all add: lease_def task_pending_def recurring_pending_def)

lemma queue_ok_claim [invs]: "queue_ok st \<Longrightarrow> queue_ok (fst (claim batch st))"
  by (auto simp: claim_def Let_def intro!: queue_ok_update)

lemma queue_ok_retry [invs]: "queue_ok st \<Longrightarrow> queue_ok (retry_task task e st)"
  by (auto simp: retry_task_def set_row_def recurring_pending_def task_pending_def
      intro!: queue_ok_update)

lemma queue_ok_fail [invs]: "queue_ok st \<Longrightarrow> queue_ok (fail_task task e st)"
  by (auto simp: fail_task_def set_row_def recurring_pending_def task_pending_def
      intro!: queue_ok_update)

lemma queue_ok_complete [invs]:
  assumes "queue_ok st" and "complete_task task st = Some st'"
  shows "queue_ok st'"
proof -
  have "queue_ok (set_row (tk_id task)
      (\<lambda>r. r\<lparr>tk_done_at := Some (tq_clock st), tk_locked_at := None\<rparr>) st)"
    using assms(1)
    by (auto simp: set_row_def recurring_pending_def task_pending_def intro!: queue_ok_update)
  then show ?thesis
    using assms(2) queue_ok_insert
    by (auto simp: complete_task_def Let_def split: option.splits if_splits)
qed

end
