(* ===== verification/Loop_Health.thy ===== *)
theory Loop_Health
  imports Py_Text
begin

text \<open>
  \<open>apps/shared/logs/loop.py\<close>: the verdict a background loop keeps on its own ticks.  A fault is
  named by the exception's type and raise site; its first failure in an outage is logged as an
  exception (and so opens an issue), every later one as a warning; the first good tick announces the
  recovery and forgets the outage.  The lemmas read the state back as a function of the history of
  ticks: the failures and the faults of the trailing run of failing ticks.
\<close>

section \<open>Exceptions\<close>

text \<open>
  An exception as the loops see it: its qualified type name, the frames of its traceback (outermost
  first; the walk along \<open>tb_next\<close> ends at the last) and its \<open>repr\<close>.
\<close>

record py_exc =
  exc_qualname :: string
  exc_frames :: "(string \<times> nat) list"
  exc_repr :: string

definition fault_fingerprint :: "py_exc \<Rightarrow> string" where
  "fault_fingerprint exc =
     (if exc_frames exc = [] then exc_qualname exc
      else (case last (exc_frames exc) of (file, line) \<Rightarrow>
        exc_qualname exc @ ''@'' @ file @ '':'' @ str_int (int line)))"

section \<open>The verdict\<close>

datatype loop_line =
    LoopWarning string py_exc nat
  | LoopException string py_exc "nat option"
  | LoopInfo string nat

record loop_health =
  lh_failed_event :: string
  lh_recovered_event :: string
  lh_failures :: nat
  lh_opened_faults :: "string list"

definition loop_health_init :: "string \<Rightarrow> loop_health" where
  "loop_health_init name =
     \<lparr>lh_failed_event = name @ ''_failed'', lh_recovered_event = name @ ''_recovered'',
      lh_failures = 0, lh_opened_faults = []\<rparr>"

text \<open>One tick's report; the lines it writes to the log come second.\<close>

definition tick_failed :: "py_exc \<Rightarrow> loop_health \<Rightarrow> loop_health \<times> loop_line list" where
  "tick_failed exc h =
     (let n = lh_failures h + 1; fault = fault_fingerprint exc; h' = h\<lparr>lh_failures := n\<rparr> in
      if fault \<in> set (lh_opened_faults h)
      then (h', [LoopWarning (lh_failed_event h) exc n])
      else (h'\<lparr>lh_opened_faults := fault # lh_opened_faults h\<rparr>,
            [LoopException (lh_failed_event h) exc (if n = 1 then None else Some n)]))"

definition tick_succeeded :: "loop_health \<Rightarrow> loop_health \<times> loop_line list" where
  "tick_succeeded h =
     (if lh_failures h \<noteq> 0
      then (h\<lparr>lh_failures := 0, lh_opened_faults := []\<rparr>,
            [LoopInfo (lh_recovered_event h) (lh_failures h)])
      else (h, []))"

text \<open>A tick's outcome is the exception it raised, or none.\<close>

definition report_tick :: "py_exc option \<Rightarrow> loop_health \<Rightarrow> loop_health \<times> loop_line list" where
  "report_tick out h = (case out of Some exc \<Rightarrow> tick_failed exc h | None \<Rightarrow> tick_succeeded h)"

fun report_ticks :: "py_exc option list \<Rightarrow> loop_health \<Rightarrow> loop_health \<times> loop_line list" where
  "report_ticks [] h = (h, [])" |
  "report_ticks (out # outs) h =
     (let (h1, l1) = report_tick out h; (h2, l2) = report_ticks outs h1 in (h2, l1 @ l2))"

section \<open>The verdict as a function of the history\<close>

text \<open>The failures since the last good tick.\<close>

definition outage :: "py_exc option list \<Rightarrow> py_exc list" where
  "outage outs = map the (rev (takeWhile (\<lambda>x. x \<noteq> None) (rev outs)))"

lemma outage_Nil [simp]: "outage [] = []"
  by (simp add: outage_def)

lemma outage_snoc [simp]:
  "outage (outs @ [Some e]) = outage outs @ [e]" "outage (outs @ [None]) = []"
  by (simp_all add: outage_def)

lemma report_ticks_append:
  "report_ticks (xs @ ys) h =
     (let (h1, l1) = report_ticks xs h; (h2, l2) = report_ticks ys h1 in (h2, l1 @ l2))"
  by (induction xs arbitrary: h) (auto simp: Let_def split: prod.splits)

lemma report_ticks_snoc:
  "fst (report_ticks (xs @ [x]) h) = fst (report_tick x (fst (report_ticks xs h)))"
  "snd (report_ticks (xs @ [x]) h) =
     snd (report_ticks xs h) @ snd (report_tick x (fst (report_ticks xs h)))"
  by (simp_all add: report_ticks_append Let_def split: prod.splits)

lemma report_tick_events [simp]:
  "lh_failed_event (fst (report_tick x h)) = lh_failed_event h"
  "lh_recovered_event (fst (report_tick x h)) = lh_recovered_event h"
  by (auto simp: report_tick_def tick_failed_def tick_succeeded_def Let_def split: option.splits)

lemma report_ticks_state:
  assumes "fst (report_ticks outs (loop_health_init name)) = h"
  shows "lh_failures h = length (outage outs)
       \<and> set (lh_opened_faults h) = fault_fingerprint ` set (outage outs)
       \<and> lh_failed_event h = name @ ''_failed''
       \<and> lh_recovered_event h = name @ ''_recovered''"
  using assms
proof (induction outs arbitrary: h rule: rev_induct)
  case Nil
  then show ?case by (auto simp: loop_health_init_def)
next
  case (snoc x outs)
  define g where "g = fst (report_ticks outs (loop_health_init name))"
  have g: "lh_failures g = length (outage outs)"
    "set (lh_opened_faults g) = fault_fingerprint ` set (outage outs)"
    "lh_failed_event g = name @ ''_failed''" "lh_recovered_event g = name @ ''_recovered''"
    using snoc.IH[OF refl] by (simp_all add: g_def)
  have "h = fst (report_tick x g)"
    using snoc.prems by (simp add: report_ticks_snoc g_def)
  then show ?case
    using g by (cases x)
      (auto simp: report_tick_def tick_failed_def tick_succeeded_def Let_def)
qed

text \<open>
  The verdict of a loop after any history of ticks.  The next failing tick logs an exception
  (and so opens an issue) exactly when no earlier failure of the same outage had the same type and
  raise site, and a warning otherwise; the next good tick is silent unless it ends an outage, and
  then it announces how many consecutive ticks had failed.
\<close>

theorem loop_health_verdict:
  "snd (report_tick (Some exc) (fst (report_ticks outs (loop_health_init name))))
     = (let n = length (outage outs) + 1 in
        if fault_fingerprint exc \<in> fault_fingerprint ` set (outage outs)
        then [LoopWarning (name @ ''_failed'') exc n]
        else [LoopException (name @ ''_failed'') exc (if n = 1 then None else Some n)])
   \<and> snd (report_tick None (fst (report_ticks outs (loop_health_init name))))
     = (if outage outs = [] then []
        else [LoopInfo (name @ ''_recovered'') (length (outage outs))])"
  using report_ticks_state[OF refl, of outs name]
  by (simp add: report_tick_def tick_failed_def tick_succeeded_def Let_def)

end
