(* ===== verification/Task_Worker.thy ===== *)
theory Task_Worker
  imports Task_Queue Loop_Health
begin

text \<open>
  The worker of \<open>apps/shared/queue.py\<close>: one tick claims a batch in a transaction of its own and runs
  each task; a guarded tick drains the queue and reports to the loop's verdict.  A handler is a
  parameter: it runs on a session (admin, or the acting user's) over the whole store and either
  raises, which rolls its writes back, or returns the store it committed.  What the worker needs of
  the handlers is the locale \<open>task_handlers\<close>, interpreted on the handlers the program registers.
\<close>

section \<open>Handlers\<close>

datatype task_session = AdminSession | UserSession uuid

text \<open>A raise carries the instant at which it happened: the writes are undone, the time is spent.\<close>

type_synonym task_handler =
  "task_session \<Rightarrow> payload \<Rightarrow> task_store \<Rightarrow> (py_exc \<times> instant) + task_store"

type_synonym handler_table = "(string, task_handler) dict"

definition register_task_handler :: "string \<Rightarrow> task_handler \<Rightarrow> handler_table \<Rightarrow> handler_table" where
  "register_task_handler topic handler table = AList.update topic handler table"

definition reset_task_handlers :: "handler_table \<Rightarrow> handler_table" where
  "reset_task_handlers table = []"

text \<open>\<open>_run_handler\<close>: a task with a user runs under that user's claims.\<close>

definition run_handler ::
  "task_handler \<Rightarrow> payload \<Rightarrow> uuid option \<Rightarrow> task_store \<Rightarrow> (py_exc \<times> instant) + task_store" where
  "run_handler handler payload user st =
     (case user of None \<Rightarrow> handler AdminSession payload st
      | Some u \<Rightarrow> handler (UserSession u) payload st)"

section \<open>One task\<close>

datatype queue_line =
    UnhandledTopicLine string uuid
  | TaskFailedLine py_exc string uuid
  | TaskRetryingLine py_exc string uuid int

text \<open>What the driver raises when the unique index refuses the next recurring row.\<close>

definition integrity_error :: py_exc where
  "integrity_error = \<lparr>exc_qualname = ''IntegrityError'', exc_frames = [],
     exc_repr = ''IntegrityError()''\<rparr>"

text \<open>The lines logged, the store left, and the exception that leaves \<open>_process\<close>, if any.\<close>

definition process_task ::
  "handler_table \<Rightarrow> task_row \<Rightarrow> task_store \<Rightarrow> queue_line list \<times> task_store \<times> py_exc option"
where
  "process_task handlers task st =
     (case map_of handlers (tk_topic task) of
        None \<Rightarrow>
          ([UnhandledTopicLine (tk_topic task) (tk_id task)],
           fail_task task ''no handler registered'' st, None)
      | Some handler \<Rightarrow>
          (case run_handler handler (tk_payload task) (tk_user_id task) st of
             Inl (exc, now) \<Rightarrow>
               let st' = st\<lparr>tq_clock := now\<rparr> in
               if tk_attempts task \<ge> tk_max_attempts task
               then ([TaskFailedLine exc (tk_topic task) (tk_id task)],
                     fail_task task (exc_repr exc) st', None)
               else ([TaskRetryingLine exc (tk_topic task) (tk_id task) (tk_attempts task)],
                     retry_task task (exc_repr exc) st', None)
           | Inr st' \<Rightarrow>
               (case complete_task task st' of
                  Some st'' \<Rightarrow> ([], st'', None)
                | None \<Rightarrow> ([], st', Some integrity_error))))"

fun process_tasks ::
  "handler_table \<Rightarrow> task_row list \<Rightarrow> task_store \<Rightarrow> queue_line list \<times> task_store \<times> py_exc option"
where
  "process_tasks handlers [] st = ([], st, None)" |
  "process_tasks handlers (task # tasks) st =
     (case process_task handlers task st of
        (l1, st1, Some e) \<Rightarrow> (l1, st1, Some e)
      | (l1, st1, None) \<Rightarrow>
          (case process_tasks handlers tasks st1 of (l2, st2, e) \<Rightarrow> (l1 @ l2, st2, e)))"

section \<open>Ticks\<close>

text \<open>\<open>tick\<close>: \<open>Inr n\<close> is the batch size it returns, \<open>Inl\<close> the exception that escaped it.\<close>

definition worker_tick ::
  "handler_table \<Rightarrow> nat \<Rightarrow> task_store \<Rightarrow> queue_line list \<times> task_store \<times> (py_exc + nat)" where
  "worker_tick handlers batch st =
     (case claim batch st of (st1, rows) \<Rightarrow>
        (case process_tasks handlers rows st1 of
           (lines, st2, Some e) \<Rightarrow> (lines, st2, Inl e)
         | (lines, st2, None) \<Rightarrow> (lines, st2, Inr (length rows))))"

text \<open>
  \<open>while await self.tick(): pass\<close>, at most \<open>fuel\<close> times; the outcome is the exception that ended the
  loop, or none when a tick found nothing.  \<open>None\<close> is running out of fuel.
\<close>

fun drain_queue ::
  "nat \<Rightarrow> handler_table \<Rightarrow> nat \<Rightarrow> task_store \<Rightarrow> (queue_line list \<times> task_store \<times> py_exc option) option"
where
  "drain_queue 0 handlers batch st = None" |
  "drain_queue (Suc fuel) handlers batch st =
     (case worker_tick handlers batch st of
        (lines, st', Inl e) \<Rightarrow> Some (lines, st', Some e)
      | (lines, st', Inr 0) \<Rightarrow> Some (lines, st', None)
      | (lines, st', Inr (Suc n)) \<Rightarrow>
          (case drain_queue fuel handlers batch st' of
             None \<Rightarrow> None
           | Some (lines', st'', e) \<Rightarrow> Some (lines @ lines', st'', e)))"

definition guarded_tick ::
  "nat \<Rightarrow> handler_table \<Rightarrow> nat \<Rightarrow> task_store \<times> loop_health \<Rightarrow> (task_store \<times> loop_health) option" where
  "guarded_tick fuel handlers batch w =
     (case drain_queue fuel handlers batch (fst w) of
        None \<Rightarrow> None
      | Some (_, st', out) \<Rightarrow> Some (st', fst (report_tick out (snd w))))"

section \<open>The claim\<close>

lemma claim_ids_iff:
  "i \<in> set (claim_ids batch st) \<Longrightarrow>
     \<exists>r \<in> set (tq_rows st). tk_id r = i \<and> claimable (tq_clock st) r"
  unfolding claim_ids_def by (auto dest!: in_set_takeD)

lemma distinct_claim_ids: "queue_ok st \<Longrightarrow> distinct (claim_ids batch st)"
proof -
  assume "queue_ok st"
  then have "distinct (map tk_id (filter (claimable (tq_clock st)) (tq_rows st)))"
    by (simp add: queue_ok_def distinct_map_filter)
  then have "distinct (map tk_id (sort_key tk_run_at (filter (claimable (tq_clock st)) (tq_rows st))))"
    by (simp add: distinct_map_sort_key)
  then show ?thesis unfolding claim_ids_def by (simp add: take_map [symmetric])
qed

lemma length_claim_ids:
  "length (claim_ids batch st) = min batch (count_where (claimable (tq_clock st)) (tq_rows st))"
  by (simp add: claim_ids_def count_where_def min.commute)

lemma claimed_rows:
  "snd (claim batch st) = map (lease (tq_clock st)) (filter (\<lambda>r. tk_id r \<in> set (claim_ids batch st)) (tq_rows st))"
proof -
  have "filter (\<lambda>r. tk_id r \<in> ids) (update_where (\<lambda>r. tk_id r \<in> ids) (lease t) rows)
      = map (lease t) (filter (\<lambda>r. tk_id r \<in> ids) rows)" for ids t and rows :: "task_row list"
    by (induction rows) auto
  then show ?thesis by (simp add: claim_def Let_def)
qed

lemma claimed_ids: "queue_ok st \<Longrightarrow> set (map tk_id (snd (claim batch st))) = set (claim_ids batch st)"
  using claim_ids_iff by (fastforce simp: claimed_rows)

lemma distinct_claimed: "queue_ok st \<Longrightarrow> distinct (map tk_id (snd (claim batch st)))"
  by (simp add: claimed_rows comp_def queue_ok_def distinct_map_filter)

lemma length_claimed:
  assumes "queue_ok st"
  shows "length (snd (claim batch st)) = min batch (count_where (claimable (tq_clock st)) (tq_rows st))"
proof -
  have "length (snd (claim batch st)) = card (set (map tk_id (snd (claim batch st))))"
    using distinct_claimed[OF assms, of batch] distinct_card[of "map tk_id (snd (claim batch st))"]
    by simp
  also have "\<dots> = length (claim_ids batch st)"
    using claimed_ids[OF assms] distinct_claim_ids[OF assms] by (metis distinct_card)
  finally show ?thesis by (simp add: length_claim_ids)
qed

lemma row_unique:
  "queue_ok st \<Longrightarrow> r \<in> set (tq_rows st) \<Longrightarrow> q \<in> set (tq_rows st) \<Longrightarrow> tk_id r = tk_id q \<Longrightarrow> r = q"
  by (auto simp: queue_ok_def distinct_map inj_on_def)

lemma claim_earliest:
  assumes "queue_ok st" and "r \<in> set (tq_rows st)" and "tk_id r \<in> set (claim_ids batch st)"
    and "q \<in> set (tq_rows st)" "claimable (tq_clock st) q" "tk_id q \<notin> set (claim_ids batch st)"
  shows "tk_run_at r \<le> tk_run_at q"
proof -
  let ?ready = "filter (claimable (tq_clock st)) (tq_rows st)"
  let ?taken = "take batch (sort_key tk_run_at ?ready)"
  obtain r' where r': "r' \<in> set ?taken" "tk_id r' = tk_id r"
    using assms(3) by (auto simp: claim_ids_def)
  then have "r' \<in> set (tq_rows st)" by (auto dest: in_set_takeD)
  then have "r' = r" using r' assms(1,2) row_unique by blast
  moreover have "q \<notin> set ?taken" using assms(6) by (auto simp: claim_ids_def)
  ultimately show ?thesis
    using r'(1) assms(4,5) by (intro take_sort_key_least[of r batch tk_run_at ?ready]) auto
qed

lemma claim_rows:
  "tq_rows (fst (claim batch st))
     = update_where (\<lambda>r. tk_id r \<in> set (claim_ids batch st)) (lease (tq_clock st)) (tq_rows st)"
  "tq_clock (fst (claim batch st)) = tq_clock st"
  "tq_next_id (fst (claim batch st)) = tq_next_id st"
  by (simp_all add: claim_def Let_def)

text \<open>Within the visibility timeout the leased rows are not claimable again.\<close>

lemma claim_exclusive:
  assumes "queue_ok st" and "now \<le> tq_clock st + seconds visibility_timeout_seconds"
  shows "set (claim_ids batch st)
       \<inter> set (claim_ids batch' (fst (claim batch st)\<lparr>tq_clock := now\<rparr>)) = {}"
proof (rule ccontr)
  assume "\<not> ?thesis"
  then obtain i where i: "i \<in> set (claim_ids batch st)"
    and "i \<in> set (claim_ids batch' (fst (claim batch st)\<lparr>tq_clock := now\<rparr>))" by auto
  from claim_ids_iff[OF this(2)] obtain r
    where r: "r \<in> set (tq_rows (fst (claim batch st)))" "tk_id r = i" "claimable now r" by auto
  then obtain q where "q \<in> set (tq_rows st)"
    "r = (if tk_id q \<in> set (claim_ids batch st) then lease (tq_clock st) q else q)"
    by (auto simp: claim_rows in_update_where)
  then have "tk_locked_at r = Some (tq_clock st)"
    using r(2) i by (auto split: if_splits)
  then show False using r(3) assms(2) by (simp add: claimable_def)
qed

lemma claimed_leased:
  assumes "queue_ok st" and "g \<in> set (snd (claim batch st))"
  shows "\<exists>r \<in> set (tq_rows st). claimable (tq_clock st) r \<and> g = lease (tq_clock st) r
      \<and> tk_id r \<in> set (claim_ids batch st)"
proof -
  obtain r where r: "r \<in> set (tq_rows st)" "tk_id r \<in> set (claim_ids batch st)"
    "g = lease (tq_clock st) r"
    using assms(2) by (auto simp: claimed_rows)
  moreover have "claimable (tq_clock st) r"
    using claim_ids_iff[OF r(2)] r(1) row_unique[OF assms(1)] by metis
  ultimately show ?thesis by blast
qed

text \<open>
  C13.  A claim takes the due, unlocked, unfinished rows, earliest first and at most a batch of them:
  as many as there are, each leased at the claim's instant with one attempt more, none of them
  later than a row left behind, every other row untouched.  Until the visibility timeout has passed
  no other claim gets one of them.
\<close>

theorem claim_correct:
  assumes "queue_ok st" and "claim batch st = (st', got)"
  shows "length got = min batch (count_where (claimable (tq_clock st)) (tq_rows st))
    \<and> distinct (map tk_id got)
    \<and> (\<forall>g \<in> set got. \<exists>r \<in> set (tq_rows st). claimable (tq_clock st) r \<and> g = lease (tq_clock st) r)
    \<and> (\<forall>g \<in> set got. \<forall>q \<in> set (tq_rows st). claimable (tq_clock st) q
          \<longrightarrow> tk_id q \<notin> tk_id ` set got \<longrightarrow> tk_run_at g \<le> tk_run_at q)
    \<and> tq_rows st' = update_where (\<lambda>r. tk_id r \<in> tk_id ` set got) (lease (tq_clock st)) (tq_rows st)
    \<and> (\<forall>now. now \<le> tq_clock st + seconds visibility_timeout_seconds
          \<longrightarrow> tk_id ` set got \<inter> set (claim_ids batch' (st'\<lparr>tq_clock := now\<rparr>)) = {})"
proof -
  have st': "st' = fst (claim batch st)" and got: "got = snd (claim batch st)"
    using assms(2) by simp_all
  have ids: "tk_id ` set got = set (claim_ids batch st)"
    using claimed_ids[OF assms(1), of batch] by (simp add: got)
  show ?thesis
  proof (intro conjI ballI allI impI)
    fix g q
    assume "g \<in> set got" "q \<in> set (tq_rows st)" "claimable (tq_clock st) q" "tk_id q \<notin> tk_id ` set got"
    then show "tk_run_at g \<le> tk_run_at q"
      using claimed_leased[OF assms(1), of g batch] claim_earliest[OF assms(1)] ids got by auto
  next
    fix g assume "g \<in> set got"
    then show "\<exists>r \<in> set (tq_rows st). claimable (tq_clock st) r \<and> g = lease (tq_clock st) r"
      using claimed_leased[OF assms(1)] got by blast
  next
    fix now assume "now \<le> tq_clock st + seconds visibility_timeout_seconds"
    then show "tk_id ` set got \<inter> set (claim_ids batch' (st'\<lparr>tq_clock := now\<rparr>)) = {}"
      using claim_exclusive[OF assms(1)] by (simp add: ids st')
  qed (use length_claimed[OF assms(1)] distinct_claimed[OF assms(1)] ids in
        \<open>simp_all add: st' got claim_rows\<close>)
qed

section \<open>What the worker asks of its handlers\<close>

text \<open>
  A handler commits a table that still satisfies the invariant, and it neither deletes nor finishes
  an unfinished task: only the worker does that.
\<close>

definition unfinished :: "uuid \<Rightarrow> task_store \<Rightarrow> bool" where
  "unfinished i st \<longleftrightarrow> (\<exists>q \<in> set (tq_rows st). tk_id q = i \<and> tk_done_at q = None)"

locale task_handlers =
  fixes handlers :: handler_table
  assumes handler_ok: "map_of handlers topic = Some h \<Longrightarrow> queue_ok st \<Longrightarrow> h who p st = Inr st'
      \<Longrightarrow> queue_ok st'"
    and handler_keeps: "map_of handlers topic = Some h \<Longrightarrow> h who p st = Inr st'
      \<Longrightarrow> unfinished i st \<Longrightarrow> unfinished i st'"
begin

lemma process_task_ok [invs]:
  assumes "queue_ok st" and "process_task handlers task st = (l, st', e)"
  shows "queue_ok st'"
proof (cases "map_of handlers (tk_topic task)")
  case None
  then show ?thesis using assms by (auto simp: process_task_def intro: queue_ok_fail)
next
  case (Some h)
  have clock: "queue_ok (st\<lparr>tq_clock := now\<rparr>)" for now
    using assms(1) by (simp add: queue_ok_def)
  show ?thesis
  proof (cases "run_handler h (tk_payload task) (tk_user_id task) st")
    case (Inl ei)
    then show ?thesis using assms Some clock
      by (auto simp: process_task_def Let_def split: prod.splits if_splits
          intro!: queue_ok_fail queue_ok_retry)
  next
    case (Inr st1)
    then have "queue_ok st1"
      using handler_ok[OF Some assms(1)] by (auto simp: run_handler_def split: option.splits)
    then show ?thesis using assms(2) Some Inr
      by (auto simp: process_task_def split: option.splits intro: queue_ok_complete)
  qed
qed

lemma process_tasks_ok [invs]:
  "queue_ok st \<Longrightarrow> process_tasks handlers tasks st = (l, st', e) \<Longrightarrow> queue_ok st'"
proof (induction tasks arbitrary: st l st' e)
  case (Cons task tasks)
  obtain l1 st1 e1 where one: "process_task handlers task st = (l1, st1, e1)"
    by (metis prod_cases3)
  then have "queue_ok st1" using Cons.prems(1) process_task_ok by blast
  then show ?case using Cons.prems(2) Cons.IH one
    by (auto split: option.splits prod.splits)
qed simp

lemma worker_tick_ok [invs]:
  assumes "queue_ok st" and "worker_tick handlers batch st = (l, st', out)"
  shows "queue_ok st'"
proof -
  obtain st1 rows where c: "claim batch st = (st1, rows)" by force
  have "queue_ok st1" using queue_ok_claim[OF assms(1), of batch] c by simp
  then show ?thesis
    using assms(2) c process_tasks_ok by (auto simp: worker_tick_def split: prod.splits option.splits)
qed

lemma drain_queue_ok [invs]:
  "queue_ok st \<Longrightarrow> drain_queue fuel handlers batch st = Some (l, st', out) \<Longrightarrow> queue_ok st'"
proof (induction fuel arbitrary: st l)
  case (Suc fuel)
  obtain l1 st1 o1 where t: "worker_tick handlers batch st = (l1, st1, o1)" by (metis prod_cases3)
  then have "queue_ok st1" using Suc.prems(1) worker_tick_ok by blast
  then show ?case
    using Suc.prems(2) Suc.IH t by (auto split: sum.splits nat.splits option.splits)
qed simp

end

section \<open>No task is lost\<close>

lemma unfinished_update:
  assumes "unfinished i st" and "\<And>r. tk_id (f r) = tk_id r"
    and "\<And>r. tk_id r = i \<Longrightarrow> P r \<Longrightarrow> tk_done_at (f r) = tk_done_at r"
  shows "unfinished i (st\<lparr>tq_rows := update_where P f (tq_rows st)\<rparr>)"
proof -
  obtain q where q: "q \<in> set (tq_rows st)" "tk_id q = i" "tk_done_at q = None"
    using assms(1) by (auto simp: unfinished_def)
  let ?q = "if P q then f q else q"
  have "?q \<in> set (update_where P f (tq_rows st))"
    using q(1) by (auto simp: update_where_def)
  moreover have "tk_id ?q = i" "tk_done_at ?q = None"
    using q assms(2,3)[of q] by simp_all
  ultimately show ?thesis
    unfolding unfinished_def task_store.simps task_store.update_convs
    by (intro bexI[of _ ?q] conjI) simp_all
qed

lemma unfinished_set_row:
  assumes "unfinished i st" and "\<And>r. tk_id (f r) = tk_id r"
    and "\<And>r. i = j \<Longrightarrow> tk_done_at (f r) = tk_done_at r"
  shows "unfinished i (set_row j f st)"
  unfolding set_row_def using assms by (intro unfinished_update) auto

lemma unfinished_clock [simp]: "unfinished i (st\<lparr>tq_clock := now\<rparr>) = unfinished i st"
  by (simp add: unfinished_def)

lemma unfinished_retry: "unfinished i st \<Longrightarrow> unfinished i (retry_task task e st)"
  unfolding retry_task_def by (rule unfinished_set_row) simp_all

lemma unfinished_fail: "unfinished i st \<Longrightarrow> unfinished i (fail_task task e st)"
  unfolding fail_task_def by (rule unfinished_set_row) simp_all

lemma unfinished_insert:
  "unfinished i st \<Longrightarrow> insert_task topic p u every m t st = Some st' \<Longrightarrow> unfinished i st'"
  by (auto simp: unfinished_def dest!: insert_task_SomeD)

lemma unfinished_complete:
  assumes "unfinished i st" "i \<noteq> tk_id task" "complete_task task st = Some st'"
  shows "unfinished i st'"
proof -
  have "unfinished i (set_row (tk_id task)
      (\<lambda>r. r\<lparr>tk_done_at := Some (tq_clock st), tk_locked_at := None\<rparr>) st)"
    using assms(1,2) by (intro unfinished_set_row) simp_all
  then show ?thesis
    using assms(3) unfinished_insert
    by (auto simp: complete_task_def Let_def split: option.splits if_splits)
qed

lemma unfinished_claim: "unfinished i st \<Longrightarrow> unfinished i (fst (claim batch st))"
  unfolding claim_def Let_def fst_conv by (rule unfinished_update) simp_all

text \<open>The tasks of a batch whose handler ran to its end, each on the store it found.\<close>

definition handler_returns :: "handler_table \<Rightarrow> task_row \<Rightarrow> task_store \<Rightarrow> bool" where
  "handler_returns handlers task st = (case map_of handlers (tk_topic task) of
       None \<Rightarrow> False
     | Some h \<Rightarrow> (case run_handler h (tk_payload task) (tk_user_id task) st of Inl _ \<Rightarrow> False | Inr _ \<Rightarrow> True))"

fun returned_ids :: "handler_table \<Rightarrow> task_row list \<Rightarrow> task_store \<Rightarrow> uuid list" where
  "returned_ids handlers [] st = []" |
  "returned_ids handlers (task # tasks) st =
     (if handler_returns handlers task st then [tk_id task] else [])
     @ (case process_task handlers task st of
          (_, _, Some e) \<Rightarrow> []
        | (_, st', None) \<Rightarrow> returned_ids handlers tasks st')"

context task_handlers
begin

lemma process_task_unfinished:
  assumes "unfinished i st" and "process_task handlers task st = (l, st', e)"
    and "\<not> (tk_id task = i \<and> handler_returns handlers task st)"
  shows "unfinished i st'"
proof (cases "map_of handlers (tk_topic task)")
  case None
  then show ?thesis using assms(1,2) unfinished_fail by (auto simp: process_task_def)
next
  case (Some h)
  show ?thesis
  proof (cases "run_handler h (tk_payload task) (tk_user_id task) st")
    case (Inl ei)
    then show ?thesis using assms(1,2) Some unfinished_fail unfinished_retry
      by (auto simp: process_task_def Let_def split: prod.splits if_splits)
  next
    case (Inr st1)
    then have "unfinished i st1"
      using handler_keeps[OF Some] assms(1) by (auto simp: run_handler_def split: option.splits)
    moreover have "i \<noteq> tk_id task"
      using assms(3) Some Inr by (auto simp: handler_returns_def)
    ultimately show ?thesis using assms(2) Some Inr unfinished_complete
      by (auto simp: process_task_def split: option.splits)
  qed
qed

lemma process_tasks_unfinished:
  "unfinished i st \<Longrightarrow> process_tasks handlers tasks st = (l, st', e) \<Longrightarrow>
   unfinished i st' \<or> i \<in> set (returned_ids handlers tasks st)"
proof (induction tasks arbitrary: st l)
  case (Cons task tasks)
  obtain l1 st1 e1 where one: "process_task handlers task st = (l1, st1, e1)"
    by (metis prod_cases3)
  show ?case
  proof (cases "tk_id task = i \<and> handler_returns handlers task st")
    case False
    then have "unfinished i st1" using process_task_unfinished Cons.prems(1) one by blast
    then show ?thesis using Cons.prems(2) Cons.IH one
      by (fastforce split: option.splits prod.splits)
  qed auto
qed simp

lemma worker_tick_unfinished:
  assumes "unfinished i st" and "worker_tick handlers batch st = (l, st', out)"
  shows "unfinished i st' \<or> i \<in> set (returned_ids handlers (snd (claim batch st)) (fst (claim batch st)))"
proof -
  obtain st1 rows where c: "claim batch st = (st1, rows)" by force
  then have "unfinished i st1" using unfinished_claim[OF assms(1), of batch] by simp
  then show ?thesis
    using assms(2) c process_tasks_unfinished
    by (fastforce simp: worker_tick_def split: prod.splits option.splits)
qed

end

section \<open>The handlers of the shared layer\<close>

text \<open>
  \<open>_start_task_worker\<close> in \<open>apps/shared/contract/integration.py\<close>.  The counters' purge and the mail
  delivery (the mailer's outcome is the parameter \<open>deliver\<close>) leave the queue's table alone.
\<close>

definition purge_counters_topic :: string where
  "purge_counters_topic = ''rate_limit.purge''"

definition email_send_topic :: string where
  "email_send_topic = ''email.send''"

definition purge_finished_handler :: task_handler where
  "purge_finished_handler who p st = Inr (fst (purge_finished_tasks queue_retention_days st))"

definition shared_task_handlers :: "(payload \<Rightarrow> py_exc option) \<Rightarrow> handler_table" where
  "shared_task_handlers deliver =
     register_task_handler email_send_topic
       (\<lambda>who p st. case deliver p of None \<Rightarrow> Inr st | Some e \<Rightarrow> Inl (e, tq_clock st))
       (register_task_handler queue_purge_topic purge_finished_handler
         (register_task_handler purge_counters_topic (\<lambda>who p st. Inr st) []))"

definition plant_recurring_tasks :: "task_store \<Rightarrow> task_store" where
  "plant_recurring_tasks st =
     ensure_scheduled queue_purge_topic queue_purge_every_seconds
       (ensure_scheduled purge_counters_topic 3600 st)"

lemma unfinished_purge: "unfinished i st \<Longrightarrow> unfinished i (fst (purge_finished_tasks d st))"
  by (auto simp: unfinished_def purge_finished_tasks_def Let_def in_delete_where)

lemma shared_task_handlers_cases:
  "map_of (shared_task_handlers deliver) topic = Some h \<Longrightarrow> h who p st = Inr st' \<Longrightarrow>
     st' = st \<or> st' = fst (purge_finished_tasks queue_retention_days st)"
  by (auto simp: shared_task_handlers_def register_task_handler_def map_of_AList_update
      purge_finished_handler_def split: if_splits option.splits)

section \<open>Every handler of the program\<close>

text \<open>
  The other apps register recurring jobs on tables of their own and, through the bus, one handler per
  consumer.  Seen from the queue's table a job only ends or raises; a consumer may besides queue a
  mail (an alert), the only task a handler of the program enqueues.  Every handler takes
  the time it takes.  The topics are distinct, so the order of registration does not matter.
\<close>

definition other_job_topics :: "string list" where
  "other_job_topics = [''metrics.rollup'', ''issues.purge'', ''timeline.purge'']"

record worker_env =
  we_deliver :: "payload \<Rightarrow> py_exc option"
  we_job :: "string \<Rightarrow> payload \<Rightarrow> py_exc option"
  we_consumers :: "(string \<times> (task_session \<Rightarrow> payload \<Rightarrow> py_exc + payload option)) list"
  we_spent :: "string \<Rightarrow> payload \<Rightarrow> nat"

definition job_handler :: "(payload \<Rightarrow> py_exc option) \<Rightarrow> task_handler" where
  "job_handler job who p st = (case job p of None \<Rightarrow> Inr st | Some e \<Rightarrow> Inl (e, tq_clock st))"

definition consumer_handler :: "(task_session \<Rightarrow> payload \<Rightarrow> py_exc + payload option) \<Rightarrow> task_handler" where
  "consumer_handler consumer who p st = (case consumer who p of
       Inl e \<Rightarrow> Inl (e, tq_clock st)
     | Inr None \<Rightarrow> Inr st
     | Inr (Some mail) \<Rightarrow> Inr (enqueue email_send_topic mail None 5 st))"

definition timed :: "(payload \<Rightarrow> nat) \<Rightarrow> task_handler \<Rightarrow> task_handler" where
  "timed spent h who p st = (case h who p st of
       Inl (e, now) \<Rightarrow> Inl (e, now + int (spent p))
     | Inr st' \<Rightarrow> Inr (st'\<lparr>tq_clock := tq_clock st' + int (spent p)\<rparr>))"

definition registered_handlers :: "worker_env \<Rightarrow> handler_table" where
  "registered_handlers env = map (\<lambda>(topic, h). (topic, timed (we_spent env topic) h))
     (shared_task_handlers (we_deliver env)
      @ map (\<lambda>topic. (topic, job_handler (we_job env topic))) other_job_topics
      @ map (\<lambda>(topic, c). (topic, consumer_handler c)) (we_consumers env))"

lemma map_of_timed: "map_of (map (\<lambda>(topic, h). (topic, timed (spent topic) h)) table) topic
    = map_option (timed (spent topic)) (map_of table topic)"
  by (induction table) auto

text \<open>What a handler of the program does to the queue, by its topic.\<close>

lemma registered_handlers_cases:
  assumes "map_of (registered_handlers env) topic = Some h"
  obtains (shared) g where "h = timed (we_spent env topic) g" "map_of (shared_task_handlers (we_deliver env)) topic = Some g"
  | (job) "h = timed (we_spent env topic) (job_handler (we_job env topic))"
  | (consumer) c where "h = timed (we_spent env topic) (consumer_handler c)"
      "topic \<noteq> email_send_topic"
proof -
  let ?shared = "shared_task_handlers (we_deliver env)"
  let ?jobs = "map (\<lambda>topic. (topic, job_handler (we_job env topic))) other_job_topics"
  let ?consumers = "map (\<lambda>(topic, c). (topic, consumer_handler c)) (we_consumers env)"
  obtain g where g: "h = timed (we_spent env topic) g" "map_of (?shared @ ?jobs @ ?consumers) topic = Some g"
    using assms unfolding registered_handlers_def map_of_timed by (auto simp del: map_of_append)
  have email: "map_of ?shared email_send_topic \<noteq> None"
    by (simp add: shared_task_handlers_def register_task_handler_def map_of_AList_update)
  consider "map_of ?shared topic = Some g" | "map_of ?jobs topic = Some g"
    | "map_of ?shared topic = None" "map_of ?consumers topic = Some g"
    using g(2) by (auto simp: map_add_def split: option.splits)
  then show thesis
  proof cases
    case 1
    then show thesis using shared g(1) by blast
  next
    case 2
    then have "g = job_handler (we_job env topic)" by (auto dest!: map_of_SomeD)
    then show thesis using job g(1) by blast
  next
    case 3
    then obtain c where "g = consumer_handler c" by (auto dest!: map_of_SomeD)
    moreover have "topic \<noteq> email_send_topic" using 3(1) email by blast
    ultimately show thesis using consumer g(1) by blast
  qed
qed

lemma registered_handlers_effect:
  assumes "map_of (registered_handlers env) topic = Some h"
  shows "case h who p st of
      Inl (e, now) \<Rightarrow> tq_clock st \<le> now
    | Inr st' \<Rightarrow> \<exists>n s. st' = s\<lparr>tq_clock := tq_clock st + int n\<rparr> \<and> tq_clock s = tq_clock st
        \<and> (s = st \<or> s = fst (purge_finished_tasks queue_retention_days st)
           \<or> topic \<noteq> email_send_topic \<and> (\<exists>mail. s = enqueue email_send_topic mail None 5 st))"
  using assms
proof (cases rule: registered_handlers_cases)
  case (shared g)
  have "case g who p st of Inl (e, now) \<Rightarrow> now = tq_clock st
      | Inr s \<Rightarrow> s = st \<or> s = fst (purge_finished_tasks queue_retention_days st)"
    using shared(2) by (auto simp: shared_task_handlers_def register_task_handler_def map_of_AList_update
        purge_finished_handler_def split: if_splits option.splits)
  moreover have "tq_clock (fst (purge_finished_tasks queue_retention_days st)) = tq_clock st"
    by (simp add: purge_finished_tasks_def Let_def)
  ultimately have g: "case g who p st of Inl (e, now) \<Rightarrow> now = tq_clock st
      | Inr s \<Rightarrow> tq_clock s = tq_clock st \<and> (s = st \<or> s = fst (purge_finished_tasks queue_retention_days st))"
    by (auto split: sum.splits)
  show ?thesis
  proof (cases "g who p st")
    case (Inr s)
    then show ?thesis using g unfolding shared(1) timed_def by (simp, blast)
  qed (use g in \<open>auto simp: shared(1) timed_def\<close>)
next
  case job
  then show ?thesis by (auto simp: timed_def job_handler_def split: option.splits)
next
  case (consumer c)
  have "tq_clock (enqueue email_send_topic mail None 5 st) = tq_clock st" for mail
    by (simp add: enqueue_def insert_task_def Let_def recurring_pending_def new_task_def)
  then show ?thesis using consumer(2) unfolding consumer(1)
    by (auto simp: timed_def consumer_handler_def split: option.splits sum.splits)
qed

lemma queue_ok_clock [simp]: "queue_ok (st\<lparr>tq_clock := now\<rparr>) = queue_ok st"
  by (simp add: queue_ok_def)

lemma unfinished_enqueue: "unfinished i st \<Longrightarrow> unfinished i (enqueue topic p u m st)"
  by (auto simp: enqueue_def split: option.splits intro: unfinished_insert)

interpretation registered: task_handlers "registered_handlers env" for env
proof
  fix topic h st who p st'
  assume "map_of (registered_handlers env) topic = Some h" "h who p st = Inr st'" "queue_ok st"
  then show "queue_ok st'" using registered_handlers_effect[where env = env and topic = topic and h = h and who = who and p = p and st = st]
    by (auto intro: queue_ok_purge queue_ok_enqueue)
next
  fix topic h st who p st' i
  assume "map_of (registered_handlers env) topic = Some h" "h who p st = Inr st'" "unfinished i st"
  then show "unfinished i st'" using registered_handlers_effect[where env = env and topic = topic and h = h and who = who and p = p and st = st]
    by (auto intro: unfinished_purge unfinished_enqueue)
qed

text \<open>
  C4.  A task is never lost.  With every handler the program registers, a tick keeps the table's
  invariant (distinct keys, one pending row per recurring topic), and a task still owed before it is
  still owed after it unless its own handler ran to its end in that tick: neither a raise, nor a
  missing handler, nor the batch limit, nor another task's handler takes it out of the queue.
\<close>

theorem tick_loses_no_task:
  assumes "queue_ok st" and "worker_tick (registered_handlers env) batch st = (lines, st', out)"
  shows "queue_ok st'
    \<and> (unfinished i st \<longrightarrow> unfinished i st'
        \<or> i \<in> set (returned_ids (registered_handlers env) (snd (claim batch st)) (fst (claim batch st))))"
  using registered.worker_tick_ok[OF assms] registered.worker_tick_unfinished[OF _ assms(2)] by blast

definition demo_row :: "uuid \<Rightarrow> string \<Rightarrow> task_row" where
  "demo_row i topic = new_task i topic [] None (Some 3600) 5 0"

definition demo_store :: task_store where
  "demo_store = \<lparr>tq_rows = [demo_row 2 queue_purge_topic, demo_row 3 ''nobody''],
     tq_clock = 10, tq_next_id = 4\<rparr>"

lemma demo_store_ok: "queue_ok demo_store"
  by (simp add: queue_ok_def demo_store_def demo_row_def queue_purge_topic_def)

lemma demo_claim:
  "snd (claim 10 demo_store) = [lease 10 (demo_row 2 queue_purge_topic), lease 10 (demo_row 3 ''nobody'')]"
  by (simp add: claimed_rows claim_ids_def demo_store_def demo_row_def claimable_def)

definition demo_env :: worker_env where
  "demo_env = \<lparr>we_deliver = (\<lambda>_. None), we_job = (\<lambda>_ _. None),
     we_consumers = [(''issues.alert'', \<lambda>who p. Inr (Some []))], we_spent = (\<lambda>_ _. 1)\<rparr>"

lemma tick_loses_no_task_witness:
  "\<exists>lines st' out. worker_tick (registered_handlers demo_env) 10 demo_store = (lines, st', out)
     \<and> queue_ok st' \<and> unfinished 3 st'"
proof -
  obtain lines st' out where
    t: "worker_tick (registered_handlers demo_env) 10 demo_store = (lines, st', out)"
    by (metis prod_cases3)
  have "unfinished 3 demo_store"
    by (simp add: unfinished_def demo_store_def demo_row_def)
  moreover have "3 \<notin> set (returned_ids (registered_handlers demo_env) (snd (claim 10 demo_store)) (fst (claim 10 demo_store)))"
    by code_simp
  ultimately show ?thesis
    using t tick_loses_no_task[OF demo_store_ok t, of 3] by blast
qed

lemma claim_correct_witness:
  "length (snd (claim 10 demo_store)) = 2
   \<and> tk_id ` set (snd (claim 10 demo_store))
       \<inter> set (claim_ids 7 (fst (claim 10 demo_store)\<lparr>tq_clock := 300000010\<rparr>)) = {}"
proof -
  have "300000010 \<le> tq_clock demo_store + seconds visibility_timeout_seconds"
    by (simp add: demo_store_def visibility_timeout_seconds_def)
  then show ?thesis
    using claim_correct[OF demo_store_ok prod.collapse [symmetric], where batch = 10 and batch' = 7]
    by (simp add: demo_claim)
qed

section \<open>A recurring topic goes on\<close>

lemma filter_topic_unique:
  assumes "distinct (map tk_topic (filter recurring_pending rows))"
    and "r \<in> set rows" "recurring_pending r"
  shows "filter (\<lambda>q. recurring_pending q \<and> tk_topic q = tk_topic r) rows = [r]"
  using assms
proof (induction rows)
  case (Cons a rows)
  have none: "filter (\<lambda>q. recurring_pending q \<and> tk_topic q = tk_topic a) rows = []"
    if "recurring_pending a"
    using Cons.prems(1) that by (auto simp: filter_empty_conv image_iff)
  show ?case
  proof (cases "r = a")
    case True
    then show ?thesis using none Cons.prems(3) by simp
  next
    case False
    then have "r \<in> set rows" using Cons.prems(2) by simp
    moreover have "\<not> (recurring_pending a \<and> tk_topic a = tk_topic r)"
      using Cons.prems \<open>r \<in> set rows\<close> by (auto simp: image_iff)
    ultimately show ?thesis using Cons by (auto split: if_splits)
  qed
qed simp

text \<open>The row of a recurring topic, taken out of the index by an update of its key.\<close>

lemma set_row_clears_topic:
  assumes "queue_ok st" "r \<in> set (tq_rows st)" "recurring_pending r"
    and "\<And>q. tk_topic (f q) = tk_topic q" and "\<And>q. \<not> recurring_pending (f q)"
  shows "filter (\<lambda>q. recurring_pending q \<and> tk_topic q = tk_topic r)
      (tq_rows (set_row (tk_id r) f st)) = []"
proof -
  have "\<not> (recurring_pending x \<and> tk_topic x = tk_topic r)"
    if "x \<in> set (tq_rows (set_row (tk_id r) f st))" for x
  proof -
    obtain q where q: "q \<in> set (tq_rows st)" "x = (if tk_id q = tk_id r then f q else q)"
      using \<open>x \<in> _\<close> by (auto simp: set_row_def in_update_where)
    show ?thesis
    proof (cases "tk_id q = tk_id r")
      case False
      then have "x \<noteq> r" "x = q" using q by auto
      have "x \<notin> set (filter (\<lambda>q. recurring_pending q \<and> tk_topic q = tk_topic r) (tq_rows st))"
        using filter_topic_unique[OF queue_okD(3)[OF assms(1)] assms(2,3)] \<open>x \<noteq> r\<close> by simp
      then show ?thesis using q(1) \<open>x = q\<close> by simp
    qed (use q(2) assms(5) in simp)
  qed
  then show ?thesis by (simp add: filter_empty_conv)
qed

text \<open>
  Completing the pending row of a recurring topic leaves that topic with exactly one pending
  row, a fresh one due one interval later with the same payload and user; the unique index never
  refuses it.  Parking the row instead leaves the topic with no pending row at all (only the next
  mount plants one again).
\<close>

theorem recurring_chain:
  assumes "queue_ok st" "r \<in> set (tq_rows st)" "recurring_pending r"
    and "tk_recurring r = Some every" "every \<noteq> 0"
  shows "(\<exists>st'. complete_task r st = Some st' \<and> queue_ok st'
      \<and> filter (\<lambda>q. recurring_pending q \<and> tk_topic q = tk_topic r) (tq_rows st')
        = [new_task (tq_next_id st) (tk_topic r) (tk_payload r) (tk_user_id r) (Some every)
             (tk_max_attempts r) (tq_clock st + seconds every)])
    \<and> filter (\<lambda>q. recurring_pending q \<and> tk_topic q = tk_topic r) (tq_rows (fail_task r error st)) = []"
proof
  let ?f = "\<lambda>q. q\<lparr>tk_done_at := Some (tq_clock st), tk_locked_at := None\<rparr>"
  let ?marked = "set_row (tk_id r) ?f st"
  have none: "filter (\<lambda>q. recurring_pending q \<and> tk_topic q = tk_topic r) (tq_rows ?marked) = []"
    using assms(1-3) by (rule set_row_clears_topic) (simp_all add: recurring_pending_def task_pending_def)
  then obtain st' where st': "insert_task (tk_topic r) (tk_payload r) (tk_user_id r) (Some every)
      (tk_max_attempts r) (tq_clock st + seconds every) ?marked = Some st'"
    using insert_task_None by (cases "insert_task (tk_topic r) (tk_payload r) (tk_user_id r)
        (Some every) (tk_max_attempts r) (tq_clock st + seconds every) ?marked")
      (fastforce simp: filter_empty_conv)+
  have "complete_task r st = Some st'"
    using st' assms(4,5) by (simp add: complete_task_def Let_def)
  moreover have "tq_rows st' = tq_rows ?marked @ [new_task (tq_next_id st) (tk_topic r)
      (tk_payload r) (tk_user_id r) (Some every) (tk_max_attempts r) (tq_clock st + seconds every)]"
    using insert_task_SomeD[OF st'] by (simp add: set_row_def)
  ultimately show "\<exists>st'. complete_task r st = Some st' \<and> queue_ok st'
      \<and> filter (\<lambda>q. recurring_pending q \<and> tk_topic q = tk_topic r) (tq_rows st')
        = [new_task (tq_next_id st) (tk_topic r) (tk_payload r) (tk_user_id r) (Some every)
             (tk_max_attempts r) (tq_clock st + seconds every)]"
    using queue_ok_complete[OF assms(1)] none by auto
  show "filter (\<lambda>q. recurring_pending q \<and> tk_topic q = tk_topic r) (tq_rows (fail_task r error st)) = []"
    unfolding fail_task_def using assms(1-3)
    by (rule set_row_clears_topic) (simp_all add: recurring_pending_def task_pending_def)
qed

lemma recurring_chain_witness:
  "\<exists>st'. complete_task (demo_row 2 queue_purge_topic) demo_store = Some st' \<and> queue_ok st'
     \<and> length (tq_rows st') = 3"
proof -
  have "demo_row 2 queue_purge_topic \<in> set (tq_rows demo_store)"
    by (simp add: demo_store_def)
  then obtain st' where
    "complete_task (demo_row 2 queue_purge_topic) demo_store = Some st'" "queue_ok st'"
    using recurring_chain[OF demo_store_ok, of "demo_row 2 queue_purge_topic" 3600]
    by (auto simp: demo_row_def)
  moreover from this(1) have "length (tq_rows st') = 3"
    by (auto simp: complete_task_def Let_def demo_row_def set_row_def demo_store_def
        dest!: insert_task_SomeD)
  ultimately show ?thesis by blast
qed

section \<open>Retries are bounded\<close>

text \<open>
  A row whose handler always raises, alone in the queue: one tick, the time the handler takes, and
  then the wait until it is due again.
\<close>

definition raising :: "py_exc \<Rightarrow> task_handler" where
  "raising exc who p st = Inl (exc, tq_clock st)"

fun failing_ticks :: "nat \<Rightarrow> py_exc \<Rightarrow> nat \<Rightarrow> task_store \<Rightarrow> queue_line list \<times> task_store" where
  "failing_ticks 0 exc batch st = ([], st)" |
  "failing_ticks (Suc n) exc batch st =
     (case failing_ticks n exc batch st of (lines, st1) \<Rightarrow>
        (case worker_tick (map (\<lambda>r. (tk_topic r, raising exc)) (tq_rows st1)) batch st1 of
           (lines', st2, _) \<Rightarrow>
             (lines @ lines', st2\<lparr>tq_clock := tq_clock st2 + seconds retry_backoff_seconds\<rparr>)))"

lemma claim_single:
  assumes "tq_rows st = [r]" "batch > 0"
  shows "claim batch st = (if claimable (tq_clock st) r
    then (st\<lparr>tq_rows := [lease (tq_clock st) r]\<rparr>, [lease (tq_clock st) r]) else (st, []))"
  using assms by (cases batch) (simp_all add: claim_def claim_ids_def Let_def)

lemma failing_tick_single:
  assumes "tq_rows st = [r]" "batch > 0" "claimable (tq_clock st) r"
  shows "worker_tick [(tk_topic r, raising exc)] batch st =
    (let q = lease (tq_clock st) r in
     if tk_attempts q \<ge> tk_max_attempts r
     then ([TaskFailedLine exc (tk_topic r) (tk_id r)],
       st\<lparr>tq_rows := [q\<lparr>tk_failed_at := Some (tq_clock st), tk_locked_at := None,
            tk_last_error := Some (exc_repr exc)\<rparr>]\<rparr>, Inr 1)
     else ([TaskRetryingLine exc (tk_topic r) (tk_id r) (tk_attempts q)],
       st\<lparr>tq_rows := [q\<lparr>tk_locked_at := None, tk_last_error := Some (exc_repr exc),
            tk_run_at := tq_clock st + seconds retry_backoff_seconds\<rparr>]\<rparr>, Inr 1))"
  using assms
  by (simp add: worker_tick_def claim_single process_task_def run_handler_def raising_def Let_def
      fail_task_def retry_task_def set_row_def split: option.splits)

definition retries_so_far :: "task_row \<Rightarrow> nat \<Rightarrow> task_row \<Rightarrow> bool" where
  "retries_so_far r n q \<longleftrightarrow> tk_id q = tk_id r \<and> tk_topic q = tk_topic r
     \<and> tk_max_attempts q = tk_max_attempts r \<and> tk_done_at q = None
     \<and> tk_attempts q = min (int n) (tk_max_attempts r)
     \<and> (tk_failed_at q = None \<longleftrightarrow> int n < tk_max_attempts r)
     \<and> tk_locked_at q = None"

lemma failing_ticks_state:
  assumes "tq_rows st = [r]" "batch > 0" "tk_attempts r = 0" "tk_max_attempts r > 0"
    and "claimable (tq_clock st) r" "tk_locked_at r = None"
  shows "\<exists>q lines st'. failing_ticks n exc batch st = (lines, st') \<and> tq_rows st' = [q]
    \<and> retries_so_far r n q \<and> tk_run_at q \<le> tq_clock st'
    \<and> lines = map (\<lambda>k. if int k < tk_max_attempts r
          then TaskRetryingLine exc (tk_topic r) (tk_id r) (int k)
          else TaskFailedLine exc (tk_topic r) (tk_id r)) [1..<min (Suc n) (Suc (nat (tk_max_attempts r)))]"
proof (induction n)
  case 0
  show ?case using assms by (auto simp: retries_so_far_def claimable_def task_pending_def)
next
  case (Suc n)
  then obtain q lines st1 where IH: "failing_ticks n exc batch st = (lines, st1)" "tq_rows st1 = [q]"
    "retries_so_far r n q" "tk_run_at q \<le> tq_clock st1"
    "lines = map (\<lambda>k. if int k < tk_max_attempts r
          then TaskRetryingLine exc (tk_topic r) (tk_id r) (int k)
          else TaskFailedLine exc (tk_topic r) (tk_id r)) [1..<min (Suc n) (Suc (nat (tk_max_attempts r)))]"
    by blast
  note q = IH(3)[unfolded retries_so_far_def]
  show ?case
  proof (cases "int n < tk_max_attempts r")
    case True
    then have c: "claimable (tq_clock st1) q"
      using q IH(4) by (simp add: claimable_def task_pending_def)
    have m: "min (Suc (Suc n)) (Suc (nat (tk_max_attempts r))) = Suc (Suc n)"
      "min (Suc n) (Suc (nat (tk_max_attempts r))) = Suc n"
      using True by linarith+
    show ?thesis
      using True IH(1,2,4,5) q failing_tick_single[OF IH(2) assms(2) c, of exc]
      by (auto simp: retries_so_far_def Let_def m retry_backoff_seconds_def)
  next
    case False
    then have "\<not> claimable (tq_clock st1) q"
      using q by (auto simp: claimable_def task_pending_def)
    then have t: "worker_tick [(tk_topic q, raising exc)] batch st1 = ([], st1, Inr 0)"
      using IH(2) assms(2) by (simp add: worker_tick_def claim_single)
    have m: "min (Suc (Suc n)) (Suc (nat (tk_max_attempts r))) = Suc (nat (tk_max_attempts r))"
      "min (Suc n) (Suc (nat (tk_max_attempts r))) = Suc (nat (tk_max_attempts r))"
      using False by linarith+
    have "failing_ticks (Suc n) exc batch st
        = (lines, st1\<lparr>tq_clock := tq_clock st1 + seconds retry_backoff_seconds\<rparr>)"
      using IH(1,2) t q by simp
    moreover have "retries_so_far r (Suc n) q"
      using False q by (simp add: retries_so_far_def min_def)
    moreover have "tk_run_at q \<le> tq_clock st1 + seconds retry_backoff_seconds"
      using IH(4) by (simp add: retry_backoff_seconds_def)
    ultimately show ?thesis
      using IH(2) unfolding IH(5) m by (intro exI[of _ q]) simp
  qed
qed

text \<open>
  Retries are bounded.  A task whose handler raises on every run (here alone in the queue, ticked
  once per backoff) is retried with a warning at each of its first attempts, reported as an exception
  at the last one and parked; from then on ticking runs it no more.
\<close>

theorem failing_task_parks:
  assumes "tq_rows st = [r]" "batch > 0" "tk_attempts r = 0" "tk_max_attempts r > 0"
    and "claimable (tq_clock st) r" "tk_locked_at r = None" "int n \<ge> tk_max_attempts r"
  shows "\<exists>q st'. failing_ticks n exc batch st =
      (map (\<lambda>k. if int k < tk_max_attempts r
          then TaskRetryingLine exc (tk_topic r) (tk_id r) (int k)
          else TaskFailedLine exc (tk_topic r) (tk_id r)) [1..<Suc (nat (tk_max_attempts r))], st')
    \<and> tq_rows st' = [q] \<and> task_state q = ''parked'' \<and> tk_attempts q = tk_max_attempts r"
proof -
  have "min (Suc n) (Suc (nat (tk_max_attempts r))) = Suc (nat (tk_max_attempts r))"
    using assms(7) by linarith
  then show ?thesis
    using failing_ticks_state[OF assms(1-6), of n exc] assms(7)
    by (auto simp: retries_so_far_def task_state_def min_def)
qed

lemma failing_task_parks_witness:
  "\<exists>q st'. failing_ticks 4 (\<lparr>exc_qualname = ''E'', exc_frames = [], exc_repr = ''E()''\<rparr>) 10
      (\<lparr>tq_rows = [new_task 7 ''t'' [] None None 2 0], tq_clock = 10, tq_next_id = 8\<rparr>)
      = ([TaskRetryingLine (\<lparr>exc_qualname = ''E'', exc_frames = [], exc_repr = ''E()''\<rparr>) ''t'' 7 1,
          TaskFailedLine (\<lparr>exc_qualname = ''E'', exc_frames = [], exc_repr = ''E()''\<rparr>) ''t'' 7], st')
     \<and> tq_rows st' = [q] \<and> task_state q = ''parked'' \<and> tk_attempts q = 2"
  using failing_task_parks[of "\<lparr>tq_rows = [new_task 7 ''t'' [] None None 2 0], tq_clock = 10, tq_next_id = 8\<rparr>"
      "new_task 7 ''t'' [] None None 2 0" 10 4
      "\<lparr>exc_qualname = ''E'', exc_frames = [], exc_repr = ''E()''\<rparr>"]
  by (simp add: claimable_def upt_rec numeral_2_eq_2)

end
