(* ===== verification/Task_Drain.thy ===== *)
theory Task_Drain
  imports Task_Worker
begin

text \<open>
  \<open>while await self.tick(): pass\<close> ends.  Handlers take time, so a row deferred by the backoff may be due
  again before the drain is over, and a consumer may queue a mail; what bounds the loop is that every run
  of a task spends one of its attempts, that a mail queues nothing, and that the next row of a recurring
  topic is an interval away.  One worker; nobody else writes the table meanwhile.
\<close>

section \<open>The runs owed\<close>

definition due :: "instant \<Rightarrow> task_row \<Rightarrow> bool" where
  "due H r \<longleftrightarrow> task_pending r \<and> tk_run_at r \<le> H"

lemma due_lease [simp]: "due H (lease t r) = due H r"
  by (simp add: due_def)

text \<open>
  The runs a row may still take, the one of its lease included for a row of \<open>S\<close>, each weighing \<open>c\<close> to
  the rank of its topic; a handler of some rank queues at most \<open>b\<close> rows of at most \<open>m\<close> attempts, of lower rank.
\<close>

definition runs_left :: "uuid set \<Rightarrow> task_row \<Rightarrow> nat" where
  "runs_left S r = Suc (nat (tk_max_attempts r - tk_attempts r + (if tk_id r \<in> S then 1 else 0)))"

definition run_cost :: "nat \<Rightarrow> nat \<Rightarrow> nat" where
  "run_cost b m = Suc (b * (m + 2))"

definition row_load :: "nat \<Rightarrow> (string \<Rightarrow> nat) \<Rightarrow> instant \<Rightarrow> uuid set \<Rightarrow> task_row \<Rightarrow> nat" where
  "row_load c rank H S r = (if due H r then runs_left S r * c ^ rank (tk_topic r) else 0)"

definition queue_load :: "nat \<Rightarrow> (string \<Rightarrow> nat) \<Rightarrow> instant \<Rightarrow> uuid set \<Rightarrow> task_store \<Rightarrow> nat" where
  "queue_load c rank H S st = sum_list (map (row_load c rank H S) (tq_rows st))"

definition modest :: "nat \<Rightarrow> nat \<Rightarrow> (string \<Rightarrow> nat) \<Rightarrow> string \<Rightarrow> task_handler \<Rightarrow> bool" where
  "modest b m rank topic h \<longleftrightarrow> (\<forall>who p st. case h who p st of
       Inl (e, now) \<Rightarrow> tq_clock st \<le> now
     | Inr st' \<Rightarrow> tq_clock st \<le> tq_clock st' \<and> (queue_ok st \<longrightarrow> queue_ok st')
         \<and> (\<exists>gone new. tq_rows st' = delete_where gone (tq_rows st) @ new \<and> (\<forall>r. gone r \<longrightarrow> \<not> task_pending r)
             \<and> length new \<le> b
             \<and> (\<forall>r \<in> set new. rank (tk_topic r) < rank topic \<and> tk_recurring r = None
                  \<and> tk_attempts r = 0 \<and> nat (tk_max_attempts r) \<le> m)))"

text \<open>No recurring topic comes round again by \<open>H\<close>, counted from \<open>t0\<close>.\<close>

definition slow_recurrence :: "instant \<Rightarrow> instant \<Rightarrow> task_store \<Rightarrow> bool" where
  "slow_recurrence H t0 st \<longleftrightarrow>
     (\<forall>r \<in> set (tq_rows st). case tk_recurring r of None \<Rightarrow> True | Some n \<Rightarrow> n = 0 \<or> H < t0 + seconds n)"

fun after_ticks :: "nat \<Rightarrow> handler_table \<Rightarrow> nat \<Rightarrow> task_store \<Rightarrow> task_store" where
  "after_ticks 0 handlers batch st = st" |
  "after_ticks (Suc n) handlers batch st = after_ticks n handlers batch (fst (snd (worker_tick handlers batch st)))"

section \<open>Sums over a table\<close>

lemma sum_update_one:
  fixes g g' :: "task_row \<Rightarrow> nat"
  assumes "distinct (map tk_id rows)" "t \<in> set rows" "\<And>r. tk_id r \<noteq> tk_id t \<Longrightarrow> g' r = g r"
  shows "sum_list (map g' (update_where (\<lambda>r. tk_id r = tk_id t) f rows)) + g t = sum_list (map g rows) + g' (f t)"
  using assms(1,2)
proof (induction rows)
  case (Cons r rows)
  show ?case
  proof (cases "tk_id r = tk_id t")
    case True
    then have "t = r" using Cons.prems by (auto simp: rev_image_eqI)
    moreover have "map g' (update_where (\<lambda>q. tk_id q = tk_id t) f rows) = map g rows"
      using Cons.prems(1) True assms(3) unfolding update_where_def by (auto simp: image_iff)
    ultimately show ?thesis by simp
  next
    case False
    then show ?thesis using Cons assms(3)[OF False] by auto
  qed
qed simp

lemma sum_delete_le: "sum_list (map (g :: task_row \<Rightarrow> nat) (delete_where gone rows)) \<le> sum_list (map g rows)"
  by (induction rows) (auto simp: delete_where_def)

lemma sum_bounded: "(\<And>x. x \<in> set xs \<Longrightarrow> g x \<le> (k :: nat)) \<Longrightarrow> sum_list (map g xs) \<le> length xs * k"
proof (induction xs)
  case (Cons x xs)
  then show ?case by (simp add: add_mono)
qed simp

section \<open>One task\<close>

lemma row_load_done: "\<not> due H r \<Longrightarrow> row_load c rank H S r = 0"
  by (simp add: row_load_def)

lemma runs_left_pos: "due H t \<Longrightarrow> c ^ rank (tk_topic t) \<le> row_load c rank H S t"
  by (simp add: row_load_def runs_left_def)

lemma queue_load_set_row:
  assumes "queue_ok st" "t \<in> set (tq_rows st)" "tk_id t = i"
  shows "queue_load c rank H (S - {i}) (set_row i f st) + row_load c rank H S t
    = queue_load c rank H S st + row_load c rank H (S - {i}) (f t)"
proof -
  have "row_load c rank H (S - {i}) r = row_load c rank H S r" if "tk_id r \<noteq> tk_id t" for r
    using that assms(3) by (simp add: row_load_def runs_left_def)
  then show ?thesis
    using sum_update_one[OF queue_okD(1)[OF assms(1)] assms(2)] assms(3)
    by (simp add: queue_load_def set_row_def)
qed

lemma queue_load_clock [simp]: "queue_load c rank H S (st\<lparr>tq_clock := now\<rparr>) = queue_load c rank H S st"
  by (simp add: queue_load_def)

lemma queue_load_insert:
  assumes "insert_task topic p u every k at st = Some st'" "H < at"
  shows "queue_load c rank H S st' = queue_load c rank H S st"
  using insert_task_SomeD[OF assms(1)] assms(2) by (simp add: queue_load_def row_load_def due_def)

text \<open>What a run of a task leaves of the others, and of the recurrence.\<close>

definition keeps_others :: "task_row \<Rightarrow> task_store \<Rightarrow> task_store \<Rightarrow> bool" where
  "keeps_others t st st' \<longleftrightarrow> (\<forall>u \<in> set (tq_rows st). tk_id u \<noteq> tk_id t \<longrightarrow> task_pending u \<longrightarrow> u \<in> set (tq_rows st'))"

lemma keeps_set_row: "keeps_others t st (set_row (tk_id t) f st)"
  by (auto simp: keeps_others_def set_row_def in_update_where)

lemma keeps_insert: "keeps_others t st st' \<Longrightarrow> insert_task topic p u every k at st' = Some st'' \<Longrightarrow> keeps_others t st st''"
  by (auto simp: keeps_others_def dest!: insert_task_SomeD)

lemma slow_set_row:
  "slow_recurrence H t0 st \<Longrightarrow> (\<And>r. tk_recurring (f r) = tk_recurring r) \<Longrightarrow> slow_recurrence H t0 (set_row i f st)"
  by (auto simp: slow_recurrence_def set_row_def in_update_where)

definition run_lightens :: "nat \<Rightarrow> (string \<Rightarrow> nat) \<Rightarrow> instant \<Rightarrow> instant \<Rightarrow> uuid set \<Rightarrow> task_row \<Rightarrow> task_store \<Rightarrow> task_store \<Rightarrow> bool" where
  "run_lightens c rank H t0 S t st st' \<longleftrightarrow>
     queue_load c rank H (S - {tk_id t}) st' + 1 \<le> queue_load c rank H S st
     \<and> keeps_others t st st' \<and> slow_recurrence H t0 st'"

lemma fail_lightens:
  assumes "queue_ok st" "t \<in> set (tq_rows st)" "due H t" "slow_recurrence H t0 st" "0 < c"
  shows "run_lightens c rank H t0 S t st (fail_task t e st)"
proof -
  have "row_load c rank H (S - {tk_id t}) (t\<lparr>tk_failed_at := Some (tq_clock st), tk_locked_at := None, tk_last_error := Some e\<rparr>) = 0"
    by (rule row_load_done) (simp add: due_def task_pending_def)
  moreover have "0 < row_load c rank H S t" using runs_left_pos[OF assms(3), of c rank S] assms(5)
    by (meson less_le_trans zero_less_power)
  ultimately have "queue_load c rank H (S - {tk_id t}) (fail_task t e st) + 1 \<le> queue_load c rank H S st"
    using queue_load_set_row[OF assms(1,2) refl, of c rank H S
      "\<lambda>r. r\<lparr>tk_failed_at := Some (tq_clock st), tk_locked_at := None, tk_last_error := Some e\<rparr>"]
    by (simp add: fail_task_def)
  then show ?thesis unfolding run_lightens_def fail_task_def
    using assms(4) by (auto intro: keeps_set_row slow_set_row)
qed

lemma retry_lightens:
  assumes "queue_ok st" "t \<in> set (tq_rows st)" "due H t" "slow_recurrence H t0 st" "0 < c"
    and "tk_id t \<in> S" "tk_attempts t < tk_max_attempts t"
  shows "run_lightens c rank H t0 S t st (retry_task t e st)"
proof -
  let ?f = "\<lambda>r. r\<lparr>tk_locked_at := None, tk_last_error := Some e, tk_run_at := tq_clock st + seconds retry_backoff_seconds\<rparr>"
  have "runs_left S t = Suc (runs_left (S - {tk_id t}) (?f t))"
    using assms(6,7) by (simp add: runs_left_def)
  then have "row_load c rank H (S - {tk_id t}) (?f t) + 1 \<le> row_load c rank H S t"
    using assms(3,5) by (simp add: row_load_def Suc_le_eq)
  then have "queue_load c rank H (S - {tk_id t}) (retry_task t e st) + 1 \<le> queue_load c rank H S st"
    using queue_load_set_row[OF assms(1,2) refl, of c rank H S ?f] by (simp add: retry_task_def)
  then show ?thesis unfolding run_lightens_def retry_task_def
    using assms(4) by (auto intro: keeps_set_row slow_set_row)
qed

text \<open>The rows a handler queued weigh less than the run that queued them.\<close>

lemma handler_load:
  assumes "tq_rows st1 = delete_where gone (tq_rows st) @ new" "length new \<le> b"
    and "\<forall>r \<in> set new. rank (tk_topic r) < k \<and> tk_recurring r = None \<and> tk_attempts r = 0 \<and> nat (tk_max_attempts r) \<le> m"
  shows "queue_load (run_cost b m) rank H S st1 + 1 \<le> queue_load (run_cost b m) rank H S st + run_cost b m ^ k"
proof (cases k)
  case 0
  then have "new = []" using assms(3) by (cases new) auto
  then have "queue_load (run_cost b m) rank H S st1 \<le> queue_load (run_cost b m) rank H S st"
    by (simp add: queue_load_def assms(1) sum_delete_le)
  then show ?thesis by (simp add: 0)
next
  case (Suc j)
  let ?c = "run_cost b m"
  have "row_load ?c rank H S r \<le> (m + 2) * ?c ^ j" if "r \<in> set new" for r
  proof -
    have "rank (tk_topic r) \<le> j" "runs_left S r \<le> m + 2"
      using assms(3) that Suc by (auto simp: runs_left_def)
    then have "runs_left S r * ?c ^ rank (tk_topic r) \<le> (m + 2) * ?c ^ j"
      by (intro mult_le_mono power_increasing) (simp_all add: run_cost_def)
    then show ?thesis by (simp add: row_load_def)
  qed
  then have "sum_list (map (row_load ?c rank H S) new) \<le> length new * ((m + 2) * ?c ^ j)" by (rule sum_bounded)
  moreover have "length new * ((m + 2) * ?c ^ j) \<le> b * ((m + 2) * ?c ^ j)" using assms(2) by (intro mult_le_mono) simp_all
  moreover have "1 \<le> ?c ^ j" by (simp add: run_cost_def)
  ultimately have "sum_list (map (row_load ?c rank H S) new) + 1 \<le> b * ((m + 2) * ?c ^ j) + ?c ^ j"
    by linarith
  also have "\<dots> = ?c ^ k" by (simp add: Suc run_cost_def algebra_simps)
  finally show ?thesis
    using sum_delete_le[of "row_load ?c rank H S" gone "tq_rows st"] by (simp add: queue_load_def assms(1))
qed

lemma complete_lightens:
  assumes ok: "queue_ok st1" and t: "t \<in> set (tq_rows st)" "due H t" and slow: "slow_recurrence H t0 st"
    and clock: "t0 \<le> tq_clock st1"
    and rows: "tq_rows st1 = delete_where gone (tq_rows st) @ new" "\<forall>r. gone r \<longrightarrow> \<not> task_pending r" "length new \<le> b"
    and new: "\<forall>r \<in> set new. rank (tk_topic r) < rank (tk_topic t) \<and> tk_recurring r = None \<and> tk_attempts r = 0 \<and> nat (tk_max_attempts r) \<le> m"
    and completed: "complete_task t st1 = Some st'"
  shows "run_lightens (run_cost b m) rank H t0 S t st st'"
proof -
  let ?c = "run_cost b m" and ?f = "\<lambda>r. r\<lparr>tk_done_at := Some (tq_clock st1), tk_locked_at := None\<rparr>"
  let ?marked = "set_row (tk_id t) ?f st1"
  have stays: "u \<in> set (tq_rows st1)" if "u \<in> set (tq_rows st)" "task_pending u" for u
    using that rows(1,2) by (auto simp: in_delete_where)
  have t1: "t \<in> set (tq_rows st1)" using stays t by (simp add: due_def)
  have "row_load ?c rank H (S - {tk_id t}) (?f t) = 0" by (rule row_load_done) (simp add: due_def task_pending_def)
  then have "queue_load ?c rank H (S - {tk_id t}) ?marked + row_load ?c rank H S t = queue_load ?c rank H S st1"
    using queue_load_set_row[OF ok t1 refl, of ?c rank H S ?f] by simp
  moreover have "?c ^ rank (tk_topic t) \<le> row_load ?c rank H S t" by (rule runs_left_pos[OF t(2)])
  ultimately have marked: "queue_load ?c rank H (S - {tk_id t}) ?marked + 1 \<le> queue_load ?c rank H S st"
    using handler_load[OF rows(1,3) new, of H S] by linarith
  have keeps: "keeps_others t st ?marked"
    using stays by (auto simp: keeps_others_def set_row_def in_update_where)
  have "slow_recurrence H t0 st1" using slow new unfolding slow_recurrence_def rows(1) by (auto simp: in_delete_where)
  then have slow': "slow_recurrence H t0 ?marked" by (rule slow_set_row) simp
  show ?thesis
  proof (cases "st' = ?marked")
    case True
    then show ?thesis using marked keeps slow' by (simp add: run_lightens_def)
  next
    case False
    then obtain every where every: "tk_recurring t = Some every" "every \<noteq> 0"
      and ins: "insert_task (tk_topic t) (tk_payload t) (tk_user_id t) (Some every) (tk_max_attempts t)
        (tq_clock st1 + seconds every) ?marked = Some st'"
      using completed by (auto simp: complete_task_def Let_def split: option.splits if_splits)
    have far: "H < t0 + seconds every" using slow t(1) every by (fastforce simp: slow_recurrence_def)
    then have "H < tq_clock st1 + seconds every" using clock by simp
    from queue_load_insert[OF ins this] have "queue_load ?c rank H (S - {tk_id t}) st' = queue_load ?c rank H (S - {tk_id t}) ?marked" .
    moreover have "slow_recurrence H t0 st'"
      using slow' far insert_task_SomeD[OF ins] by (auto simp: slow_recurrence_def)
    ultimately show ?thesis using marked keeps_insert[OF keeps ins] by (simp add: run_lightens_def)
  qed
qed

section \<open>A worker whose handlers are modest\<close>

locale modest_worker =
  fixes handlers :: handler_table and b :: nat and m :: nat and rank :: "string \<Rightarrow> nat"
  assumes modest_handler: "map_of handlers topic = Some h \<Longrightarrow> modest b m rank topic h"
begin

lemma process_lightens:
  assumes "queue_ok st" "t \<in> set (tq_rows st)" "due H t" "slow_recurrence H t0 st" "t0 \<le> tq_clock st" "tk_id t \<in> S"
    and "process_task handlers t st = (l, st', None)"
  shows "run_lightens (run_cost b m) rank H t0 S t st st' \<and> queue_ok st' \<and> tq_clock st \<le> tq_clock st'"
proof (cases "map_of handlers (tk_topic t)")
  case None
  then have "st' = fail_task t ''no handler registered'' st" using assms(7) by (simp add: process_task_def)
  then show ?thesis using fail_lightens[OF assms(1-4)] queue_ok_fail[OF assms(1)]
    by (simp add: run_cost_def) (simp add: fail_task_def set_row_def)
next
  case (Some h)
  obtain who where run: "run_handler h (tk_payload t) (tk_user_id t) = h who (tk_payload t)"
    by (cases "tk_user_id t") (auto simp: run_handler_def fun_eq_iff)
  have m: "case h who (tk_payload t) st of Inl (e, now) \<Rightarrow> tq_clock st \<le> now
      | Inr st1 \<Rightarrow> tq_clock st \<le> tq_clock st1 \<and> (queue_ok st \<longrightarrow> queue_ok st1)
         \<and> (\<exists>gone new. tq_rows st1 = delete_where gone (tq_rows st) @ new \<and> (\<forall>r. gone r \<longrightarrow> \<not> task_pending r)
             \<and> length new \<le> b
             \<and> (\<forall>r \<in> set new. rank (tk_topic r) < rank (tk_topic t) \<and> tk_recurring r = None
                  \<and> tk_attempts r = 0 \<and> nat (tk_max_attempts r) \<le> m))"
    using modest_handler[OF Some] unfolding modest_def by blast
  show ?thesis
  proof (cases "h who (tk_payload t) st")
    case (Inl ei)
    obtain e now where e: "ei = (e, now)" by force
    let ?st = "st\<lparr>tq_clock := now\<rparr>"
    have now: "tq_clock st \<le> now" using m Inl e by simp
    have pre: "queue_ok ?st" "t \<in> set (tq_rows ?st)" "slow_recurrence H t0 ?st"
      using assms(1,2,4) by (simp_all add: slow_recurrence_def)
    have "st' = (if tk_attempts t \<ge> tk_max_attempts t then fail_task t (exc_repr e) ?st else retry_task t (exc_repr e) ?st)"
      using assms(7) Some Inl e run by (auto simp: process_task_def Let_def split: if_splits)
    moreover have "run_lightens (run_cost b m) rank H t0 S t ?st st'"
      using calculation fail_lightens[OF pre(1,2) assms(3) pre(3), of "run_cost b m" rank S]
        retry_lightens[OF pre(1,2) assms(3) pre(3) _ assms(6), of "run_cost b m" rank]
      by (auto simp: run_cost_def)
    then have "run_lightens (run_cost b m) rank H t0 S t st st'" by (simp add: run_lightens_def keeps_others_def)
    ultimately show ?thesis using pre(1) now queue_ok_fail[OF pre(1)] queue_ok_retry[OF pre(1)]
      by (auto simp: fail_task_def retry_task_def set_row_def)
  next
    case (Inr st1)
    have completed: "complete_task t st1 = Some st'"
      using assms(7) Some Inr run by (auto simp: process_task_def split: option.splits)
    have clock: "tq_clock st \<le> tq_clock st1" and ok: "queue_ok st1" using m Inr assms(1) by simp_all
    obtain gone new where "tq_rows st1 = delete_where gone (tq_rows st) @ new" "\<forall>r. gone r \<longrightarrow> \<not> task_pending r"
      "length new \<le> b" "\<forall>r \<in> set new. rank (tk_topic r) < rank (tk_topic t) \<and> tk_recurring r = None
                  \<and> tk_attempts r = 0 \<and> nat (tk_max_attempts r) \<le> m"
      using m Inr by auto
    from complete_lightens[OF ok assms(2-4) _ this completed] clock assms(5)
    have "run_lightens (run_cost b m) rank H t0 S t st st'" by simp
    moreover have "tq_clock st' = tq_clock st1"
      using completed by (auto simp: complete_task_def Let_def set_row_def split: option.splits if_splits dest!: insert_task_SomeD)
    ultimately show ?thesis using clock queue_ok_complete[OF ok completed] by simp
  qed
qed

end

section \<open>Ticks and the drain\<close>

context modest_worker
begin

lemma process_tasks_lighten:
  "process_tasks handlers ts st = (l, st', None) \<Longrightarrow> queue_ok st \<Longrightarrow> slow_recurrence H t0 st \<Longrightarrow> t0 \<le> tq_clock st
    \<Longrightarrow> \<forall>t \<in> set ts. t \<in> set (tq_rows st) \<and> due H t \<Longrightarrow> distinct (map tk_id ts)
    \<Longrightarrow> queue_load (run_cost b m) rank H {} st' + length ts \<le> queue_load (run_cost b m) rank H (tk_id ` set ts) st
      \<and> queue_ok st' \<and> slow_recurrence H t0 st' \<and> tq_clock st \<le> tq_clock st'"
proof (induction ts arbitrary: st l)
  case (Cons t ts)
  obtain l1 st1 where one: "process_task handlers t st = (l1, st1, None)"
    and rest: "\<exists>l2. process_tasks handlers ts st1 = (l2, st', None)"
    using Cons.prems(1) by (auto split: prod.splits option.splits)
  have t: "t \<in> set (tq_rows st)" "due H t" and ids: "tk_id t \<notin> tk_id ` set ts" using Cons.prems(5,6) by auto
  have step: "run_lightens (run_cost b m) rank H t0 (tk_id ` set (t # ts)) t st st1 \<and> queue_ok st1 \<and> tq_clock st \<le> tq_clock st1"
    by (rule process_lightens[OF Cons.prems(2) t Cons.prems(3,4) _ one]) simp
  have set: "tk_id ` set (t # ts) - {tk_id t} = tk_id ` set ts" using ids by auto
  have "u \<in> set (tq_rows st1) \<and> due H u" if u: "u \<in> set ts" for u
  proof -
    have "tk_id u \<noteq> tk_id t" using ids u by (metis image_eqI)
    moreover have "u \<in> set (tq_rows st)" "due H u" using Cons.prems(5) u by simp_all
    ultimately show ?thesis using step by (auto simp: run_lightens_def keeps_others_def due_def)
  qed
  then have "queue_load (run_cost b m) rank H {} st' + length ts \<le> queue_load (run_cost b m) rank H (tk_id ` set ts) st1
      \<and> queue_ok st' \<and> slow_recurrence H t0 st' \<and> tq_clock st1 \<le> tq_clock st'"
    using rest Cons.IH[of st1] step Cons.prems(4,6) by (auto simp: run_lightens_def)
  then show ?case using step unfolding run_lightens_def set by auto
qed simp

lemma claim_load:
  "queue_load c rank H (set (claim_ids batch st)) (fst (claim batch st)) = queue_load c rank H {} st"
proof -
  have "row_load c rank H S (if tk_id r \<in> S then lease t r else r) = row_load c rank H {} r" for S t r
    by (cases "tk_id r \<in> S") (simp_all add: row_load_def runs_left_def)
  then show ?thesis by (simp add: queue_load_def claim_rows update_where_def comp_def)
qed

lemma tick_lightens:
  assumes "queue_ok st" "slow_recurrence H t0 st" "t0 \<le> tq_clock st" "tq_clock st \<le> H"
    and "worker_tick handlers batch st = (l, st', Inr n)"
  shows "queue_load (run_cost b m) rank H {} st' + n \<le> queue_load (run_cost b m) rank H {} st
    \<and> queue_ok st' \<and> slow_recurrence H t0 st' \<and> tq_clock st \<le> tq_clock st'"
proof -
  let ?st1 = "fst (claim batch st)" and ?rows = "snd (claim batch st)"
  obtain l' where run: "process_tasks handlers ?rows ?st1 = (l', st', None)" and n: "n = length ?rows"
    using assms(5) by (auto simp: worker_tick_def split: prod.splits option.splits)
  have "t \<in> set (tq_rows ?st1) \<and> due H t" if t: "t \<in> set ?rows" for t
  proof -
    obtain r where "claimable (tq_clock st) r" "t = lease (tq_clock st) r" using claimed_leased[OF assms(1) t] by blast
    then have "due H t" using assms(4) by (simp add: due_def claimable_def)
    then show ?thesis using t by (auto simp: claim_def Let_def)
  qed
  moreover have "slow_recurrence H t0 ?st1"
    using assms(2) by (auto simp: slow_recurrence_def claim_rows in_update_where)
  moreover have "tk_id ` set ?rows = set (claim_ids batch st)" using claimed_ids[OF assms(1)] by simp
  ultimately show ?thesis
    using process_tasks_lighten[OF run queue_ok_claim[OF assms(1)], of H t0] assms(3) distinct_claimed[OF assms(1)]
    by (simp add: claim_rows claim_load n)
qed

lemma process_clock: "process_task handlers t st = (l, st', e) \<Longrightarrow> tq_clock st \<le> tq_clock st'"
proof -
  assume run: "process_task handlers t st = (l, st', e)"
  show ?thesis
  proof (cases "map_of handlers (tk_topic t)")
    case None
    then show ?thesis using run by (auto simp: process_task_def fail_task_def set_row_def)
  next
    case (Some h)
    obtain who where who: "run_handler h (tk_payload t) (tk_user_id t) = h who (tk_payload t)"
      by (cases "tk_user_id t") (auto simp: run_handler_def fun_eq_iff)
    have "case h who (tk_payload t) st of Inl (e, now) \<Rightarrow> tq_clock st \<le> now | Inr st1 \<Rightarrow> tq_clock st \<le> tq_clock st1"
      using modest_handler[OF Some] unfolding modest_def by (fastforce split: sum.splits)
    moreover have "tq_clock s' = tq_clock s" if "complete_task t s = Some s'" for s s'
      using that by (auto simp: complete_task_def Let_def set_row_def split: option.splits if_splits dest!: insert_task_SomeD)
    ultimately show ?thesis using run Some who
      by (auto simp: process_task_def Let_def fail_task_def retry_task_def set_row_def split: sum.splits prod.splits if_splits option.splits)
  qed
qed

lemma tick_clock: "tq_clock st \<le> tq_clock (fst (snd (worker_tick handlers batch st)))"
proof -
  have tasks: "process_tasks handlers ts s = (l, s', e) \<Longrightarrow> tq_clock s \<le> tq_clock s'" for ts s l s' e
  proof (induction ts arbitrary: s l)
    case (Cons t ts)
    obtain l1 s1 e1 where one: "process_task handlers t s = (l1, s1, e1)" by (metis prod_cases3)
    then have "tq_clock s \<le> tq_clock s1" by (rule process_clock)
    then show ?case using Cons one by (fastforce split: option.splits prod.splits)
  qed simp
  obtain l s e where run: "process_tasks handlers (snd (claim batch st)) (fst (claim batch st)) = (l, s, e)" by (metis prod_cases3)
  show ?thesis using tasks[OF run] run by (auto simp: worker_tick_def claim_rows split: prod.splits option.splits)
qed

lemma ticks_clock: "tq_clock st \<le> tq_clock (after_ticks n handlers batch st)"
  by (induction n arbitrary: st) (auto intro: order_trans[OF tick_clock])

text \<open>The drain ends within the load of the rows due by \<open>H\<close>, or it is still running after \<open>H\<close>.\<close>

lemma drain_returns:
  "queue_ok st \<Longrightarrow> slow_recurrence H t0 st \<Longrightarrow> t0 \<le> tq_clock st \<Longrightarrow> 0 < batch
    \<Longrightarrow> queue_load (run_cost b m) rank H {} st < fuel \<Longrightarrow>
    (\<exists>lines st' out. drain_queue fuel handlers batch st = Some (lines, st', out)
      \<and> (out = None \<longrightarrow> queue_ok st' \<and> count_where (claimable (tq_clock st')) (tq_rows st') = 0))
    \<or> H < tq_clock (after_ticks fuel handlers batch st)"
proof (induction fuel arbitrary: st)
  case (Suc fuel)
  obtain l st1 o1 where t: "worker_tick handlers batch st = (l, st1, o1)" by (metis prod_cases3)
  show ?case
  proof (cases "tq_clock st \<le> H")
    case False
    then show ?thesis using ticks_clock[of st "Suc fuel" batch] by linarith
  next
    case inside: True
    show ?thesis
    proof (cases o1)
      case (Inl e)
      then show ?thesis using t by simp
    next
      case (Inr n)
      note light = tick_lightens[OF Suc.prems(1-3) inside t[unfolded Inr]]
      show ?thesis
      proof (cases n)
        case 0
        then have none: "snd (claim batch st) = []"
          using t Inr by (auto simp: worker_tick_def split: prod.splits option.splits)
        then have st1: "st1 = fst (claim batch st)" and ids: "claim_ids batch st = []"
          using t Inr 0 claimed_ids[OF Suc.prems(1), of batch] by (auto simp: worker_tick_def split: prod.splits)
        have "tq_rows st1 = tq_rows st" by (simp add: st1 claim_rows ids update_where_id)
        moreover have "count_where (claimable (tq_clock st)) (tq_rows st) = 0"
          using length_claim_ids[of batch st] ids Suc.prems(4) by auto
        moreover have "tq_clock st1 = tq_clock st" by (simp add: st1 claim_rows)
        ultimately show ?thesis using t Inr 0 light by simp
      next
        case (Suc k)
        have "queue_load (run_cost b m) rank H {} st1 < fuel" using light Suc.prems(5) Suc by linarith
        from Suc.IH[OF _ _ _ Suc.prems(4) this] light Suc.prems(3)
        have "(\<exists>lines st' out. drain_queue fuel handlers batch st1 = Some (lines, st', out)
            \<and> (out = None \<longrightarrow> queue_ok st' \<and> count_where (claimable (tq_clock st')) (tq_rows st') = 0))
          \<or> H < tq_clock (after_ticks fuel handlers batch st1)" by auto
        then show ?thesis using t Inr Suc by auto
      qed
    qed
  qed
qed simp

end

section \<open>The program's worker\<close>

text \<open>Mails queue nothing; every other handler queues at most one mail.\<close>

definition mail_rank :: "string \<Rightarrow> nat" where
  "mail_rank topic = (if topic = email_send_topic then 0 else 1)"

lemma enqueue_rows:
  "tq_rows (enqueue topic p u k st) = tq_rows st @ [new_task (tq_next_id st) topic p u None k (tq_clock st)]"
  by (simp add: enqueue_def insert_task_def Let_def)

interpretation program: modest_worker "registered_handlers env" 1 5 mail_rank for env
proof
  fix topic h
  assume h: "map_of (registered_handlers env) topic = Some h"
  show "modest 1 5 mail_rank topic h"
    unfolding modest_def
  proof (intro allI)
    fix who p st
    show "case h who p st of
       Inl (e, now) \<Rightarrow> tq_clock st \<le> now
     | Inr st' \<Rightarrow> tq_clock st \<le> tq_clock st' \<and> (queue_ok st \<longrightarrow> queue_ok st')
         \<and> (\<exists>gone new. tq_rows st' = delete_where gone (tq_rows st) @ new \<and> (\<forall>r. gone r \<longrightarrow> \<not> task_pending r)
             \<and> length new \<le> 1
             \<and> (\<forall>r \<in> set new. mail_rank (tk_topic r) < mail_rank topic \<and> tk_recurring r = None
                  \<and> tk_attempts r = 0 \<and> nat (tk_max_attempts r) \<le> 5))"
    proof (cases "h who p st")
      case (Inl ei)
      then show ?thesis using registered_handlers_effect[OF h, where who = who and p = p and st = st] by simp
    next
      case (Inr st')
      then obtain n s where s: "st' = s\<lparr>tq_clock := tq_clock st + int n\<rparr>"
        "s = st \<or> s = fst (purge_finished_tasks queue_retention_days st)
           \<or> topic \<noteq> email_send_topic \<and> (\<exists>mail. s = enqueue email_send_topic mail None 5 st)"
        using registered_handlers_effect[OF h, where who = who and p = p and st = st] by auto
      have "\<exists>gone new. tq_rows s = delete_where gone (tq_rows st) @ new \<and> (\<forall>r. gone r \<longrightarrow> \<not> task_pending r)
             \<and> length new \<le> 1
             \<and> (\<forall>r \<in> set new. mail_rank (tk_topic r) < mail_rank topic \<and> tk_recurring r = None
                  \<and> tk_attempts r = 0 \<and> nat (tk_max_attempts r) \<le> 5)"
        using s(2)
      proof (elim disjE conjE exE)
        assume "s = st"
        then show ?thesis by (intro exI[of _ "\<lambda>_. False"] exI[of _ "[]"]) (simp add: delete_where_def)
      next
        assume "s = fst (purge_finished_tasks queue_retention_days st)"
        then show ?thesis
          by (intro exI[of _ "\<lambda>r. case tk_done_at r of None \<Rightarrow> False | Some t \<Rightarrow> t < tq_clock st - days queue_retention_days"]
              exI[of _ "[]"]) (auto simp: purge_finished_tasks_def Let_def task_pending_def split: option.splits)
      next
        fix mail assume "topic \<noteq> email_send_topic" "s = enqueue email_send_topic mail None 5 st"
        then show ?thesis
          by (intro exI[of _ "\<lambda>_. False"] exI[of _ "[new_task (tq_next_id st) email_send_topic mail None None 5 (tq_clock st)]"])
            (simp add: enqueue_rows mail_rank_def delete_where_def)
      qed
      moreover have "queue_ok st \<longrightarrow> queue_ok s" using s(2) by (auto intro: queue_ok_purge queue_ok_enqueue)
      ultimately show ?thesis using Inr s(1) by simp
    qed
  qed
qed

text \<open>A due row counts its runs left, eight times over when its handler may queue a mail.\<close>

definition drain_bound :: "instant \<Rightarrow> task_store \<Rightarrow> nat" where
  "drain_bound H st = sum_list (map (\<lambda>r. if due H r
     then Suc (nat (tk_max_attempts r - tk_attempts r)) * (if tk_topic r = email_send_topic then 1 else 8) else 0) (tq_rows st))"

lemma drain_bound_load: "drain_bound H st = queue_load (run_cost 1 5) mail_rank H {} st"
  unfolding drain_bound_def queue_load_def
  by (intro arg_cong[of _ _ sum_list] map_cong refl) (simp add: row_load_def runs_left_def run_cost_def mail_rank_def)

text \<open>
  C14.  The drain ends.  With every handler the program registers, whatever each raises or returns and
  however long it takes, \<open>while await self.tick()\<close> stops within as many ticks as the rows due by an instant
  \<open>H\<close> have runs left (each counted eight times unless it is a mail), and unless an exception escaped
  it nothing is claimable then; otherwise it is still running past \<open>H\<close>, where \<open>H\<close> is any instant before
  which no recurring task done from now on comes round again.  One worker, alone on the table.
\<close>

theorem drain_terminates:
  assumes "queue_ok st" "slow_recurrence H (tq_clock st) st" "0 < batch" "drain_bound H st < fuel"
  shows "(\<exists>lines st' out. drain_queue fuel (registered_handlers env) batch st = Some (lines, st', out)
      \<and> (out = None \<longrightarrow> queue_ok st' \<and> count_where (claimable (tq_clock st')) (tq_rows st') = 0))
    \<or> H < tq_clock (after_ticks fuel (registered_handlers env) batch st)"
  using program.drain_returns[OF assms(1,2) order_refl assms(3)] assms(4) by (simp add: drain_bound_load)

definition drain_demo :: task_store where
  "drain_demo = \<lparr>tq_rows = [new_task 2 ''issues.alert'' [] None None 1 0, demo_row 3 queue_purge_topic], tq_clock = 10, tq_next_id = 4\<rparr>"

lemma drain_terminates_witness:
  "\<exists>lines st'. drain_queue 100 (registered_handlers demo_env) 10 drain_demo = Some (lines, st', None)
    \<and> count_where (claimable (tq_clock st')) (tq_rows st') = 0"
proof -
  have "queue_ok drain_demo" by (simp add: queue_ok_def drain_demo_def demo_row_def)
  moreover have "slow_recurrence 1000 (tq_clock drain_demo) drain_demo" "drain_bound 1000 drain_demo < 100"
    by code_simp+
  ultimately have "(\<exists>lines st' out. drain_queue 100 (registered_handlers demo_env) 10 drain_demo = Some (lines, st', out)
      \<and> (out = None \<longrightarrow> queue_ok st' \<and> count_where (claimable (tq_clock st')) (tq_rows st') = 0))
    \<or> 1000 < tq_clock (after_ticks 100 (registered_handlers demo_env) 10 drain_demo)"
    by (intro drain_terminates) simp_all
  moreover have "\<not> 1000 < tq_clock (after_ticks 100 (registered_handlers demo_env) 10 drain_demo)" by code_simp
  moreover have "map_option (snd \<circ> snd) (drain_queue 100 (registered_handlers demo_env) 10 drain_demo) = Some None" by code_simp
  ultimately show ?thesis by auto
qed

end
