(* ===== verification/Event_Types.thy ===== *)
theory Event_Types
  imports Py_Text
begin

text \<open>
  The vocabulary of business events: the checks made when an event class is created and the catalog
  it registers in (\<open>apps/shared/events/types.py\<close>, \<open>catalog.py\<close>), and what a process's mounts activate
  (\<open>wiring.py\<close>): owners, durable reactions with their queue topics, spread handlers.  A class is a
  record of its attributes; its identity is a serial number and its method resolution order the
  serials of itself and its bases, most specific first.  Handlers are named by their identity.
\<close>

section \<open>Event classes\<close>

datatype field_value =
    FNone
  | FUuid uuid
  | FTime instant
  | FJson json

text \<open>
  A field of the dataclass: its name, its default, and whether its annotation carries a uuid or a
  datetime.
\<close>

record event_field =
  ef_name :: string
  ef_default :: "field_value option"
  ef_uuid :: bool
  ef_time :: bool

record event_class =
  ec_serial :: nat
  ec_module :: string
  ec_qualname :: string
  ec_app_name :: string
  ec_verb :: string
  ec_kind :: string
  ec_icon :: string
  ec_mro :: "nat list"
  ec_annotations :: "string list"
  ec_fields :: "event_field list"
  ec_org_scoped :: bool

datatype event_error =
    SecretFieldError string string
  | KindTakenError string
  | NoKindError string
  | DuplicateTopicError string
  | UndeclaredError string

definition secret_fragments :: "string list" where
  "secret_fragments = [''token'', ''password'', ''passphrase'', ''passcode'', ''secret'', ''credential'',
     ''apikey'', ''otp'', ''recoverycode'', ''jwt'']"

definition is_secret_field_name :: "string \<Rightarrow> bool" where
  "is_secret_field_name name =
     (if name = ''id'' \<or> endswith name ''_id'' then False
      else let normalized = filter (\<lambda>c. c \<noteq> CHR ''_'') (lower name) in
           \<exists>fragment \<in> set secret_fragments. contains normalized fragment)"

definition refuse_secret_fields :: "event_class \<Rightarrow> event_error + unit" where
  "refuse_secret_fields cls =
     (case find is_secret_field_name (ec_annotations cls) of
        Some name \<Rightarrow> Inl (SecretFieldError (ec_qualname cls) name)
      | None \<Rightarrow> Inr ())"

text \<open>An event: its class and the values of its fields, in the order of the dataclass.\<close>

record event =
  ev_class :: event_class
  ev_fields :: "(string, field_value) dict"

definition ev_uuid :: "event \<Rightarrow> string \<Rightarrow> uuid option" where
  "ev_uuid e name = (case map_of (ev_fields e) name of Some (FUuid u) \<Rightarrow> Some u | _ \<Rightarrow> None)"

definition ev_text :: "event \<Rightarrow> string \<Rightarrow> string option" where
  "ev_text e name = (case map_of (ev_fields e) name of Some (FJson (JStr s)) \<Rightarrow> Some s | _ \<Rightarrow> None)"

text \<open>
  \<open>from_payload\<close>: keys that are no field are ignored, and so is a null in a required field, which makes
  the constructor raise (\<open>None\<close>).  Strings are parsed back where the annotation says so, and kept as
  they are when they do not parse.  \<open>fromiso\<close> stands for the grammar of \<open>datetime.fromisoformat\<close>.
\<close>

definition reparse :: "(string \<Rightarrow> instant option) \<Rightarrow> event_field \<Rightarrow> json \<Rightarrow> field_value" where
  "reparse fromiso f v =
     (case v of
        JNull \<Rightarrow> FNone
      | JStr s \<Rightarrow>
          (case if ef_uuid f then uuid_parse s else None of
             Some u \<Rightarrow> FUuid u
           | None \<Rightarrow> (case if ef_time f then fromiso s else None of
               Some t \<Rightarrow> FTime t | None \<Rightarrow> FJson (JStr s)))
      | _ \<Rightarrow> FJson v)"

definition field_from ::
  "(string \<Rightarrow> instant option) \<Rightarrow> payload \<Rightarrow> event_field \<Rightarrow> (string \<times> field_value) option" where
  "field_from fromiso payload f =
     (case map_of payload (ef_name f) of
        None \<Rightarrow> map_option (Pair (ef_name f)) (ef_default f)
      | Some v \<Rightarrow>
          if v = JNull \<and> ef_default f = None then None
          else Some (ef_name f, reparse fromiso f v))"

definition from_payload :: "(string \<Rightarrow> instant option) \<Rightarrow> event_class \<Rightarrow> payload \<Rightarrow> event option" where
  "from_payload fromiso cls payload =
     (let values = map (field_from fromiso payload) (ec_fields cls) in
      if None \<in> set values then None
      else Some \<lparr>ev_class = cls, ev_fields = List.map_filter id values\<rparr>)"

section \<open>The catalog\<close>

type_synonym catalog = "(string, event_class) dict"

definition declared_at :: "event_class \<Rightarrow> string \<times> string" where
  "declared_at cls = (ec_module cls, ec_qualname cls)"

definition catalog_register :: "event_class \<Rightarrow> catalog \<Rightarrow> event_error + catalog" where
  "catalog_register cls cat =
     (case map_of cat (ec_kind cls) of
        Some claimed \<Rightarrow>
          if declared_at claimed \<noteq> declared_at cls then Inl (KindTakenError (ec_kind cls))
          else Inr (AList.update (ec_kind cls) cls cat)
      | None \<Rightarrow> Inr (AList.update (ec_kind cls) cls cat))"

definition class_for :: "catalog \<Rightarrow> string \<Rightarrow> event_class option" where
  "class_for cat kind = map_of cat kind"

text \<open>
  \<open>__init_subclass__\<close>: a class with an app and a verb gets its kind, one without keeps the kind it
  inherits; a class with a kind enters the catalog.
\<close>

definition class_kind :: "event_class \<Rightarrow> string" where
  "class_kind cls =
     (if ec_app_name cls \<noteq> [] \<and> ec_verb cls \<noteq> [] then ec_app_name cls @ ''.'' @ ec_verb cls
      else ec_kind cls)"

definition init_subclass :: "event_class \<Rightarrow> catalog \<Rightarrow> event_error + event_class \<times> catalog" where
  "init_subclass cls cat =
     bind_err (refuse_secret_fields cls) (\<lambda>_.
       let cls' = cls\<lparr>ec_kind := class_kind cls\<rparr> in
       if ec_kind cls' \<noteq> [] then bind_err (catalog_register cls' cat) (\<lambda>cat'. Inr (cls', cat'))
       else Inr (cls', cat))"

text \<open>\<open>issubclass(cls, base)\<close>.\<close>

definition is_subclass :: "event_class \<Rightarrow> event_class \<Rightarrow> bool" where
  "is_subclass cls base \<longleftrightarrow> ec_serial base \<in> set (ec_mro cls)"

definition kinds_of :: "catalog \<Rightarrow> event_class \<Rightarrow> string list" where
  "kinds_of cat event_type = map fst (filter (\<lambda>(kind, cls). is_subclass cls event_type) cat)"

section \<open>The wiring\<close>

record reaction =
  rx_name :: string
  rx_topic :: string
  rx_as_actor :: bool
  rx_app :: string

type_synonym handler_id = nat

record wiring =
  wr_owners :: "(event_class, string) dict"
  wr_reactions :: "(event_class, reaction list) dict"
  wr_spread :: "(event_class, handler_id list) dict"

definition wiring_init :: wiring where
  "wiring_init = \<lparr>wr_owners = [], wr_reactions = [], wr_spread = []\<rparr>"

fun declare_events :: "event_class list \<Rightarrow> wiring \<Rightarrow> event_error option \<times> wiring" where
  "declare_events [] w = (None, w)" |
  "declare_events (t # ts) w =
     (if ec_kind t = [] then (Some (NoKindError (ec_qualname t)), w)
      else declare_events ts (w\<lparr>wr_owners := AList.update t (ec_app_name t) (wr_owners w)\<rparr>))"

definition is_declared :: "wiring \<Rightarrow> event_class \<Rightarrow> bool" where
  "is_declared w t \<longleftrightarrow> map_of (wr_owners w) t \<noteq> None"

definition owner_of :: "wiring \<Rightarrow> event_class \<Rightarrow> string option" where
  "owner_of w t = map_of (wr_owners w) t"

definition by_app :: "wiring \<Rightarrow> (string, event_class list) dict" where
  "by_app w = map (\<lambda>app. (app, map fst (filter (\<lambda>(t, a). a = app) (wr_owners w))))
     (sort (remdups (map snd (wr_owners w))))"

definition all_reactions :: "wiring \<Rightarrow> reaction list" where
  "all_reactions w = concat (map snd (wr_reactions w))"

definition consumer_topic :: "event_class \<Rightarrow> string \<Rightarrow> string" where
  "consumer_topic t name = ''evt:'' @ ec_kind t @ '':'' @ name"

definition add_consumer ::
  "event_class \<Rightarrow> string \<Rightarrow> bool \<Rightarrow> string \<Rightarrow> wiring \<Rightarrow> event_error + string \<times> wiring" where
  "add_consumer t name as_actor app w =
     (if ec_kind t = [] then Inl (NoKindError (ec_qualname t))
      else let topic = consumer_topic t name in
        if \<exists>r \<in> set (all_reactions w). rx_topic r = topic then Inl (DuplicateTopicError topic)
        else Inr (topic, w\<lparr>wr_reactions := AList.update t
               (dict_get (wr_reactions w) t []
                  @ [\<lparr>rx_name = name, rx_topic = topic, rx_as_actor = as_actor, rx_app = app\<rparr>])
               (wr_reactions w)\<rparr>))"

text \<open>The value a class-keyed dictionary holds for a class of a resolution order.\<close>

definition class_get :: "(event_class, 'a list) dict \<Rightarrow> nat \<Rightarrow> 'a list" where
  "class_get d serial = (case find (\<lambda>(t, _). ec_serial t = serial) d of
     None \<Rightarrow> [] | Some (_, xs) \<Rightarrow> xs)"

definition consumers_of :: "wiring \<Rightarrow> event_class \<Rightarrow> reaction list" where
  "consumers_of w t = concat (map (class_get (wr_reactions w)) (ec_mro t))"

definition add_spread_handler :: "event_class \<Rightarrow> handler_id \<Rightarrow> wiring \<Rightarrow> wiring" where
  "add_spread_handler t h w =
     w\<lparr>wr_spread := AList.update t (dict_get (wr_spread w) t [] @ [h]) (wr_spread w)\<rparr>"

definition spread_kinds :: "wiring \<Rightarrow> string list" where
  "spread_kinds w = filter (\<lambda>k. k \<noteq> []) (map (ec_kind \<circ> fst) (wr_spread w))"

text \<open>Each handler once, at its first position along the resolution order.\<close>

definition spread_handlers_for :: "wiring \<Rightarrow> event_class \<Rightarrow> handler_id list" where
  "spread_handlers_for w t =
     first_occurrences [] (concat (map (class_get (wr_spread w)) (ec_mro t)))"

definition wiring_snapshot :: "wiring \<Rightarrow> wiring" where
  "wiring_snapshot w = \<lparr>wr_owners = wr_owners w, wr_reactions = wr_reactions w, wr_spread = wr_spread w\<rparr>"

definition wiring_restore :: "wiring \<Rightarrow> wiring \<Rightarrow> wiring" where
  "wiring_restore snap w = w\<lparr>wr_owners := wr_owners snap, wr_reactions := wr_reactions snap,
     wr_spread := wr_spread snap\<rparr>"

section \<open>Facts\<close>

text \<open>The catalog files every class under its own kind, one declaration per kind.\<close>

definition catalog_ok :: "catalog \<Rightarrow> bool" where
  "catalog_ok cat \<longleftrightarrow> distinct (map fst cat) \<and> (\<forall>(k, c) \<in> set cat. ec_kind c = k)"

lemma in_AList_update:
  "distinct (map fst d) \<Longrightarrow> (k', v') \<in> set (AList.update k v d) \<longleftrightarrow>
     (k' = k \<and> v' = v) \<or> (k' \<noteq> k \<and> (k', v') \<in> set d)"
proof -
  assume d: "distinct (map fst d)"
  then have "distinct (map fst (AList.update k v d))" by (simp add: distinct_keys_update)
  then have "(k', v') \<in> set (AList.update k v d) \<longleftrightarrow> map_of (AList.update k v d) k' = Some v'"
    by simp
  then show ?thesis using d by (auto simp: map_of_AList_update)
qed

lemma catalog_ok_register [invs]:
  assumes "catalog_ok cat" "catalog_register cls cat = Inr cat'"
  shows "catalog_ok cat' \<and> class_for cat' (ec_kind cls) = Some cls
    \<and> (\<forall>k. k \<noteq> ec_kind cls \<longrightarrow> class_for cat' k = class_for cat k)"
proof -
  have cat': "cat' = AList.update (ec_kind cls) cls cat"
    using assms(2) by (auto simp: catalog_register_def split: option.splits if_splits)
  then show ?thesis
    using assms(1)
    by (auto simp: catalog_ok_def distinct_keys_update in_AList_update class_for_def
        map_of_AList_update)
qed

text \<open>No two durable reactions share a queue topic.\<close>

definition wiring_ok :: "wiring \<Rightarrow> bool" where
  "wiring_ok w \<longleftrightarrow> distinct (map fst (wr_reactions w)) \<and> distinct (map rx_topic (all_reactions w))"

lemma all_reactions_update:
  assumes "distinct (map fst d)"
  shows "mset (concat (map snd (AList.update t (dict_get d t [] @ [r]) d)))
    = add_mset r (mset (concat (map snd d)))"
  using assms
proof (induction d)
  case (Cons e d)
  obtain u xs where e: "e = (u, xs)" by force
  show ?case
  proof (cases "u = t")
    case False
    then have "dict_get (e # d) t [] = dict_get d t []" by (simp add: e dict_get_def)
    then show ?thesis using Cons False by (simp add: e)
  qed (simp add: e dict_get_def)
qed (simp add: dict_get_def)

lemma wiring_ok_add_consumer [invs]:
  assumes "wiring_ok w" "add_consumer t name as_actor app w = Inr (topic, w')"
  shows "wiring_ok w' \<and> topic = consumer_topic t name
    \<and> mset (all_reactions w')
      = add_mset \<lparr>rx_name = name, rx_topic = topic, rx_as_actor = as_actor, rx_app = app\<rparr> (mset (all_reactions w))"
proof -
  define r where "r = \<lparr>rx_name = name, rx_topic = topic, rx_as_actor = as_actor, rx_app = app\<rparr>"
  have topic: "topic = consumer_topic t name"
    and new: "topic \<notin> rx_topic ` set (all_reactions w)"
    and w': "w' = w\<lparr>wr_reactions := AList.update t (dict_get (wr_reactions w) t [] @ [r]) (wr_reactions w)\<rparr>"
    using assms(2) by (auto simp: add_consumer_def Let_def r_def split: if_splits)
  have ms: "mset (all_reactions w') = add_mset r (mset (all_reactions w))"
    using assms(1) all_reactions_update[of "wr_reactions w" t r]
    by (simp add: wiring_ok_def all_reactions_def w')
  have "mset (map rx_topic (all_reactions w')) = mset (map rx_topic (r # all_reactions w))"
    using ms by (metis mset.simps(2) mset_map)
  then have "distinct (map rx_topic (all_reactions w'))"
    using assms(1) new by (metis (no_types, lifting) distinct.simps(2) list.set_map list.simps(9)
        mset_eq_imp_distinct_iff r_def reaction.select_convs(2) wiring_ok_def)
  then show ?thesis
    using assms(1) ms topic unfolding r_def
    by (simp add: wiring_ok_def w' distinct_keys_update)
qed

end
