(* ===== verification/Py_Datetime.thy ===== *)
theory Py_Datetime
  imports Py_Text
begin

text \<open>
  Python's \<open>date\<close> and \<open>datetime\<close> as the components use them, in UTC: the proleptic Gregorian
  calendar on day numbers (\<open>date.toordinal\<close>), weekdays, \<open>isoformat\<close>, and the calendar day of an instant.
  The conversion from day numbers is the algorithm of the standard library; it is inverse to the
  conversion to them.
\<close>

section \<open>The calendar\<close>

definition is_leap :: "int \<Rightarrow> bool" where
  "is_leap y \<longleftrightarrow> y mod 4 = 0 \<and> (y mod 100 \<noteq> 0 \<or> y mod 400 = 0)"

definition days_before_year :: "int \<Rightarrow> int" where
  "days_before_year year =
     (let y = year - 1 in y * 365 + y div 4 - y div 100 + y div 400)"

definition month_offsets :: "int list" where
  "month_offsets = [0, 31, 59, 90, 120, 151, 181, 212, 243, 273, 304, 334]"

definition days_before_month :: "bool \<Rightarrow> nat \<Rightarrow> int" where
  "days_before_month leap m = month_offsets ! (m - 1) + (if m > 2 \<and> leap then 1 else 0)"

definition days_in_month :: "bool \<Rightarrow> nat \<Rightarrow> int" where
  "days_in_month leap m = (if m = 2 \<and> leap then 29
     else [31, 28, 31, 30, 31, 30, 31, 31, 30, 31, 30, 31] ! (m - 1))"

definition ymd2ord :: "int \<times> nat \<times> int \<Rightarrow> date" where
  "ymd2ord ymd = (case ymd of (y, m, d) \<Rightarrow>
     days_before_year y + days_before_month (is_leap y) m + d)"

text \<open>The month and day of the \<open>n\<close>-th day (from 0) of a year.\<close>

definition day_of_year :: "bool \<Rightarrow> int \<Rightarrow> nat \<times> int" where
  "day_of_year leap n =
     (let month = nat ((n + 50) div 32); preceding = days_before_month leap month in
      if preceding > n
      then (month - 1, n - (preceding - days_in_month leap (month - 1)) + 1)
      else (month, n - preceding + 1))"

definition ord2ymd :: "date \<Rightarrow> int \<times> nat \<times> int" where
  "ord2ymd ord =
     (let n = ord - 1;
          n400 = n div 146097; r400 = n mod 146097;
          n100 = r400 div 36524; r100 = r400 mod 36524;
          n4 = r100 div 1461; r4 = r100 mod 1461;
          n1 = r4 div 365; r1 = r4 mod 365;
          year = n400 * 400 + 1 + n100 * 100 + n4 * 4 + n1 in
      if n1 = 4 \<or> n100 = 4 then (year - 1, 12, 31)
      else (case day_of_year (n1 = 3 \<and> (n4 \<noteq> 24 \<or> n100 = 3)) r1 of (m, d) \<Rightarrow> (year, m, d)))"

definition weekday :: "date \<Rightarrow> int" where
  "weekday d = (d + 6) mod 7"

definition epoch_day :: date where
  "epoch_day = 719163"

definition date_of :: "instant \<Rightarrow> date" where
  "date_of t = epoch_day + t div days 1"

definition start_of_day :: "date \<Rightarrow> instant" where
  "start_of_day d = days (d - epoch_day)"

section \<open>Text\<close>

definition zero_pad :: "nat \<Rightarrow> int \<Rightarrow> string" where
  "zero_pad w i = (let s = str_int i in replicate (w - length s) CHR ''0'' @ s)"

definition date_isoformat :: "date \<Rightarrow> string" where
  "date_isoformat o' = (case ord2ymd o' of (y, m, d) \<Rightarrow>
     zero_pad 4 y @ ''-'' @ zero_pad 2 (int m) @ ''-'' @ zero_pad 2 d)"

definition isoformat :: "instant \<Rightarrow> string" where
  "isoformat t =
     (let us = t mod days 1; s = us div 1000000; frac = us mod 1000000 in
      date_isoformat (date_of t) @ ''T'' @ zero_pad 2 (s div 3600) @ '':'' @ zero_pad 2 (s div 60 mod 60)
        @ '':'' @ zero_pad 2 (s mod 60) @ (if frac = 0 then [] else ''.'' @ zero_pad 6 frac)
        @ ''+00:00'')"

definition format_hm :: "int \<Rightarrow> string" where
  "format_hm wall = (let s = wall mod days 1 div 1000000 in
     zero_pad 2 (s div 3600) @ '':'' @ zero_pad 2 (s div 60 mod 60))"

definition month_abbrevs :: "string list" where
  "month_abbrevs = [''Jan'', ''Feb'', ''Mar'', ''Apr'', ''May'', ''Jun'', ''Jul'', ''Aug'', ''Sep'', ''Oct'', ''Nov'', ''Dec'']"

definition month_of :: "date \<Rightarrow> int \<times> nat" where
  "month_of d = (case ord2ymd d of (y, m, _) \<Rightarrow> (y, m))"

definition month_abbrev :: "date \<Rightarrow> string" where
  "month_abbrev d = month_abbrevs ! (snd (month_of d) - 1)"

text \<open>A datetime exists from the year 1 to the year 9999; a conversion that leaves it raises.\<close>

datatype datetime_error = OutOfRange

definition last_ordinal :: date where "last_ordinal = 3652059"

definition in_datetime_range :: "int \<Rightarrow> bool" where
  "in_datetime_range t \<longleftrightarrow> start_of_day 1 \<le> t \<and> t < start_of_day (last_ordinal + 1)"

section \<open>Facts\<close>

lemma block_div: "0 \<le> r \<Longrightarrow> r < k \<Longrightarrow> (r + k * q) div k = (q :: int)"
  by (metis add_0_right div_mult_self2 div_pos_pos_trivial add.commute order_less_le_trans order_less_irrefl)

lemma block_mod: "0 < k \<Longrightarrow> 0 < r \<Longrightarrow> r \<le> k \<Longrightarrow> (r + k * q) mod k = 0 \<longleftrightarrow> r = (k :: int)"
  by (metis mod_mult_self2 mod_pos_pos_trivial mod_self order_le_less order_less_irrefl)

lemma days_before_year_blocks:
  assumes "0 \<le> b" "b \<le> 3" "0 \<le> c" "c \<le> 24" "0 \<le> e" "e \<le> 3"
  shows "days_before_year (a * 400 + 1 + b * 100 + c * 4 + e)
    = a * 146097 + b * 36524 + c * 1461 + e * 365"
proof -
  let ?y = "a * 400 + b * 100 + c * 4 + e"
  have y: "?y = e + 4 * (a * 100 + b * 25 + c)" "?y = (c * 4 + e) + 100 * (a * 4 + b)"
    "?y = (b * 100 + c * 4 + e) + 400 * a" by simp_all
  have "?y div 4 = a * 100 + b * 25 + c"
    unfolding y(1) using assms by (intro block_div) linarith+
  moreover have "?y div 100 = a * 4 + b"
    unfolding y(2) using assms by (intro block_div) linarith+
  moreover have "?y div 400 = a"
    unfolding y(3) using assms by (intro block_div) linarith+
  moreover have "a * 400 + 1 + b * 100 + c * 4 + e - 1 = ?y" by simp
  ultimately show ?thesis
    unfolding days_before_year_def Let_def by (simp only:) (simp add: algebra_simps)
qed

lemma is_leap_blocks:
  assumes "0 \<le> b" "b \<le> 3" "0 \<le> c" "c \<le> 24" "0 \<le> e" "e \<le> (3 :: int)"
  shows "is_leap (a * 400 + 1 + b * 100 + c * 4 + e) \<longleftrightarrow> e = 3 \<and> (c \<noteq> 24 \<or> b = 3)"
proof -
  let ?y = "a * 400 + 1 + b * 100 + c * 4 + e"
  have y: "?y = (e + 1) + 4 * (a * 100 + b * 25 + c)" "?y = (c * 4 + e + 1) + 100 * (a * 4 + b)"
    "?y = (b * 100 + c * 4 + e + 1) + 400 * a" by simp_all
  have "?y mod 4 = 0 \<longleftrightarrow> e + 1 = 4"
    unfolding y(1) using assms by (intro block_mod) linarith+
  moreover have "?y mod 100 = 0 \<longleftrightarrow> c * 4 + e + 1 = 100"
    unfolding y(2) using assms by (intro block_mod) linarith+
  moreover have "?y mod 400 = 0 \<longleftrightarrow> b * 100 + c * 4 + e + 1 = 400"
    unfolding y(3) using assms by (intro block_mod) linarith+
  moreover have "e + 1 = 4 \<longleftrightarrow> e = 3" by linarith
  moreover have "c * 4 + e + 1 = 100 \<longleftrightarrow> c = 24 \<and> e = 3" using assms by linarith
  moreover have "b * 100 + c * 4 + e + 1 = 400 \<longleftrightarrow> b = 3 \<and> c = 24 \<and> e = 3" using assms by linarith
  ultimately show ?thesis unfolding is_leap_def by (simp only:) blast
qed

lemma day_of_year_all:
  "list_all (\<lambda>n. case day_of_year False n of (m, d) \<Rightarrow>
     days_before_month False m + d = n + 1 \<and> 1 \<le> m \<and> m \<le> 12 \<and> 1 \<le> d \<and> d \<le> days_in_month False m)
     [0..364]"
  "list_all (\<lambda>n. case day_of_year True n of (m, d) \<Rightarrow>
     days_before_month True m + d = n + 1 \<and> 1 \<le> m \<and> m \<le> 12 \<and> 1 \<le> d \<and> d \<le> days_in_month True m)
     [0..365]"
  by code_simp+

lemma day_of_year:
  assumes "0 \<le> n" "n < (if leap then 366 else 365)" "day_of_year leap n = (m, d)"
  shows "days_before_month leap m + d = n + 1" "1 \<le> m" "m \<le> 12" "1 \<le> d" "d \<le> days_in_month leap m"
proof -
  have "n \<in> set [0..if leap then 365 else 364]" using assms(1,2) by (auto split: if_splits)
  then have "days_before_month leap m + d = n + 1 \<and> 1 \<le> m \<and> m \<le> 12 \<and> 1 \<le> d \<and> d \<le> days_in_month leap m"
    using bspec[OF day_of_year_all(1)[unfolded list_all_iff], of n]
      bspec[OF day_of_year_all(2)[unfolded list_all_iff], of n] assms(3)
    by (cases leap) simp_all
  then show "days_before_month leap m + d = n + 1" "1 \<le> m" "m \<le> 12" "1 \<le> d" "d \<le> days_in_month leap m"
    by simp_all
qed

lemma ymd2ord_ord2ymd: "ymd2ord (ord2ymd n) = n"
proof -
  define a where "a = (n - 1) div 146097"
  define r where "r = (n - 1) mod 146097"
  define b where "b = r div 36524"
  define r1 where "r1 = r mod 36524"
  define c where "c = r1 div 1461"
  define r2 where "r2 = r1 mod 1461"
  define e where "e = r2 div 365"
  define r3 where "r3 = r2 mod 365"
  have n: "n - 1 = a * 146097 + r" "0 \<le> r" "r < 146097" by (simp_all add: a_def r_def)
  have b: "r = b * 36524 + r1" "0 \<le> r1" "r1 < 36524" "0 \<le> b" "b \<le> 4"
    using n by (simp_all add: b_def r1_def)
  have c: "r1 = c * 1461 + r2" "0 \<le> r2" "r2 < 1461" "0 \<le> c" "c \<le> 24"
    using b by (simp_all add: c_def r2_def)
  have e: "r2 = e * 365 + r3" "0 \<le> r3" "r3 < 365" "0 \<le> e" "e \<le> 4"
    using c by (simp_all add: e_def r3_def)
  have split: "ord2ymd n = (if e = 4 \<or> b = 4 then (a * 400 + 1 + b * 100 + c * 4 + e - 1, 12, 31)
      else (case day_of_year (e = 3 \<and> (c \<noteq> 24 \<or> b = 3)) r3 of
        (m, d) \<Rightarrow> (a * 400 + 1 + b * 100 + c * 4 + e, m, d)))"
    unfolding ord2ymd_def Let_def
    by (simp add: a_def r_def b_def r1_def c_def r2_def e_def r3_def)
  show ?thesis
  proof (cases "e = 4 \<or> b = 4")
    case False
    then have be: "b \<le> 3" "e \<le> 3" using b e by linarith+
    obtain m d where md: "day_of_year (e = 3 \<and> (c \<noteq> 24 \<or> b = 3)) r3 = (m, d)" by force
    have "days_before_month (e = 3 \<and> (c \<noteq> 24 \<or> b = 3)) m + d = r3 + 1"
      using e(2,3) md by (intro day_of_year(1)) (auto split: if_splits)
    then show ?thesis
      using False n(1) b(1) c(1) e(1) days_before_year_blocks[of b c e a] is_leap_blocks[of b c e a]
        be b(4) c(4,5) e(4)
      unfolding split ymd2ord_def md by (simp add: md)
  next
    case True
    have dec: "days_before_month leap 12 = 334 + (if leap then 1 else 0)" for leap
      by (simp add: days_before_month_def month_offsets_def)
    show ?thesis
    proof (cases "b = 4")
      case True
      then have z: "c = 0" "e = 0" "r3 = 0" using n b c e by linarith+
      have "a * 400 + 400 = a * 400 + 1 + 3 * 100 + 24 * 4 + 3" by simp
      moreover have "a * 400 + 1 + 3 * 100 + 24 * 4 + 3 - 1 + 0 = a * 400 + (399::int)" by simp
      ultimately have "days_before_year (a * 400 + 400) = a * 146097 + 3 * 36524 + 24 * 1461 + 3 * 365"
        "is_leap (a * 400 + 400)"
        using days_before_year_blocks[of 3 24 3 a] is_leap_blocks[of 3 24 3 a]
        by (simp_all add: add.commute)
      then show ?thesis using True z n(1) b(1) c(1) e(1)
        unfolding split ymd2ord_def by (simp add: dec add.commute)
    next
      case False
      then have e4: "e = 4" "b \<le> 3" using \<open>e = 4 \<or> b = 4\<close> b by linarith+
      then have r3: "r3 = 0" using c(3) e by linarith
      let ?y = "a * 400 + 1 + b * 100 + c * 4 + 3"
      have "\<not> (c = 24 \<and> b < 3)" using e4 c b(3) e(1) r3 by linarith
      then have "c \<noteq> 24 \<or> b = 3" using e4(2) by linarith
      then have "is_leap ?y" using is_leap_blocks[of b c 3 a] e4 b(4) c(4,5) by simp
      moreover have "days_before_year ?y = a * 146097 + b * 36524 + c * 1461 + 3 * 365"
        using days_before_year_blocks[of b c 3 a] e4 b(4) c(4,5) by simp
      moreover have "a * 400 + 1 + b * 100 + c * 4 + e - 1 = ?y" using e4 by simp
      ultimately show ?thesis using e4 r3 n(1) b(1) c(1) e(1)
        unfolding split ymd2ord_def by (simp add: dec)
    qed
  qed
qed

lemma ord2ymd_inj: "ord2ymd m = ord2ymd n \<longleftrightarrow> m = n"
  by (metis ymd2ord_ord2ymd)

lemma weekday_range: "0 \<le> weekday d \<and> weekday d < 7"
  by (simp add: weekday_def)

lemma start_of_day_le: "start_of_day (date_of t) \<le> t"
proof -
  have "t div 86400000000 * 86400000000 \<le> t"
    using minus_mod_eq_div_mult[of t 86400000000] by simp
  then show ?thesis by (simp add: start_of_day_def date_of_def)
qed

lemma date_of_mono: "s \<le> t \<Longrightarrow> date_of s \<le> date_of t"
  by (simp add: date_of_def zdiv_mono1)

text \<open>The fields of a date are in range, and the conversions are inverse on such fields.\<close>

lemma ord2ymd_valid:
  assumes "ord2ymd n = (y, m, d)"
  shows "1 \<le> m" "m \<le> 12" "1 \<le> d" "d \<le> days_in_month (is_leap y) m"
proof -
  define r where "r = (n - 1) mod 146097"
  define b where "b = r div 36524"
  define r1 where "r1 = r mod 36524"
  define c where "c = r1 div 1461"
  define r2 where "r2 = r1 mod 1461"
  define e where "e = r2 div 365"
  define r3 where "r3 = r2 mod 365"
  define a where "a = (n - 1) div 146097"
  have b: "r = b * 36524 + r1" "0 \<le> r1" "r1 < 36524" "0 \<le> b" "b \<le> 4"
    by (simp_all add: b_def r1_def r_def)
  have c: "r1 = c * 1461 + r2" "0 \<le> r2" "r2 < 1461" "0 \<le> c" "c \<le> 24"
    using b by (simp_all add: c_def r2_def)
  have e: "r2 = e * 365 + r3" "0 \<le> r3" "r3 < 365" "0 \<le> e" "e \<le> 4"
    using c by (simp_all add: e_def r3_def)
  have split: "ord2ymd n = (if e = 4 \<or> b = 4 then (a * 400 + 1 + b * 100 + c * 4 + e - 1, 12, 31)
      else (case day_of_year (e = 3 \<and> (c \<noteq> 24 \<or> b = 3)) r3 of
        (m, d) \<Rightarrow> (a * 400 + 1 + b * 100 + c * 4 + e, m, d)))"
    unfolding ord2ymd_def Let_def
    by (simp add: a_def r_def b_def r1_def c_def r2_def e_def r3_def)
  have "1 \<le> m \<and> m \<le> 12 \<and> 1 \<le> d \<and> d \<le> days_in_month (is_leap y) m"
  proof (cases "e = 4 \<or> b = 4")
    case True
    then show ?thesis using assms by (auto simp: split days_in_month_def)
  next
    case False
    then have be: "b \<le> 3" "e \<le> 3" using b e by linarith+
    have y: "y = a * 400 + 1 + b * 100 + c * 4 + e" "day_of_year (e = 3 \<and> (c \<noteq> 24 \<or> b = 3)) r3 = (m, d)"
      using assms False by (auto simp: split split: prod.splits)
    have leap: "is_leap y = (e = 3 \<and> (c \<noteq> 24 \<or> b = 3))"
      unfolding y(1) using is_leap_blocks[of b c e a] be b(4) c(4,5) e(4) by simp
    have "r3 < (if e = 3 \<and> (c \<noteq> 24 \<or> b = 3) then 366 else 365)" using e(3) by simp
    from day_of_year(2-5)[OF e(2) this y(2)] show ?thesis unfolding leap by blast
  qed
  then show "1 \<le> m" "m \<le> 12" "1 \<le> d" "d \<le> days_in_month (is_leap y) m" by simp_all
qed

lemma days_in_month_le: "1 \<le> m \<Longrightarrow> m \<le> 12 \<Longrightarrow> days_in_month leap m \<le> 31"
proof -
  assume "1 \<le> m" "m \<le> 12"
  then have "m \<in> set [1..<13]" by simp
  moreover have "list_all (\<lambda>m. days_in_month False m \<le> 31) [1..<13]"
    "list_all (\<lambda>m. days_in_month True m \<le> 31) [1..<13]" by code_simp+
  ultimately show ?thesis by (cases leap) (auto simp: list_all_iff)
qed

lemma start_of_day_split: "t = start_of_day (date_of t) + t mod days 1"
  using mult_div_mod_eq[of "days 1" t] by (simp add: start_of_day_def date_of_def)

end
