(* ===== verification/Event_Journal.thy ===== *)
theory Event_Journal
  imports Event_Types Task_Queue Py_Datetime
begin

text \<open>
  \<open>apps/shared/events/repository.py\<close>: the business journal and what is kept beside it (the durable
  consumers' cursors, the ledger of dispatched consumers), the mapping of an event to its record and
  of a record to a task's payload, the statements of the delivery and the reads of the activity
  surfaces.  A ledger is a locale: insert-or-nothing that says whether the key was new.
\<close>

section \<open>Records\<close>

record business_event =
  be_id :: uuid
  be_created_at :: instant
  be_app_name :: string
  be_verb :: string
  be_icon :: string
  be_user_id :: "uuid option"
  be_user_name :: "string option"
  be_org_id :: "uuid option"
  be_org_name :: "string option"
  be_entity_id :: "uuid option"
  be_entity_name :: "string option"
  be_request_id :: "uuid option"
  be_request_name :: "string option"
  be_ip_address :: "string option"
  be_payload :: payload
  be_checked_at :: "instant option"

definition be_kind :: "business_event \<Rightarrow> string" where
  "be_kind r = be_app_name r @ ''.'' @ be_verb r"

text \<open>The tables of the journal, and the queue, whose clock \<open>now()\<close> reads.\<close>

record event_db =
  ed_events :: "business_event list"
  ed_cursors :: "(string, uuid) dict"
  ed_dispatched :: "(uuid \<times> string) list"
  ed_queue :: task_store

abbreviation ed_now :: "event_db \<Rightarrow> instant" where
  "ed_now db \<equiv> tq_clock (ed_queue db)"

section \<open>Ledgers\<close>

locale ledger =
  fixes mark :: "'k \<Rightarrow> 's \<Rightarrow> 's \<times> bool"
    and marked :: "'s \<Rightarrow> 'k set"
  assumes mark_new: "snd (mark k s) \<longleftrightarrow> k \<notin> marked s"
    and marked_mark: "marked (fst (mark k s)) = insert k (marked s)"
begin

fun mark_all :: "'k list \<Rightarrow> 's \<Rightarrow> 's \<times> 'k list" where
  "mark_all [] s = (s, [])" |
  "mark_all (k # ks) s =
     (let (s1, new) = mark k s; (s2, out) = mark_all ks s1 in (s2, if new then k # out else out))"

lemma mark_all_spec:
  "marked (fst (mark_all ks s)) = marked s \<union> set ks
   \<and> set (snd (mark_all ks s)) = set ks - marked s \<and> distinct (snd (mark_all ks s))"
proof (induction ks arbitrary: s)
  case (Cons k ks)
  obtain s1 new where m: "mark k s = (s1, new)" by force
  obtain s2 out where r: "mark_all ks s1 = (s2, out)" by force
  have m1: "new \<longleftrightarrow> k \<notin> marked s" "marked s1 = insert k (marked s)"
    using mark_new[of k s] marked_mark[of k s] by (simp_all add: m)
  have r1: "marked s2 = marked s1 \<union> set ks" "set out = set ks - marked s1" "distinct out"
    using Cons.IH[of s1] by (simp_all add: r)
  show ?case using m1 r1 by (cases new) (auto simp: m r)
qed simp

lemma mark_twice: "snd (mark k (fst (mark k s))) = False"
  by (simp add: mark_new marked_mark)

end

section \<open>The write\<close>

definition lifted_columns :: "string list" where
  "lifted_columns = [''user_id'', ''org_id'', ''entity_id'', ''entity_name'']"

text \<open>The payload of a fact, and the secret-named fields that were masked.\<close>

definition fact_value :: "string \<Rightarrow> field_value \<Rightarrow> json" where
  "fact_value name v =
     (if is_secret_field_name name then (if v = FNone then JNull else JStr ''***'')
      else (case v of FNone \<Rightarrow> JNull | FUuid u \<Rightarrow> JStr (uuid_str u) | FTime t \<Rightarrow> JStr (isoformat t)
                | FJson j \<Rightarrow> j))"

definition fact_payload :: "event \<Rightarrow> payload" where
  "fact_payload e = map (\<lambda>(name, v). (name, fact_value name v)) (ev_fields e)"

definition masked_fields :: "event \<Rightarrow> string list" where
  "masked_fields e =
     map fst (filter (\<lambda>(name, v). is_secret_field_name name \<and> v \<noteq> FNone) (ev_fields e))"

text \<open>The request's context: the keys the middleware bound, when there is a request.\<close>

record log_context =
  cx_request_id :: "uuid option"
  cx_request_name :: "string option"
  cx_ip :: "string option"

text \<open>The record; its key, its instant and its mark are the columns' defaults, set by the insert.\<close>

definition event_org_id :: "event \<Rightarrow> uuid option" where
  "event_org_id e = (if ec_org_scoped (ev_class e) then ev_uuid e ''org_id'' else None)"

definition event_to_record ::
  "log_context \<Rightarrow> event \<Rightarrow> string option \<Rightarrow> string option \<Rightarrow> uuid \<Rightarrow> instant \<Rightarrow> business_event" where
  "event_to_record ctx e user_name org_name i now =
     \<lparr>be_id = i, be_created_at = now,
      be_app_name = ec_app_name (ev_class e), be_verb = ec_verb (ev_class e),
      be_icon = ec_icon (ev_class e),
      be_user_id = ev_uuid e ''user_id'', be_user_name = user_name,
      be_org_id = event_org_id e, be_org_name = org_name,
      be_entity_id = ev_uuid e ''entity_id'', be_entity_name = ev_text e ''entity_name'',
      be_request_id = cx_request_id ctx, be_request_name = cx_request_name ctx,
      be_ip_address = cx_ip ctx,
      be_payload = filter (\<lambda>(k, _). k \<notin> set lifted_columns \<and> k \<noteq> ''created_at'') (fact_payload e),
      be_checked_at = None\<rparr>"

text \<open>
  \<open>pinned_names\<close>: one query over the two tables the names come from; \<open>None\<close> for the tables is the query
  that failed, after which the fact is written without names.
\<close>

definition pinned_names ::
  "((uuid, string option \<times> string option) dict \<times> (uuid, string) dict) option
     \<Rightarrow> uuid option \<Rightarrow> uuid option \<Rightarrow> string option \<times> string option" where
  "pinned_names tables user_id org_id =
     (if user_id = None \<and> org_id = None then (None, None)
      else (case tables of
          None \<Rightarrow> (None, None)
        | Some (profiles, orgs) \<Rightarrow>
            (case user_id of None \<Rightarrow> None
             | Some u \<Rightarrow> (case map_of profiles u of
                 None \<Rightarrow> None
               | Some (handle, email) \<Rightarrow> (case handle of Some h \<Rightarrow> Some h | None \<Rightarrow> email)),
             case org_id of None \<Rightarrow> None | Some o' \<Rightarrow> map_of orgs o')))"

definition record_event ::
  "((uuid, string option \<times> string option) dict \<times> (uuid, string) dict) option
     \<Rightarrow> log_context \<Rightarrow> uuid \<Rightarrow> instant \<Rightarrow> event \<Rightarrow> event_db \<Rightarrow> event_db" where
  "record_event tables ctx i now e db =
     (case pinned_names tables (ev_uuid e ''user_id'') (event_org_id e) of
        (user_name, org_name) \<Rightarrow>
          db\<lparr>ed_events := ed_events db @ [event_to_record ctx e user_name org_name i now]\<rparr>)"

section \<open>The delivery\<close>

definition json_uuid :: "uuid option \<Rightarrow> json" where
  "json_uuid u = (case u of None \<Rightarrow> JNull | Some i \<Rightarrow> JStr (uuid_str i))"

definition json_text :: "string option \<Rightarrow> json" where
  "json_text t = (case t of None \<Rightarrow> JNull | Some s \<Rightarrow> JStr s)"

definition task_payload :: "business_event \<Rightarrow> payload" where
  "task_payload r =
     AList.update ''event_id'' (JStr (uuid_str (be_id r)))
    (AList.update ''request_id'' (json_uuid (be_request_id r))
    (AList.update ''created_at'' (JStr (isoformat (be_created_at r)))
    (AList.update ''entity_name'' (json_text (be_entity_name r))
    (AList.update ''entity_id'' (json_uuid (be_entity_id r))
    (AList.update ''org_id'' (json_uuid (be_org_id r))
    (AList.update ''user_id'' (json_uuid (be_user_id r)) (be_payload r)))))))"

text \<open>The unchecked facts this instance locks; \<open>held\<close> are the rows another one holds.\<close>

definition claim_unchecked :: "(uuid \<Rightarrow> bool) \<Rightarrow> nat \<Rightarrow> event_db \<Rightarrow> business_event list" where
  "claim_unchecked held batch db =
     take batch (sort_key be_id (filter (\<lambda>r. be_checked_at r = None \<and> \<not> held (be_id r)) (ed_events db)))"

definition mark_checked :: "uuid list \<Rightarrow> event_db \<Rightarrow> event_db" where
  "mark_checked ids db = db\<lparr>ed_events := update_where (\<lambda>r. be_id r \<in> set ids)
     (\<lambda>r. r\<lparr>be_checked_at := Some (ed_now db)\<rparr>) (ed_events db)\<rparr>"

definition nil_cursor :: uuid where "nil_cursor = 0"

definition lock_dispatch_cursor ::
  "(string \<Rightarrow> bool) \<Rightarrow> string \<Rightarrow> event_db \<Rightarrow> event_db \<times> uuid option" where
  "lock_dispatch_cursor held topic db =
     (let db' = (case map_of (ed_cursors db) topic of
                   None \<Rightarrow> db\<lparr>ed_cursors := ed_cursors db @ [(topic, nil_cursor)]\<rparr>
                 | Some _ \<Rightarrow> db) in
      (db', if held topic then None else map_of (ed_cursors db') topic))"

definition advance_dispatch_cursor :: "string \<Rightarrow> uuid \<Rightarrow> event_db \<Rightarrow> event_db" where
  "advance_dispatch_cursor topic cursor db =
     db\<lparr>ed_cursors := AList.map_entry topic (\<lambda>_. cursor) (ed_cursors db)\<rparr>"

definition dispatch_consumer :: "uuid \<times> string \<Rightarrow> event_db \<Rightarrow> event_db \<times> bool" where
  "dispatch_consumer key db =
     (if key \<in> set (ed_dispatched db) then (db, False)
      else (db\<lparr>ed_dispatched := ed_dispatched db @ [key]\<rparr>, True))"

interpretation dispatched: ledger dispatch_consumer "\<lambda>db. set (ed_dispatched db)"
  by unfold_locales (auto simp: dispatch_consumer_def)

text \<open>\<open>already_consumed\<close> on the ledger of the consumers; the answer is the opposite of the mark's.\<close>

definition consume_event :: "string \<times> uuid \<Rightarrow> (string \<times> uuid) list \<Rightarrow> (string \<times> uuid) list \<times> bool" where
  "consume_event key consumed =
     (if key \<in> set consumed then (consumed, False) else (consumed @ [key], True))"

definition already_consumed :: "string \<Rightarrow> uuid \<Rightarrow> (string \<times> uuid) list \<Rightarrow> (string \<times> uuid) list \<times> bool" where
  "already_consumed topic event_id consumed =
     (case consume_event (topic, event_id) consumed of (consumed', new) \<Rightarrow> (consumed', \<not> new))"

interpretation consumed: ledger consume_event set
  by unfold_locales (auto simp: consume_event_def)

definition settled_before :: "int \<Rightarrow> event_db \<Rightarrow> instant" where
  "settled_before settle db = ed_now db - settle"

definition facts_above_cursor ::
  "uuid \<Rightarrow> string list \<Rightarrow> instant \<Rightarrow> business_event list \<Rightarrow> business_event list \<times> uuid" where
  "facts_above_cursor cursor kinds settled journal =
     (let found = sort_key be_id (filter (\<lambda>r. cursor < be_id r \<and> be_kind r \<in> set kinds) journal);
          old = takeWhile (\<lambda>r. be_created_at r < settled) found in
      (found, if old = [] then cursor else be_id (last old)))"

section \<open>The reads\<close>

record event_query =
  eq_org_id :: "uuid option"
  eq_user_id :: "uuid option"
  eq_entity_id :: "uuid option"
  eq_request_id :: "uuid option"
  eq_app :: string
  eq_text :: string
  eq_from :: "instant option"
  eq_to :: "instant option"

text \<open>\<open>cast(payload, Text)\<close> is Postgres' rendering of the document, here a parameter.\<close>

definition event_matches :: "(payload \<Rightarrow> string) \<Rightarrow> event_query \<Rightarrow> business_event \<Rightarrow> bool" where
  "event_matches render q r \<longleftrightarrow>
     (eq_org_id q \<noteq> None \<longrightarrow> be_org_id r = eq_org_id q)
   \<and> (eq_user_id q \<noteq> None \<longrightarrow> be_user_id r = eq_user_id q)
   \<and> (eq_entity_id q \<noteq> None \<longrightarrow> be_entity_id r = eq_entity_id q)
   \<and> (eq_request_id q \<noteq> None \<longrightarrow> be_request_id r = eq_request_id q)
   \<and> (eq_app q \<noteq> [] \<longrightarrow> be_app_name r = eq_app q)
   \<and> (eq_text q \<noteq> [] \<longrightarrow>
        (let like = like_fragment (eq_text q);
             hit = (\<lambda>t. case t of None \<Rightarrow> False | Some s \<Rightarrow> ilike s like) in
         ilike (be_kind r) like \<or> hit (be_entity_name r) \<or> hit (be_user_name r)
         \<or> hit (be_org_name r) \<or> hit (be_request_name r) \<or> ilike (render (be_payload r)) like))
   \<and> (case eq_from q of None \<Rightarrow> True | Some t \<Rightarrow> t \<le> be_created_at r)
   \<and> (case eq_to q of None \<Rightarrow> True | Some t \<Rightarrow> be_created_at r \<le> t)"

definition search_events ::
  "(payload \<Rightarrow> string) \<Rightarrow> event_query \<Rightarrow> nat \<Rightarrow> nat \<Rightarrow> business_event list \<Rightarrow> business_event list" where
  "search_events render q limit offset journal =
     take limit (drop offset (sort_key (\<lambda>r. - int (be_id r)) (filter (event_matches render q) journal)))"

definition daily_counts ::
  "instant \<Rightarrow> int \<Rightarrow> uuid option \<Rightarrow> uuid option \<Rightarrow> business_event list \<Rightarrow> (date, nat) dict" where
  "daily_counts now n_days user_id org_id journal =
     (let rows = filter (\<lambda>r. now - days n_days \<le> be_created_at r
                   \<and> (user_id \<noteq> None \<longrightarrow> be_user_id r = user_id)
                   \<and> (org_id \<noteq> None \<longrightarrow> be_org_id r = org_id)) journal in
      map (\<lambda>d. (d, count_where (\<lambda>r. date_of (be_created_at r) = d) rows))
        (remdups (map (date_of \<circ> be_created_at) rows)))"

section \<open>Facts\<close>

lemma facts_above_found:
  "set (fst (facts_above_cursor c ks s journal)) = {r \<in> set journal. c < be_id r \<and> be_kind r \<in> set ks}"
  by (auto simp: facts_above_cursor_def Let_def)

lemma facts_above_sorted: "sorted (map be_id (fst (facts_above_cursor c ks s journal)))"
  by (simp add: facts_above_cursor_def Let_def)

lemma sorted_last_takeWhile:
  assumes "sorted (map f xs)" "takeWhile P xs \<noteq> []" "x \<in> set xs"
    and "f x \<le> (f (last (takeWhile P xs)) :: 'b :: linorder)" "distinct (map f xs)"
  shows "P x"
proof -
  define ys zs where "ys = takeWhile P xs" and "zs = dropWhile P xs"
  have xs: "xs = ys @ zs" by (simp add: ys_def zs_def)
  have l: "last ys \<in> set ys" using assms(2) by (simp add: ys_def)
  have "x \<notin> set zs"
  proof
    assume x: "x \<in> set zs"
    then have "f (last ys) \<le> f x" using assms(1) l by (simp add: xs sorted_append)
    then have "f x = f (last ys)" using assms(4) by (simp add: ys_def)
    then have "f ` set ys \<inter> f ` set zs \<noteq> {}" using l x by (auto intro: rev_image_eqI)
    then show False using assms(5) by (simp add: xs)
  qed
  then have "x \<in> set ys" using assms(3) xs by simp
  then have "x \<in> set (takeWhile P xs)" by (simp only: ys_def)
  then show ?thesis by (auto dest: set_takeWhileD)
qed

text \<open>
  The new cursor: at or above the old one, and everything found at or below it is settled.
\<close>

lemma facts_above_cursor_settled:
  assumes "facts_above_cursor c ks s journal = (found, c')" and "distinct (map be_id journal)"
  shows "c \<le> c'" and "c' = c \<or> (\<exists>r \<in> set found. be_id r = c' \<and> be_created_at r < s)"
    and "\<And>r. r \<in> set found \<Longrightarrow> be_id r \<le> c' \<Longrightarrow> be_created_at r < s"
proof -
  let ?P = "\<lambda>r. be_created_at r < s"
  have found: "found = fst (facts_above_cursor c ks s journal)" using assms(1) by simp
  have c': "c' = (if takeWhile ?P found = [] then c else be_id (last (takeWhile ?P found)))"
    using assms(1) by (auto simp: facts_above_cursor_def Let_def)
  have above: "r \<in> set found \<Longrightarrow> c < be_id r" for r
    using facts_above_found[of c ks s journal] by (simp add: found)
  have d: "distinct (map be_id found)"
    using assms(2) by (auto simp: found facts_above_cursor_def Let_def distinct_map_sort_key
        distinct_map_filter)
  have l: "last (takeWhile ?P found) \<in> set found" "?P (last (takeWhile ?P found))"
    if "takeWhile ?P found \<noteq> []"
    using set_takeWhileD[OF last_in_set[OF that]] by simp_all
  show "c \<le> c'"
    using above[OF l(1)] by (cases "takeWhile ?P found = []") (simp_all add: c')
  show "c' = c \<or> (\<exists>r \<in> set found. be_id r = c' \<and> be_created_at r < s)"
    using l by (cases "takeWhile ?P found = []") (auto simp: c')
  show "be_created_at r < s" if r: "r \<in> set found" "be_id r \<le> c'" for r
  proof (cases "takeWhile ?P found = []")
    case True
    then show ?thesis using above[OF r(1)] r(2) by (simp add: c')
  next
    case False
    have "sorted (map be_id found)" using facts_above_sorted by (simp add: found)
    from sorted_last_takeWhile[OF this False r(1) _ d] show ?thesis
      using r(2) False by (simp add: c')
  qed
qed

lemma facts_above_cursor_ge:
  assumes "facts_above_cursor c ks s journal = (found, c')"
  shows "c \<le> c'"
proof (cases "takeWhile (\<lambda>r. be_created_at r < s) found = []")
  case True
  then show ?thesis using assms by (auto simp: facts_above_cursor_def Let_def)
next
  case False
  then have "last (takeWhile (\<lambda>r. be_created_at r < s) found) \<in> set found"
    using set_takeWhileD[OF last_in_set[OF False]] by simp
  then have "c < be_id (last (takeWhile (\<lambda>r. be_created_at r < s) found))"
    using facts_above_found[of c ks s journal] assms by simp
  then show ?thesis using False assms by (auto simp: facts_above_cursor_def Let_def)
qed

end
