(* ===== verification/Event_Listener.thy ===== *)
theory Event_Listener
  imports Event_Journal Task_Worker
begin

text \<open>
  \<open>apps/shared/events/listener.py\<close>: one tick of the journal's reader (the routability check, the
  durable consumers' backlog, the facts of the spread handlers) and its drain, with the hand-over of
  a fact to its consumers' queue tasks.
\<close>

section \<open>State\<close>

record listener =
  ls_batch :: nat
  ls_settle :: int
  ls_spread_cursor :: "uuid option"
  ls_spread_applied :: "uuid list"

definition settle_seconds :: int where "settle_seconds = 60"

definition listener_init :: listener where
  "listener_init = \<lparr>ls_batch = 50, ls_settle = seconds settle_seconds, ls_spread_cursor = None,
     ls_spread_applied = []\<rparr>"

datatype listener_line =
    UnroutableLine string uuid
  | ReconstructFailedLine string uuid
  | SpreadFailedLine handler_id string py_exc

definition check_routable :: "catalog \<Rightarrow> business_event \<Rightarrow> listener_line list" where
  "check_routable cat r =
     (if class_for cat (be_kind r) = None then [UnroutableLine (be_kind r) (be_id r)] else [])"

section \<open>The durable consumers\<close>

text \<open>One fact for one consumer: the ledger decides, and the first time a task is queued.\<close>

definition dispatch_fact :: "reaction \<Rightarrow> business_event \<Rightarrow> event_db \<Rightarrow> event_db" where
  "dispatch_fact rx r db =
     (case dispatch_consumer (be_id r, rx_topic rx) db of
        (db', True) \<Rightarrow> db'\<lparr>ed_queue := enqueue (rx_topic rx) (task_payload r)
                          (if rx_as_actor rx then be_user_id r else None) 5 (ed_queue db')\<rparr>
      | (db', False) \<Rightarrow> db')"

definition dispatch_reaction ::
  "(string \<Rightarrow> bool) \<Rightarrow> instant \<Rightarrow> string list \<Rightarrow> reaction \<Rightarrow> event_db \<Rightarrow> event_db" where
  "dispatch_reaction held settled kinds rx db =
     (case lock_dispatch_cursor held (rx_topic rx) db of
        (db1, None) \<Rightarrow> db1
      | (db1, Some cursor) \<Rightarrow>
          (case facts_above_cursor cursor kinds settled (ed_events db1) of (found, settled_cursor) \<Rightarrow>
             let db2 = fold (dispatch_fact rx) found db1 in
             if settled_cursor \<noteq> cursor then advance_dispatch_cursor (rx_topic rx) settled_cursor db2
             else db2))"

text \<open>Every reaction with the kinds of the event type it was registered on, in the wiring's order.\<close>

definition wired_reactions :: "catalog \<Rightarrow> wiring \<Rightarrow> (string list \<times> reaction) list" where
  "wired_reactions cat w =
     concat (map (\<lambda>(t, rs). map (\<lambda>rx. (kinds_of cat t, rx)) rs) (wr_reactions w))"

definition dispatch_reactions ::
  "(string \<Rightarrow> bool) \<Rightarrow> instant \<Rightarrow> (string list \<times> reaction) list \<Rightarrow> event_db \<Rightarrow> event_db" where
  "dispatch_reactions held settled rxs db =
     fold (\<lambda>(kinds, rx). dispatch_reaction held settled kinds rx) rxs db"

definition dispatch_backlog ::
  "(string \<Rightarrow> bool) \<Rightarrow> int \<Rightarrow> catalog \<Rightarrow> wiring \<Rightarrow> event_db \<Rightarrow> event_db" where
  "dispatch_backlog held settle cat w db =
     (if wr_reactions w = [] then db
      else dispatch_reactions held (settled_before settle db) (wired_reactions cat w) db)"

section \<open>The spread handlers\<close>

definition read_spread :: "wiring \<Rightarrow> event_db \<Rightarrow> listener \<Rightarrow> listener \<times> business_event list" where
  "read_spread w db ls =
     (let kinds = spread_kinds w in
      if kinds = [] then (ls, [])
      else
        (let cursor = (case ls_spread_cursor ls of Some c \<Rightarrow> c | None \<Rightarrow> nil_cursor) in
         case facts_above_cursor cursor kinds (settled_before (ls_settle ls) db) (ed_events db) of
           (found, settled) \<Rightarrow>
             (ls\<lparr>ls_spread_cursor := Some settled,
                 ls_spread_applied := map be_id (filter (\<lambda>r. settled < be_id r) found)\<rparr>,
              filter (\<lambda>r. be_id r \<notin> set (ls_spread_applied ls)) found)))"

definition reconstruct ::
  "(string \<Rightarrow> instant option) \<Rightarrow> catalog \<Rightarrow> business_event \<Rightarrow> listener_line list \<times> event option" where
  "reconstruct fromiso cat r =
     (case class_for cat (be_kind r) of
        None \<Rightarrow> ([], None)
      | Some cls \<Rightarrow>
          (case from_payload fromiso cls (task_payload r) of
             None \<Rightarrow> ([ReconstructFailedLine (be_kind r) (be_id r)], None)
           | Some e \<Rightarrow> ([], Some e)))"

text \<open>
  The handlers that ran, with the fact they ran on, and the lines of those that raised; a handler's
  outcome is a parameter.
\<close>

definition apply_spread ::
  "(string \<Rightarrow> instant option) \<Rightarrow> (handler_id \<Rightarrow> event \<Rightarrow> py_exc option) \<Rightarrow> catalog \<Rightarrow> wiring
     \<Rightarrow> business_event \<Rightarrow> (uuid \<times> handler_id) list \<times> listener_line list" where
  "apply_spread fromiso run cat w r =
     (case reconstruct fromiso cat r of
        (lines, None) \<Rightarrow> ([], lines)
      | (lines, Some e) \<Rightarrow>
          (let hs = spread_handlers_for w (ev_class e) in
           (map (Pair (be_id r)) hs,
            lines @ List.map_filter
              (\<lambda>h. map_option (SpreadFailedLine h (be_kind r)) (run h e)) hs)))"

section \<open>The tick\<close>

record listener_world =
  lw_db :: event_db
  lw_listener :: listener
  lw_applied :: "(uuid \<times> handler_id) list"
  lw_lines :: "listener_line list"

definition listener_tick ::
  "(string \<Rightarrow> instant option) \<Rightarrow> (handler_id \<Rightarrow> event \<Rightarrow> py_exc option) \<Rightarrow> (uuid \<Rightarrow> bool) \<Rightarrow> (string \<Rightarrow> bool)
     \<Rightarrow> catalog \<Rightarrow> wiring \<Rightarrow> listener_world \<Rightarrow> listener_world \<times> nat" where
  "listener_tick fromiso run held_rows held_topics cat w lw =
     (let ls = lw_listener lw;
          checked = claim_unchecked held_rows (ls_batch ls) (lw_db lw);
          lines = concat (map (check_routable cat) checked);
          db1 = (if checked = [] then lw_db lw else mark_checked (map be_id checked) (lw_db lw));
          db2 = dispatch_backlog held_topics (ls_settle ls) cat w db1;
          (ls', fresh) = read_spread w db2 ls;
          ran = map (apply_spread fromiso run cat w) fresh in
      (\<lparr>lw_db = db2, lw_listener = ls', lw_applied = lw_applied lw @ concat (map fst ran),
        lw_lines = lw_lines lw @ lines @ concat (map snd ran)\<rparr>, length checked))"

fun listener_drain ::
  "nat \<Rightarrow> (string \<Rightarrow> instant option) \<Rightarrow> (handler_id \<Rightarrow> event \<Rightarrow> py_exc option) \<Rightarrow> catalog \<Rightarrow> wiring
     \<Rightarrow> listener_world \<Rightarrow> listener_world option" where
  "listener_drain 0 fromiso run cat w lw = None" |
  "listener_drain (Suc fuel) fromiso run cat w lw =
     (case listener_tick fromiso run (\<lambda>_. False) (\<lambda>_. False) cat w lw of
        (lw', 0) \<Rightarrow> Some lw'
      | (lw', Suc _) \<Rightarrow> listener_drain fuel fromiso run cat w lw')"

section \<open>What a dispatch does\<close>

text \<open>The queue's rows name, in order, exactly the entries of the ledger.\<close>

definition task_key :: "task_row \<Rightarrow> json option \<times> string" where
  "task_key t = (map_of (tk_payload t) ''event_id'', tk_topic t)"

definition entry_key :: "uuid \<times> string \<Rightarrow> json option \<times> string" where
  "entry_key e = (Some (JStr (uuid_str (fst e))), snd e)"

definition tasks_match :: "event_db \<Rightarrow> bool" where
  "tasks_match db \<longleftrightarrow> map task_key (tq_rows (ed_queue db)) = map entry_key (ed_dispatched db)
     \<and> distinct (ed_dispatched db)"

lemma enqueue_appends:
  "enqueue topic p u m st = st\<lparr>tq_rows := tq_rows st @ [new_task (tq_next_id st) topic p u None m (tq_clock st)],
     tq_next_id := Suc (tq_next_id st)\<rparr>"
  by (simp add: enqueue_def insert_task_def)

lemma dispatch_fact_simps:
  "ed_events (dispatch_fact rx r db) = ed_events db"
  "ed_cursors (dispatch_fact rx r db) = ed_cursors db"
  "tq_clock (ed_queue (dispatch_fact rx r db)) = tq_clock (ed_queue db)"
  "set (ed_dispatched (dispatch_fact rx r db)) = insert (be_id r, rx_topic rx) (set (ed_dispatched db))"
  by (auto simp: dispatch_fact_def dispatch_consumer_def enqueue_appends)

lemma task_payload_event_id: "map_of (task_payload r) ''event_id'' = Some (JStr (uuid_str (be_id r)))"
  by (simp add: task_payload_def map_of_AList_update)

lemma tasks_match_dispatch_fact [invs]: "tasks_match db \<Longrightarrow> tasks_match (dispatch_fact rx r db)"
  by (auto simp: tasks_match_def dispatch_fact_def dispatch_consumer_def enqueue_appends
      task_key_def entry_key_def task_payload_event_id)

lemma fold_dispatch_fact:
  "ed_events (fold (dispatch_fact rx) rs db) = ed_events db
   \<and> ed_cursors (fold (dispatch_fact rx) rs db) = ed_cursors db
   \<and> tq_clock (ed_queue (fold (dispatch_fact rx) rs db)) = tq_clock (ed_queue db)
   \<and> set (ed_dispatched (fold (dispatch_fact rx) rs db))
       = set (ed_dispatched db) \<union> (\<lambda>r. (be_id r, rx_topic rx)) ` set rs
   \<and> (tasks_match db \<longrightarrow> tasks_match (fold (dispatch_fact rx) rs db))"
  by (induction rs arbitrary: db) (auto simp: dispatch_fact_simps intro: tasks_match_dispatch_fact)

definition cursor_of :: "event_db \<Rightarrow> string \<Rightarrow> uuid" where
  "cursor_of db topic = (case map_of (ed_cursors db) topic of None \<Rightarrow> nil_cursor | Some c \<Rightarrow> c)"

lemma lock_dispatch_cursor_simps:
  assumes "lock_dispatch_cursor held topic db = (db1, out)"
  shows "ed_events db1 = ed_events db" "ed_dispatched db1 = ed_dispatched db" "ed_queue db1 = ed_queue db"
    and "cursor_of db1 = cursor_of db" "out = (if held topic then None else Some (cursor_of db topic))"
    and "map_of (ed_cursors db1) topic \<noteq> None"
  using assms
  by (auto simp: lock_dispatch_cursor_def cursor_of_def Let_def fun_eq_iff map_of_append map_add_def
      split: option.splits if_splits)

lemma advance_simps:
  "ed_events (advance_dispatch_cursor t c db) = ed_events db"
  "ed_dispatched (advance_dispatch_cursor t c db) = ed_dispatched db"
  "ed_queue (advance_dispatch_cursor t c db) = ed_queue db"
  "map_of (ed_cursors db) t \<noteq> None \<Longrightarrow> cursor_of (advance_dispatch_cursor t c db) = (cursor_of db)(t := c)"
  by (auto simp: advance_dispatch_cursor_def cursor_of_def map_of_map_entry fun_eq_iff split: option.splits)

text \<open>
  One consumer's turn: nothing when another instance holds its cursor; otherwise every fact above the
  cursor is in the ledger afterwards and the cursor is the one \<open>facts_above_cursor\<close> returns.
\<close>

lemma dispatch_reaction_spec:
  assumes "dispatch_reaction held settled kinds rx db = db'"
    and "facts_above_cursor (cursor_of db (rx_topic rx)) kinds settled (ed_events db) = (found, c')"
  shows "ed_events db' = ed_events db" "tq_clock (ed_queue db') = tq_clock (ed_queue db)"
    and "tasks_match db \<Longrightarrow> tasks_match db'"
    and "held (rx_topic rx) \<Longrightarrow> set (ed_dispatched db') = set (ed_dispatched db) \<and> cursor_of db' = cursor_of db"
    and "\<not> held (rx_topic rx) \<Longrightarrow> set (ed_dispatched db')
          = set (ed_dispatched db) \<union> (\<lambda>r. (be_id r, rx_topic rx)) ` set found
        \<and> cursor_of db' = (cursor_of db)(rx_topic rx := c')"
proof -
  obtain db1 out where l: "lock_dispatch_cursor held (rx_topic rx) db = (db1, out)" by force
  note L = lock_dispatch_cursor_simps[OF l]
  have tm: "tasks_match db1 = tasks_match db" by (simp add: tasks_match_def L)
  define db2 where "db2 = fold (dispatch_fact rx) found db1"
  have F: "ed_events db2 = ed_events db1" "ed_cursors db2 = ed_cursors db1"
    "tq_clock (ed_queue db2) = tq_clock (ed_queue db1)"
    "set (ed_dispatched db2) = set (ed_dispatched db1) \<union> (\<lambda>r. (be_id r, rx_topic rx)) ` set found"
    "tasks_match db1 \<Longrightarrow> tasks_match db2"
    using fold_dispatch_fact[of rx found db1] by (simp_all add: db2_def)
  have "cursor_of db2 = cursor_of db1" by (rule ext) (simp add: cursor_of_def F(2))
  then have c2: "cursor_of db2 = cursor_of db" using L(4) by simp
  have m2: "map_of (ed_cursors db2) (rx_topic rx) \<noteq> None" using L(6) by (simp add: F(2))
  have db': "db' = (if held (rx_topic rx) then db1
      else if c' \<noteq> cursor_of db (rx_topic rx) then advance_dispatch_cursor (rx_topic rx) c' db2 else db2)"
    using assms L(1,5) by (auto simp: dispatch_reaction_def l db2_def Let_def)
  have tm2: "tasks_match (advance_dispatch_cursor t c db2) = tasks_match db2" for t c
    by (simp add: tasks_match_def advance_simps)
  show "ed_events db' = ed_events db" "tq_clock (ed_queue db') = tq_clock (ed_queue db)"
    by (simp_all add: db' advance_simps F L)
  show "tasks_match db \<Longrightarrow> tasks_match db'" using F(5) tm tm2 by (simp add: db')
  show "held (rx_topic rx) \<Longrightarrow> set (ed_dispatched db') = set (ed_dispatched db) \<and> cursor_of db' = cursor_of db"
    by (simp add: db' L)
  show "\<not> held (rx_topic rx) \<Longrightarrow> set (ed_dispatched db')
          = set (ed_dispatched db) \<union> (\<lambda>r. (be_id r, rx_topic rx)) ` set found
        \<and> cursor_of db' = (cursor_of db)(rx_topic rx := c')"
    using F(4) L(2) c2 m2 by (auto simp: db' advance_simps)
qed

end
