(* ===== verification/Event_Delivery.thy ===== *)
theory Event_Delivery
  imports Event_Listener
begin

text \<open>
  The hand-over of facts to their durable consumers under the interleavings Postgres allows: request
  transactions that begin, record facts and commit late or never, the clock, and ticks of any
  instance with any part of the wiring while other instances hold some cursors.  A fact's key is
  minted when it is inserted (\<open>uuidv7()\<close> of the migrations reads the clock), its \<open>created_at\<close> is the
  start of its transaction, and it is visible from its commit on.

  With every transaction open for at most half the settle window, a fact is handed to each of its
  consumers exactly once.  With transactions open for as long as the window itself, which the
  comments allow, a fact can be skipped for good; the last section holds such a run.
\<close>

section \<open>Keys\<close>

text \<open>
  \<open>uuidv7()\<close>: the millisecond, the version, the fraction of the millisecond in 4096 steps, the variant,
  62 random bits.
\<close>

definition uuidv7 :: "nat \<Rightarrow> nat \<Rightarrow> uuid" where
  "uuidv7 us rnd = us div 1000 * 2 ^ 80 + 7 * 2 ^ 76 + us mod 1000 * 4096 div 1000 * 2 ^ 64
     + 2 * 2 ^ 62 + rnd mod 2 ^ 62"

lemma uuidv7_mono: "s < t \<Longrightarrow> uuidv7 s a < uuidv7 t b"
proof -
  assume "s < t"
  have sub: "u mod 1000 * 4096 div 1000 \<le> 4095" for u :: nat
    using mod_less_divisor[of 1000 u] by linarith
  have a: "a mod 2 ^ 62 < 2 ^ 62" "b mod 2 ^ 62 < 2 ^ 62" by simp_all
  show ?thesis
  proof (cases "s div 1000 = t div 1000")
    case True
    have "s mod 1000 < t mod 1000"
      using \<open>s < t\<close> True by (metis div_mult_mod_eq nat_add_left_cancel_less)
    then have "s mod 1000 * 4096 div 1000 + 1 \<le> t mod 1000 * 4096 div 1000" by linarith
    then have "(s mod 1000 * 4096 div 1000 + 1) * 2 ^ 64 \<le> t mod 1000 * 4096 div 1000 * 2 ^ 64"
      by (rule mult_right_mono) simp
    then have "s mod 1000 * 4096 div 1000 * 2 ^ 64 + 2 ^ 64 \<le> t mod 1000 * 4096 div 1000 * 2 ^ 64"
      by (simp only: distrib_right mult_1)
    moreover have "(2 :: nat) ^ 62 \<le> 2 ^ 64" by simp
    ultimately show ?thesis using a unfolding uuidv7_def True by linarith
  next
    case False
    have "s div 1000 \<le> t div 1000" using \<open>s < t\<close> by (intro div_le_mono) simp
    then have "s div 1000 + 1 \<le> t div 1000" using False by linarith
    then have "(s div 1000 + 1) * 2 ^ 80 \<le> t div 1000 * 2 ^ 80" by (rule mult_right_mono) simp
    moreover have "s mod 1000 * 4096 div 1000 * 2 ^ 64 \<le> 4095 * 2 ^ 64"
      using sub by (intro mult_right_mono) simp_all
    moreover have "7 * 2 ^ 76 + (4095 * 2 ^ 64 + 2 * 2 ^ 62) + 2 ^ 62 \<le> (2 :: nat) ^ 80 + 7 * 2 ^ 76" by simp
    ultimately show ?thesis using a unfolding uuidv7_def distrib_right mult_1 by linarith
  qed
qed

lemma uuidv7_pos: "0 < uuidv7 t r"
  by (simp add: uuidv7_def)

section \<open>The world\<close>

text \<open>An open transaction: its start and the facts it has recorded.\<close>

record transaction =
  tx_start :: nat
  tx_facts :: "business_event list"

record delivery_world =
  dw_db :: event_db
  dw_open :: "(nat, transaction) dict"

datatype delivery_action =
    Pass nat
  | Begin nat
  | Emit nat business_event nat
  | Commit nat
  | Rollback nat
  | Tick "string \<Rightarrow> bool" "(string list \<times> reaction) list"

definition dw_now :: "delivery_world \<Rightarrow> nat" where
  "dw_now w = nat (ed_now (dw_db w))"

definition world_ids :: "delivery_world \<Rightarrow> uuid list" where
  "world_ids w = map be_id (ed_events (dw_db w)) @ map be_id (concat (map (tx_facts \<circ> snd) (dw_open w)))"

text \<open>
  One action; \<open>None\<close> when it cannot happen.  \<open>limit\<close> bounds how long a transaction stays open, \<open>settle\<close> is the listener's
  window.  Time passes only as far as every open transaction allows.  An insert mints the key and
  keeps the transaction's start as the fact's instant.
\<close>

definition emitted :: "nat \<Rightarrow> nat \<Rightarrow> business_event \<Rightarrow> nat \<Rightarrow> business_event" where
  "emitted start now e rnd = e\<lparr>be_id := uuidv7 now rnd, be_created_at := int start, be_checked_at := None\<rparr>"

fun delivery_act ::
  "nat \<Rightarrow> nat \<Rightarrow> delivery_action \<Rightarrow> delivery_world \<Rightarrow> delivery_world option" where
  "delivery_act limit settle (Pass t) w =
     (if dw_now w \<le> t \<and> (\<forall>(_, x) \<in> set (dw_open w). t \<le> tx_start x + limit)
      then Some (w\<lparr>dw_db := dw_db w\<lparr>ed_queue := ed_queue (dw_db w)\<lparr>tq_clock := int t\<rparr>\<rparr>\<rparr>)
      else None)" |
  "delivery_act limit settle (Begin x) w =
     (if map_of (dw_open w) x = None
      then Some (w\<lparr>dw_open := (x, \<lparr>tx_start = dw_now w, tx_facts = []\<rparr>) # dw_open w\<rparr>)
      else None)" |
  "delivery_act limit settle (Emit x e rnd) w =
     (case map_of (dw_open w) x of
        None \<Rightarrow> None
      | Some tx \<Rightarrow>
          if uuidv7 (dw_now w) rnd \<in> set (world_ids w) then None
          else Some (w\<lparr>dw_open := AList.update x
                 (tx\<lparr>tx_facts := tx_facts tx @ [emitted (tx_start tx) (dw_now w) e rnd]\<rparr>) (dw_open w)\<rparr>))" |
  "delivery_act limit settle (Commit x) w =
     (case map_of (dw_open w) x of
        None \<Rightarrow> None
      | Some tx \<Rightarrow> Some (w\<lparr>dw_db := dw_db w\<lparr>ed_events := ed_events (dw_db w) @ tx_facts tx\<rparr>,
                           dw_open := AList.delete x (dw_open w)\<rparr>))" |
  "delivery_act limit settle (Rollback x) w =
     (case map_of (dw_open w) x of
        None \<Rightarrow> None
      | Some tx \<Rightarrow> Some (w\<lparr>dw_open := AList.delete x (dw_open w)\<rparr>))" |
  "delivery_act limit settle (Tick held rxs) w =
     Some (w\<lparr>dw_db := dispatch_reactions held (settled_before (int settle) (dw_db w)) rxs (dw_db w)\<rparr>)"

fun delivery_run ::
  "nat \<Rightarrow> nat \<Rightarrow> delivery_action list \<Rightarrow> delivery_world \<Rightarrow> delivery_world option" where
  "delivery_run limit settle [] w = Some w" |
  "delivery_run limit settle (a # as) w =
     (case delivery_act limit settle a w of None \<Rightarrow> None | Some w' \<Rightarrow> delivery_run limit settle as w')"

definition delivery_start :: "nat \<Rightarrow> delivery_world" where
  "delivery_start t = \<lparr>dw_db = \<lparr>ed_events = [], ed_cursors = [], ed_dispatched = [],
     ed_queue = \<lparr>tq_rows = [], tq_clock = int t, tq_next_id = 0\<rparr>\<rparr>, dw_open = []\<rparr>"

text \<open>
  The states a run reaches.  Every instance agrees on the kinds a topic is owed, \<open>kinds_for\<close>.
\<close>

definition action_ok :: "(string \<Rightarrow> string list) \<Rightarrow> delivery_action \<Rightarrow> bool" where
  "action_ok kinds_for a = (case a of
     Tick held rxs \<Rightarrow> (\<forall>(kinds, rx) \<in> set rxs. kinds = kinds_for (rx_topic rx))
   | _ \<Rightarrow> True)"

inductive delivery_reachable ::
  "nat \<Rightarrow> nat \<Rightarrow> (string \<Rightarrow> string list) \<Rightarrow> delivery_world \<Rightarrow> bool"
  for limit settle :: nat and kinds_for :: "string \<Rightarrow> string list" where
  start: "delivery_reachable limit settle kinds_for (delivery_start t)" |
  act: "delivery_reachable limit settle kinds_for w \<Longrightarrow> action_ok kinds_for a \<Longrightarrow>
    delivery_act limit settle a w = Some w' \<Longrightarrow> delivery_reachable limit settle kinds_for w'"

inductive_cases delivery_reachableE: "delivery_reachable limit settle kinds_for w"

section \<open>The invariant\<close>

text \<open>A fact's key was minted between its transaction's start and, at most, the limit later.\<close>

definition fact_ok :: "nat \<Rightarrow> nat \<Rightarrow> business_event \<Rightarrow> bool" where
  "fact_ok limit now e \<longleftrightarrow> (\<exists>s m r. be_created_at e = int s \<and> be_id e = uuidv7 m r
     \<and> s \<le> m \<and> m \<le> s + limit \<and> m \<le> now)"

definition open_ok :: "nat \<Rightarrow> nat \<Rightarrow> transaction \<Rightarrow> bool" where
  "open_ok limit now x \<longleftrightarrow> tx_start x \<le> now \<and> now \<le> tx_start x + limit
     \<and> (\<forall>e \<in> set (tx_facts x). fact_ok limit now e \<and> (\<exists>m r. be_id e = uuidv7 m r \<and> tx_start x \<le> m))"

text \<open>A cursor is nil, or older than anything an open transaction can still hold.\<close>

definition cursor_ok :: "nat \<Rightarrow> nat \<Rightarrow> uuid \<Rightarrow> bool" where
  "cursor_ok limit now c \<longleftrightarrow> c = 0 \<or> (\<exists>m r. c = uuidv7 m r \<and> m + limit < now)"

definition covered :: "(string \<Rightarrow> string list) \<Rightarrow> event_db \<Rightarrow> string \<Rightarrow> bool" where
  "covered kinds_for db topic \<longleftrightarrow> (\<forall>e \<in> set (ed_events db). be_kind e \<in> set (kinds_for topic)
     \<longrightarrow> be_id e \<le> cursor_of db topic \<longrightarrow> (be_id e, topic) \<in> set (ed_dispatched db))"

definition delivery_inv :: "nat \<Rightarrow> (string \<Rightarrow> string list) \<Rightarrow> delivery_world \<Rightarrow> bool" where
  "delivery_inv limit kinds_for w \<longleftrightarrow>
     0 \<le> ed_now (dw_db w)
   \<and> distinct (map fst (dw_open w)) \<and> distinct (world_ids w)
   \<and> (\<forall>e \<in> set (ed_events (dw_db w)). fact_ok limit (dw_now w) e)
   \<and> (\<forall>x \<in> snd ` set (dw_open w). open_ok limit (dw_now w) x)
   \<and> (\<forall>topic. cursor_ok limit (dw_now w) (cursor_of (dw_db w) topic))
   \<and> (\<forall>topic. covered kinds_for (dw_db w) topic)
   \<and> tasks_match (dw_db w)"

lemma fact_ok_mono: "fact_ok limit now e \<Longrightarrow> now \<le> now' \<Longrightarrow> fact_ok limit now' e"
  unfolding fact_ok_def by (meson order_trans)

lemma cursor_ok_mono: "cursor_ok limit now c \<Longrightarrow> now \<le> now' \<Longrightarrow> cursor_ok limit now' c"
  unfolding cursor_ok_def by (metis order_less_le_trans)

lemma cursor_below_open:
  assumes "cursor_ok limit now c" "open_ok limit now x" "e \<in> set (tx_facts x)"
  shows "c < be_id e"
proof -
  obtain m r where m: "be_id e = uuidv7 m r" "tx_start x \<le> m" and "now \<le> tx_start x + limit"
    using assms(2,3) by (auto simp: open_ok_def)
  show ?thesis
  proof (cases "c = 0")
    case False
    then obtain k q where "c = uuidv7 k q" "k + limit < now"
      using assms(1) by (auto simp: cursor_ok_def)
    then show ?thesis using m \<open>now \<le> tx_start x + limit\<close> uuidv7_mono by simp
  qed (use m uuidv7_pos in simp)
qed

section \<open>A tick keeps the invariant\<close>

lemma new_cursor_ok:
  assumes facts: "\<forall>e \<in> set (ed_events db). fact_ok limit now e"
    and "cursor_ok limit now c" and "2 * limit \<le> settle"
    and "facts_above_cursor c kinds (int now - int settle) (ed_events db) = (found, c')"
    and "distinct (map be_id (ed_events db))"
  shows "cursor_ok limit now c'"
proof -
  consider "c' = c" | e where "e \<in> set found" "be_id e = c'" "be_created_at e < int now - int settle"
    using facts_above_cursor_settled(2)[OF assms(4,5)] by blast
  then show ?thesis
  proof cases
    case 2
    then have "e \<in> set (ed_events db)"
      using assms(4) facts_above_found[of c kinds "int now - int settle" "ed_events db"] by simp
    then obtain s m r where "be_created_at e = int s" "be_id e = uuidv7 m r" "m \<le> s + limit"
      using facts by (auto simp: fact_ok_def)
    moreover from this 2 have "m + limit < now" using assms(3) by linarith
    ultimately show ?thesis using 2(2) by (auto simp: cursor_ok_def)
  qed (use assms(2) in simp)
qed

definition tick_inv :: "nat \<Rightarrow> nat \<Rightarrow> (string \<Rightarrow> string list) \<Rightarrow> event_db \<Rightarrow> bool" where
  "tick_inv limit now kinds_for db \<longleftrightarrow> ed_now db = int now
     \<and> (\<forall>e \<in> set (ed_events db). fact_ok limit now e) \<and> distinct (map be_id (ed_events db))
     \<and> (\<forall>topic. cursor_ok limit now (cursor_of db topic)) \<and> (\<forall>topic. covered kinds_for db topic)
     \<and> tasks_match db"

lemma tick_inv_reaction:
  assumes inv: "tick_inv limit now kinds_for db" and "2 * limit \<le> settle"
    and kinds: "kinds = kinds_for (rx_topic rx)"
    and db': "db' = dispatch_reaction held (int now - int settle) kinds rx db"
  shows "tick_inv limit now kinds_for db'"
    and "ed_events db' = ed_events db" and "set (ed_dispatched db) \<subseteq> set (ed_dispatched db')"
    and "\<not> held (rx_topic rx) \<Longrightarrow> e \<in> set (ed_events db) \<Longrightarrow> be_kind e \<in> set kinds \<Longrightarrow>
      (be_id e, rx_topic rx) \<in> set (ed_dispatched db')"
proof -
  let ?topic = "rx_topic rx"
  obtain found c' where f: "facts_above_cursor (cursor_of db ?topic) kinds (int now - int settle)
      (ed_events db) = (found, c')" by force
  note R = dispatch_reaction_spec[OF db'[symmetric] f]
  have found: "set found = {r \<in> set (ed_events db). cursor_of db ?topic < be_id r \<and> be_kind r \<in> set kinds}"
    using facts_above_found[of "cursor_of db ?topic" kinds "int now - int settle" "ed_events db"] f by simp
  have d: "distinct (map be_id (ed_events db))" using inv by (simp add: tick_inv_def)
  show all: "\<not> held ?topic \<Longrightarrow> e \<in> set (ed_events db) \<Longrightarrow> be_kind e \<in> set kinds \<Longrightarrow>
      (be_id e, ?topic) \<in> set (ed_dispatched db')" for e
    using R(5) inv kinds by (cases "be_id e \<le> cursor_of db ?topic")
      (auto simp: tick_inv_def covered_def found)
  have c': "cursor_ok limit now c'"
    using new_cursor_ok[OF _ _ assms(2) f d] inv by (simp add: tick_inv_def)
  show sub: "set (ed_dispatched db) \<subseteq> set (ed_dispatched db')"
    using R(4,5) by (cases "held ?topic") auto
  show ev: "ed_events db' = ed_events db" by (rule R(1))
  have cov: "covered kinds_for db' topic" for topic
  proof (cases "held ?topic")
    case True
    then show ?thesis using R(1,4) inv by (simp add: tick_inv_def covered_def)
  next
    case False
    show ?thesis
    proof (cases "topic = ?topic")
      case True
      then show ?thesis using all[OF False] kinds by (simp add: covered_def ev)
    next
      case False
      then show ?thesis using \<open>\<not> held ?topic\<close> R(5) inv sub
        by (auto simp: tick_inv_def covered_def ev)
    qed
  qed
  have cur: "cursor_ok limit now (cursor_of db' topic)" for topic
    using R(4,5) c' inv by (cases "held ?topic") (auto simp: tick_inv_def)
  show "tick_inv limit now kinds_for db'"
    using inv R(1-3) cov cur by (simp add: tick_inv_def)
qed

lemma tick_inv_reactions:
  assumes "tick_inv limit now kinds_for db" "2 * limit \<le> settle"
    and "\<forall>(kinds, rx) \<in> set rxs. kinds = kinds_for (rx_topic rx)"
  shows "tick_inv limit now kinds_for (dispatch_reactions held (int now - int settle) rxs db)
    \<and> ed_events (dispatch_reactions held (int now - int settle) rxs db) = ed_events db
    \<and> set (ed_dispatched db) \<subseteq> set (ed_dispatched (dispatch_reactions held (int now - int settle) rxs db))
    \<and> (\<forall>(kinds, rx) \<in> set rxs. \<forall>e \<in> set (ed_events db). \<not> held (rx_topic rx) \<longrightarrow> be_kind e \<in> set kinds \<longrightarrow>
        (be_id e, rx_topic rx) \<in> set (ed_dispatched (dispatch_reactions held (int now - int settle) rxs db)))"
  using assms(1,3)
proof (induction rxs arbitrary: db)
  case Nil
  then show ?case by (simp add: dispatch_reactions_def)
next
  case (Cons p rxs)
  obtain kinds rx where p: "p = (kinds, rx)" by force
  let ?db1 = "dispatch_reaction held (int now - int settle) kinds rx db"
  have k: "kinds = kinds_for (rx_topic rx)" using Cons.prems(2) p by simp
  note one = tick_inv_reaction[OF Cons.prems(1) assms(2) k refl, of held]
  have rest: "\<forall>(kinds, rx) \<in> set rxs. kinds = kinds_for (rx_topic rx)" using Cons.prems(2) by simp
  have fold: "dispatch_reactions held (int now - int settle) (p # rxs) db
      = dispatch_reactions held (int now - int settle) rxs ?db1"
    by (simp add: dispatch_reactions_def p)
  note ih = Cons.IH[OF one(1) rest]
  show ?case unfolding fold using ih one(2-4) by (auto simp: p)
qed

section \<open>Every action keeps the invariant\<close>

lemma open_ok_mono:
  "open_ok limit now x \<Longrightarrow> now \<le> now' \<Longrightarrow> now' \<le> tx_start x + limit \<Longrightarrow> open_ok limit now' x"
  unfolding open_ok_def using fact_ok_mono[of limit now _ now'] by (meson order_trans)

lemma delivery_inv_pass:
  assumes "delivery_inv limit kinds_for w" "delivery_act limit settle (Pass t) w = Some w'"
  shows "delivery_inv limit kinds_for w'"
proof -
  have t: "dw_now w \<le> t" "\<forall>x \<in> snd ` set (dw_open w). t \<le> tx_start x + limit"
    and w': "w' = w\<lparr>dw_db := dw_db w\<lparr>ed_queue := ed_queue (dw_db w)\<lparr>tq_clock := int t\<rparr>\<rparr>\<rparr>"
    using assms(2) by (auto split: if_splits)
  have now: "dw_now w' = t" by (simp add: w' dw_now_def)
  have cur: "cursor_of (dw_db w') = cursor_of (dw_db w)"
    by (rule ext) (simp add: w' cursor_of_def)
  have "fact_ok limit t e" if "e \<in> set (ed_events (dw_db w))" for e
    using that assms(1) t(1) fact_ok_mono unfolding delivery_inv_def by blast
  moreover have "open_ok limit t x" if "x \<in> snd ` set (dw_open w)" for x
    using that assms(1) t open_ok_mono unfolding delivery_inv_def by blast
  moreover have "cursor_ok limit t (cursor_of (dw_db w) topic)" for topic
    using assms(1) t(1) cursor_ok_mono unfolding delivery_inv_def by blast
  moreover have "covered kinds_for (dw_db w') topic = covered kinds_for (dw_db w) topic" for topic
    by (simp add: covered_def cur) (simp add: w')
  ultimately show ?thesis using assms(1)
    unfolding delivery_inv_def now cur by (auto simp: w' tasks_match_def world_ids_def)
qed

lemma delivery_inv_begin:
  assumes "delivery_inv limit kinds_for w" "delivery_act limit settle (Begin x) w = Some w'"
  shows "delivery_inv limit kinds_for w'"
proof -
  have x: "map_of (dw_open w) x = None"
    and w': "w' = w\<lparr>dw_open := (x, \<lparr>tx_start = dw_now w, tx_facts = []\<rparr>) # dw_open w\<rparr>"
    using assms(2) by (auto split: if_splits)
  have "x \<notin> fst ` set (dw_open w)" using x by (simp add: map_of_eq_None_iff)
  then show ?thesis using assms(1)
    by (auto simp: delivery_inv_def w' open_ok_def dw_now_def world_ids_def)
qed

lemma delivery_inv_emit:
  assumes "delivery_inv limit kinds_for w" "delivery_act limit settle (Emit x e rnd) w = Some w'"
  shows "delivery_inv limit kinds_for w'"
proof -
  obtain tx where tx: "map_of (dw_open w) x = Some tx"
    and new: "uuidv7 (dw_now w) rnd \<notin> set (world_ids w)"
    and w'0: "w' = w\<lparr>dw_open := AList.update x
       (tx\<lparr>tx_facts := tx_facts tx @ [emitted (tx_start tx) (dw_now w) e rnd]\<rparr>) (dw_open w)\<rparr>"
    using assms(2) by (auto split: option.splits if_splits)
  let ?e = "emitted (tx_start tx) (dw_now w) e rnd"
  obtain a b where ab: "dw_open w = a @ (x, tx) # b"
    and "\<And>w. AList.update x w (dw_open w') = AList.update x w (dw_open w')"
    and upd: "\<And>v. AList.update x v (dw_open w) = a @ (x, v) # b"
    using dict_split[OF tx] by metis
  have w': "dw_open w' = a @ (x, tx\<lparr>tx_facts := tx_facts tx @ [?e]\<rparr>) # b" "dw_db w' = dw_db w"
    "dw_now w' = dw_now w"
    by (simp_all add: w'0 upd dw_now_def)
  have ok: "open_ok limit (dw_now w) tx" using assms(1) by (simp add: delivery_inv_def ab)
  have id: "be_id ?e = uuidv7 (dw_now w) rnd" by (simp add: emitted_def)
  have "fact_ok limit (dw_now w) ?e"
    using ok by (auto simp: fact_ok_def open_ok_def emitted_def)
  then have ok': "open_ok limit (dw_now w) (tx\<lparr>tx_facts := tx_facts tx @ [?e]\<rparr>)"
    using ok id by (auto simp: open_ok_def)
  have "mset (world_ids w') = add_mset (be_id ?e) (mset (world_ids w))"
    by (simp add: world_ids_def w' ab)
  then have "distinct (world_ids w')"
    using assms(1) new id by (metis delivery_inv_def distinct.simps(2) mset.simps(2) mset_eq_imp_distinct_iff)
  then show ?thesis using assms(1) ok' unfolding delivery_inv_def w'(2,3)
    by (auto simp: w'(1) ab)
qed

lemma distinct_move:
  "distinct (e @ a @ t @ b) \<Longrightarrow> distinct ((e @ t) @ a @ b)"
  "distinct (e @ a @ t @ b) \<Longrightarrow> distinct ((e @ map f []) @ a @ b)"
  by auto

lemma delivery_inv_end:
  assumes "delivery_inv limit kinds_for w" "map_of (dw_open w) x = Some tx"
    and "facts = [] \<or> facts = tx_facts tx"
    and w': "w' = w\<lparr>dw_db := dw_db w\<lparr>ed_events := ed_events (dw_db w) @ facts\<rparr>,
                     dw_open := AList.delete x (dw_open w)\<rparr>"
  shows "delivery_inv limit kinds_for w'"
proof -
  have d: "distinct (map fst (dw_open w))" using assms(1) by (simp add: delivery_inv_def)
  obtain a b where ab: "dw_open w = a @ (x, tx) # b" and del: "AList.delete x (dw_open w) = a @ b"
    using dict_split[OF assms(2)] d by metis
  have now: "dw_now w' = dw_now w" by (simp add: w' dw_now_def)
  have cur: "cursor_of (dw_db w') = cursor_of (dw_db w)" by (rule ext) (simp add: w' cursor_of_def)
  have tx: "open_ok limit (dw_now w) tx" using assms(1) by (simp add: delivery_inv_def ab)
  have "covered kinds_for (dw_db w') topic" for topic
  proof -
    have "cursor_of (dw_db w) topic < be_id e" if "e \<in> set facts" for e
    proof -
      have "e \<in> set (tx_facts tx)" using that assms(3) by auto
      moreover have "cursor_ok limit (dw_now w) (cursor_of (dw_db w) topic)"
        using assms(1) by (simp add: delivery_inv_def)
      ultimately show ?thesis using tx cursor_below_open by blast
    qed
    then show ?thesis using assms(1) unfolding covered_def cur
      by (fastforce simp: w' delivery_inv_def covered_def)
  qed
  moreover have "fact_ok limit (dw_now w) e" if "e \<in> set facts" for e
    using that assms(3) tx by (auto simp: open_ok_def)
  moreover have "distinct (world_ids w')"
  proof -
    let ?ids = "\<lambda>d :: (nat, transaction) dict. map be_id (concat (map (tx_facts \<circ> snd) d))"
    have "distinct (map be_id (ed_events (dw_db w)) @ ?ids a @ map be_id (tx_facts tx) @ ?ids b)"
      using assms(1) ab by (simp add: delivery_inv_def world_ids_def)
    moreover have "world_ids w' = (map be_id (ed_events (dw_db w)) @ map be_id facts) @ ?ids a @ ?ids b"
      by (simp add: world_ids_def w' del)
    ultimately show ?thesis using assms(3) distinct_move by metis
  qed
  moreover have "dw_open w' = a @ b" "distinct (map fst (a @ b))" "set a \<subseteq> set (dw_open w)" "set b \<subseteq> set (dw_open w)"
    using d del by (auto simp: w' ab)
  moreover have "ed_events (dw_db w') = ed_events (dw_db w) @ facts" "ed_now (dw_db w') = ed_now (dw_db w)"
    "tasks_match (dw_db w') = tasks_match (dw_db w)"
    by (simp_all add: w' tasks_match_def)
  ultimately show ?thesis using assms(1) unfolding delivery_inv_def now cur
    by fastforce
qed

lemma delivery_inv_tick:
  assumes "delivery_inv limit kinds_for w" "2 * limit \<le> settle"
    and "\<forall>(kinds, rx) \<in> set rxs. kinds = kinds_for (rx_topic rx)"
    and "delivery_act limit settle (Tick held rxs) w = Some w'"
  shows "delivery_inv limit kinds_for w'"
    and "ed_events (dw_db w') = ed_events (dw_db w)"
    and "(kinds, rx) \<in> set rxs \<Longrightarrow> e \<in> set (ed_events (dw_db w)) \<Longrightarrow> \<not> held (rx_topic rx) \<Longrightarrow>
      be_kind e \<in> set kinds \<Longrightarrow> (be_id e, rx_topic rx) \<in> set (ed_dispatched (dw_db w'))"
proof -
  let ?now = "dw_now w"
  have now: "ed_now (dw_db w) = int ?now" using assms(1) by (simp add: delivery_inv_def dw_now_def)
  have w': "w' = w\<lparr>dw_db := dispatch_reactions held (int ?now - int settle) rxs (dw_db w)\<rparr>"
    using assms(4) by (simp add: settled_before_def now)
  have inv: "tick_inv limit ?now kinds_for (dw_db w)"
    using assms(1) now by (simp add: delivery_inv_def tick_inv_def world_ids_def)
  note T = tick_inv_reactions[OF inv assms(2,3), of held]
  show ev: "ed_events (dw_db w') = ed_events (dw_db w)" using T by (simp add: w')
  have "tick_inv limit ?now kinds_for (dw_db w')" using T by (simp add: w')
  moreover from this have "dw_now w' = ?now" by (simp add: tick_inv_def dw_now_def)
  moreover have "world_ids w' = world_ids w" using ev by (simp add: world_ids_def w')
  ultimately show "delivery_inv limit kinds_for w'"
    using assms(1) unfolding delivery_inv_def tick_inv_def by (auto simp: w')
  show "(kinds, rx) \<in> set rxs \<Longrightarrow> e \<in> set (ed_events (dw_db w)) \<Longrightarrow> \<not> held (rx_topic rx) \<Longrightarrow>
      be_kind e \<in> set kinds \<Longrightarrow> (be_id e, rx_topic rx) \<in> set (ed_dispatched (dw_db w'))"
    using T by (auto simp: w')
qed

lemma delivery_inv_start: "delivery_inv limit kinds_for (delivery_start t)"
  by (simp add: delivery_inv_def delivery_start_def world_ids_def cursor_ok_def cursor_of_def
      nil_cursor_def covered_def tasks_match_def)

lemma delivery_inv_reachable [invs]:
  assumes "delivery_reachable limit settle kinds_for w" "2 * limit \<le> settle"
  shows "delivery_inv limit kinds_for w"
  using assms(1)
proof (induction rule: delivery_reachable.induct)
  case (act w a w')
  show ?case
  proof (cases a)
    case (Commit x)
    then show ?thesis using act delivery_inv_end[OF act.IH, of x _ "tx_facts _"]
      by (auto split: option.splits)
  next
    case (Rollback x)
    then show ?thesis using act delivery_inv_end[OF act.IH, of x _ "[]" w']
      by (auto split: option.splits)
  next
    case (Tick held rxs)
    then show ?thesis
      using act delivery_inv_tick(1)[OF act.IH assms(2), of rxs held w'] by (simp add: action_ok_def)
  qed (use act delivery_inv_pass delivery_inv_begin delivery_inv_emit in blast)+
qed (rule delivery_inv_start)

section \<open>Exactly once\<close>

text \<open>
  C1.  A fact is handed to each of its consumers exactly once.  In every state reachable with
  transactions open for at most half the settle window, whatever the interleaving of transactions,
  instances and clocks: the queue has been given exactly one task per entry of the ledger, no entry
  twice; and after a tick, every committed fact of a kind some consumer of that tick listens to has
  its entry for that consumer, unless another instance held the cursor.
\<close>

theorem exactly_once_handover:
  assumes "delivery_reachable limit settle kinds_for w" "2 * limit \<le> settle"
    and "\<forall>(kinds, rx) \<in> set rxs. kinds = kinds_for (rx_topic rx)"
    and "delivery_act limit settle (Tick held rxs) w = Some w'"
  shows "map task_key (tq_rows (ed_queue (dw_db w'))) = map entry_key (ed_dispatched (dw_db w'))
    \<and> distinct (ed_dispatched (dw_db w'))
    \<and> (\<forall>(kinds, rx) \<in> set rxs. \<forall>e \<in> set (ed_events (dw_db w)).
         \<not> held (rx_topic rx) \<longrightarrow> be_kind e \<in> set kinds \<longrightarrow>
         (be_id e, rx_topic rx) \<in> set (ed_dispatched (dw_db w')))"
proof -
  have inv: "delivery_inv limit kinds_for w" using assms(1,2) by (rule delivery_inv_reachable)
  have "tasks_match (dw_db w')"
    using delivery_inv_tick(1)[OF inv assms(2-4)] by (simp add: delivery_inv_def)
  then show ?thesis
    using delivery_inv_tick(3)[OF inv assms(2-4)] by (auto simp: tasks_match_def)
qed

definition demo_fact :: business_event where
  "demo_fact = \<lparr>be_id = 0, be_created_at = 0, be_app_name = ''todo'', be_verb = ''created'',
     be_icon = ''circle'', be_user_id = None, be_user_name = None, be_org_id = None,
     be_org_name = None, be_entity_id = None, be_entity_name = None, be_request_id = None,
     be_request_name = None, be_ip_address = None, be_payload = [], be_checked_at = None\<rparr>"

definition demo_reaction :: reaction where
  "demo_reaction = \<lparr>rx_name = ''mail'', rx_topic = ''evt:todo.created:mail'', rx_as_actor = False,
     rx_app = ''mail''\<rparr>"

abbreviation demo_rxs :: "(string list \<times> reaction) list" where
  "demo_rxs \<equiv> [([''todo.created''], demo_reaction)]"

lemma reachable_run:
  "delivery_reachable limit settle kinds_for w \<Longrightarrow> delivery_run limit settle as w = Some w' \<Longrightarrow>
   \<forall>a \<in> set as. action_ok kinds_for a \<Longrightarrow> delivery_reachable limit settle kinds_for w'"
  by (induction "as" arbitrary: w) (auto split: option.splits intro: delivery_reachable.act)

abbreviation (input) secs :: "nat \<Rightarrow> nat" where
  "secs n \<equiv> n * 1000000"

lemma exactly_once_handover_witness:
  "\<exists>w w'. delivery_run 30 60 [Begin 1, Emit 1 demo_fact 5, Pass 120, Commit 1] (delivery_start 100) = Some w
     \<and> delivery_act 30 60 (Tick (\<lambda>_. False) demo_rxs) w = Some w'
     \<and> (uuidv7 100 5, ''evt:todo.created:mail'') \<in> set (ed_dispatched (dw_db w'))
     \<and> distinct (ed_dispatched (dw_db w'))"
proof -
  let ?as = "[Begin 1, Emit 1 demo_fact 5, Pass 120, Commit 1]"
  obtain w where w: "delivery_run 30 60 ?as (delivery_start 100) = Some w"
    and ev: "ed_events (dw_db w) = [emitted 100 100 demo_fact 5]"
    by (simp add: delivery_start_def dw_now_def world_ids_def)
  have reach: "delivery_reachable 30 60 (\<lambda>_. [''todo.created'']) w"
    by (rule reachable_run[OF delivery_reachable.start w]) (simp add: action_ok_def)
  obtain w' where w': "delivery_act 30 60 (Tick (\<lambda>_. False) demo_rxs) w = Some w'" by simp
  have "be_kind (emitted 100 100 demo_fact 5) = ''todo.created''"
    by (simp add: emitted_def demo_fact_def be_kind_def)
  then show ?thesis
    using exactly_once_handover[OF reach _ _ w'] w w' ev
    by (auto simp: demo_reaction_def emitted_def)
qed

section \<open>A fact skipped for good\<close>

text \<open>
  A fact committed below its consumer's cursor without an entry in the ledger stays without: cursors
  only grow, and a turn looks above its cursor only.
\<close>

definition skipped :: "uuid \<Rightarrow> string \<Rightarrow> event_db \<Rightarrow> bool" where
  "skipped i topic db \<longleftrightarrow> i \<le> cursor_of db topic \<and> (i, topic) \<notin> set (ed_dispatched db)"

lemma skipped_reaction:
  assumes "skipped i topic db"
  shows "skipped i topic (dispatch_reaction held settled kinds rx db)"
proof -
  let ?c = "cursor_of db (rx_topic rx)"
  obtain found c' where f: "facts_above_cursor ?c kinds settled (ed_events db) = (found, c')" by force
  note R = dispatch_reaction_spec[OF refl f, where held = held]
  have "\<forall>r \<in> set found. ?c < be_id r"
    using facts_above_found[of ?c kinds settled "ed_events db"] f by simp
  then show ?thesis
    using assms R(1,4,5) facts_above_cursor_ge[OF f]
    by (cases "held (rx_topic rx)") (fastforce simp: skipped_def)+
qed

lemma skipped_reactions: "skipped i topic db \<Longrightarrow> skipped i topic (dispatch_reactions held settled rxs db)"
  unfolding dispatch_reactions_def
  by (induction rxs arbitrary: db) (auto intro: skipped_reaction)

lemma skipped_act:
  assumes "skipped i topic (dw_db w)" "delivery_act limit settle a w = Some w'"
  shows "skipped i topic (dw_db w')"
proof (cases a)
  case (Tick held rxs)
  then show ?thesis using assms skipped_reactions by auto
qed (use assms in \<open>auto simp: skipped_def cursor_of_def split: if_splits option.splits\<close>)

lemma skipped_run:
  "skipped i topic (dw_db w) \<Longrightarrow> delivery_run limit settle as w = Some w' \<Longrightarrow> skipped i topic (dw_db w')"
  by (induction "as" arbitrary: w) (auto split: option.splits dest: skipped_act)

text \<open>
  Transactions 1 and 2 start at 100 s and 130 s; 2 records its fact at 145 s, 1 at 150 s; 1 commits at
  155 s, 2 at 170 s, each within 60 s of its start; a tick falls at 161 s.
\<close>

definition late_commit_actions :: "delivery_action list" where
  "late_commit_actions = [Begin 1, Pass (secs 130), Begin 2, Pass (secs 145), Emit 2 demo_fact 5,
     Pass (secs 150), Emit 1 demo_fact 6, Pass (secs 155), Commit 1, Pass (secs 161),
     Tick (\<lambda>_. False) demo_rxs, Pass (secs 170), Commit 2]"

lemma late_commit_run:
  "\<exists>w. delivery_run (secs 60) (secs 60) late_commit_actions (delivery_start (secs 100)) = Some w
     \<and> emitted (secs 130) (secs 145) demo_fact 5 \<in> set (ed_events (dw_db w))
     \<and> cursor_of (dw_db w) ''evt:todo.created:mail'' = uuidv7 (secs 150) 6
     \<and> set (ed_dispatched (dw_db w)) = {(uuidv7 (secs 150) 6, ''evt:todo.created:mail'')}"
proof -
  have less: "uuidv7 145000000 5 < uuidv7 150000000 6" by (rule uuidv7_mono) simp
  then have ne: "uuidv7 150000000 6 \<noteq> uuidv7 145000000 5" by simp
  have kind: "be_kind (demo_fact\<lparr>be_id := i, be_created_at := t, be_checked_at := None\<rparr>) = ''todo.created''" for i t
    by (simp add: demo_fact_def be_kind_def)
  show ?thesis
    using ne uuidv7_pos
    by (simp add: late_commit_actions_def delivery_start_def dw_now_def world_ids_def
        dispatch_reactions_def dispatch_reaction_def lock_dispatch_cursor_def facts_above_cursor_def
        demo_reaction_def kind nil_cursor_def settled_before_def dispatch_fact_def dispatch_consumer_def
        advance_dispatch_cursor_def cursor_of_def enqueue_appends Let_def emitted_def)
qed

text \<open>
  C15.  With transactions allowed to stay open for the whole settle window, a committed fact can be
  skipped for good: there is a reachable state in which a fact of a kind the consumer listens to is in
  the journal, and in whatever follows it is never handed to the consumer.  (Its key was minted before
  that of a fact whose transaction had started early enough to look settled.)
\<close>

theorem late_commit_skipped:
  "\<exists>w e. delivery_reachable (secs 60) (secs 60) (\<lambda>_. [''todo.created'']) w
     \<and> e \<in> set (ed_events (dw_db w)) \<and> be_kind e = ''todo.created''
     \<and> (\<forall>as w'. delivery_run (secs 60) (secs 60) as w = Some w' \<longrightarrow>
          (be_id e, ''evt:todo.created:mail'') \<notin> set (ed_dispatched (dw_db w')))"
proof -
  let ?e = "emitted (secs 130) (secs 145) demo_fact 5"
  obtain w where w: "delivery_run (secs 60) (secs 60) late_commit_actions (delivery_start (secs 100)) = Some w"
    "?e \<in> set (ed_events (dw_db w))" "cursor_of (dw_db w) ''evt:todo.created:mail'' = uuidv7 (secs 150) 6"
    "set (ed_dispatched (dw_db w)) = {(uuidv7 (secs 150) 6, ''evt:todo.created:mail'')}"
    using late_commit_run by blast
  have less: "uuidv7 (secs 145) 5 < uuidv7 (secs 150) 6" by (rule uuidv7_mono) simp
  have "delivery_reachable (secs 60) (secs 60) (\<lambda>_. [''todo.created'']) w"
    by (rule reachable_run[OF delivery_reachable.start w(1)])
      (simp add: action_ok_def late_commit_actions_def)
  moreover have "skipped (be_id ?e) ''evt:todo.created:mail'' (dw_db w)"
    using w(3,4) less by (simp add: skipped_def emitted_def)
  moreover have "be_kind ?e = ''todo.created''" by (simp add: emitted_def demo_fact_def be_kind_def)
  ultimately show ?thesis using w(2) skipped_run unfolding skipped_def by meson
qed

lemma late_commit_skipped_witness:
  "\<exists>(w :: delivery_world) (e :: business_event). e \<in> set (ed_events (dw_db w)) \<and> be_kind e = ''todo.created''
     \<and> (be_id e, ''evt:todo.created:mail'') \<notin> set (ed_dispatched (dw_db w))"
proof -
  obtain w :: delivery_world and e where "e \<in> set (ed_events (dw_db w))" "be_kind e = ''todo.created''"
    and skip: "\<forall>as w'. delivery_run (secs 60) (secs 60) as w = Some w' \<longrightarrow>
      (be_id e, ''evt:todo.created:mail'') \<notin> set (ed_dispatched (dw_db w'))"
    using late_commit_skipped by blast
  moreover have "delivery_run (secs 60) (secs 60) [] w = Some w" by simp
  ultimately show ?thesis by blast
qed

end
