(* ===== verification/Event_Bus.thy ===== *)
theory Event_Bus
  imports Event_Listener
begin

text \<open>
  \<open>apps/shared/events/bus.py\<close>: declaring, emitting, registering a durable consumer together with its
  queue handler, and the wrapper that makes a redelivery a no-op.  A consumer's database is the
  ledger of consumed events beside whatever the handler writes, a type parameter.  The last section
  shows that the spread scan of one instance never applies a fact twice.
\<close>

section \<open>Declaring and emitting\<close>

definition bus_declare :: "event_class list \<Rightarrow> wiring \<Rightarrow> event_error option \<times> wiring" where
  "bus_declare ts w = declare_events ts w"

definition require_declared :: "wiring \<Rightarrow> event \<Rightarrow> event_error + unit" where
  "require_declared w e =
     (if is_declared w (ev_class e) then Inr () else Inl (UndeclaredError (ec_kind (ev_class e))))"

definition emit_event ::
  "wiring \<Rightarrow> ((uuid, string option \<times> string option) dict \<times> (uuid, string) dict) option \<Rightarrow> log_context
     \<Rightarrow> uuid \<Rightarrow> instant \<Rightarrow> event \<Rightarrow> event_db \<Rightarrow> event_error + event_db" where
  "emit_event w tables ctx i now e db =
     bind_err (require_declared w e) (\<lambda>_. Inr (record_event tables ctx i now e db))"

section \<open>The wrapper of a durable consumer\<close>

type_synonym 'w consumer_db = "(string \<times> uuid) list \<times> 'w"

text \<open>
  A handler of typed events over the consumer's writes.  \<open>event_id\<close> is the payload's, parsed by the
  insert's cast (\<open>None\<close> when it is missing or no uuid: the statement raises).
\<close>

type_synonym 'w event_handler = "event \<Rightarrow> 'w \<Rightarrow> py_exc + 'w"

definition bad_payload :: py_exc where
  "bad_payload = \<lparr>exc_qualname = ''TypeError'', exc_frames = [], exc_repr = ''TypeError()''\<rparr>"

definition payload_event_id :: "payload \<Rightarrow> uuid option" where
  "payload_event_id payload = (case map_of payload ''event_id'' of
     Some (JStr s) \<Rightarrow> uuid_parse s | _ \<Rightarrow> None)"

definition consumer_wrapper ::
  "(string \<Rightarrow> instant option) \<Rightarrow> event_class \<Rightarrow> 'w event_handler \<Rightarrow> string \<Rightarrow> bool \<Rightarrow> payload
     \<Rightarrow> 'w consumer_db \<Rightarrow> py_exc + 'w consumer_db" where
  "consumer_wrapper fromiso t handler topic idempotent payload db =
     (case db of (consumed, world) \<Rightarrow>
        let call = (\<lambda>ledger. case from_payload fromiso t payload of
              None \<Rightarrow> Inl bad_payload
            | Some e \<Rightarrow> (case handler e world of Inl x \<Rightarrow> Inl x | Inr world' \<Rightarrow> Inr (ledger, world'))) in
        if \<not> idempotent then call consumed
        else (case payload_event_id payload of
            None \<Rightarrow> Inl bad_payload
          | Some i \<Rightarrow>
              (case already_consumed topic i consumed of
                 (_, True) \<Rightarrow> Inr db
               | (consumed', False) \<Rightarrow> call consumed')))"

text \<open>A delivery is a transaction: a raise leaves the database as it was.\<close>

definition deliver ::
  "(string \<Rightarrow> instant option) \<Rightarrow> event_class \<Rightarrow> 'w event_handler \<Rightarrow> string \<Rightarrow> bool \<Rightarrow> payload
     \<Rightarrow> 'w consumer_db \<Rightarrow> 'w consumer_db" where
  "deliver fromiso t handler topic idempotent payload db =
     (case consumer_wrapper fromiso t handler topic idempotent payload db of
        Inl _ \<Rightarrow> db | Inr db' \<Rightarrow> db')"

section \<open>Registering\<close>

text \<open>
  \<open>on\<close>: the wiring's topic, then the queue handler under that topic.  The table maps a topic to the
  consumer it runs (the event type, the handler's identity, the ledger switch).
\<close>

type_synonym consumer_table = "(string, event_class \<times> handler_id \<times> bool) dict"

definition bus_on ::
  "event_class \<Rightarrow> handler_id \<Rightarrow> string \<Rightarrow> string \<Rightarrow> bool \<Rightarrow> bool \<Rightarrow> wiring \<times> consumer_table
     \<Rightarrow> event_error + wiring \<times> consumer_table" where
  "bus_on t h name app as_actor idempotent b =
     (case add_consumer t name as_actor app (fst b) of
        Inl e \<Rightarrow> Inl e
      | Inr (topic, w') \<Rightarrow> Inr (w', AList.update topic (t, h, idempotent) (snd b)))"

definition bus_spread :: "event_class \<Rightarrow> handler_id \<Rightarrow> wiring \<Rightarrow> wiring" where
  "bus_spread t h w = add_spread_handler t h w"

section \<open>Registrations do not collide\<close>

definition bus_ok :: "wiring \<times> consumer_table \<Rightarrow> bool" where
  "bus_ok b \<longleftrightarrow> wiring_ok (fst b)
     \<and> (\<forall>topic. map_of (snd b) topic \<noteq> None \<longleftrightarrow> topic \<in> rx_topic ` set (all_reactions (fst b)))"

lemma bus_on_cases:
  assumes "bus_ok b" "bus_on t h name app as_actor idem b = Inr b'"
  shows "bus_ok b' \<and> consumer_topic t name \<notin> rx_topic ` set (all_reactions (fst b))
    \<and> map_of (snd b') = (map_of (snd b))(consumer_topic t name \<mapsto> (t, h, idem))
    \<and> rx_topic ` set (all_reactions (fst b')) = insert (consumer_topic t name) (rx_topic ` set (all_reactions (fst b)))"
proof -
  obtain topic w' where a: "add_consumer t name as_actor app (fst b) = Inr (topic, w')"
    and b': "b' = (w', AList.update topic (t, h, idem) (snd b))"
    using assms(2) by (auto simp: bus_on_def split: sum.splits prod.splits)
  have ok: "wiring_ok (fst b)" using assms(1) by (simp add: bus_ok_def)
  note W = wiring_ok_add_consumer[OF ok a]
  then have topic: "topic = consumer_topic t name" by simp
  have new: "topic \<notin> rx_topic ` set (all_reactions (fst b))"
    using a by (auto simp: add_consumer_def Let_def split: if_splits)
  have topics: "rx_topic ` set (all_reactions w') = insert topic (rx_topic ` set (all_reactions (fst b)))"
  proof -
    have "set (all_reactions w') = set_mset (mset (all_reactions w'))" by simp
    also have "\<dots> = insert \<lparr>rx_name = name, rx_topic = topic, rx_as_actor = as_actor, rx_app = app\<rparr>
        (set (all_reactions (fst b)))" using W by simp
    finally show ?thesis by simp
  qed
  show ?thesis
    using assms(1) W new topics
    by (auto simp: bus_ok_def b' map_of_AList_update topic)
qed

text \<open>
  Registrations never collide.  A consumer whose topic any reaction of any event already has is
  refused; one that is accepted adds its topic to the wiring and its own handler to the queue's table,
  overwriting no other consumer's handler.
\<close>

theorem consumers_never_overwritten:
  assumes "bus_ok b"
  shows "case bus_on t h name app as_actor idem b of
      Inl e \<Rightarrow> ec_kind t = [] \<or> consumer_topic t name \<in> rx_topic ` set (all_reactions (fst b))
    | Inr b' \<Rightarrow> bus_ok b' \<and> map_of (snd b) (consumer_topic t name) = None
        \<and> map_of (snd b') = (map_of (snd b))(consumer_topic t name \<mapsto> (t, h, idem))"
proof (cases "bus_on t h name app as_actor idem b")
  case (Inl e)
  then show ?thesis
    by (auto simp: bus_on_def add_consumer_def Let_def intro: rev_image_eqI split: if_splits)
next
  case (Inr b')
  have "map_of (snd b) (consumer_topic t name) = None"
    using bus_on_cases[OF assms Inr] assms unfolding bus_ok_def by blast
  then show ?thesis using Inr bus_on_cases[OF assms Inr] by simp
qed

definition demo_class :: event_class where
  "demo_class = \<lparr>ec_serial = 7, ec_module = ''apps.todo'', ec_qualname = ''TodoCreated'',
     ec_app_name = ''todo'', ec_verb = ''created'', ec_kind = ''todo.created'', ec_icon = ''circle'',
     ec_mro = [7], ec_annotations = [''title''],
     ec_fields = [\<lparr>ef_name = ''user_id'', ef_default = Some FNone, ef_uuid = True, ef_time = False\<rparr>,
                  \<lparr>ef_name = ''title'', ef_default = None, ef_uuid = False, ef_time = False\<rparr>],
     ec_org_scoped = False\<rparr>"

lemma consumers_never_overwritten_witness:
  "case bus_on demo_class 3 ''mail'' ''mail'' True True (wiring_init, []) of
      Inl e \<Rightarrow> False
    | Inr b' \<Rightarrow> bus_ok b' \<and> map_of (snd b') (consumer_topic demo_class ''mail'') = Some (demo_class, 3, True)"
proof -
  have ok: "bus_ok (wiring_init, [])"
    by (simp add: bus_ok_def wiring_ok_def wiring_init_def all_reactions_def)
  show ?thesis
    using consumers_never_overwritten[OF ok, where t = demo_class and h = 3 and name = "''mail''"
        and app = "''mail''" and as_actor = True and idem = True]
    by (auto simp: demo_class_def wiring_init_def all_reactions_def split: sum.splits)
qed

section \<open>Effectively once\<close>

lemma consumer_wrapper_idem:
  assumes "payload_event_id payload = Some i"
  shows "consumer_wrapper fromiso t handler topic True payload (consumed, world)
    = (if (topic, i) \<in> set consumed then Inr (consumed, world)
       else case from_payload fromiso t payload of
           None \<Rightarrow> Inl bad_payload
         | Some e \<Rightarrow> (case handler e world of Inl x \<Rightarrow> Inl x
                    | Inr world' \<Rightarrow> Inr (consumed @ [(topic, i)], world')))"
  using assms by (auto simp: consumer_wrapper_def already_consumed_def consume_event_def Let_def)

text \<open>
  C5.  An idempotent consumer's effects happen once per event.  Once a delivery of an event has
  succeeded, every later delivery of it, whatever its payload otherwise says, leaves the database
  alone; a delivery that raised leaves no mark, so the event can still be delivered; and the mark of
  another event or of another consumer plays no part.
\<close>

theorem consumer_effect_once:
  assumes "payload_event_id payload = Some i" "payload_event_id again = Some i"
  shows "case consumer_wrapper fromiso t handler topic True payload (consumed, world) of
      Inl x \<Rightarrow> deliver fromiso t handler topic True payload (consumed, world) = (consumed, world)
          \<and> (topic, i) \<notin> set consumed
    | Inr (consumed', world') \<Rightarrow>
        set consumed' = insert (topic, i) (set consumed)
      \<and> ((topic, i) \<in> set consumed \<longrightarrow> world' = world)
      \<and> ((topic, i) \<notin> set consumed \<longrightarrow>
          (\<exists>e. from_payload fromiso t payload = Some e \<and> handler e world = Inr world'))
      \<and> deliver fromiso t handler topic True again (consumed', world'') = (consumed', world'')"
proof (cases "(topic, i) \<in> set consumed")
  case True
  then show ?thesis
    using assms by (auto simp: consumer_wrapper_idem deliver_def)
next
  case False
  then show ?thesis
    using assms
    by (auto simp: consumer_wrapper_idem deliver_def split: option.splits sum.splits)
qed

lemma consumer_effect_once_witness:
  "case consumer_wrapper (\<lambda>_. None) demo_class (\<lambda>e (n :: nat). Inr (n + 1)) ''evt:t'' True
      [(''event_id'', JStr (uuid_str 5)), (''title'', JStr ''x'')] ([], 0) of
     Inl x \<Rightarrow> False | Inr (consumed', world') \<Rightarrow> world' = 1 \<and> set consumed' = {(''evt:t'', 5)}"
proof -
  have id: "payload_event_id [(''event_id'', JStr (uuid_str 5)), (''title'', JStr ''x'')] = Some 5"
    by (simp add: payload_event_id_def uuid_parse_uuid_str)
  have ev: "from_payload (\<lambda>_. None) demo_class [(''event_id'', JStr (uuid_str 5)), (''title'', JStr ''x'')]
      \<noteq> None"
    by (simp add: from_payload_def demo_class_def field_from_def reparse_def)
  show ?thesis
    using consumer_effect_once[OF id id, where fromiso = "\<lambda>_. None" and t = demo_class
        and handler = "\<lambda>e (n :: nat). Inr (n + 1)" and topic = "''evt:t''" and consumed = "[]" and world = 0] ev
    by (auto simp: consumer_wrapper_idem[OF id] split: option.splits)
qed

section \<open>The spread scan\<close>

text \<open>One instance's ticks over a journal that only grows.\<close>

fun spread_run :: "wiring \<Rightarrow> event_db list \<Rightarrow> listener \<Rightarrow> listener \<times> business_event list" where
  "spread_run w [] ls = (ls, [])" |
  "spread_run w (db # dbs) ls =
     (case read_spread w db ls of (ls1, fresh) \<Rightarrow>
        (case spread_run w dbs ls1 of (ls2, rest) \<Rightarrow> (ls2, fresh @ rest)))"

definition spread_at :: "listener \<Rightarrow> uuid" where
  "spread_at ls = (case ls_spread_cursor ls of Some c \<Rightarrow> c | None \<Rightarrow> nil_cursor)"

text \<open>What was applied is at or below the cursor, or remembered.\<close>

definition spread_inv :: "business_event list \<Rightarrow> listener \<Rightarrow> bool" where
  "spread_inv applied ls \<longleftrightarrow> distinct (map be_id applied)
     \<and> (\<forall>r \<in> set applied. be_id r \<le> spread_at ls \<or> be_id r \<in> set (ls_spread_applied ls))"

lemma read_spread_step:
  assumes "spread_inv applied ls" "read_spread w db ls = (ls', fresh)"
    and "distinct (map be_id (ed_events db))" "set applied \<subseteq> set (ed_events db)"
    and kinds: "\<forall>r \<in> set applied. be_kind r \<in> set (spread_kinds w)"
  shows "spread_inv (applied @ fresh) ls'" and "set fresh \<subseteq> set (ed_events db)"
    and "\<forall>r \<in> set fresh. be_kind r \<in> set (spread_kinds w)"
    and "e \<in> set (ed_events db) \<Longrightarrow> be_kind e \<in> set (spread_kinds w) \<Longrightarrow> spread_at ls < be_id e \<Longrightarrow>
      be_id e \<notin> set (ls_spread_applied ls) \<Longrightarrow> e \<in> set fresh"
proof -
  have empty: "spread_kinds w = [] \<Longrightarrow> fresh = [] \<and> ls' = ls"
    using assms(2) by (simp add: read_spread_def)
  obtain found settled where f: "facts_above_cursor (spread_at ls) (spread_kinds w)
      (settled_before (ls_settle ls) db) (ed_events db) = (found, settled)" by force
  have found: "set found = {r \<in> set (ed_events db). spread_at ls < be_id r \<and> be_kind r \<in> set (spread_kinds w)}"
    using facts_above_found[of "spread_at ls" "spread_kinds w" "settled_before (ls_settle ls) db" "ed_events db"]
    by (simp add: f)
  have ge: "spread_at ls \<le> settled" by (rule facts_above_cursor_ge[OF f])
  have nonempty: "spread_kinds w \<noteq> [] \<Longrightarrow> fresh = filter (\<lambda>r. be_id r \<notin> set (ls_spread_applied ls)) found
      \<and> spread_at ls' = settled \<and> set (ls_spread_applied ls') = be_id ` {r \<in> set found. settled < be_id r}"
    using assms(2) f by (auto simp: read_spread_def spread_at_def Let_def)
  have dfound: "distinct (map be_id found)"
    using assms(3) f by (auto simp: facts_above_cursor_def Let_def distinct_map_sort_key distinct_map_filter)
  show "set fresh \<subseteq> set (ed_events db)" "\<forall>r \<in> set fresh. be_kind r \<in> set (spread_kinds w)"
    using empty nonempty found by (cases "spread_kinds w = []"; auto)+
  show "e \<in> set (ed_events db) \<Longrightarrow> be_kind e \<in> set (spread_kinds w) \<Longrightarrow> spread_at ls < be_id e \<Longrightarrow>
      be_id e \<notin> set (ls_spread_applied ls) \<Longrightarrow> e \<in> set fresh"
    using nonempty found by (cases "spread_kinds w = []") auto
  show "spread_inv (applied @ fresh) ls'"
  proof (cases "spread_kinds w = []")
    case True
    then show ?thesis using empty assms(1) by simp
  next
    case False
    have fresh: "fresh = filter (\<lambda>r. be_id r \<notin> set (ls_spread_applied ls)) found"
      and at: "spread_at ls' = settled"
      and rem: "set (ls_spread_applied ls') = be_id ` {r \<in> set found. settled < be_id r}"
      using nonempty[OF False] by simp_all
    have "be_id r \<le> settled \<or> be_id r \<in> be_id ` {r \<in> set found. settled < be_id r}"
      if "r \<in> set applied \<or> r \<in> set fresh" for r
    proof (cases "be_id r \<le> settled")
      case False
      then have "r \<in> set found"
        using that assms(4) kinds ge found by (auto simp: fresh)
      then show ?thesis using False by simp
    qed simp
    moreover have "distinct (map be_id fresh)" using dfound by (simp add: fresh distinct_map_filter)
    moreover have "be_id ` set applied \<inter> be_id ` set fresh = {}"
      using assms(1) found by (fastforce simp: fresh spread_inv_def)
    ultimately show ?thesis
      using assms(1) by (auto simp: spread_inv_def at rem)
  qed
qed

text \<open>A journal that keeps its rows and gains new ones, its keys distinct.\<close>

fun growing :: "event_db list \<Rightarrow> bool" where
  "growing [] = True" |
  "growing [db] = distinct (map be_id (ed_events db))" |
  "growing (a # b # dbs) = (distinct (map be_id (ed_events a))
     \<and> set (ed_events a) \<subseteq> set (ed_events b) \<and> growing (b # dbs))"

lemma growing_Cons:
  "growing (db # dbs) \<Longrightarrow> distinct (map be_id (ed_events db)) \<and> growing dbs
     \<and> (dbs \<noteq> [] \<longrightarrow> set (ed_events db) \<subseteq> set (ed_events (hd dbs)))"
  by (cases dbs) auto

lemma spread_run_Cons:
  "snd (spread_run w (db # dbs) ls)
     = snd (read_spread w db ls) @ snd (spread_run w dbs (fst (read_spread w db ls)))"
  by (simp split: prod.splits)

lemma spread_run_distinct:
  "growing dbs \<Longrightarrow> spread_inv applied ls \<Longrightarrow> (dbs \<noteq> [] \<longrightarrow> set applied \<subseteq> set (ed_events (hd dbs))) \<Longrightarrow>
   \<forall>r \<in> set applied. be_kind r \<in> set (spread_kinds w) \<Longrightarrow>
   distinct (map be_id (applied @ snd (spread_run w dbs ls)))"
proof (induction dbs arbitrary: ls applied)
  case Nil
  then show ?case by (simp add: spread_inv_def)
next
  case (Cons db dbs)
  obtain ls1 fresh where r: "read_spread w db ls = (ls1, fresh)" by force
  have g: "distinct (map be_id (ed_events db))" "growing dbs"
    "dbs \<noteq> [] \<longrightarrow> set (ed_events db) \<subseteq> set (ed_events (hd dbs))"
    using growing_Cons[OF Cons.prems(1)] by simp_all
  have sub: "set applied \<subseteq> set (ed_events db)" using Cons.prems(3) by simp
  note S = read_spread_step[OF Cons.prems(2) r g(1) sub Cons.prems(4)]
  have "distinct (map be_id ((applied @ fresh) @ snd (spread_run w dbs ls1)))"
    using S(1-3) g Cons.prems(4) sub by (intro Cons.IH) auto
  then show ?case unfolding spread_run_Cons by (simp add: r)
qed

text \<open>
  On one instance no spread handler sees a fact twice: over any sequence of ticks on a growing
  journal the facts the scan returns have distinct keys, although every unsettled fact is read again
  on each tick; and the first tick returns every fact there is of a kind the instance spreads.
\<close>

theorem spread_at_most_once:
  assumes "growing (db # dbs)" "ls_spread_cursor ls = None" "ls_spread_applied ls = []"
  shows "distinct (map be_id (snd (spread_run w (db # dbs) ls)))
    \<and> (\<forall>e \<in> set (ed_events db). be_kind e \<in> set (spread_kinds w) \<longrightarrow> 0 < be_id e \<longrightarrow>
         e \<in> set (snd (spread_run w (db # dbs) ls)))"
proof -
  have inv: "spread_inv [] ls" by (simp add: spread_inv_def)
  have d: "distinct (map be_id (ed_events db))" using growing_Cons[OF assms(1)] by simp
  obtain ls1 fresh where r: "read_spread w db ls = (ls1, fresh)" by force
  have "spread_at ls = 0" by (simp add: spread_at_def assms(2) nil_cursor_def)
  then have "e \<in> set fresh" if "e \<in> set (ed_events db)" "be_kind e \<in> set (spread_kinds w)" "0 < be_id e" for e
    using read_spread_step(4)[OF inv r d _ _ that(1,2)] that(3) assms(3) by simp
  then have "\<forall>e \<in> set (ed_events db). be_kind e \<in> set (spread_kinds w) \<longrightarrow> 0 < be_id e \<longrightarrow>
      e \<in> set (snd (spread_run w (db # dbs) ls))"
    unfolding spread_run_Cons by (simp add: r)
  moreover have "distinct (map be_id ([] @ snd (spread_run w (db # dbs) ls)))"
    using assms(1) inv by (rule spread_run_distinct) simp_all
  ultimately show ?thesis by simp
qed

definition demo_journal :: event_db where
  "demo_journal = \<lparr>ed_events = [\<lparr>be_id = 5, be_created_at = 0, be_app_name = ''todo'',
     be_verb = ''created'', be_icon = ''circle'', be_user_id = None, be_user_name = None,
     be_org_id = None, be_org_name = None, be_entity_id = None, be_entity_name = None,
     be_request_id = None, be_request_name = None, be_ip_address = None, be_payload = [],
     be_checked_at = None\<rparr>], ed_cursors = [], ed_dispatched = [], ed_queue = demo_store\<rparr>"

lemma spread_at_most_once_witness:
  "distinct (map be_id (snd (spread_run (bus_spread demo_class 1 wiring_init)
       [demo_journal, demo_journal] listener_init)))
   \<and> set (ed_events demo_journal)
       \<subseteq> set (snd (spread_run (bus_spread demo_class 1 wiring_init) [demo_journal, demo_journal] listener_init))"
proof -
  have "growing [demo_journal, demo_journal]" by (simp add: demo_journal_def)
  moreover have "ls_spread_cursor listener_init = None" "ls_spread_applied listener_init = []"
    by (simp_all add: listener_init_def)
  moreover have "\<forall>e \<in> set (ed_events demo_journal). 0 < be_id e
      \<and> be_kind e \<in> set (spread_kinds (bus_spread demo_class 1 wiring_init))"
    by (simp add: demo_journal_def be_kind_def spread_kinds_def bus_spread_def add_spread_handler_def
        wiring_init_def demo_class_def dict_get_def)
  ultimately show ?thesis
    using spread_at_most_once[of demo_journal "[demo_journal]" listener_init
        "bus_spread demo_class 1 wiring_init"] by blast
qed

end
