(* ===== verification/Rate_Limit.thy ===== *)
theory Rate_Limit
  imports Py_Text
begin

text \<open>
  \<open>apps/shared/http/limiter.py\<close> and \<open>client_ip.py\<close>: fixed-window counters in a shared table, keyed by
  endpoint and client.  The counters' store may fail (a parameter of each hit), and the limiter then
  lets the call through.
\<close>

section \<open>Who calls\<close>

record http_request =
  hr_forwarded_for :: "string option"
  hr_peer :: "string option"

definition client_ip :: "bool \<Rightarrow> http_request \<Rightarrow> string option" where
  "client_ip trust_forwarded_for request =
     (let first = (case hr_forwarded_for request of
          None \<Rightarrow> []
        | Some forwarded \<Rightarrow> strip (takeWhile (\<lambda>c. c \<noteq> CHR '','') forwarded)) in
      if trust_forwarded_for \<and> first \<noteq> [] then Some first else hr_peer request)"

section \<open>Limits\<close>

definition period_seconds :: "(string, int) dict" where
  "period_seconds = [(''second'', 1), (''minute'', 60), (''hour'', 3600), (''day'', 86400)]"

datatype limit_error = LimitValueError string | LimitKeyError string

definition parse_limit :: "string \<Rightarrow> limit_error + int \<times> int" where
  "parse_limit limit_string =
     (let count = takeWhile (\<lambda>c. c \<noteq> CHR ''/'') limit_string;
          period = tl (dropWhile (\<lambda>c. c \<noteq> CHR ''/'') limit_string) in
      case py_int count of
        None \<Rightarrow> Inl (LimitValueError count)
      | Some n \<Rightarrow>
          (case map_of period_seconds period of
             None \<Rightarrow> Inl (LimitKeyError period)
           | Some w \<Rightarrow> Inr (n, w)))"

section \<open>Counters\<close>

type_synonym counters = "(string \<times> int, int) dict"

definition window_start :: "instant \<Rightarrow> int \<Rightarrow> int" where
  "window_start now window =
     (let epoch = now div 1000000 in epoch - epoch mod window)"

text \<open>The hits of the current window, this one included; \<open>None\<close> when the store failed.\<close>

definition increment ::
  "bool \<Rightarrow> string \<Rightarrow> int \<Rightarrow> instant \<Rightarrow> counters \<Rightarrow> counters \<times> int option" where
  "increment store_ok key window now cs =
     (if \<not> store_ok then (cs, None)
      else (let k = (key, window_start now window); n = dict_get cs k 0 + 1 in
            (AList.update k n cs, Some n)))"

definition purge_counters :: "instant \<Rightarrow> counters \<Rightarrow> counters" where
  "purge_counters now cs = filter (\<lambda>((key, start), n). \<not> seconds start < now - days 1) cs"

section \<open>The decorator\<close>

datatype limiter_line =
    NoRequestLine string
  | NoClientIpLine string
  | StoreFailedLine string
  | ExceededLine string int int

text \<open>Either the endpoint runs, or \<open>RateLimitExceeded\<close> with its \<open>retry_after\<close>.\<close>

datatype limiter_outcome = EndpointRuns | LimitExceeded int

definition limited_call ::
  "bool \<Rightarrow> bool \<Rightarrow> bool \<Rightarrow> string \<Rightarrow> int \<Rightarrow> int \<Rightarrow> instant \<Rightarrow> http_request option \<Rightarrow> counters
     \<Rightarrow> counters \<times> limiter_line list \<times> limiter_outcome"
where
  "limited_call enabled trust_forwarded_for store_ok scope max_hits window now request cs =
     (if \<not> enabled then (cs, [], EndpointRuns)
      else (case request of
          None \<Rightarrow> (cs, [NoRequestLine scope], EndpointRuns)
        | Some req \<Rightarrow>
            (case client_ip trust_forwarded_for req of
               None \<Rightarrow> (cs, [NoClientIpLine scope], EndpointRuns)
             | Some ip \<Rightarrow>
                 (let key = scope @ '':'' @ ip in
                  case increment store_ok key window now cs of
                    (cs', None) \<Rightarrow> (cs', [StoreFailedLine key], EndpointRuns)
                  | (cs', Some hits) \<Rightarrow>
                      if hits > max_hits
                      then (cs', [ExceededLine key hits max_hits], LimitExceeded window)
                      else (cs', [], EndpointRuns)))))"

section \<open>What a run of calls lets through\<close>

datatype limiter_action = Hit instant string | Purge instant

definition action_time :: "limiter_action \<Rightarrow> instant" where
  "action_time a = (case a of Hit t _ \<Rightarrow> t | Purge t \<Rightarrow> t)"

definition peer_request :: "string \<Rightarrow> http_request" where
  "peer_request ip = \<lparr>hr_forwarded_for = None, hr_peer = Some ip\<rparr>"

text \<open>The calls of one endpoint, each client named by its peer, with the hourly purge in between.\<close>

fun limiter_run ::
  "string \<Rightarrow> int \<Rightarrow> int \<Rightarrow> limiter_action list \<Rightarrow> counters \<Rightarrow> counters \<times> limiter_outcome list" where
  "limiter_run scope max_hits window [] cs = (cs, [])" |
  "limiter_run scope max_hits window (Hit t ip # as) cs =
     (case limited_call True False True scope max_hits window t (Some (peer_request ip)) cs of
        (cs1, _, out) \<Rightarrow>
          (case limiter_run scope max_hits window as cs1 of (cs2, outs) \<Rightarrow> (cs2, out # outs)))" |
  "limiter_run scope max_hits window (Purge t # as) cs =
     limiter_run scope max_hits window as (purge_counters t cs)"

fun hits_in :: "int \<Rightarrow> string \<Rightarrow> int \<Rightarrow> limiter_action list \<Rightarrow> nat" where
  "hits_in window ip start [] = 0" |
  "hits_in window ip start (Hit t i # as) =
     (if i = ip \<and> window_start t window = start then 1 else 0) + hits_in window ip start as" |
  "hits_in window ip start (Purge t # as) = hits_in window ip start as"

lemma hits_in_append: "hits_in w ip s (xs @ ys) = hits_in w ip s xs + hits_in w ip s ys"
  by (induction xs rule: hits_in.induct[of _ w ip s]) auto

lemma distinct_keys_purge: "distinct (map fst cs) \<Longrightarrow> distinct (map fst (purge_counters t cs))"
  by (simp add: purge_counters_def distinct_map_filter)

lemma map_of_filter_key:
  assumes "\<And>v. P (k, v)"
  shows "map_of (filter P cs) k = map_of cs k"
  using assms by (induction cs) auto

lemma map_of_filter_SomeD: "map_of (filter P cs) k = Some v \<Longrightarrow> distinct (map fst cs) \<Longrightarrow> map_of cs k = Some v"
  by (metis (no_types, lifting) distinct_map_filter filter_is_subset map_of_eq_Some_iff subsetD)

text \<open>
  After a history of actions the counters hold, for every window not yet a day old, the hits the
  history has in it.
\<close>

definition counters_ok :: "string \<Rightarrow> int \<Rightarrow> instant \<Rightarrow> limiter_action list \<Rightarrow> counters \<Rightarrow> bool" where
  "counters_ok scope window now history cs \<longleftrightarrow> distinct (map fst cs)
     \<and> (\<forall>ip start. now - days 1 \<le> seconds start \<longrightarrow>
          dict_get cs (scope @ '':'' @ ip, start) 0 = int (hits_in window ip start history))"

lemma counters_ok_purge:
  assumes "counters_ok scope window now history cs" "now \<le> t"
  shows "counters_ok scope window t (history @ [Purge t]) (purge_counters t cs)"
proof -
  have "map_of (purge_counters t cs) (k, start) = map_of cs (k, start)"
    if "t - days 1 \<le> seconds start" for k start
    unfolding purge_counters_def by (rule map_of_filter_key) (use that in simp)
  then show ?thesis
    using assms distinct_keys_purge[of cs t]
    by (auto simp: counters_ok_def dict_get_def hits_in_append)
qed

lemma counters_ok_hit:
  assumes "counters_ok scope window now history cs" "now \<le> t"
    and "increment True (scope @ '':'' @ ip) window t cs = (cs', hits)"
    and "window \<le> 86400" "0 < window"
  shows "counters_ok scope window t (history @ [Hit t ip]) cs'"
    and "hits = Some (int (hits_in window ip (window_start t window) history) + 1)"
proof -
  let ?s = "window_start t window"
  have "0 \<le> t div 1000000 mod window" "t div 1000000 mod window < window"
    using assms(5) by simp_all
  then have "t div 1000000 - 86399 \<le> ?s" using assms(4) by (simp add: window_start_def Let_def)
  moreover have "t = t div 1000000 * 1000000 + t mod 1000000" "t mod 1000000 < 1000000" by simp_all
  ultimately have live: "t - days 1 \<le> seconds ?s" by linarith
  then have old: "dict_get cs (scope @ '':'' @ ip, ?s) 0 = int (hits_in window ip ?s history)"
    using assms(1,2) by (simp add: counters_ok_def)
  then show "hits = Some (int (hits_in window ip ?s history) + 1)"
    using assms(3) by (auto simp: increment_def Let_def)
  have cs': "cs' = AList.update (scope @ '':'' @ ip, ?s) (int (hits_in window ip ?s history) + 1) cs"
    using assms(3) old by (auto simp: increment_def Let_def)
  show "counters_ok scope window t (history @ [Hit t ip]) cs'"
    using assms(1,2)
    by (auto simp: counters_ok_def cs' distinct_keys_update dict_get_def map_of_AList_update
        hits_in_append)
qed

fun nondecreasing :: "instant \<Rightarrow> limiter_action list \<Rightarrow> bool" where
  "nondecreasing now [] = True" |
  "nondecreasing now (a # as) = (now \<le> action_time a \<and> nondecreasing (action_time a) as)"

text \<open>The outcomes a history of the hits of each window determines.\<close>

fun expected_outcomes ::
  "int \<Rightarrow> int \<Rightarrow> limiter_action list \<Rightarrow> limiter_action list \<Rightarrow> limiter_outcome list" where
  "expected_outcomes max_hits window history [] = []" |
  "expected_outcomes max_hits window history (Hit t ip # as) =
     (if int (hits_in window ip (window_start t window) history) < max_hits then EndpointRuns
      else LimitExceeded window) # expected_outcomes max_hits window (history @ [Hit t ip]) as" |
  "expected_outcomes max_hits window history (Purge t # as) =
     expected_outcomes max_hits window (history @ [Purge t]) as"

lemma limiter_run_expected:
  assumes "window \<le> 86400" "0 < window"
  shows "counters_ok scope window now history cs \<Longrightarrow> nondecreasing now as \<Longrightarrow>
    snd (limiter_run scope max_hits window as cs) = expected_outcomes max_hits window history as"
proof (induction "as" arbitrary: cs now history)
  case (Cons a as)
  show ?case
  proof (cases a)
    case (Hit t ip)
    obtain cs1 hits where i: "increment True (scope @ '':'' @ ip) window t cs = (cs1, hits)" by force
    have t: "now \<le> t" "nondecreasing t as" using Cons.prems(2) Hit by (simp_all add: action_time_def)
    note H = counters_ok_hit[OF Cons.prems(1) t(1) i assms]
    then show ?thesis
      using Cons.IH[OF H(1) t(2)] Hit i
      by (auto simp: limited_call_def client_ip_def peer_request_def Let_def split: prod.splits)
  next
    case (Purge t)
    then show ?thesis
      using Cons.IH[OF counters_ok_purge[OF Cons.prems(1)], of t] Cons.prems(2)
      by (simp add: action_time_def)
  qed
qed simp

text \<open>
  The limit is exact.  With the store up and the clock not going back, and whatever purges fall in
  between, a call runs exactly when its client has used fewer than the allowed hits of the window it
  falls in; a call refused names the window's length as the time to retry after.
\<close>

theorem rate_limit_exact:
  assumes "window \<le> 86400" "0 < window" "nondecreasing now as"
  shows "snd (limiter_run scope max_hits window as []) = expected_outcomes max_hits window [] as"
proof -
  have "counters_ok scope window now [] []" by (simp add: counters_ok_def dict_get_def)
  from limiter_run_expected[OF assms(1,2) this assms(3)] show ?thesis .
qed

lemma rate_limit_exact_witness:
  "snd (limiter_run ''login'' 2 60 [Hit 0 ''a'', Hit 1 ''a'', Purge 2, Hit 2 ''a'', Hit 2 ''b'', Hit 60000000 ''a''] [])
     = [EndpointRuns, EndpointRuns, LimitExceeded 60, EndpointRuns, EndpointRuns]"
  using rate_limit_exact[of 60 0 "[Hit 0 ''a'', Hit 1 ''a'', Purge 2, Hit 2 ''a'', Hit 2 ''b'', Hit 60000000 ''a'']"
      "''login''" 2]
  by (simp add: action_time_def window_start_def Let_def)

end
