(* ===== verification/Slugs.thy ===== *)
theory Slugs
  imports Py_Text
begin

text \<open>
  \<open>apps/shared/integration/slugs.py\<close>: the namespace of URL slugs.  The regular expressions are
  written out on character lists; the open lists are checkers the contexts register, a function of
  the handle and of the entity to leave out.  The locale \<open>handle_namespace\<close> states what the search for
  a free handle needs of them.
\<close>

section \<open>Validation\<close>

definition slug_char :: "char \<Rightarrow> bool" where
  "slug_char c \<longleftrightarrow> is_lower c \<or> is_digit c"

text \<open>\<open>re.sub(r"[^a-z0-9]+", "-", s)\<close>: every run of other characters becomes one hyphen.\<close>

fun hyphenate :: "bool \<Rightarrow> string \<Rightarrow> string" where
  "hyphenate in_run [] = []" |
  "hyphenate in_run (c # s) =
     (if slug_char c then c # hyphenate False s
      else if in_run then hyphenate True s else CHR ''-'' # hyphenate True s)"

definition slugify :: "string \<Rightarrow> string" where
  "slugify value = strip_chars ''-'' (hyphenate False (lower value))"

text \<open>
  \<open>^[a-z0-9][a-z0-9-]*$\<close> with \<open>match\<close>: the dollar also matches before one trailing newline.
\<close>

definition handle_body :: "string \<Rightarrow> bool" where
  "handle_body s = (case s of [] \<Rightarrow> False
     | c # t \<Rightarrow> slug_char c \<and> (\<forall>d \<in> set t. slug_char d \<or> d = CHR ''-''))"

definition handle_re :: "string \<Rightarrow> bool" where
  "handle_re s \<longleftrightarrow> handle_body s \<or> (s \<noteq> [] \<and> last s = CHR 0x0A \<and> handle_body (butlast s))"

definition is_valid_handle :: "string \<Rightarrow> bool" where
  "is_valid_handle handle \<longleftrightarrow> handle_re handle \<and> length handle \<le> 39"

section \<open>The namespace\<close>

type_synonym open_lists = "(string, string \<Rightarrow> uuid option \<Rightarrow> bool) dict"

record slug_registry =
  sr_reserved :: "string list"
  sr_open_lists :: open_lists

definition reserve :: "string list \<Rightarrow> slug_registry \<Rightarrow> slug_registry" where
  "reserve slugs r = r\<lparr>sr_reserved := slugs @ sr_reserved r\<rparr>"

definition is_reserved :: "slug_registry \<Rightarrow> string \<Rightarrow> bool" where
  "is_reserved r handle \<longleftrightarrow> handle \<in> set (sr_reserved r)"

definition register_open_list ::
  "string \<Rightarrow> (string \<Rightarrow> uuid option \<Rightarrow> bool) \<Rightarrow> slug_registry \<Rightarrow> slug_registry" where
  "register_open_list name checker r = r\<lparr>sr_open_lists := AList.update name checker (sr_open_lists r)\<rparr>"

definition validate_handle :: "slug_registry \<Rightarrow> string \<Rightarrow> (int \<times> string) option" where
  "validate_handle r handle =
     (if handle = [] then Some (422, ''Handle cannot be empty.'')
      else if \<not> is_valid_handle handle
        then Some (422, ''Handle must be lowercase alphanumeric with hyphens, max 39 chars.'')
      else if is_reserved r handle
        then Some (422, [CHR 0x27] @ handle @ CHR 0x27 # '' is a reserved name.'')
      else None)"

definition handle_is_available ::
  "slug_registry \<Rightarrow> string option \<Rightarrow> uuid option \<Rightarrow> string \<Rightarrow> bool" where
  "handle_is_available r exclude_from exclude_id handle =
     (\<not> is_reserved r handle
      \<and> (\<forall>(name, checker) \<in> set (sr_open_lists r).
            \<not> checker handle (if Some name = exclude_from then exclude_id else None)))"

text \<open>The search; \<open>None\<close> is running out of fuel.\<close>

fun handle_search ::
  "nat \<Rightarrow> slug_registry \<Rightarrow> string option \<Rightarrow> uuid option \<Rightarrow> string \<Rightarrow> string \<Rightarrow> nat \<Rightarrow> string option" where
  "handle_search 0 r exclude_from exclude_id base candidate n = None" |
  "handle_search (Suc fuel) r exclude_from exclude_id base candidate n =
     (if handle_is_available r exclude_from exclude_id candidate then Some candidate
      else handle_search fuel r exclude_from exclude_id base (base @ ''-'' @ str_nat n) (Suc n))"

definition unique_handle ::
  "nat \<Rightarrow> slug_registry \<Rightarrow> string option \<Rightarrow> uuid option \<Rightarrow> string \<Rightarrow> string option" where
  "unique_handle fuel r exclude_from exclude_id base =
     handle_search fuel r exclude_from exclude_id base base 2"

section \<open>Slugs are clean\<close>

definition slug_clean :: "string \<Rightarrow> bool" where
  "slug_clean s \<longleftrightarrow> (\<forall>c \<in> set s. slug_char c \<or> c = CHR ''-'') \<and> \<not> contains s ''--''
     \<and> (s \<noteq> [] \<longrightarrow> hd s \<noteq> CHR ''-'' \<and> last s \<noteq> CHR ''-'')"

lemma hyphen_not_slug: "\<not> slug_char CHR ''-''"
  by (simp add: slug_char_def is_lower_def is_digit_def)

lemma hyphenate_chars: "c \<in> set (hyphenate b s) \<Longrightarrow> slug_char c \<or> c = CHR ''-''"
  by (induction b s rule: hyphenate.induct) (auto split: if_splits)

lemma hyphenate_run_head: "hyphenate True s = c # t \<Longrightarrow> c \<noteq> CHR ''-''"
  by (induction True s arbitrary: c t rule: hyphenate.induct) (auto simp: hyphen_not_slug split: if_splits)

lemma contains_double: "contains s ''--'' \<longleftrightarrow> (\<exists>a b. s = a @ CHR ''-'' # CHR ''-'' # b)"
  by (simp add: contains_iff)

lemma hyphenate_no_double: "\<not> contains (hyphenate b s) ''--''"
proof (induction b s rule: hyphenate.induct)
  case (2 b c s)
  have slug: "contains (x # t) ''--'' \<longleftrightarrow> contains t ''--''" if "x \<noteq> CHR ''-''" for x t
    using that by simp
  have run: "\<not> startswith (hyphenate True s) ''-''"
    using hyphenate_run_head[of s] by (cases "hyphenate True s") auto
  show ?case
  proof (cases "slug_char c")
    case True
    then have "c \<noteq> CHR ''-''" using hyphen_not_slug by auto
    then show ?thesis using 2(1) True slug by simp
  next
    case False
    then show ?thesis using 2 run by (cases b) auto
  qed
qed simp

lemma contains_sublist: "contains t sub \<Longrightarrow> contains (a @ t @ b) sub"
  unfolding contains_iff by (metis append_assoc)

lemma strip_chars_sublist: "\<exists>a b. s = a @ strip_chars cs s @ b
    \<and> (strip_chars cs s \<noteq> [] \<longrightarrow> hd (strip_chars cs s) \<notin> set cs \<and> last (strip_chars cs s) \<notin> set cs)"
proof -
  let ?in = "\<lambda>c. c \<in> set cs"
  define t where "t = dropWhile ?in s"
  define u where "u = dropWhile ?in (rev t)"
  define e where "e = rev (takeWhile ?in (rev t))"
  have s: "s = takeWhile ?in s @ t" by (simp add: t_def)
  have "rev t = takeWhile ?in (rev t) @ u" by (simp add: u_def)
  then have t: "t = rev u @ e" unfolding e_def by (metis rev_append rev_rev_ident)
  have strip: "strip_chars cs s = rev u" by (simp add: strip_chars_def t_def u_def)
  have last: "last (rev u) \<notin> set cs" if "rev u \<noteq> []"
  proof -
    have "hd u \<notin> set cs" using that hd_dropWhile[of ?in "rev t"] by (simp add: u_def)
    then show ?thesis using that by (simp add: last_rev)
  qed
  have hd: "hd (rev u) \<notin> set cs" if "rev u \<noteq> []"
  proof -
    have "t \<noteq> []" "hd t = hd (rev u)" using t that by simp_all
    moreover have "hd t \<notin> set cs" if "t \<noteq> []" using that hd_dropWhile[of ?in s] by (simp add: t_def)
    ultimately show ?thesis by simp
  qed
  have "s = takeWhile ?in s @ rev u @ e" using s t by simp
  then show ?thesis using last hd unfolding strip by blast
qed

lemma slugify_clean: "slug_clean (slugify v)"
proof -
  let ?h = "hyphenate False (lower v)"
  obtain a b where ab: "?h = a @ slugify v @ b"
    and ends: "slugify v \<noteq> [] \<longrightarrow> hd (slugify v) \<noteq> CHR ''-'' \<and> last (slugify v) \<noteq> CHR ''-''"
    using strip_chars_sublist[of ?h "''-''"] by (auto simp: slugify_def)
  have "\<not> contains (slugify v) ''--''"
    using hyphenate_no_double[of False "lower v"] contains_sublist ab by metis
  moreover have "set (slugify v) \<subseteq> set ?h" by (subst ab) auto
  ultimately show ?thesis using ends hyphenate_chars by (auto simp: slug_clean_def)
qed

lemma lower_slug: "slug_char c \<Longrightarrow> lower_char c = c"
  by (auto simp: slug_char_def is_lower_def is_digit_def lower_char_def is_upper_def)

lemma hyphenate_clean:
  "\<forall>c \<in> set s. slug_char c \<or> c = CHR ''-'' \<Longrightarrow> \<not> contains s ''--'' \<Longrightarrow>
   (b \<longrightarrow> s \<noteq> [] \<longrightarrow> hd s \<noteq> CHR ''-'') \<Longrightarrow> hyphenate b s = s"
proof (induction s arbitrary: b)
  case (Cons c s)
  have "\<not> contains s ''--''" using Cons.prems(2) by simp
  moreover have "c = CHR ''-'' \<Longrightarrow> s \<noteq> [] \<Longrightarrow> hd s \<noteq> CHR ''-''"
    using Cons.prems(2) by (cases s) auto
  ultimately show ?case using Cons by (auto simp: hyphen_not_slug)
qed simp

lemma slugify_of_clean: "slug_clean s \<Longrightarrow> slugify s = s"
proof -
  assume c: "slug_clean s"
  have "lower_char d = d" if "d \<in> set s" for d
  proof (cases "slug_char d")
    case False
    then have "d = CHR ''-''" using c that by (auto simp: slug_clean_def)
    then show ?thesis by (simp add: lower_char_def is_upper_def)
  qed (rule lower_slug)
  then have "lower s = s" by (simp add: lower_def map_idI)
  moreover have "hyphenate False s = s"
    using c unfolding slug_clean_def by (intro hyphenate_clean) blast+
  moreover have "strip_chars ''-'' s = s"
  proof (cases "s = []")
    case False
    then have "hd s \<notin> set ''-''" "hd (rev s) \<notin> set ''-''"
      using c by (simp_all add: slug_clean_def hd_rev)
    then have "dropWhile (\<lambda>c. c \<in> set ''-'') s = s" "dropWhile (\<lambda>c. c \<in> set ''-'') (rev s) = rev s"
      using False by (metis dropWhile.simps(2) list.collapse rev_is_Nil_conv)+
    then show ?thesis by (simp add: strip_chars_def)
  qed (simp add: strip_chars_def)
  ultimately show ?thesis by (simp add: slugify_def)
qed

text \<open>
  C16.  A slug is clean: lower-case letters, digits and single inner hyphens only; so it passes the
  handle's expression unless it is empty, and slugifying again changes nothing.
\<close>

theorem slugify_normal_form:
  "slug_clean (slugify v) \<and> slugify (slugify v) = slugify v
   \<and> (is_valid_handle (slugify v) \<longleftrightarrow> slugify v \<noteq> [] \<and> length (slugify v) \<le> 39)"
proof -
  have clean: "slug_clean (slugify v)" by (rule slugify_clean)
  then have "handle_body (slugify v)" if "slugify v \<noteq> []"
    using that by (cases "slugify v") (auto simp: handle_body_def slug_clean_def)
  moreover have "\<not> handle_re []" by (simp add: handle_re_def handle_body_def)
  ultimately show ?thesis
    using clean slugify_of_clean[OF clean] by (auto simp: is_valid_handle_def handle_re_def)
qed

section \<open>The search for a free handle\<close>

fun handle_candidate :: "string \<Rightarrow> nat \<Rightarrow> string" where
  "handle_candidate base 0 = base" |
  "handle_candidate base (Suc n) = base @ ''-'' @ str_nat (Suc (Suc n))"

lemma handle_candidate_inj: "handle_candidate base m = handle_candidate base n \<longleftrightarrow> m = n"
  by (cases m; cases n) (auto dest: str_nat_inj)

text \<open>The registry as one namespace.\<close>

definition registry_taken :: "slug_registry \<Rightarrow> string option \<Rightarrow> string \<Rightarrow> uuid option \<Rightarrow> bool" where
  "registry_taken r exclude_from handle exclude_id \<longleftrightarrow> \<not> handle_is_available r exclude_from exclude_id handle"

lemma handle_search_finds:
  assumes "handle_is_available r ef ei (handle_candidate base (k + m))"
    and "\<forall>j < m. \<not> handle_is_available r ef ei (handle_candidate base (k + j))"
  shows "handle_search (Suc m + extra) r ef ei base (handle_candidate base k) (k + 2)
    = Some (handle_candidate base (k + m))"
  using assms
proof (induction m arbitrary: k)
  case (Suc m)
  have "handle_candidate base (Suc k) = base @ ''-'' @ str_nat (k + 2)" by simp
  moreover have "\<not> handle_is_available r ef ei (handle_candidate base k)" using Suc.prems(2) by force
  moreover have "handle_search (Suc m + extra) r ef ei base (handle_candidate base (Suc k)) (Suc k + 2)
      = Some (handle_candidate base (Suc k + m))"
  proof (rule Suc.IH)
    show "handle_is_available r ef ei (handle_candidate base (Suc k + m))" using Suc.prems(1) by simp
    show "\<forall>j < m. \<not> handle_is_available r ef ei (handle_candidate base (Suc k + j))"
      using Suc.prems(2) by (metis Suc_less_eq add_Suc_shift)
  qed
  ultimately show ?case by simp
qed simp

text \<open>
  What the registered checkers owe the search: only finitely many handles are taken.
\<close>

locale handle_namespace =
  fixes r :: slug_registry and exclude_from :: "string option" and exclude_id :: "uuid option"
  assumes taken_finite: "finite {h. registry_taken r exclude_from h exclude_id}"
begin

lemma first_free:
  assumes "card {h. registry_taken r exclude_from h exclude_id} < fuel"
  shows "\<exists>m. unique_handle fuel r exclude_from exclude_id base = Some (handle_candidate base m)
    \<and> handle_is_available r exclude_from exclude_id (handle_candidate base m)
    \<and> (\<forall>j < m. \<not> handle_is_available r exclude_from exclude_id (handle_candidate base j))"
proof -
  let ?free = "\<lambda>j. handle_is_available r exclude_from exclude_id (handle_candidate base j)"
  let ?T = "{h. registry_taken r exclude_from h exclude_id}"
  have inj: "inj (handle_candidate base)" by (simp add: inj_def handle_candidate_inj)
  have ex: "\<exists>j \<le> card ?T. ?free j"
  proof (rule ccontr)
    assume "\<not> ?thesis"
    then have "handle_candidate base ` {..card ?T} \<subseteq> ?T" by (auto simp: registry_taken_def)
    then have "card (handle_candidate base ` {..card ?T}) \<le> card ?T"
      using taken_finite by (rule card_mono[rotated])
    moreover have "card (handle_candidate base ` {..card ?T}) = Suc (card ?T)"
      using inj by (simp add: card_image inj_on_subset)
    ultimately show False by simp
  qed
  define m where "m = (LEAST j. ?free j)"
  have m: "?free m" "\<forall>j < m. \<not> ?free j"
    using ex unfolding m_def by (metis LeastI not_less_Least)+
  have "m \<le> card ?T" using ex unfolding m_def by (metis Least_le order_trans)
  then obtain extra where "fuel = Suc m + extra"
    using assms by (metis add_Suc less_imp_Suc_add order_le_less_trans)
  then have "unique_handle fuel r exclude_from exclude_id base = Some (handle_candidate base m)"
    using handle_search_finds[of r exclude_from exclude_id base 0 m extra] m
    by (simp add: unique_handle_def numeral_2_eq_2)
  then show ?thesis using m by blast
qed

lemma search_ends: "\<exists>fuel handle. unique_handle fuel r exclude_from exclude_id base = Some handle"
  using first_free[of "Suc (card {h. registry_taken r exclude_from h exclude_id})" base] by auto

end

text \<open>
  The search ends and finds the first free handle: when only finitely many handles are taken,
  one more round than there are taken handles is enough, the result is free, and every candidate
  before it was not.
\<close>

theorem unique_handle_first_free:
  assumes "finite {h. registry_taken r exclude_from h exclude_id}"
    and "card {h. registry_taken r exclude_from h exclude_id} < fuel"
  shows "\<exists>m. unique_handle fuel r exclude_from exclude_id base = Some (handle_candidate base m)
    \<and> handle_is_available r exclude_from exclude_id (handle_candidate base m)
    \<and> (\<forall>j < m. \<not> handle_is_available r exclude_from exclude_id (handle_candidate base j))"
  using handle_namespace.first_free[OF handle_namespace.intro[OF assms(1)] assms(2)] .

definition demo_registry :: slug_registry where
  "demo_registry = \<lparr>sr_reserved = [''static''],
     sr_open_lists = [(''organizations'', \<lambda>h x. h = ''acme'' \<and> x \<noteq> Some 3)]\<rparr>"

lemma unique_handle_first_free_witness:
  "unique_handle 4 demo_registry None None ''acme'' = Some ''acme-2''"
proof -
  let ?T = "{h. registry_taken demo_registry None h None}"
  have T: "?T = {''static'', ''acme''}"
    by (auto simp: registry_taken_def handle_is_available_def is_reserved_def demo_registry_def)
  then obtain m where m: "unique_handle 4 demo_registry None None ''acme'' = Some (handle_candidate ''acme'' m)"
    "handle_is_available demo_registry None None (handle_candidate ''acme'' m)"
    "\<forall>j < m. \<not> handle_is_available demo_registry None None (handle_candidate ''acme'' j)"
    using unique_handle_first_free[of demo_registry None None 4 "''acme''"] by auto
  have two: "str_nat 2 = ''2''" by code_simp
  have "handle_is_available demo_registry None None (handle_candidate ''acme'' 1)"
    by (simp add: handle_is_available_def is_reserved_def demo_registry_def two numeral_2_eq_2[symmetric])
  then have "m \<le> 1" using m(3) by (meson not_le)
  moreover have "m \<noteq> 0"
    using m(2) by (cases m) (auto simp: handle_is_available_def is_reserved_def demo_registry_def)
  ultimately have "m = 1" by simp
  then show ?thesis using m(1) two by (simp add: numeral_2_eq_2)
qed

end
