(* ===== verification/Bounded_Buffer.thy ===== *)
theory Bounded_Buffer
  imports Prelude
begin

text \<open>
  The contract of the two bounded queues of the log chain (the sink's lines, the captured
  exceptions): a push never outgrows the capacity, loses nothing while there is room, and counts what
  it gives up when there is none.  The clients' lemmas on whole bursts are proved once here.
\<close>

locale bounded_queue =
  fixes push :: "'a \<Rightarrow> 's \<Rightarrow> 's" and items :: "'s \<Rightarrow> 'a list" and dropped :: "'s \<Rightarrow> nat" and cap :: nat
  assumes bound: "length (items s) \<le> cap \<Longrightarrow> length (items (push x s)) \<le> cap"
    and conserve: "length (items s) \<le> cap \<Longrightarrow>
      length (items (push x s)) + dropped (push x s) = Suc (length (items s) + dropped s)"
    and room: "length (items s) < cap \<Longrightarrow> items (push x s) = items s @ [x]"
    and nothing_new: "mset (items (push x s)) \<subseteq># add_mset x (mset (items s))"
begin

lemma burst_bound: "length (items s) \<le> cap \<Longrightarrow> length (items (fold push xs s)) \<le> cap"
  by (induction xs arbitrary: s) (auto intro: bound)

lemma burst_conserve:
  "length (items s) \<le> cap \<Longrightarrow>
   length (items (fold push xs s)) + dropped (fold push xs s) = length xs + length (items s) + dropped s"
proof (induction xs arbitrary: s)
  case (Cons x xs)
  then show ?case using Cons.IH[OF bound[OF Cons.prems]] conserve[OF Cons.prems, of x] by simp
qed simp

lemma burst_room:
  "length (items s) + length xs \<le> cap \<Longrightarrow> items (fold push xs s) = items s @ xs"
proof (induction xs arbitrary: s)
  case (Cons x xs)
  have "items (push x s) = items s @ [x]" using Cons.prems by (intro room) simp
  then show ?case using Cons.IH[of "push x s"] Cons.prems by simp
qed simp

lemma burst_nothing_new: "mset (items (fold push xs s)) \<subseteq># mset xs + mset (items s)"
proof (induction xs arbitrary: s)
  case (Cons x xs)
  have "mset (items (fold push xs (push x s))) \<subseteq># mset xs + mset (items (push x s))" by (rule Cons.IH)
  also have "\<dots> \<subseteq># mset xs + add_mset x (mset (items s))"
    using nothing_new[of x s] by (intro subset_mset.add_left_mono)
  finally show ?case by simp
qed simp

end

end
