(* ===== verification/Log_Sink.thy ===== *)
theory Log_Sink
  imports Bounded_Buffer Py_Datetime
begin

text \<open>
  \<open>apps/shared/logs/sink.py\<close>: the bounded queue of log lines, the drain that writes them to the store
  or, when it refuses them, to the day files, and the sink's reports on itself, which are lines like
  the others and enter the same queue.  Whether the store takes a batch, whether the directory of the day
  files can be made and how much of a batch each file takes are parameters.
\<close>

section \<open>State\<close>

datatype line_stamp = NoStamp | At instant | Unreadable

record log_line =
  ll_timestamp :: line_stamp
  ll_level :: string
  ll_logger :: string
  ll_event :: string
  ll_fields :: payload

record log_sink =
  sk_queue :: "log_line list"
  sk_dropped :: nat
  sk_outage_lines :: nat
  sk_refusing :: bool
  sk_announced :: bool
  sk_store :: "log_line list"
  sk_files :: "(string, log_line list) dict"

definition sink_maxlen :: nat where "sink_maxlen = 10000"

definition sink_init :: log_sink where
  "sink_init = \<lparr>sk_queue = [], sk_dropped = 0, sk_outage_lines = 0, sk_refusing = False,
     sk_announced = False, sk_store = [], sk_files = []\<rparr>"

text \<open>A stamp that is a text but no ISO instant raises, \<open>None\<close>.\<close>

definition line_time :: "instant \<Rightarrow> log_line \<Rightarrow> instant option" where
  "line_time now line = (case ll_timestamp line of At t \<Rightarrow> Some t | NoStamp \<Rightarrow> Some now | Unreadable \<Rightarrow> None)"

section \<open>The queue\<close>

definition enqueue_line :: "log_line \<Rightarrow> log_sink \<Rightarrow> log_sink" where
  "enqueue_line line sk =
     (if length (sk_queue sk) = sink_maxlen
      then sk\<lparr>sk_dropped := sk_dropped sk + 1, sk_queue := tl (sk_queue sk) @ [line]\<rparr>
      else sk\<lparr>sk_queue := sk_queue sk @ [line]\<rparr>)"

definition drain_lines :: "log_sink \<Rightarrow> log_sink \<times> log_line list" where
  "drain_lines sk = (sk\<lparr>sk_queue := []\<rparr>, sk_queue sk)"

section \<open>The day files\<close>

text \<open>
  The disk, for one pass: no directory (\<open>mkdir\<close> raises), or how many lines of its batch each file takes
  before the write fails, \<open>None\<close> when it takes them all.
\<close>

type_synonym disk = "(string \<Rightarrow> nat option) option"

definition day_file :: "instant \<Rightarrow> string" where
  "day_file t = ''firehose-'' @ date_isoformat (date_of t) @ ''.jsonl''"

definition write_batch :: "nat option \<Rightarrow> string \<Rightarrow> log_line list \<Rightarrow> log_sink \<Rightarrow> log_sink \<times> bool" where
  "write_batch room path lines sk =
     (let taken = (case room of None \<Rightarrow> lines | Some k \<Rightarrow> take k lines) in
      (sk\<lparr>sk_files := AList.update path (dict_get (sk_files sk) path [] @ taken) (sk_files sk)\<rparr>, room = None))"

text \<open>
  One batch per day file, in the order the files are first met; a missing directory or an unreadable stamp
  raises before anything is written (\<open>None\<close>).
\<close>

definition write_to_files :: "disk \<Rightarrow> instant \<Rightarrow> log_line list \<Rightarrow> log_sink \<Rightarrow> log_sink option" where
  "write_to_files disk now lines sk =
     (case disk of
        None \<Rightarrow> None
      | Some room \<Rightarrow>
          if list_ex (\<lambda>l. line_time now l = None) lines then None
          else let path = (\<lambda>l. day_file (the (line_time now l))) in
            Some (fold (\<lambda>p sk. fst (write_batch (room p) p (filter (\<lambda>l. path l = p) lines) sk))
              (first_occurrences [] (map path lines)) sk))"

definition append_to_file :: "disk \<Rightarrow> instant \<Rightarrow> log_line \<Rightarrow> log_sink \<Rightarrow> log_sink option" where
  "append_to_file disk now line sk = write_to_files disk now [line] sk"

definition flush_to_files :: "disk \<Rightarrow> instant \<Rightarrow> log_sink \<Rightarrow> log_sink option" where
  "flush_to_files disk now sk = (case drain_lines sk of (sk', lines) \<Rightarrow> write_to_files disk now lines sk')"

section \<open>The reports\<close>

datatype sink_report = WriteFailed | WriteRecovered nat | Overflowed nat

definition report_line :: "instant \<Rightarrow> sink_report \<Rightarrow> log_line" where
  "report_line now r =
     \<lparr>ll_timestamp = At now,
      ll_level = (case r of WriteRecovered _ \<Rightarrow> ''info'' | _ \<Rightarrow> ''warning''),
      ll_logger = ''apps.shared.logs.sink'',
      ll_event = (case r of WriteFailed \<Rightarrow> ''log_sink.write_failed''
                 | WriteRecovered _ \<Rightarrow> ''log_sink.write_recovered''
                 | Overflowed _ \<Rightarrow> ''log_sink.overflowed''),
      ll_fields = (case r of WriteFailed \<Rightarrow> []
                  | WriteRecovered n \<Rightarrow> [(''lines'', JNum (int n))]
                  | Overflowed n \<Rightarrow> [(''dropped'', JNum (int n))])\<rparr>"

text \<open>
  The sink's own logger is pinned below the live level, so its reports always enter the queue.
  The reports are made before their own lines are queued: the counters are read and reset first.
\<close>

definition report_overflow :: "instant \<Rightarrow> log_sink \<Rightarrow> log_sink \<times> sink_report list" where
  "report_overflow now sk =
     (let n = sk_dropped sk; sk' = sk\<lparr>sk_dropped := 0\<rparr> in
      if n \<noteq> 0 then (enqueue_line (report_line now (Overflowed n)) sk', [Overflowed n]) else (sk', []))"

definition report_write_outage :: "instant \<Rightarrow> log_sink \<Rightarrow> log_sink \<times> sink_report list" where
  "report_write_outage now sk =
     (if sk_refusing sk \<and> \<not> sk_announced sk
      then (enqueue_line (report_line now WriteFailed) (sk\<lparr>sk_announced := True\<rparr>), [WriteFailed])
      else if \<not> sk_refusing sk \<and> sk_announced sk
      then (let r = WriteRecovered (sk_outage_lines sk) in
            (enqueue_line (report_line now r) (sk\<lparr>sk_announced := False\<rparr>)\<lparr>sk_outage_lines := 0\<rparr>, [r]))
      else (sk, []))"

section \<open>The tick\<close>

text \<open>
  The last component says that the tick raised: the lines it had taken are then neither in the store nor in
  the files, the outage has counted them, and nothing is reported.
\<close>

definition sink_tick ::
  "bool \<Rightarrow> disk \<Rightarrow> instant \<Rightarrow> log_sink \<Rightarrow> log_sink \<times> sink_report list \<times> bool" where
  "sink_tick store_ok disk now sk =
     (case drain_lines sk of (sk1, lines) \<Rightarrow>
        let finish = (\<lambda>sk3 reports. case report_overflow now sk3 of (sk4, drops) \<Rightarrow> (sk4, reports @ drops, False)) in
        if lines = [] then finish sk1 []
        else if store_ok \<and> \<not> list_ex (\<lambda>l. line_time now l = None) lines
        then (case report_write_outage now (sk1\<lparr>sk_store := sk_store sk1 @ lines, sk_refusing := False\<rparr>) of
                (sk3, reports) \<Rightarrow> finish sk3 reports)
        else (let sk2 = sk1\<lparr>sk_refusing := True, sk_outage_lines := sk_outage_lines sk1 + length lines\<rparr> in
              case write_to_files disk now lines sk2 of
                None \<Rightarrow> (sk2, [], True)
              | Some sk3 \<Rightarrow> (case report_write_outage now sk3 of (sk4, reports) \<Rightarrow> finish sk4 reports)))"

text \<open>One turn of \<open>_run\<close>: a raise is a warning like any other, under the live level.\<close>

definition drain_failed_line :: "instant \<Rightarrow> log_line" where
  "drain_failed_line now = \<lparr>ll_timestamp = At now, ll_level = ''warning'', ll_logger = ''apps.shared.logs.sink'',
     ll_event = ''log_sink.drain_failed'', ll_fields = []\<rparr>"

definition drain_pass ::
  "bool \<Rightarrow> bool \<Rightarrow> disk \<Rightarrow> instant \<Rightarrow> log_sink \<Rightarrow> log_sink \<times> sink_report list \<times> bool" where
  "drain_pass warnings_shown store_ok disk now sk =
     (case sink_tick store_ok disk now sk of (sk', reports, raised) \<Rightarrow>
        (if raised \<and> warnings_shown then enqueue_line (drain_failed_line now) sk' else sk', reports, raised))"

definition clear_log_sink :: "log_sink \<Rightarrow> log_sink" where
  "clear_log_sink sk = sk\<lparr>sk_queue := [], sk_outage_lines := 0, sk_refusing := False,
     sk_announced := False, sk_dropped := 0, sk_files := []\<rparr>"

section \<open>The queue is a bounded buffer\<close>


section \<open>Nothing vanishes without a count\<close>



definition reported_drops :: "sink_report list \<Rightarrow> nat" where
  "reported_drops rs = sum_list (map (\<lambda>r. case r of Overflowed n \<Rightarrow> n | _ \<Rightarrow> 0) rs)"

definition reported_refused :: "sink_report list \<Rightarrow> nat" where
  "reported_refused rs = sum_list (map (\<lambda>r. case r of WriteRecovered n \<Rightarrow> n | _ \<Rightarrow> 0) rs)"

lemma reported_append [simp]:
  "reported_drops (xs @ ys) = reported_drops xs + reported_drops ys"
  "reported_refused (xs @ ys) = reported_refused xs + reported_refused ys"
  by (simp_all add: reported_drops_def reported_refused_def)

lemma enqueue_line_simps [simp]:
  "sk_store (enqueue_line l sk) = sk_store sk" "sk_files (enqueue_line l sk) = sk_files sk"
  "sk_refusing (enqueue_line l sk) = sk_refusing sk" "sk_announced (enqueue_line l sk) = sk_announced sk"
  "sk_outage_lines (enqueue_line l sk) = sk_outage_lines sk"
  by (simp_all add: enqueue_line_def)











lemma outage_reports:
  "report_write_outage now sk = (sk', rs) \<Longrightarrow>
    rs = (if sk_refusing sk \<and> \<not> sk_announced sk then [WriteFailed]
          else if \<not> sk_refusing sk \<and> sk_announced sk then [WriteRecovered (sk_outage_lines sk)] else [])
    \<and> sk_outage_lines sk' = (if \<not> sk_refusing sk \<and> sk_announced sk then 0 else sk_outage_lines sk)"
  by (auto simp: report_write_outage_def Let_def split: if_splits)

text \<open>The state a tick reports on, once the lines it took are in the store or in the files.\<close>

lemma sink_tick_cases:
  assumes "sink_tick store_ok disk now sk = (sk', rs, raised)"
  obtains (idle) "sk_queue sk = []" "report_overflow now sk = (sk', rs)" "\<not> raised"
  | (stored) sk3 r1 r2 where "sk_queue sk \<noteq> []" "\<not> raised" "rs = r1 @ r2"
      "\<forall>l \<in> set (sk_queue sk). ll_timestamp l \<noteq> Unreadable" "store_ok"
      "report_write_outage now (sk\<lparr>sk_queue := [], sk_store := sk_store sk @ sk_queue sk, sk_refusing := False\<rparr>) = (sk3, r1)"
      "report_overflow now sk3 = (sk', r2)"
  | (refused) sk2 sk3 r1 r2 where "sk_queue sk \<noteq> []" "\<not> raised" "rs = r1 @ r2"
      "\<not> store_ok"
      "write_to_files disk now (sk_queue sk) (sk\<lparr>sk_queue := [], sk_refusing := True,
         sk_outage_lines := sk_outage_lines sk + length (sk_queue sk)\<rparr>) = Some sk2"
      "report_write_outage now sk2 = (sk3, r1)" "report_overflow now sk3 = (sk', r2)"
  | (broke) "sk_queue sk \<noteq> []" "raised" "rs = []" "disk = None \<or> (\<exists>l \<in> set (sk_queue sk). ll_timestamp l = Unreadable)"
      "sk' = sk\<lparr>sk_queue := [], sk_refusing := True, sk_outage_lines := sk_outage_lines sk + length (sk_queue sk)\<rparr>"
proof -
  have stamp: "(line_time now l = None) = (ll_timestamp l = Unreadable)" for l
    by (simp add: line_time_def split: line_stamp.split)
  let ?sk2 = "sk\<lparr>sk_queue := [], sk_refusing := True, sk_outage_lines := sk_outage_lines sk + length (sk_queue sk)\<rparr>"
  consider "sk_queue sk = []"
    | "sk_queue sk \<noteq> []" "store_ok" "\<not> list_ex (\<lambda>l. line_time now l = None) (sk_queue sk)"
    | "sk_queue sk \<noteq> []" "\<not> (store_ok \<and> \<not> list_ex (\<lambda>l. line_time now l = None) (sk_queue sk))" by blast
  then show thesis
  proof cases
    case 1
    then have "drain_lines sk = (sk, [])" by (cases sk) (simp add: drain_lines_def)
    then have "report_overflow now sk = (sk', rs)" "\<not> raised"
      using assms by (auto simp: sink_tick_def Let_def split: prod.splits)
    then show thesis using idle 1 by blast
  next
    case 2
    then show thesis using stored assms
      by (auto simp: sink_tick_def drain_lines_def Let_def list_ex_iff stamp split: prod.splits)
  next
    case 3
    show thesis
    proof (cases "write_to_files disk now (sk_queue sk) ?sk2")
      case None
      then have "disk = None \<or> (\<exists>l \<in> set (sk_queue sk). ll_timestamp l = Unreadable)"
        by (auto simp: write_to_files_def Let_def list_ex_iff stamp split: option.splits if_splits)
      moreover have "sk' = ?sk2" "rs = []" "raised"
        using assms 3 None by (auto simp: sink_tick_def drain_lines_def Let_def split: if_splits)
      ultimately show thesis using broke 3(1) by blast
    next
      case (Some sk2)
      then have "\<not> list_ex (\<lambda>l. line_time now l = None) (sk_queue sk)"
        by (auto simp: write_to_files_def split: option.splits if_splits)
      then have "\<not> store_ok" using 3(2) by blast
      then show thesis using refused[of "[]"] refused assms 3 Some
        by (auto simp: sink_tick_def drain_lines_def Let_def split: if_splits prod.splits)
    qed
  qed
qed


section \<open>Runs\<close>

datatype sink_action = SinkLine log_line | SinkPass bool bool disk instant

text \<open>The reports made, and how many times the drain's own failure was logged.\<close>

fun sink_run :: "sink_action list \<Rightarrow> log_sink \<Rightarrow> log_sink \<times> sink_report list \<times> nat" where
  "sink_run [] sk = (sk, [], 0)" |
  "sink_run (SinkLine l # as) sk = sink_run as (enqueue_line l sk)" |
  "sink_run (SinkPass shown store_ok disk now # as) sk =
     (case drain_pass shown store_ok disk now sk of (sk1, r1, raised) \<Rightarrow>
        (case sink_run as sk1 of (sk2, r2, n) \<Rightarrow> (sk2, r1 @ r2, (if raised \<and> shown then Suc n else n))))"


text \<open>The disk takes every batch, and every stamp can be read.\<close>

definition calm_action :: "sink_action \<Rightarrow> bool" where
  "calm_action a = (case a of SinkLine l \<Rightarrow> ll_timestamp l \<noteq> Unreadable
     | SinkPass shown store_ok disk now \<Rightarrow> disk = Some (\<lambda>_. None))"

definition readable :: "log_sink \<Rightarrow> bool" where
  "readable sk \<longleftrightarrow> (\<forall>l \<in> set (sk_queue sk). ll_timestamp l \<noteq> Unreadable)"

lemma readable_enqueue: "readable sk \<Longrightarrow> ll_timestamp l \<noteq> Unreadable \<Longrightarrow> readable (enqueue_line l sk)"
  by (cases "sk_queue sk") (auto simp: readable_def enqueue_line_def)

lemma readable_counters [simp]:
  "readable (sk\<lparr>sk_outage_lines := n\<rparr>) = readable sk" "readable (sk\<lparr>sk_announced := b\<rparr>) = readable sk"
  "readable (sk\<lparr>sk_dropped := n\<rparr>) = readable sk"
  by (simp_all add: readable_def)

lemma readable_report:
  "readable sk \<Longrightarrow> report_overflow now sk = (sk', rs) \<Longrightarrow> readable sk'"
  "readable sk \<Longrightarrow> report_write_outage now sk = (sk', rs) \<Longrightarrow> readable sk'"
  by (auto simp: report_overflow_def report_write_outage_def Let_def report_line_def split: if_splits
      intro!: readable_enqueue)

lemma readable_tick:
  assumes "readable sk" "sink_tick store_ok disk now sk = (sk', rs, raised)" "disk = Some (\<lambda>_. None)"
  shows "readable sk' \<and> \<not> raised"
  using assms(2)
proof (cases rule: sink_tick_cases)
  case idle
  then show ?thesis using readable_report(1)[OF assms(1)] by blast
next
  case (stored sk3 r1 r2)
  have "readable (sk\<lparr>sk_queue := [], sk_store := sk_store sk @ sk_queue sk, sk_refusing := False\<rparr>)" by (simp add: readable_def)
  then show ?thesis using readable_report(2)[OF _ stored(6)] readable_report(1)[OF _ stored(7)] stored(2) by blast
next
  case (refused sk2 sk3 r1 r2)
  have "sk_queue sk2 = []"
  proof -
    have "sk_queue (fold (\<lambda>p sk. fst (write_batch (room p) p (ls p) sk)) ps s) = sk_queue s" for room ls ps s
      by (induction ps arbitrary: s) (simp_all add: write_batch_def Let_def)
    then show ?thesis using refused(5) assms(3) by (auto simp: write_to_files_def Let_def split: if_splits)
  qed
  then have "readable sk2" by (simp add: readable_def)
  then show ?thesis using readable_report(2)[OF _ refused(6)] readable_report(1)[OF _ refused(7)] refused(2) by blast
next
  case broke
  then show ?thesis using assms(1,3) by (auto simp: readable_def)
qed






section \<open>The outage, abstractly\<close>

text \<open>
  Healthy, or refusing with the lines refused so far: one report at each of the two transitions.
\<close>

fun outage_step :: "bool \<Rightarrow> nat \<Rightarrow> nat option \<Rightarrow> nat option \<times> sink_report list" where
  "outage_step True k None = (None, [])" |
  "outage_step True k (Some n) = (None, [WriteRecovered n])" |
  "outage_step False k None = (Some k, [WriteFailed])" |
  "outage_step False k (Some n) = (Some (n + k), [])"

definition outage_abs :: "log_sink \<Rightarrow> nat option" where
  "outage_abs sk = (if sk_refusing sk then Some (sk_outage_lines sk) else None)"

definition outage_ok :: "log_sink \<Rightarrow> bool" where
  "outage_ok sk \<longleftrightarrow> sk_announced sk = sk_refusing sk \<and> (\<not> sk_refusing sk \<longrightarrow> sk_outage_lines sk = 0)"

definition is_outage_report :: "sink_report \<Rightarrow> bool" where
  "is_outage_report r = (case r of Overflowed _ \<Rightarrow> False | _ \<Rightarrow> True)"

lemma overflow_reports:
  "report_overflow now sk = (sk', rs) \<Longrightarrow> filter is_outage_report rs = [] \<and> outage_abs sk' = outage_abs sk \<and> outage_ok sk' = outage_ok sk"
  by (auto simp: report_overflow_def Let_def is_outage_report_def outage_abs_def outage_ok_def split: if_splits)

lemma write_to_files_outage:
  "write_to_files disk now ls sk = Some sk' \<Longrightarrow> sk_refusing sk' = sk_refusing sk \<and> sk_announced sk' = sk_announced sk
    \<and> sk_outage_lines sk' = sk_outage_lines sk"
proof -
  have "sk_refusing (fold (\<lambda>p sk. fst (write_batch (room p) p (ls p) sk)) ps s) = sk_refusing s
    \<and> sk_announced (fold (\<lambda>p sk. fst (write_batch (room p) p (ls p) sk)) ps s) = sk_announced s
    \<and> sk_outage_lines (fold (\<lambda>p sk. fst (write_batch (room p) p (ls p) sk)) ps s) = sk_outage_lines s" for room ls ps s
    by (induction ps arbitrary: s) (simp_all add: write_batch_def Let_def)
  then show "write_to_files disk now ls sk = Some sk' \<Longrightarrow> ?thesis"
    by (auto simp: write_to_files_def Let_def split: option.splits if_splits)
qed

text \<open>A tick that does not raise simulates the abstract machine; one that found nothing queued says nothing.\<close>

lemma sink_tick_outage:
  assumes "outage_ok sk" "sink_tick store_ok disk now sk = (sk', rs, False)"
  shows "outage_ok sk' \<and> (outage_abs sk', filter is_outage_report rs)
      = (if sk_queue sk = [] then (outage_abs sk, [])
         else outage_step (sk_refusing sk' = False) (length (sk_queue sk)) (outage_abs sk))"
  using assms(2)
proof (cases rule: sink_tick_cases)
  case idle
  then show ?thesis using overflow_reports[OF idle(2)] assms(1) by simp
next
  case (stored sk3 r1 r2)
  have "sk_refusing sk3 = False" "sk_announced sk3 = False"
    using stored(6) by (auto simp: report_write_outage_def Let_def split: if_splits)
  moreover have "sk_refusing sk' = sk_refusing sk3"
    using stored(7) by (auto simp: report_overflow_def Let_def split: if_splits)
  ultimately show ?thesis
    using outage_reports[OF stored(6)] overflow_reports[OF stored(7)] stored(1,3) assms(1)
    by (cases "sk_refusing sk") (auto simp: outage_abs_def outage_ok_def is_outage_report_def)
next
  case (refused sk2 sk3 r1 r2)
  note W = write_to_files_outage[OF refused(5)]
  have "sk_refusing sk3" "sk_announced sk3"
    using refused(6) W by (auto simp: report_write_outage_def Let_def split: if_splits)
  moreover have "sk_refusing sk' = sk_refusing sk3"
    using refused(7) by (auto simp: report_overflow_def Let_def split: if_splits)
  ultimately show ?thesis
    using outage_reports[OF refused(6)] overflow_reports[OF refused(7)] refused(1,3) W assms(1)
    by (cases "sk_refusing sk") (auto simp: outage_abs_def outage_ok_def is_outage_report_def)
qed simp

lemma calm_run_outage:
  "outage_ok sk \<Longrightarrow> readable sk \<Longrightarrow> \<forall>a \<in> set as. calm_action a \<Longrightarrow> sink_run as sk = (sk', rs, n) \<Longrightarrow> outage_ok sk'"
proof (induction "as" arbitrary: sk rs n)
  case (Cons a as)
  show ?case
  proof (cases a)
    case (SinkLine l)
    have "outage_ok (enqueue_line l sk)" using Cons.prems(1) by (simp add: outage_ok_def)
    moreover have "readable (enqueue_line l sk)"
      using Cons.prems(2,3) by (intro readable_enqueue) (simp_all add: SinkLine calm_action_def)
    ultimately show ?thesis using Cons by (simp add: SinkLine)
  next
    case (SinkPass shown ok disk now)
    have disk: "disk = Some (\<lambda>_. None)" using Cons.prems(3) by (simp add: SinkPass calm_action_def)
    obtain sk1 r1 raised where t: "sink_tick ok disk now sk = (sk1, r1, raised)" by (metis prod_cases3)
    have r: "readable sk1" "\<not> raised" using readable_tick[OF Cons.prems(2) t disk] by simp_all
    then have "outage_ok sk1" using sink_tick_outage[OF Cons.prems(1)] t by simp
    moreover have "\<exists>rs n. sink_run as sk1 = (sk', rs, n)"
      using Cons.prems(4) t r(2) by (auto simp: SinkPass drain_pass_def split: prod.splits)
    ultimately show ?thesis using Cons.IH[OF _ r(1)] Cons.prems(3) by auto
  qed
qed simp

text \<open>
  The sink reports an outage of the store on its two transitions only: after any run on a disk that works,
  a tick that does not raise simulates the abstract machine that is healthy or refusing, whose recovery
  names the lines refused since the outage began.
\<close>

theorem sink_outage_refines:
  assumes "sink_run as sink_init = (sk, before, n)" "\<forall>a \<in> set as. calm_action a"
    and "sink_tick store_ok disk now sk = (sk', rs, False)"
  shows "(outage_abs sk', filter is_outage_report rs)
      = (if sk_queue sk = [] then (outage_abs sk, [])
         else outage_step (\<not> sk_refusing sk') (length (sk_queue sk)) (outage_abs sk))"
proof -
  have "outage_ok sk" using calm_run_outage[OF _ _ assms(2,1)] by (simp add: outage_ok_def readable_def sink_init_def)
  from sink_tick_outage[OF this assms(3)] show ?thesis by simp
qed

end
