(* ===== verification/Capture.thy ===== *)
theory Capture
  imports Bounded_Buffer Py_Text
begin

text \<open>
  \<open>apps/shared/logs/capture.py\<close>: from \<open>log.exception\<close> to the trackers.  The bounded queue sheds by
  fingerprint; an exception is captured once, by the mark it carries; the drain hands each capture to
  every tracker, keeps what none took and stops there, and reports the shortfall.  An exception object
  is its identity, its type, the site its traceback ends at and whether it takes attributes; what a
  tracker answers is a parameter.
\<close>

section \<open>Exceptions and captures\<close>

record exc_object =
  xo_id :: nat
  xo_qualname :: string
  xo_site :: "(string \<times> string) option"
  xo_takes_attrs :: bool

record captured =
  cp_exc :: exc_object
  cp_context :: payload

definition shed_key :: "exc_object \<Rightarrow> string" where
  "shed_key exc = xo_qualname exc @ ''|'' @
     (case xo_site exc of None \<Rightarrow> [] | Some (filename, name) \<Rightarrow> filename @ '':'' @ name)"

datatype capture_line =
    TrackerFailedException nat
  | TrackerFailedWarning nat nat
  | TrackerRecovered nat nat
  | CaptureOverflowed nat

record capture =
  cq_queue :: "captured list"
  cq_dropped :: nat
  cq_marked :: "nat list"
  cq_trackers :: "nat list"
  cq_failures :: "(nat, nat) dict"
  cq_lines :: "capture_line list"
  cq_next_exc :: nat

definition capture_maxlen :: nat where "capture_maxlen = 1000"

definition capture_init :: capture where
  "capture_init = \<lparr>cq_queue = [], cq_dropped = 0, cq_marked = [], cq_trackers = [], cq_failures = [],
     cq_lines = [], cq_next_exc = 0\<rparr>"

definition on_captured :: "nat \<Rightarrow> capture \<Rightarrow> capture" where
  "on_captured tracker c = c\<lparr>cq_trackers := cq_trackers c @ [tracker]\<rparr>"

section \<open>Shedding\<close>

definition captured_key :: "captured \<Rightarrow> string" where
  "captured_key x = shed_key (cp_exc x)"

definition repeats :: "captured list \<Rightarrow> string \<Rightarrow> nat" where
  "repeats q key = count_where (\<lambda>x. captured_key x = key) q"

text \<open>
  \<open>Counter(..).most_common(1)\<close>: the first key met among those that occur most.  The first capture of
  that key goes, or the oldest capture when every key occurs once.
\<close>

fun remove_first :: "('a \<Rightarrow> bool) \<Rightarrow> 'a list \<Rightarrow> 'a list" where
  "remove_first P [] = []" |
  "remove_first P (x # xs) = (if P x then xs else x # remove_first P xs)"

definition shed :: "captured list \<Rightarrow> captured list" where
  "shed q = (case first_max (repeats q) (first_occurrences [] (map captured_key q)) of
       None \<Rightarrow> q
     | Some key \<Rightarrow> if repeats q key = 1 then tl q else remove_first (\<lambda>x. captured_key x = key) q)"

definition capture_append :: "captured \<Rightarrow> capture \<Rightarrow> capture" where
  "capture_append x c =
     (if length (cq_queue c) = capture_maxlen
      then c\<lparr>cq_dropped := cq_dropped c + 1, cq_queue := shed (cq_queue c) @ [x]\<rparr>
      else c\<lparr>cq_queue := cq_queue c @ [x]\<rparr>)"

section \<open>The processor\<close>

definition capture_enqueue :: "exc_object \<Rightarrow> payload \<Rightarrow> capture \<Rightarrow> capture" where
  "capture_enqueue exc context c =
     (if xo_id exc \<in> set (cq_marked c) then c
      else capture_append \<lparr>cp_exc = exc, cp_context = context\<rparr>
        (if xo_takes_attrs exc then c\<lparr>cq_marked := xo_id exc # cq_marked c\<rparr> else c))"

definition drop_keys :: "string list" where
  "drop_keys = [''exc_info'', ''exception'', ''timestamp'', ''level'']"

definition is_scalar :: "json \<Rightarrow> bool" where
  "is_scalar v = (case v of JArr _ \<Rightarrow> False | JObj _ \<Rightarrow> False | _ \<Rightarrow> True)"

text \<open>
  An \<open>exc_info\<close> value: \<open>True\<close> (with what \<open>sys.exc_info()\<close> holds), an instance, a three-tuple, or anything
  else.
\<close>

datatype exc_info = ExcTrue "exc_object option" | ExcInstance exc_object | ExcTuple "exc_object option"
  | ExcOther

definition exc_from :: "exc_info \<Rightarrow> exc_object option" where
  "exc_from v = (case v of ExcTrue current \<Rightarrow> current | ExcInstance e \<Rightarrow> Some e | ExcTuple e \<Rightarrow> e
     | ExcOther \<Rightarrow> None)"

definition capture_processor ::
  "bool \<Rightarrow> string \<Rightarrow> exc_info \<Rightarrow> payload \<Rightarrow> capture \<Rightarrow> capture" where
  "capture_processor capturing method_name info event_dict c =
     (if method_name \<noteq> ''error'' \<or> capturing then c
      else (case exc_from info of
          None \<Rightarrow> c
        | Some exc \<Rightarrow>
            capture_enqueue exc (filter (\<lambda>(k, v). k \<notin> set drop_keys \<and> is_scalar v) event_dict) c))"

section \<open>Delivery\<close>

definition report_tracker_failure :: "nat \<Rightarrow> exc_object \<Rightarrow> payload \<Rightarrow> capture \<Rightarrow> capture" where
  "report_tracker_failure tracker exc context c =
     (let n = dict_get (cq_failures c) tracker 0 + 1;
          c' = c\<lparr>cq_failures := AList.update tracker n (cq_failures c)\<rparr> in
      if n = 1
      then capture_enqueue exc (AList.update ''tracker'' (JStr (str_nat tracker)) context)
             (c'\<lparr>cq_lines := cq_lines c' @ [TrackerFailedException tracker]\<rparr>)
      else c'\<lparr>cq_lines := cq_lines c' @ [TrackerFailedWarning tracker n]\<rparr>)"

definition report_tracker_recovery :: "nat \<Rightarrow> capture \<Rightarrow> capture" where
  "report_tracker_recovery tracker c =
     (case map_of (cq_failures c) tracker of
        None \<Rightarrow> c
      | Some n \<Rightarrow> c\<lparr>cq_failures := AList.delete tracker (cq_failures c),
                    cq_lines := cq_lines c @ [TrackerRecovered tracker n]\<rparr>)"

text \<open>A tracker takes the capture (\<open>None\<close>) or raises.\<close>

type_synonym tracker_outcomes = "nat \<Rightarrow> captured \<Rightarrow> exc_object option"

fun deliver_to :: "tracker_outcomes \<Rightarrow> captured \<Rightarrow> nat list \<Rightarrow> capture \<Rightarrow> capture \<times> bool" where
  "deliver_to track x [] c = (c, False)" |
  "deliver_to track x (t # ts) c =
     (case track t x of
        Some exc \<Rightarrow> deliver_to track x ts (report_tracker_failure t exc (cp_context x) c)
      | None \<Rightarrow> (case deliver_to track x ts (report_tracker_recovery t c) of (c', _) \<Rightarrow> (c', True)))"

definition deliver_capture :: "tracker_outcomes \<Rightarrow> captured \<Rightarrow> capture \<Rightarrow> capture \<times> bool" where
  "deliver_capture track x c =
     (case deliver_to track x (cq_trackers c) c of (c', taken) \<Rightarrow> (c', taken \<or> cq_trackers c = []))"

text \<open>At most the captures queued when the tick began; one that nobody took goes back and ends the tick.\<close>

fun drain_captures :: "nat \<Rightarrow> tracker_outcomes \<Rightarrow> capture \<Rightarrow> capture" where
  "drain_captures 0 track c = c" |
  "drain_captures (Suc n) track c =
     (case cq_queue c of
        [] \<Rightarrow> c
      | x # rest \<Rightarrow>
          (case deliver_capture track x (c\<lparr>cq_queue := rest\<rparr>) of
             (c', True) \<Rightarrow> drain_captures n track c'
           | (c', False) \<Rightarrow> capture_append x c'))"

definition overflow_exception :: "nat \<Rightarrow> exc_object" where
  "overflow_exception i = \<lparr>xo_id = i, xo_qualname = ''CaptureQueueOverflowed'',
     xo_site = Some (''apps/shared/logs/capture.py'', ''_report_overflow''), xo_takes_attrs = True\<rparr>"

definition report_capture_overflow :: "tracker_outcomes \<Rightarrow> nat \<Rightarrow> capture \<Rightarrow> capture" where
  "report_capture_overflow track n c =
     (case deliver_capture track \<lparr>cp_exc = overflow_exception (cq_next_exc c),
                                   cp_context = [(''dropped'', JNum (int n))]\<rparr>
                           (c\<lparr>cq_next_exc := Suc (cq_next_exc c)\<rparr>) of
        (c', False) \<Rightarrow> c'\<lparr>cq_dropped := cq_dropped c' + n\<rparr>
      | (c', True) \<Rightarrow> c'\<lparr>cq_lines := cq_lines c' @ [CaptureOverflowed n]\<rparr>)"

definition capture_tick :: "tracker_outcomes \<Rightarrow> capture \<Rightarrow> capture" where
  "capture_tick track c =
     (let n = cq_dropped c; c1 = c\<lparr>cq_dropped := 0\<rparr>;
          c2 = drain_captures (length (cq_queue c1)) track c1 in
      if n \<noteq> 0 then report_capture_overflow track n c2 else c2)"

definition capture_drain_once :: "tracker_outcomes \<Rightarrow> capture \<Rightarrow> capture" where
  "capture_drain_once track c = capture_tick track (capture_tick track c)"

section \<open>Shedding keeps every distinct failure\<close>

lemma length_remove_first: "\<exists>x \<in> set q. P x \<Longrightarrow> Suc (length (remove_first P q)) = length q"
  by (induction q) auto

lemma mset_remove_first: "mset (remove_first P q) \<subseteq># mset q"
proof (induction q)
  case (Cons x q)
  then show ?case by (auto intro: mset_subset_eq_add_left)
qed simp

lemma first_max_key:
  assumes "q \<noteq> []"
  shows "\<exists>key. first_max (repeats q) (first_occurrences [] (map captured_key q)) = Some key
    \<and> key \<in> captured_key ` set q \<and> (\<forall>k \<in> captured_key ` set q. repeats q k \<le> repeats q key)"
proof -
  let ?ks = "first_occurrences [] (map captured_key q)"
  have ks: "set ?ks = captured_key ` set q" using first_occurrences_props[of "[]" "map captured_key q"] by simp
  then have "?ks \<noteq> []" using assms by (metis image_is_empty list.set(1) set_empty)
  then obtain key where "first_max (repeats q) ?ks = Some key" by fastforce
  then show ?thesis using first_max_greatest ks by metis
qed

lemma repeats_pos: "k \<in> captured_key ` set q \<Longrightarrow> 0 < repeats q k"
proof -
  assume "k \<in> captured_key ` set q"
  then have "repeats q k \<noteq> 0" unfolding repeats_def count_where_0_iff by auto
  then show ?thesis by simp
qed

lemma repeats_count: "repeats q k = count (mset (map captured_key q)) k"
  by (induction q) (auto simp: repeats_def)

lemma repeats_absent: "k \<notin> captured_key ` set q \<Longrightarrow> repeats q k = 0"
  unfolding repeats_def count_where_0_iff by auto

lemma length_shed: "q \<noteq> [] \<Longrightarrow> Suc (length (shed q)) = length q"
proof -
  assume q: "q \<noteq> []"
  then obtain key where k: "first_max (repeats q) (first_occurrences [] (map captured_key q)) = Some key"
    "key \<in> captured_key ` set q" using first_max_key by blast
  then show ?thesis using q length_remove_first[of q "\<lambda>x. captured_key x = key"]
    by (auto simp: shed_def)
qed

lemma mset_shed: "mset (shed q) \<subseteq># mset q"
proof (cases q)
  case (Cons x xs)
  have "mset (tl q) \<subseteq># mset q" using Cons by simp
  then show ?thesis using mset_remove_first[of _ q]
    by (simp add: shed_def split: option.splits)
qed (simp add: shed_def)

lemma keys_remove_first:
  "captured_key ` set q \<subseteq> insert k (captured_key ` set (remove_first (\<lambda>x. captured_key x = k) q))"
  by (induction q) auto

lemma repeats_remove_first:
  "k \<in> captured_key ` set q \<Longrightarrow> Suc (repeats (remove_first (\<lambda>x. captured_key x = k) q) k) = repeats q k"
  by (induction q) (auto simp: repeats_def)

interpretation capture_queue: bounded_queue capture_append cq_queue cq_dropped capture_maxlen
proof
  fix s :: capture and x
  have n: "length (cq_queue s) = capture_maxlen \<Longrightarrow> cq_queue s \<noteq> []" by (auto simp: capture_maxlen_def)
  show "length (cq_queue s) \<le> capture_maxlen \<Longrightarrow> length (cq_queue (capture_append x s)) \<le> capture_maxlen"
    using length_shed[OF n] by (auto simp: capture_append_def)
  show "length (cq_queue s) \<le> capture_maxlen \<Longrightarrow>
      length (cq_queue (capture_append x s)) + cq_dropped (capture_append x s) = Suc (length (cq_queue s) + cq_dropped s)"
    using length_shed[OF n] by (auto simp: capture_append_def)
  show "length (cq_queue s) < capture_maxlen \<Longrightarrow> cq_queue (capture_append x s) = cq_queue s @ [x]"
    by (auto simp: capture_append_def)
  show "mset (cq_queue (capture_append x s)) \<subseteq># add_mset x (mset (cq_queue s))"
    using mset_shed by (auto simp: capture_append_def)
qed

text \<open>
  A storm pays for its own room.  However many captures arrive, the queue never outgrows its
  capacity and what is queued plus what was counted as dropped is what came in; and when a full queue
  holds some fingerprint twice, the capture it gives up leaves every fingerprint of the queue still
  represented, while with all fingerprints distinct it gives up the oldest.
\<close>

theorem capture_sheds_duplicates:
  assumes "length (cq_queue c) = capture_maxlen"
  shows "length (cq_queue (fold capture_append xs c)) \<le> capture_maxlen
    \<and> length (cq_queue (fold capture_append xs c)) + cq_dropped (fold capture_append xs c)
        = length xs + capture_maxlen + cq_dropped c
    \<and> (if distinct (map captured_key (cq_queue c))
       then cq_queue (capture_append x c) = tl (cq_queue c) @ [x]
       else captured_key ` set (cq_queue c) \<subseteq> captured_key ` set (shed (cq_queue c)))"
proof -
  let ?q = "cq_queue c"
  have q: "?q \<noteq> []" using assms by (auto simp: capture_maxlen_def)
  obtain key where key: "first_max (repeats ?q) (first_occurrences [] (map captured_key ?q)) = Some key"
    "key \<in> captured_key ` set ?q" "\<forall>k \<in> captured_key ` set ?q. repeats ?q k \<le> repeats ?q key"
    using first_max_key[OF q] by blast
  have one: "distinct (map captured_key ?q) \<longleftrightarrow> repeats ?q key = 1"
  proof -
    have d: "distinct (map captured_key ?q) \<longleftrightarrow> (\<forall>k \<in> captured_key ` set ?q. repeats ?q k = 1)"
      unfolding distinct_count_atmost_1 repeats_count [symmetric]
      using repeats_pos[of _ ?q] repeats_absent[of _ ?q] by (auto split: if_splits)
    have "\<forall>k \<in> captured_key ` set ?q. 0 < repeats ?q k" using repeats_pos by blast
    then show ?thesis unfolding d using key(2,3) by (metis One_nat_def le_antisym Suc_leI)
  qed
  have keys: "captured_key ` set ?q \<subseteq> captured_key ` set (shed ?q)" if "\<not> distinct (map captured_key ?q)"
  proof -
    let ?r = "remove_first (\<lambda>x. captured_key x = key) ?q"
    have "repeats ?q key \<noteq> 1" using that one by simp
    moreover have "0 < repeats ?q key" using key(2) repeats_pos by blast
    ultimately have "repeats ?r key \<noteq> 0" using repeats_remove_first[OF key(2)] by simp
    then have "key \<in> captured_key ` set ?r"
      unfolding repeats_def count_where_0_iff by auto
    then show ?thesis using keys_remove_first[of ?q key] key(1) \<open>repeats ?q key \<noteq> 1\<close>
      by (auto simp: shed_def)
  qed
  have old: "cq_queue (capture_append x c) = tl ?q @ [x]" if "distinct (map captured_key ?q)"
    using assms key(1) one that by (simp add: capture_append_def shed_def)
  show ?thesis
    using capture_queue.burst_bound[of c xs] capture_queue.burst_conserve[of c xs] assms keys old by simp
qed

definition demo_captured :: captured where
  "demo_captured = \<lparr>cp_exc = \<lparr>xo_id = 1, xo_qualname = ''E'', xo_site = None, xo_takes_attrs = True\<rparr>,
     cp_context = []\<rparr>"

lemma capture_sheds_duplicates_witness:
  "cq_dropped (fold capture_append [demo_captured, demo_captured]
     (capture_init\<lparr>cq_queue := replicate 1000 demo_captured\<rparr>)) \<ge> 2"
proof -
  have "length (cq_queue (capture_init\<lparr>cq_queue := replicate 1000 demo_captured\<rparr>)) = capture_maxlen"
    by (simp add: capture_maxlen_def)
  note storm = capture_sheds_duplicates[OF this, of "[demo_captured, demo_captured]" demo_captured]
  have "length [demo_captured, demo_captured] = 2" by simp
  then show ?thesis using conjunct1[OF storm] conjunct1[OF conjunct2[OF storm]] by linarith
qed

section \<open>An outage of the trackers\<close>

lemma capture_enqueue_room:
  assumes "length (cq_queue c) < capture_maxlen"
  shows "\<exists>extra. cq_queue (capture_enqueue exc ctx c) = cq_queue c @ extra \<and> length extra \<le> 1
    \<and> cq_dropped (capture_enqueue exc ctx c) = cq_dropped c"
  using assms by (auto simp: capture_enqueue_def capture_append_def)

lemma report_failure_room:
  assumes "length (cq_queue c) < capture_maxlen"
  shows "\<exists>extra. cq_queue (report_tracker_failure t exc ctx c) = cq_queue c @ extra \<and> length extra \<le> 1
    \<and> cq_dropped (report_tracker_failure t exc ctx c) = cq_dropped c"
proof -
  let ?c = "c\<lparr>cq_failures := AList.update t (dict_get (cq_failures c) t 0 + 1) (cq_failures c)\<rparr>"
  show ?thesis
    using assms capture_enqueue_room[of "?c\<lparr>cq_lines := cq_lines ?c @ [TrackerFailedException t]\<rparr>"]
    by (auto simp: report_tracker_failure_def Let_def)
qed

lemma deliver_to_raising:
  assumes "\<forall>t. track t x \<noteq> None"
  shows "length (cq_queue c) + length ts \<le> capture_maxlen \<Longrightarrow>
    \<exists>c' extra. deliver_to track x ts c = (c', False) \<and> cq_queue c' = cq_queue c @ extra
      \<and> length extra \<le> length ts \<and> cq_dropped c' = cq_dropped c"
proof (induction ts arbitrary: c)
  case (Cons t ts)
  obtain exc where exc: "track t x = Some exc" using assms by blast
  let ?c1 = "report_tracker_failure t exc (cp_context x) c"
  obtain e1 where e1: "cq_queue ?c1 = cq_queue c @ e1" "length e1 \<le> 1" "cq_dropped ?c1 = cq_dropped c"
    using report_failure_room[of c t exc "cp_context x"] Cons.prems by auto
  then have "length (cq_queue ?c1) + length ts \<le> capture_maxlen" using Cons.prems by simp
  from Cons.IH[OF this] obtain c' e2 where "deliver_to track x ts ?c1 = (c', False)"
    "cq_queue c' = cq_queue ?c1 @ e2" "length e2 \<le> length ts" "cq_dropped c' = cq_dropped ?c1" by blast
  then show ?case using exc e1 by (intro exI[of _ c'] exI[of _ "e1 @ e2"]) simp
qed auto

text \<open>
  While every tracker is down a tick loses nothing and probes with one capture only: the capture
  at the head goes to the back, behind the trackers' own failures, every other one keeps its place,
  and nothing is counted as dropped.
\<close>

theorem capture_outage_keeps_all:
  assumes "\<forall>t y. track t y \<noteq> None" "cq_trackers c \<noteq> []" "cq_dropped c = 0"
    and "cq_queue c = x # rest" "length rest + length (cq_trackers c) < capture_maxlen"
  shows "\<exists>failures. cq_queue (capture_tick track c) = rest @ failures @ [x]
    \<and> length failures \<le> length (cq_trackers c) \<and> cq_dropped (capture_tick track c) = 0"
proof -
  have t: "\<forall>t. track t x \<noteq> None" using assms(1) by blast
  have self: "c\<lparr>cq_dropped := 0\<rparr> = c" using assms(3) by simp
  obtain c' extra where d: "deliver_to track x (cq_trackers c) (c\<lparr>cq_queue := rest\<rparr>) = (c', False)"
    "cq_queue c' = rest @ extra" "length extra \<le> length (cq_trackers c)" "cq_dropped c' = 0"
    using deliver_to_raising[where track = track and x = x and c = "c\<lparr>cq_queue := rest\<rparr>"
        and ts = "cq_trackers c"] t assms(3,5) by auto
  have "deliver_capture track x (c\<lparr>cq_queue := rest\<rparr>) = (c', False)"
    using d(1) assms(2) by (simp add: deliver_capture_def)
  then have "drain_captures (length (cq_queue c)) track c = capture_append x c'"
    using assms(4) by simp
  then have "capture_tick track c = capture_append x c'"
    unfolding capture_tick_def Let_def self using assms(3) by simp
  moreover have "length (cq_queue c') < capture_maxlen" using d(2,3) assms(5) by simp
  ultimately show ?thesis using d by (auto simp: capture_append_def)
qed

lemma capture_outage_keeps_all_witness:
  "\<exists>failures. cq_queue (capture_tick (\<lambda>t y. Some (cp_exc demo_captured))
       (capture_init\<lparr>cq_queue := [demo_captured], cq_trackers := [4]\<rparr>)) = failures @ [demo_captured]
     \<and> length failures \<le> 1"
  using capture_outage_keeps_all[of "\<lambda>t y. Some (cp_exc demo_captured)"
      "capture_init\<lparr>cq_queue := [demo_captured], cq_trackers := [4]\<rparr>" demo_captured "[]"]
  by (auto simp: capture_init_def capture_maxlen_def)

end
