(* ===== verification/Live_Settings.thy ===== *)
theory Live_Settings
  imports Py_Text
begin

text \<open>
  \<open>apps/shared/settings/live.py\<close> and \<open>store.py\<close>, with the console's service, repository and
  endpoints that write settings (\<open>apps/console\<close>).  A declaration states an app's settings; the
  database stores their text; a handle per app and per process holds the stored text and caches its
  typed reading; a write in the console emits a fact with every fresh value, which each process adopts.
  The database's answer (reachable or not) and the organisations' handles are parameters.
\<close>

section \<open>Declarations\<close>

datatype setting_type = SettingString | SettingNumber | SettingBoolean

record setting_def =
  sd_key :: string
  sd_type :: setting_type
  sd_default :: string
  sd_label :: string
  sd_org_overridable :: bool

definition bool_true :: string where "bool_true = ''true''"
definition bool_false :: string where "bool_false = ''false''"
definition enabled_key :: string where "enabled_key = ''enabled''"

definition feature_switch :: "string \<Rightarrow> setting_def" where
  "feature_switch label = \<lparr>sd_key = enabled_key, sd_type = SettingBoolean, sd_default = bool_true,
     sd_label = label, sd_org_overridable = False\<rparr>"

record settings_declaration =
  dn_app :: string
  dn_defs :: "setting_def list"

datatype setting_value = SvText string | SvInt int | SvBool bool

definition coerce_setting :: "setting_type \<Rightarrow> string \<Rightarrow> setting_value" where
  "coerce_setting kind raw = (case kind of
       SettingNumber \<Rightarrow> (case py_int raw of Some i \<Rightarrow> SvInt i | None \<Rightarrow> SvText raw)
     | SettingBoolean \<Rightarrow> SvBool (raw = bool_true)
     | SettingString \<Rightarrow> SvText raw)"

definition setdefault :: "'k \<Rightarrow> 'v \<Rightarrow> ('k, 'v) dict \<Rightarrow> ('k, 'v) dict" where
  "setdefault k v d = (case map_of d k of None \<Rightarrow> d @ [(k, v)] | Some _ \<Rightarrow> d)"

definition typed :: "setting_def list \<Rightarrow> (string, string) dict \<Rightarrow> (string, setting_value) dict" where
  "typed defs values =
     fold (\<lambda>(key, raw). setdefault key (SvText raw)) values
       (fold (\<lambda>d. AList.update (sd_key d) (coerce_setting (sd_type d) (dict_get values (sd_key d) (sd_default d))))
          defs [])"

datatype settings_error = AttributeError string | NoSettings string | UnknownSetting string
  | InvalidSettingValue string string

definition lookup_setting :: "(string, setting_value) dict \<Rightarrow> string \<Rightarrow> settings_error + setting_value" where
  "lookup_setting values name =
     (if startswith name ''_'' then Inl (AttributeError name)
      else (case map_of values name of None \<Rightarrow> Inl (AttributeError name) | Some v \<Rightarrow> Inr v))"

section \<open>The tables\<close>

record settings_db =
  db_app :: "(string \<times> string, string) dict"
  db_org :: "(string \<times> string \<times> uuid, string) dict"

definition disabled_apps :: "settings_db \<Rightarrow> string list" where
  "disabled_apps db = map (fst \<circ> fst) (filter (\<lambda>((app, key), v). key = enabled_key \<and> v = bool_false) (db_app db))"

definition app_values :: "string \<Rightarrow> settings_db \<Rightarrow> (string, string) dict" where
  "app_values app db = map (\<lambda>((_, key), v). (key, v)) (filter (\<lambda>((a, _), _). a = app) (db_app db))"

definition read_values :: "bool \<Rightarrow> string \<Rightarrow> settings_db \<Rightarrow> (string, string) dict" where
  "read_values reachable app db = (if reachable then app_values app db else [])"

definition seed_values :: "bool \<Rightarrow> string \<Rightarrow> (string, string) dict \<Rightarrow> settings_db \<Rightarrow> settings_db" where
  "seed_values reachable app initial db =
     (if initial = [] \<or> \<not> reachable then db
      else db\<lparr>db_app := fold (\<lambda>(key, v). setdefault (app, key) v) initial (db_app db)\<rparr>)"

definition org_values :: "string \<Rightarrow> uuid \<Rightarrow> settings_db \<Rightarrow> (string, string) dict" where
  "org_values app org db =
     map (\<lambda>((_, key, _), v). (key, v)) (filter (\<lambda>((a, _, o'), _). a = app \<and> o' = org) (db_org db))"

section \<open>A process's handles\<close>

record settings_changed =
  sc_user_id :: uuid
  sc_target_app :: string
  sc_key :: string
  sc_value :: string
  sc_values :: "(string, string) dict"

record app_settings =
  as_raw :: "(string, string) dict"
  as_declaration :: settings_declaration
  as_typed :: "(string, setting_value) dict option"

definition new_app_settings :: "(string, string) dict \<Rightarrow> settings_declaration \<Rightarrow> app_settings" where
  "new_app_settings raw declaration = \<lparr>as_raw = raw, as_declaration = declaration, as_typed = None\<rparr>"

definition set_declaration :: "settings_declaration \<Rightarrow> app_settings \<Rightarrow> app_settings" where
  "set_declaration declaration h = h\<lparr>as_declaration := declaration, as_typed := None\<rparr>"

definition set_raw :: "(string, string) dict \<Rightarrow> app_settings \<Rightarrow> app_settings" where
  "set_raw raw h = h\<lparr>as_raw := raw, as_typed := None\<rparr>"

definition handle_read :: "bool \<Rightarrow> settings_db \<Rightarrow> app_settings \<Rightarrow> app_settings" where
  "handle_read reachable db h = set_raw (read_values reachable (dn_app (as_declaration h)) db) h"

text \<open>\<open>values\<close> fills the cache; a view and an attribute read go through it.\<close>

definition handle_values :: "app_settings \<Rightarrow> app_settings \<times> (string, setting_value) dict" where
  "handle_values h = (case as_typed h of
       Some t \<Rightarrow> (h, t)
     | None \<Rightarrow> (let t = typed (dn_defs (as_declaration h)) (as_raw h) in (h\<lparr>as_typed := Some t\<rparr>, t)))"

definition handle_get :: "string \<Rightarrow> app_settings \<Rightarrow> app_settings \<times> (settings_error + setting_value)" where
  "handle_get name h = (case handle_values h of (h', t) \<Rightarrow> (h', lookup_setting t name))"

definition handle_rows :: "app_settings \<Rightarrow> (string \<times> setting_type \<times> string \<times> string) list" where
  "handle_rows h = map (\<lambda>d. (sd_key d, sd_type d, sd_label d, dict_get (as_raw h) (sd_key d) (sd_default d)))
     (dn_defs (as_declaration h))"

definition handle_reload :: "settings_changed \<Rightarrow> app_settings \<Rightarrow> app_settings" where
  "handle_reload event h =
     (if sc_target_app event = dn_app (as_declaration h) then set_raw (sc_values event) h else h)"

definition merged_for_org :: "(string, string) dict \<Rightarrow> app_settings \<Rightarrow> (string, setting_value) dict" where
  "merged_for_org overrides h = typed (dn_defs (as_declaration h)) (dict_union (as_raw h) overrides)"

definition for_org :: "uuid \<Rightarrow> settings_db \<Rightarrow> app_settings \<Rightarrow> (string, setting_value) dict" where
  "for_org org db h = merged_for_org (org_values (dn_app (as_declaration h)) org db) h"

type_synonym settings_registry = "(string, app_settings) dict"

definition get_settings :: "string \<Rightarrow> settings_registry \<Rightarrow> settings_error + app_settings" where
  "get_settings app reg = (case map_of reg app of Some h \<Rightarrow> Inr h | None \<Rightarrow> Inl (NoSettings app))"

definition settings_snapshot :: "settings_registry \<Rightarrow> (string, (string, string) dict) dict" where
  "settings_snapshot reg = map (\<lambda>(name, h). (name, as_raw h)) reg"

definition restore_settings :: "(string, (string, string) dict) dict \<Rightarrow> settings_registry \<Rightarrow> settings_registry" where
  "restore_settings snap reg =
     fold (\<lambda>(name, raw) r. case map_of r name of None \<Rightarrow> r | Some h \<Rightarrow> AList.update name (set_raw raw h) r) snap reg"

definition declared_defaults :: "settings_declaration \<Rightarrow> (string, string) dict" where
  "declared_defaults declaration = fold (\<lambda>d. AList.update (sd_key d) (sd_default d)) (dn_defs declaration) []"

definition bind_settings ::
  "bool \<Rightarrow> bool \<Rightarrow> settings_declaration \<Rightarrow> settings_db \<Rightarrow> settings_registry \<Rightarrow> settings_db \<times> settings_registry" where
  "bind_settings seed_ok read_ok declaration db reg =
     (let app = dn_app declaration;
          db' = seed_values seed_ok app (declared_defaults declaration) db;
          h = dict_get reg app (new_app_settings [] declaration) in
      (db', AList.update app (handle_read read_ok db' (set_declaration declaration h)) reg))"

section \<open>The console's service and repository\<close>

fun find_setting :: "setting_def list \<Rightarrow> string \<Rightarrow> settings_error + setting_def" where
  "find_setting [] key = Inl (UnknownSetting key)" |
  "find_setting (d # ds) key = (if sd_key d = key then Inr d else find_setting ds key)"

definition normalise :: "setting_def \<Rightarrow> string \<Rightarrow> settings_error + string" where
  "normalise d v = (case sd_type d of
       SettingNumber \<Rightarrow> (case py_int v of Some i \<Rightarrow> Inr (str_int i) | None \<Rightarrow> Inl (InvalidSettingValue (sd_key d) v))
     | SettingBoolean \<Rightarrow> if v = bool_true \<or> v = bool_false then Inr v else Inl (InvalidSettingValue (sd_key d) v)
     | SettingString \<Rightarrow> Inr v)"

definition validate :: "settings_declaration \<Rightarrow> string \<Rightarrow> string \<Rightarrow> settings_error + string" where
  "validate decl key v = bind_err (find_setting (dn_defs decl) key) (\<lambda>d. normalise d v)"

record setting_view =
  vw_key :: string
  vw_type :: setting_type
  vw_label :: string
  vw_value :: string
  vw_org_overridable :: bool

fun settings_views :: "setting_def list \<Rightarrow> (string, string) dict \<Rightarrow> settings_error + setting_view list" where
  "settings_views [] values = Inr []" |
  "settings_views (d # ds) values =
     bind_err (normalise d (dict_get values (sd_key d) (sd_default d))) (\<lambda>v.
     bind_err (settings_views ds values) (\<lambda>vs.
       Inr (\<lparr>vw_key = sd_key d, vw_type = sd_type d, vw_label = sd_label d, vw_value = v,
             vw_org_overridable = sd_org_overridable d\<rparr> # vs)))"

definition settings_view :: "settings_declaration \<Rightarrow> (string, string) dict \<Rightarrow> settings_error + setting_view list" where
  "settings_view decl values = settings_views (dn_defs decl) values"

definition repo_set :: "string \<Rightarrow> string \<Rightarrow> string \<Rightarrow> settings_db \<Rightarrow> settings_db" where
  "repo_set app key v db = db\<lparr>db_app := AList.update (app, key) v (db_app db)\<rparr>"

definition set_org_override :: "string \<Rightarrow> string \<Rightarrow> uuid \<Rightarrow> string \<Rightarrow> settings_db \<Rightarrow> settings_db" where
  "set_org_override app key org v db = db\<lparr>db_org := AList.update (app, key, org) v (db_org db)\<rparr>"

definition delete_org_override :: "string \<Rightarrow> string \<Rightarrow> uuid \<Rightarrow> settings_db \<Rightarrow> settings_db" where
  "delete_org_override app key org db = db\<lparr>db_org := AList.delete (app, key, org) (db_org db)\<rparr>"

definition org_overrides ::
  "(uuid \<Rightarrow> string option) \<Rightarrow> string \<Rightarrow> settings_db \<Rightarrow> (string \<times> string \<times> uuid \<times> string) list" where
  "org_overrides handle_of app db =
     sort_key (\<lambda>(handle, key, _, _). (handle, key))
       (List.map_filter (\<lambda>((a, key, org), v). if a = app
            then map_option (\<lambda>handle. (handle, key, org, v)) (handle_of org) else None) (db_org db))"

section \<open>The console's endpoints\<close>

datatype settings_answer =
    SettingsNotFound
  | SettingsBadRequest settings_error
  | SettingsUpdated "setting_view list"
  | SettingsRaised settings_error

definition update_setting ::
  "(string \<Rightarrow> settings_declaration option) \<Rightarrow> uuid \<Rightarrow> string \<Rightarrow> string \<Rightarrow> string \<Rightarrow> settings_db
    \<Rightarrow> settings_db \<times> settings_changed list \<times> settings_answer" where
  "update_setting declared admin app key v db =
     (case declared app of
        None \<Rightarrow> (db, [], SettingsNotFound)
      | Some decl \<Rightarrow>
          (case validate decl key v of
             Inl (UnknownSetting k) \<Rightarrow> (db, [], SettingsNotFound)
           | Inl e \<Rightarrow> (db, [], SettingsBadRequest e)
           | Inr stored \<Rightarrow>
               (let db' = repo_set app key stored db; values = app_values app db' in
                (db', [\<lparr>sc_user_id = admin, sc_target_app = app, sc_key = key, sc_value = stored, sc_values = values\<rparr>],
                 case settings_view decl values of Inl e \<Rightarrow> SettingsRaised e | Inr views \<Rightarrow> SettingsUpdated views))))"

datatype override_error = NotOverridable string | NoOrganisation string | OverrideInvalid settings_error

datatype override_answer = OverrideNotFound | OverrideRefused override_error
  | OverrideList "(string \<times> string \<times> uuid \<times> string) list"

text \<open>The facts \<open>OrgOverrideSet\<close> and \<open>OrgOverrideRemoved\<close>: who, organisation, app, key and value.\<close>

datatype override_fact = OrgOverrideSet uuid uuid string string string
  | OrgOverrideRemoved uuid uuid string string

definition create_org_override ::
  "(string \<Rightarrow> settings_declaration option) \<Rightarrow> (string \<Rightarrow> uuid option) \<Rightarrow> (uuid \<Rightarrow> string option) \<Rightarrow> uuid \<Rightarrow>
   string \<Rightarrow> string \<Rightarrow> string \<Rightarrow> string \<Rightarrow> settings_db \<Rightarrow> settings_db \<times> override_fact list \<times> override_answer" where
  "create_org_override declared org_of handle_of admin app org_handle key v db =
     (case declared app of
        None \<Rightarrow> (db, [], OverrideNotFound)
      | Some decl \<Rightarrow>
          (let handle = lower (strip org_handle) in
           if \<not> (\<exists>d \<in> set (dn_defs decl). sd_key d = key \<and> sd_org_overridable d)
           then (db, [], OverrideRefused (NotOverridable key))
           else (case org_of handle of
               None \<Rightarrow> (db, [], OverrideRefused (NoOrganisation handle))
             | Some org \<Rightarrow>
                 (case validate decl key v of
                    Inl (UnknownSetting k) \<Rightarrow> (db, [], OverrideNotFound)
                  | Inl e \<Rightarrow> (db, [], OverrideRefused (OverrideInvalid e))
                  | Inr stored \<Rightarrow>
                      (let db' = set_org_override app key org stored db in
                       (db', [OrgOverrideSet admin org app key stored],
                        OverrideList (org_overrides handle_of app db')))))))"

definition remove_org_override ::
  "(string \<Rightarrow> settings_declaration option) \<Rightarrow> (uuid \<Rightarrow> string option) \<Rightarrow> uuid \<Rightarrow> string \<Rightarrow> string \<Rightarrow> uuid
    \<Rightarrow> settings_db \<Rightarrow> settings_db \<times> override_fact list \<times> override_answer" where
  "remove_org_override declared handle_of admin app key org db =
     (case declared app of
        None \<Rightarrow> (db, [], OverrideNotFound)
      | Some decl \<Rightarrow>
          (let db' = delete_org_override app key org db in
           (db', [OrgOverrideRemoved admin org app key], OverrideList (org_overrides handle_of app db'))))"


section \<open>The typed reading\<close>

lemma map_of_setdefault: "map_of (setdefault k v d) k' = (if k' = k \<and> map_of d k = None then Some v else map_of d k')"
  by (auto simp: setdefault_def map_add_def split: option.splits)

lemma map_of_setdefaults:
  "map_of (fold (\<lambda>(k, r). setdefault k (f r)) xs d) k'
     = (case map_of d k' of Some v \<Rightarrow> Some v | None \<Rightarrow> map_option f (map_of xs k'))"
  by (induction xs arbitrary: d) (auto simp: map_of_setdefault split: option.splits)

lemma map_of_updates_absent:
  "k \<notin> sd_key ` set ds \<Longrightarrow> map_of (fold (\<lambda>d. AList.update (sd_key d) (f d)) ds acc) k = map_of acc k"
  by (induction ds arbitrary: acc) (auto simp: map_of_AList_update)

lemma map_of_updates_def:
  "distinct (map sd_key ds) \<Longrightarrow> d \<in> set ds
    \<Longrightarrow> map_of (fold (\<lambda>d. AList.update (sd_key d) (f d)) ds acc) (sd_key d) = Some (f d)"
  by (induction ds arbitrary: acc) (auto simp: map_of_AList_update map_of_updates_absent)

lemma typed_declared:
  assumes "distinct (map sd_key ds)" "d \<in> set ds"
  shows "map_of (typed ds values) (sd_key d)
    = Some (coerce_setting (sd_type d) (dict_get values (sd_key d) (sd_default d)))"
  using map_of_updates_def[OF assms, where acc = "[]" and
      f = "\<lambda>d. coerce_setting (sd_type d) (dict_get values (sd_key d) (sd_default d))"]
  by (simp add: typed_def map_of_setdefaults)

lemma typed_undeclared:
  "k \<notin> sd_key ` set ds \<Longrightarrow> map_of (typed ds values) k = map_option SvText (map_of values k)"
  by (simp add: typed_def map_of_setdefaults map_of_updates_absent)

section \<open>The tables under a write\<close>

lemma app_values_set_other: "a \<noteq> app \<Longrightarrow> app_values a (repo_set app key v db) = app_values a db"
proof -
  assume "a \<noteq> app"
  then have "filter (\<lambda>((a', _), _). a' = a) (AList.update (app, key) v rows)
      = filter (\<lambda>((a', _), _). a' = a) rows" for rows :: "((string \<times> string) \<times> string) list"
    by (induction rows) auto
  then show ?thesis by (simp add: app_values_def repo_set_def)
qed

lemma map_of_app_values: "map_of (app_values app db) key = map_of (db_app db) (app, key)"
proof -
  have "map_of (map (\<lambda>((_, k), v). (k, v)) (filter (\<lambda>((a, _), _). a = app) rows)) key = map_of rows (app, key)"
    for rows :: "((string \<times> string) \<times> string) list"
    by (induction rows) auto
  then show ?thesis by (simp add: app_values_def)
qed

lemma map_of_org_values: "map_of (org_values app org db) key = map_of (db_org db) (app, key, org)"
proof -
  have "map_of (map (\<lambda>((_, k, _), v). (k, v)) (filter (\<lambda>((a, _, o'), _). a = app \<and> o' = org) rows)) key
      = map_of rows (app, key, org)" for rows :: "((string \<times> string \<times> uuid) \<times> string) list"
    by (induction rows) auto
  then show ?thesis by (simp add: org_values_def)
qed

lemma find_setting_Inr: "find_setting ds key = Inr d \<Longrightarrow> d \<in> set ds \<and> sd_key d = key"
  by (induction ds) (auto split: if_splits)

lemma find_setting_distinct:
  "distinct (map sd_key ds) \<Longrightarrow> d \<in> set ds \<Longrightarrow> find_setting ds (sd_key d) = Inr d"
  by (induction ds) force+

lemma normalise_idem: "normalise d v = Inr s \<Longrightarrow> normalise d s = Inr s"
  by (cases "sd_type d") (auto simp: normalise_def split: option.splits if_splits)

lemma normalise_coerce: "normalise d v = Inr s \<Longrightarrow> coerce_setting (sd_type d) s = coerce_setting (sd_type d) v"
  by (cases "sd_type d") (auto simp: normalise_def coerce_setting_def split: option.splits if_splits)

section \<open>A handle's cache\<close>

definition cache_ok :: "app_settings \<Rightarrow> bool" where
  "cache_ok h \<longleftrightarrow> (case as_typed h of None \<Rightarrow> True
     | Some t \<Rightarrow> t = typed (dn_defs (as_declaration h)) (as_raw h))"

text \<open>What a process does to a handle over its life.\<close>

datatype handle_action =
    HandleGet string
  | HandleReload settings_changed
  | HandleRead bool settings_db
  | HandleRestore "(string, string) dict"
  | HandleDeclare settings_declaration

fun handle_act :: "handle_action \<Rightarrow> app_settings \<Rightarrow> app_settings" where
  "handle_act (HandleGet name) h = fst (handle_get name h)" |
  "handle_act (HandleReload event) h = handle_reload event h" |
  "handle_act (HandleRead reachable db) h = handle_read reachable db h" |
  "handle_act (HandleRestore raw) h = set_raw raw h" |
  "handle_act (HandleDeclare declaration) h = set_declaration declaration h"

lemma cache_ok_act [invs]: "cache_ok h \<Longrightarrow> cache_ok (handle_act a h)"
  by (cases a) (auto simp: cache_ok_def handle_get_def handle_values_def handle_reload_def handle_read_def
      set_raw_def set_declaration_def Let_def split: option.splits)

lemma cache_ok_acts: "cache_ok h \<Longrightarrow> cache_ok (fold handle_act acts h)"
  by (induction acts arbitrary: h) (auto intro: cache_ok_act)

lemma handle_values_cached: "cache_ok h \<Longrightarrow> snd (handle_values h) = typed (dn_defs (as_declaration h)) (as_raw h)"
  by (auto simp: cache_ok_def handle_values_def Let_def split: option.splits)

text \<open>
  The cache never answers a stale value.  Whatever a process did to a handle built for a
  declaration, reading an attribute answers as a fresh reading of the text it holds now: a declared
  setting is its stored text, or its default, coerced to its declared type; an undeclared one is its
  text; a private name, or one neither declared nor stored, raises.
\<close>

theorem settings_never_stale:
  assumes "h = fold handle_act acts (new_app_settings raw declaration)"
    and "distinct (map sd_key (dn_defs (as_declaration h)))"
  shows "snd (handle_get name h) =
    (if startswith name ''_'' then Inl (AttributeError name)
     else case find_setting (dn_defs (as_declaration h)) name of
         Inr d \<Rightarrow> Inr (coerce_setting (sd_type d) (dict_get (as_raw h) name (sd_default d)))
       | Inl _ \<Rightarrow> (case map_of (as_raw h) name of Some r \<Rightarrow> Inr (SvText r) | None \<Rightarrow> Inl (AttributeError name)))"
proof -
  let ?ds = "dn_defs (as_declaration h)"
  have "cache_ok (new_app_settings raw declaration)" by (simp add: cache_ok_def new_app_settings_def)
  then have ok: "cache_ok h" unfolding assms(1) by (rule cache_ok_acts)
  have get: "snd (handle_get name h) = lookup_setting (typed ?ds (as_raw h)) name"
    using handle_values_cached[OF ok] by (simp add: handle_get_def case_prod_beta)
  show ?thesis
  proof (cases "find_setting ?ds name")
    case (Inr d)
    then have d: "d \<in> set ?ds" "sd_key d = name" using find_setting_Inr by blast+
    then show ?thesis using typed_declared[OF assms(2) d(1)] Inr by (simp add: get lookup_setting_def)
  next
    case (Inl e)
    have "name \<notin> sd_key ` set ?ds" using find_setting_distinct[OF assms(2)] Inl by fastforce
    then show ?thesis using typed_undeclared[of name ?ds] Inl
      by (auto simp: get lookup_setting_def split: option.splits)
  qed
qed

definition demo_number :: setting_def where
  "demo_number = \<lparr>sd_key = ''max_mb'', sd_type = SettingNumber, sd_default = ''5'', sd_label = ''Max'',
     sd_org_overridable = True\<rparr>"

definition demo_declaration :: settings_declaration where
  "demo_declaration = \<lparr>dn_app = ''files'', dn_defs = [demo_number, feature_switch ''Enabled'']\<rparr>"

lemma settings_never_stale_witness:
  "snd (handle_get ''max_mb'' (fold handle_act [HandleGet ''max_mb'', HandleRestore [(''max_mb'', ''12'')]]
      (new_app_settings [] demo_declaration))) = Inr (SvInt 12)"
proof -
  let ?h = "fold handle_act [HandleGet ''max_mb'', HandleRestore [(''max_mb'', ''12'')]]
      (new_app_settings [] demo_declaration)"
  have ds: "dn_defs (as_declaration ?h) = [demo_number, feature_switch ''Enabled'']"
    by (simp add: handle_get_def handle_values_def set_raw_def new_app_settings_def demo_declaration_def Let_def)
  have raw: "as_raw ?h = [(''max_mb'', ''12'')]" by (simp add: set_raw_def)
  have n: "py_int ''12'' = Some 12" by code_simp
  have "distinct (map sd_key (dn_defs (as_declaration ?h)))" unfolding ds by code_simp
  note fresh = settings_never_stale[OF refl this, of "''max_mb''"]
  show ?thesis unfolding fresh ds raw
    by (simp add: n demo_number_def coerce_setting_def dict_get_def)
qed


section \<open>Writes and their propagation\<close>

text \<open>The console's writes one after the other, with the facts they emit.\<close>

fun console_writes ::
  "(string \<Rightarrow> settings_declaration option) \<Rightarrow> (uuid \<times> string \<times> string \<times> string) list \<Rightarrow> settings_db
    \<Rightarrow> settings_db \<times> settings_changed list" where
  "console_writes declared [] db = (db, [])" |
  "console_writes declared ((admin, app, key, v) # ws) db =
     (case update_setting declared admin app key v db of (db1, facts, _) \<Rightarrow>
        (case console_writes declared ws db1 of (db2, facts') \<Rightarrow> (db2, facts @ facts')))"

definition stored_ok :: "(string \<Rightarrow> settings_declaration option) \<Rightarrow> settings_db \<Rightarrow> bool" where
  "stored_ok declared db \<longleftrightarrow> (\<forall>app g d v. declared app = Some g \<longrightarrow> d \<in> set (dn_defs g) \<longrightarrow>
     map_of (db_app db) (app, sd_key d) = Some v \<longrightarrow> normalise d v = Inr v)"

lemma update_setting_cases:
  obtains (refused) a where "update_setting declared admin app key v db = (db, [], a)"
  | (written) g d stored a where "declared app = Some g" "find_setting (dn_defs g) key = Inr d"
      "normalise d v = Inr stored"
      "update_setting declared admin app key v db = (repo_set app key stored db,
        [\<lparr>sc_user_id = admin, sc_target_app = app, sc_key = key, sc_value = stored,
          sc_values = app_values app (repo_set app key stored db)\<rparr>], a)"
proof (cases "declared app")
  case None
  then show thesis using refused by (simp add: update_setting_def)
next
  case (Some g)
  show thesis
  proof (cases "validate g key v")
    case (Inl e)
    then show thesis using refused Some by (cases e) (auto simp: update_setting_def)
  next
    case (Inr stored)
    then obtain d where "find_setting (dn_defs g) key = Inr d" "normalise d v = Inr stored"
      by (auto simp: validate_def bind_err_Inr_iff)
    then show thesis using written[OF Some] Some Inr by (simp add: update_setting_def Let_def)
  qed
qed

lemma stored_ok_write:
  assumes "stored_ok declared db" "declared app = Some g" "distinct (map sd_key (dn_defs g))"
    "find_setting (dn_defs g) key = Inr d" "normalise d v = Inr stored"
  shows "stored_ok declared (repo_set app key stored db)"
  unfolding stored_ok_def
proof (intro allI impI)
  fix app' g' d' v'
  assume h: "declared app' = Some g'" "d' \<in> set (dn_defs g')"
    "map_of (db_app (repo_set app key stored db)) (app', sd_key d') = Some v'"
  show "normalise d' v' = Inr v'"
  proof (cases "app' = app \<and> sd_key d' = key")
    case True
    then have "d' = d" using assms(2-4) h(1,2) find_setting_distinct[of "dn_defs g" d'] by auto
    then show ?thesis using h(3) True normalise_idem[OF assms(5)]
      by (simp add: repo_set_def map_of_AList_update)
  next
    case False
    then have "map_of (db_app db) (app', sd_key d') = Some v'"
      using h(3) by (auto simp: repo_set_def map_of_AList_update)
    then show ?thesis using assms(1) h(1,2) unfolding stored_ok_def by blast
  qed
qed

lemma console_writes_props:
  assumes "\<forall>app g. declared app = Some g \<longrightarrow> distinct (map sd_key (dn_defs g))"
  shows "stored_ok declared db \<Longrightarrow> as_raw h = app_values (dn_app (as_declaration h)) db
    \<Longrightarrow> stored_ok declared (fst (console_writes declared ws db))
      \<and> as_raw (fold handle_reload (snd (console_writes declared ws db)) h)
        = app_values (dn_app (as_declaration h)) (fst (console_writes declared ws db))"
proof (induction ws arbitrary: db h)
  case (Cons w ws)
  obtain admin app key v where w: "w = (admin, app, key, v)" by (cases w)
  show ?case
  proof (cases rule: update_setting_cases[of declared admin app key v db])
    case (refused a)
    then show ?thesis using Cons.IH[OF Cons.prems] by (simp add: w case_prod_beta)
  next
    case (written g d stored a)
    let ?db = "repo_set app key stored db"
    let ?e = "\<lparr>sc_user_id = admin, sc_target_app = app, sc_key = key, sc_value = stored,
      sc_values = app_values app ?db\<rparr>"
    have ok: "stored_ok declared ?db"
      using stored_ok_write[OF Cons.prems(1) written(1) _ written(2,3)] assms written(1) by blast
    have decl: "as_declaration (handle_reload ?e h) = as_declaration h"
      by (simp add: handle_reload_def set_raw_def)
    have raw: "as_raw (handle_reload ?e h) = app_values (dn_app (as_declaration h)) ?db"
      using Cons.prems(2) app_values_set_other[of "dn_app (as_declaration h)" app key stored db]
      by (auto simp: handle_reload_def set_raw_def)
    show ?thesis using Cons.IH[OF ok, of "handle_reload ?e h"] raw decl written(4)
      by (simp add: w case_prod_beta)
  qed
qed simp

lemma settings_views_Inr:
  "(\<And>d. d \<in> set ds \<Longrightarrow> \<exists>v. normalise d (dict_get values (sd_key d) (sd_default d)) = Inr v)
    \<Longrightarrow> \<exists>vs. settings_views ds values = Inr vs"
  by (induction ds) (auto, metis bind_err_simps(2))

text \<open>
  C6.  What the console writes is what every process reads.  After any sequence of writes, refused
  ones included, a process that started from the stored values and adopted the facts in their order
  holds exactly the values stored; and every stored value of a declared setting is in its normal
  form, so the console page of a declared app always renders.
\<close>

theorem console_writes_adopted:
  assumes "\<forall>app g. declared app = Some g \<longrightarrow> distinct (map sd_key (dn_defs g))
      \<and> (\<forall>d \<in> set (dn_defs g). \<exists>v. normalise d (sd_default d) = Inr v)"
    and "stored_ok declared db"
    and "as_raw h = app_values (dn_app (as_declaration h)) db"
    and "console_writes declared writes db = (db', facts)"
  shows "as_raw (fold handle_reload facts h) = app_values (dn_app (as_declaration h)) db'
    \<and> stored_ok declared db'
    \<and> (\<forall>app g. declared app = Some g \<longrightarrow> (\<exists>views. settings_view g (app_values app db') = Inr views))"
proof -
  have run: "stored_ok declared db'"
      "as_raw (fold handle_reload facts h) = app_values (dn_app (as_declaration h)) db'"
    using console_writes_props[of declared db h writes] assms by auto
  have "\<exists>views. settings_view g (app_values app db') = Inr views" if g: "declared app = Some g" for app g
  proof -
    have "\<exists>v. normalise d (dict_get (app_values app db') (sd_key d) (sd_default d)) = Inr v"
      if d: "d \<in> set (dn_defs g)" for d
    proof (cases "map_of (db_app db') (app, sd_key d)")
      case None
      then show ?thesis using assms(1) g d by (auto simp: dict_get_def map_of_app_values)
    next
      case (Some v)
      then show ?thesis using run(1) g d unfolding stored_ok_def
        by (auto simp: dict_get_def map_of_app_values)
    qed
    then show ?thesis unfolding settings_view_def by (rule settings_views_Inr)
  qed
  then show ?thesis using run by blast
qed

definition demo_declared :: "string \<Rightarrow> settings_declaration option" where
  "demo_declared app = (if app = ''files'' then Some demo_declaration else None)"

lemma console_writes_adopted_witness:
  "as_raw (fold handle_reload (snd (console_writes demo_declared
       [(2, ''files'', ''max_mb'', ''7''), (2, ''files'', ''max_mb'', ''x'')] \<lparr>db_app = [], db_org = []\<rparr>))
      (new_app_settings [] demo_declaration)) = [(''max_mb'', ''7'')]"
proof -
  let ?db = "\<lparr>db_app = [], db_org = []\<rparr>"
  let ?ws = "[(2, ''files'', ''max_mb'', ''7''), (2, ''files'', ''max_mb'', ''x'')]"
  have run: "fst (console_writes demo_declared ?ws ?db) = \<lparr>db_app = [((''files'', ''max_mb''), ''7'')], db_org = []\<rparr>"
    by code_simp
  have defs: "dn_defs demo_declaration = [demo_number, feature_switch ''Enabled'']"
    by (simp add: demo_declaration_def)
  have keys: "distinct (map sd_key [demo_number, feature_switch ''Enabled''])" by code_simp
  have n: "normalise demo_number (sd_default demo_number) = Inr ''5''" by code_simp
  have b: "normalise (feature_switch ''Enabled'') (sd_default (feature_switch ''Enabled'')) = Inr ''true''"
    by code_simp
  have declared: "\<forall>app g. demo_declared app = Some g \<longrightarrow> distinct (map sd_key (dn_defs g))
      \<and> (\<forall>d \<in> set (dn_defs g). \<exists>v. normalise d (sd_default d) = Inr v)"
    using n b keys by (auto simp: demo_declared_def defs split: if_splits)
  have ok: "stored_ok demo_declared ?db" by (simp add: stored_ok_def)
  have raw: "as_raw (new_app_settings [] demo_declaration)
      = app_values (dn_app (as_declaration (new_app_settings [] demo_declaration))) ?db"
    by (simp add: new_app_settings_def app_values_def)
  note adopted = console_writes_adopted[OF declared ok raw prod.collapse[symmetric], of ?ws]
  show ?thesis unfolding conjunct1[OF adopted] run
    by (simp add: new_app_settings_def app_values_def demo_declaration_def)
qed


section \<open>Two writes at once\<close>

text \<open>
  Two transactions write two settings of one app: each reads the values it sees (the committed ones
  and its own write) into its fact before it commits.
\<close>

definition change_of :: "uuid \<Rightarrow> string \<Rightarrow> string \<Rightarrow> string \<Rightarrow> settings_db \<Rightarrow> settings_changed" where
  "change_of admin app key stored seen = \<lparr>sc_user_id = admin, sc_target_app = app, sc_key = key,
     sc_value = stored, sc_values = app_values app (repo_set app key stored seen)\<rparr>"

text \<open>
  C20.  Two administrators who save different settings of one app at the same time leave every running
  process stale: each fact carries the values its own transaction saw, so a process that adopts both,
  in either order, ends without one of the two writes, although the database holds both.
\<close>

theorem concurrent_saves_stale:
  assumes "k1 \<noteq> k2" "map_of (db_app db) (app, k1) \<noteq> Some v1" "map_of (db_app db) (app, k2) \<noteq> Some v2"
    and "dn_app (as_declaration h) = app"
    and "both = repo_set app k2 v2 (repo_set app k1 v1 db)"
  shows "map_of (as_raw (fold handle_reload [change_of a1 app k1 v1 db, change_of a2 app k2 v2 db] h)) k1
      \<noteq> map_of (app_values app both) k1
    \<and> map_of (as_raw (fold handle_reload [change_of a2 app k2 v2 db, change_of a1 app k1 v1 db] h)) k2
      \<noteq> map_of (app_values app both) k2
    \<and> map_of (app_values app both) k1 = Some v1 \<and> map_of (app_values app both) k2 = Some v2"
  using assms by (auto simp: change_of_def handle_reload_def set_raw_def map_of_app_values repo_set_def
      map_of_AList_update)

lemma concurrent_saves_stale_witness:
  "map_of (as_raw (fold handle_reload
      [change_of 2 ''files'' ''a'' ''1'' \<lparr>db_app = [], db_org = []\<rparr>,
       change_of 3 ''files'' ''b'' ''1'' \<lparr>db_app = [], db_org = []\<rparr>]
      (new_app_settings [] demo_declaration))) ''a'' \<noteq> Some ''1''"
proof -
  let ?db = "\<lparr>db_app = [], db_org = []\<rparr>" and ?h = "new_app_settings [] demo_declaration"
  have p: "''a'' \<noteq> ''b''" "map_of (db_app ?db) (''files'', ''a'') \<noteq> Some ''1''"
    "map_of (db_app ?db) (''files'', ''b'') \<noteq> Some ''1''" "dn_app (as_declaration ?h) = ''files''"
    by (simp_all add: new_app_settings_def demo_declaration_def)
  note stale = concurrent_saves_stale[OF p refl, of 2 3]
  show ?thesis using conjunct1[OF stale] conjunct1[OF conjunct2[OF conjunct2[OF stale]]] by metis
qed

section \<open>Overrides of an organisation\<close>

lemma map_of_org_override: "map_of (org_values app org (set_org_override app' key org' v db)) k
    = (if app' = app \<and> org' = org \<and> key = k then Some v else map_of (org_values app org db) k)"
  by (auto simp: map_of_org_values set_org_override_def map_of_AList_update)

definition overridable :: "(string \<Rightarrow> settings_declaration option) \<Rightarrow> string \<Rightarrow> string \<Rightarrow> bool" where
  "overridable declared app key \<longleftrightarrow> (\<exists>g. declared app = Some g
     \<and> (\<exists>d \<in> set (dn_defs g). sd_key d = key \<and> sd_org_overridable d))"

lemma create_org_override_cases:
  obtains (refused) a where "create_org_override declared org_of handle_of admin app oh key v db = (db, [], a)"
  | (written) g org stored a where "declared app = Some g" "org_of (lower (strip oh)) = Some org"
      "overridable declared app key" "validate g key v = Inr stored"
      "create_org_override declared org_of handle_of admin app oh key v db =
        (set_org_override app key org stored db, [OrgOverrideSet admin org app key stored], a)"
proof (cases "declared app")
  case None
  then show thesis using refused by (simp add: create_org_override_def)
next
  case (Some g)
  show thesis
  proof (cases "\<exists>d \<in> set (dn_defs g). sd_key d = key \<and> sd_org_overridable d")
    case False
    then show thesis using refused Some by (simp add: create_org_override_def Let_def)
  next
    case True
    show thesis
    proof (cases "org_of (lower (strip oh))")
      case None
      then show thesis using refused Some True by (simp add: create_org_override_def Let_def)
    next
      case org: (Some org)
      show thesis
      proof (cases "validate g key v")
        case (Inl e)
        then show thesis using refused Some True org
          by (cases e) (simp_all add: create_org_override_def Let_def)
      next
        case (Inr stored)
        then show thesis using written[OF Some org _ Inr] Some True org
          by (simp add: create_org_override_def overridable_def Let_def)
      qed
    qed
  qed
qed

lemma dict_get_union:
  assumes "distinct (map fst e)"
  shows "dict_get (dict_union d e) k dflt = (case map_of e k of Some v \<Rightarrow> v | None \<Rightarrow> dict_get d k dflt)"
  by (simp add: dict_get_def map_of_dict_union[OF assms] map_add_def split: option.splits)

lemma distinct_org_values:
  "distinct (map fst (db_org db)) \<Longrightarrow> distinct (map fst (org_values app org db))"
proof -
  have "distinct (map fst rows) \<Longrightarrow> distinct (map fst (map (\<lambda>((_, k, _), v). (k, v))
      (filter (\<lambda>((a, _, o'), _). a = app \<and> o' = org) rows)))"
    for rows :: "((string \<times> string \<times> uuid) \<times> string) list"
    by (induction rows) (auto simp: rev_image_eqI)
  then show "distinct (map fst (db_org db)) \<Longrightarrow> distinct (map fst (org_values app org db))"
    by (simp add: org_values_def)
qed

text \<open>
  An override reaches exactly what it names.  A successful override changes the reading of one
  key for one organisation, to its stored form coerced to the declared type; every other reading, of
  any declared setting of any app by any organisation, is unchanged, and so are the server-wide
  values; and only a setting declared overridable is ever written, a refusal writing nothing.
\<close>

theorem org_override_scope:
  assumes "create_org_override declared org_of handle_of admin app oh key v db = (db', facts, answer)"
    and "distinct (map fst (db_org db))"
    and "distinct (map sd_key (dn_defs (as_declaration h)))" "d \<in> set (dn_defs (as_declaration h))"
    and "declared (dn_app (as_declaration h)) = Some (as_declaration h)"
  shows "db_app db' = db_app db
    \<and> (facts = [] \<longrightarrow> db' = db)
    \<and> (facts \<noteq> [] \<longrightarrow> overridable declared app key)
    \<and> map_of (for_org org db' h) (sd_key d) =
        (if facts \<noteq> [] \<and> app = dn_app (as_declaration h) \<and> key = sd_key d \<and> org_of (lower (strip oh)) = Some org
         then Some (coerce_setting (sd_type d) v)
         else map_of (for_org org db h) (sd_key d))"
proof (cases rule: create_org_override_cases[of declared org_of handle_of admin app oh key v db])
  case (refused a)
  then show ?thesis using assms(1) by auto
next
  case (written g org' stored a)
  have db': "db' = set_org_override app key org' stored db" "facts = [OrgOverrideSet admin org' app key stored]"
    using written(5) assms(1) by auto
  have dist: "distinct (map fst (db_org db'))"
    using assms(2) by (simp add: db' set_org_override_def distinct_keys_update)
  let ?h = "as_declaration h"
  have read: "map_of (for_org org e h) (sd_key d) = Some (coerce_setting (sd_type d)
      (case map_of (org_values (dn_app ?h) org e) (sd_key d) of Some w \<Rightarrow> w
        | None \<Rightarrow> dict_get (as_raw h) (sd_key d) (sd_default d)))" if "distinct (map fst (db_org e))" for e
    unfolding for_org_def merged_for_org_def typed_declared[OF assms(3,4)]
      dict_get_union[OF distinct_org_values[OF that]] ..
  have coerced: "coerce_setting (sd_type d) stored = coerce_setting (sd_type d) v"
    if "app = dn_app ?h" "key = sd_key d"
  proof -
    have "g = ?h" using that(1) written(1) assms(5) by simp
    then have "find_setting (dn_defs g) key = Inr d"
      using find_setting_distinct[OF assms(3,4)] that(2) by simp
    then show ?thesis using written(4) normalise_coerce by (simp add: validate_def)
  qed
  have "map_of (for_org org db' h) (sd_key d) =
      (if app = dn_app ?h \<and> key = sd_key d \<and> org' = org
       then Some (coerce_setting (sd_type d) v) else map_of (for_org org db h) (sd_key d))"
    using coerced unfolding read[OF dist] read[OF assms(2)] unfolding db'(1) map_of_org_override by auto
  then show ?thesis using written(2,3) by (auto simp: db' set_org_override_def)
qed

definition demo_org_of :: "string \<Rightarrow> uuid option" where
  "demo_org_of handle = (if handle = ''acme'' then Some 9 else None)"

lemma org_override_scope_witness:
  "map_of (for_org 9 (fst (create_org_override demo_declared demo_org_of (\<lambda>_. None) 2 ''files'' '' Acme''
      ''max_mb'' ''7'' \<lparr>db_app = [], db_org = []\<rparr>)) (new_app_settings [] demo_declaration)) ''max_mb''
    = Some (SvInt 7)"
proof -
  let ?db = "\<lparr>db_app = [], db_org = []\<rparr>"
  let ?run = "create_org_override demo_declared demo_org_of (\<lambda>_. None) 2 ''files'' '' Acme'' ''max_mb'' ''7'' ?db"
  let ?h = "new_app_settings [] demo_declaration"
  have decl: "as_declaration ?h = demo_declaration" by (simp add: new_app_settings_def)
  have h: "distinct (map sd_key (dn_defs (as_declaration ?h)))" "demo_number \<in> set (dn_defs (as_declaration ?h))"
    "demo_declared (dn_app (as_declaration ?h)) = Some (as_declaration ?h)"
    unfolding decl by (auto simp: demo_declaration_def demo_declared_def demo_number_def feature_switch_def
        enabled_key_def)
  have facts: "fst (snd ?run) = [OrgOverrideSet 2 9 ''files'' ''max_mb'' ''7'']" by code_simp
  have v: "coerce_setting (sd_type demo_number) ''7'' = SvInt 7" by code_simp
  have key: "sd_key demo_number = ''max_mb''" "dn_app demo_declaration = ''files''"
    by (simp_all add: demo_number_def demo_declaration_def)
  have acme: "demo_org_of (lower (strip '' Acme'')) = Some 9" by code_simp
  have "?run = (fst ?run, fst (snd ?run), snd (snd ?run))" by simp
  from org_override_scope[OF this _ h, of 9] show ?thesis
    unfolding facts decl key v acme by simp
qed

end
