(* ===== verification/Keep_One.thy ===== *)
theory Keep_One
  imports Prelude
begin

text \<open>
  Two guards of the program have one shape: an organisation keeps an owner, the server keeps an
  administrator.  Removing a holder is refused when it would leave none.  This locale states what
  the removal and the refusal owe each other, and proves what the guard gives to any sequence of
  guarded removals, and what it does not give to two removals that check before either acts.
\<close>

locale keep_one =
  fixes valid :: "'s \<Rightarrow> bool"
    and holders :: "'s \<Rightarrow> 'u set"
    and remove :: "'u \<Rightarrow> 's \<Rightarrow> 's"
    and refuses :: "'u \<Rightarrow> 's \<Rightarrow> bool"
  assumes remove_valid: "valid s \<Longrightarrow> valid (remove u s)"
    and remove_holders: "valid s \<Longrightarrow> holders (remove u s) = holders s - {u}"
    and refuses_last: "valid s \<Longrightarrow> refuses u s \<longleftrightarrow> holders s = {u}"
begin

definition guarded :: "'u \<Rightarrow> 's \<Rightarrow> 's" where
  "guarded u s = (if refuses u s then s else remove u s)"

lemma guarded_valid: "valid s \<Longrightarrow> valid (guarded u s)"
  by (simp add: guarded_def remove_valid)

lemma guarded_keeps: "valid s \<Longrightarrow> holders s \<noteq> {} \<Longrightarrow> holders (guarded u s) \<noteq> {}"
  using refuses_last[of s u] remove_holders[of s u] by (auto simp: guarded_def)

lemma run_keeps:
  "valid s \<Longrightarrow> holders s \<noteq> {} \<Longrightarrow> valid (fold guarded us s) \<and> holders (fold guarded us s) \<noteq> {}"
  by (induction us arbitrary: s) (simp_all add: guarded_valid guarded_keeps)

lemma check_then_act_race:
  assumes "valid s" "u \<noteq> v" "holders s = {u, v}"
  shows "\<not> refuses u s \<and> \<not> refuses v s \<and> holders (remove v (remove u s)) = {}"
  using assms refuses_last[of s u] refuses_last[of s v] remove_holders[of s u]
    remove_holders[OF remove_valid[OF assms(1)], of v u] by auto

end

end
