(* ===== verification/Organizations.thy ===== *)
theory Organizations
  imports Keep_One Slugs
begin

text \<open>
  \<open>apps/organizations\<close>: the tables (organisations, memberships, invitations), the repository, the
  domain guards, the resolution of the caller's organisation and role, and every handler that changes
  state: the routes of \<open>router.py\<close> and \<open>invitation_router.py\<close> and the two reactions of
  \<open>integration.py\<close>.  The functions and the trigger of the migration
  \<open>20260818000002_organizations.sql\<close> are modelled with them.  An account is a row of
  \<open>auth.users\<close> (identifier and address); fresh identifiers, the clock and the settings are arguments.
\<close>

section \<open>Tables\<close>

datatype org_role = Owner | Member

datatype invitation_status = InvPending | InvAccepted | InvRevoked

record organization =
  or_id :: uuid
  or_name :: string
  or_handle :: string
  or_timezone :: string
  or_is_personal :: bool
  or_created_at :: instant

record membership =
  mb_org :: uuid
  mb_user :: uuid
  mb_role :: org_role
  mb_created_at :: instant

record org_invitation =
  iv_id :: uuid
  iv_org :: uuid
  iv_email :: string
  iv_role :: org_role
  iv_token :: uuid
  iv_invited_by :: uuid
  iv_status :: invitation_status
  iv_created_at :: instant

record org_db =
  od_orgs :: "organization list"
  od_members :: "membership list"
  od_invitations :: "org_invitation list"
  od_users :: "(uuid \<times> string option) list"

text \<open>The facts the handlers emit.\<close>

datatype org_fact =
    OrganizationCreated uuid uuid string
  | OrganizationRenamed uuid uuid string
  | OrgHandleChanged uuid uuid string
  | MemberJoined uuid uuid
  | MemberLeft uuid uuid
  | MemberRoleChanged uuid uuid uuid org_role
  | MemberRemoved uuid uuid uuid
  | InvitationSent uuid uuid string
  | InvitationRevoked uuid uuid uuid

section \<open>The repository\<close>

definition get_org :: "uuid \<Rightarrow> org_db \<Rightarrow> organization option" where
  "get_org o' db = row_by or_id o' (od_orgs db)"

definition get_membership :: "uuid \<Rightarrow> uuid \<Rightarrow> org_db \<Rightarrow> membership option" where
  "get_membership o' u db = List.find (\<lambda>m. mb_org m = o' \<and> mb_user m = u) (od_members db)"

definition count_owned_by :: "uuid \<Rightarrow> org_db \<Rightarrow> nat" where
  "count_owned_by u db = count_where (\<lambda>m. mb_user m = u \<and> mb_role m = Owner) (od_members db)"

definition count_personal_owned_by :: "uuid \<Rightarrow> org_db \<Rightarrow> nat" where
  "count_personal_owned_by u db = count_where (\<lambda>m. mb_user m = u \<and> mb_role m = Owner
     \<and> (\<exists>r \<in> set (od_orgs db). or_id r = mb_org m \<and> or_is_personal r)) (od_members db)"

text \<open>The organisations of a user's memberships, in the order of the organisations' rows.\<close>

definition orgs_of_user :: "uuid \<Rightarrow> org_db \<Rightarrow> (organization \<times> org_role) list" where
  "orgs_of_user u db = List.map_filter (\<lambda>r. map_option (\<lambda>m. (r, mb_role m)) (get_membership (or_id r) u db))
     (od_orgs db)"

definition list_with_role_for_user :: "uuid \<Rightarrow> org_db \<Rightarrow> (organization \<times> org_role) list" where
  "list_with_role_for_user u db = orgs_of_user u db"

definition get_first_for_user :: "uuid \<Rightarrow> org_db \<Rightarrow> organization option" where
  "get_first_for_user u db =
     (case sort_key (or_created_at \<circ> fst) (orgs_of_user u db) of [] \<Rightarrow> None | x # _ \<Rightarrow> Some (fst x))"

definition get_by_handle :: "string \<Rightarrow> org_db \<Rightarrow> organization option" where
  "get_by_handle handle db = List.find (\<lambda>r. or_handle r = handle) (od_orgs db)"

definition get_by_handle_for_user :: "string \<Rightarrow> uuid \<Rightarrow> org_db \<Rightarrow> organization option" where
  "get_by_handle_for_user handle u db =
     List.find (\<lambda>r. or_handle r = handle \<and> get_membership (or_id r) u db \<noteq> None) (od_orgs db)"

definition list_members :: "uuid \<Rightarrow> org_db \<Rightarrow> membership list" where
  "list_members o' db = sort_key mb_created_at (filter (\<lambda>m. mb_org m = o') (od_members db))"

definition count_owners :: "uuid \<Rightarrow> org_db \<Rightarrow> nat" where
  "count_owners o' db = count_where (\<lambda>m. mb_org m = o' \<and> mb_role m = Owner) (od_members db)"

text \<open>
  What a session sees.  The worker's reads every row (no reader); a request's is under row-level
  security: an organisation for its members, a profile for its holder and the members of a shared
  organisation.
\<close>

definition org_visible :: "uuid option \<Rightarrow> org_db \<Rightarrow> uuid \<Rightarrow> bool" where
  "org_visible reader db o' \<longleftrightarrow> (case reader of None \<Rightarrow> True | Some u \<Rightarrow> get_membership o' u db \<noteq> None)"

definition profile_visible :: "uuid option \<Rightarrow> org_db \<Rightarrow> uuid \<Rightarrow> bool" where
  "profile_visible reader db holder \<longleftrightarrow> (case reader of None \<Rightarrow> True | Some u \<Rightarrow> u = holder
     \<or> (\<exists>m \<in> set (od_members db). mb_user m = holder \<and> get_membership (mb_org m) u db \<noteq> None))"

definition org_handle_taken :: "uuid option \<Rightarrow> org_db \<Rightarrow> string \<Rightarrow> uuid option \<Rightarrow> bool" where
  "org_handle_taken reader db handle exclude_id \<longleftrightarrow>
     (\<exists>r \<in> set (od_orgs db). org_visible reader db (or_id r) \<and> or_handle r = handle \<and> Some (or_id r) \<noteq> exclude_id)"

definition list_invitations :: "uuid \<Rightarrow> invitation_status \<Rightarrow> org_db \<Rightarrow> org_invitation list" where
  "list_invitations o' status db =
     sort_key iv_created_at (filter (\<lambda>i. iv_org i = o' \<and> iv_status i = status) (od_invitations db))"

definition get_invitation_by_email ::
  "uuid \<Rightarrow> string \<Rightarrow> invitation_status \<Rightarrow> org_db \<Rightarrow> org_invitation option" where
  "get_invitation_by_email o' email status db =
     List.find (\<lambda>i. iv_org i = o' \<and> iv_email i = email \<and> iv_status i = status) (od_invitations db)"

definition get_invitation_by_id :: "uuid \<Rightarrow> uuid \<Rightarrow> org_db \<Rightarrow> org_invitation option" where
  "get_invitation_by_id o' i' db = List.find (\<lambda>i. iv_id i = i' \<and> iv_org i = o') (od_invitations db)"

definition get_invitation_by_token :: "uuid \<Rightarrow> org_db \<Rightarrow> org_invitation option" where
  "get_invitation_by_token t db = row_by iv_token t (od_invitations db)"

definition user_exists :: "uuid \<Rightarrow> org_db \<Rightarrow> bool" where
  "user_exists u db \<longleftrightarrow> u \<in> fst ` set (od_users db)"

definition invitee_by_email :: "string \<Rightarrow> org_db \<Rightarrow> uuid option" where
  "invitee_by_email email db =
     map_option fst (List.find (\<lambda>(_, e). case e of None \<Rightarrow> False | Some e \<Rightarrow> e \<noteq> [] \<and> lower e = lower email) (od_users db))"

section \<open>The database's own guard\<close>

text \<open>
  The trigger \<open>prevent_last_owner_removal\<close>, on a row that is deleted (\<open>None\<close>) or updated to a role.
\<close>

definition last_owner_trigger :: "org_db \<Rightarrow> membership \<Rightarrow> org_role option \<Rightarrow> bool" where
  "last_owner_trigger db old new \<longleftrightarrow>
     mb_role old = Owner \<and> new \<noteq> Some Owner \<and> get_org (mb_org old) db \<noteq> None
     \<and> user_exists (mb_user old) db
     \<and> \<not> (\<exists>m \<in> set (od_members db). mb_org m = mb_org old \<and> mb_role m = Owner \<and> mb_user m \<noteq> mb_user old)"

definition delete_member :: "uuid \<Rightarrow> uuid \<Rightarrow> org_db \<Rightarrow> org_db" where
  "delete_member o' u db = db\<lparr>od_members := delete_where (\<lambda>m. mb_org m = o' \<and> mb_user m = u) (od_members db)\<rparr>"

definition write_role :: "uuid \<Rightarrow> uuid \<Rightarrow> org_role \<Rightarrow> org_db \<Rightarrow> org_db" where
  "write_role o' u role db = db\<lparr>od_members :=
     update_where (\<lambda>m. mb_org m = o' \<and> mb_user m = u) (\<lambda>m. m\<lparr>mb_role := role\<rparr>) (od_members db)\<rparr>"

text \<open>A write answers \<open>None\<close> when the trigger raises; else the tables and whether a row was found.\<close>

definition update_member_role :: "uuid \<Rightarrow> uuid \<Rightarrow> org_role \<Rightarrow> org_db \<Rightarrow> (org_db \<times> bool) option" where
  "update_member_role o' u role db =
     (case get_membership o' u db of
        None \<Rightarrow> Some (db, False)
      | Some m \<Rightarrow> if last_owner_trigger db m (Some role) then None else Some (write_role o' u role db, True))"

definition remove_member :: "uuid \<Rightarrow> uuid \<Rightarrow> org_db \<Rightarrow> (org_db \<times> bool) option" where
  "remove_member o' u db =
     (case get_membership o' u db of
        None \<Rightarrow> Some (db, False)
      | Some m \<Rightarrow> if last_owner_trigger db m None then None else Some (delete_member o' u db, True))"

definition update_org :: "uuid \<Rightarrow> (organization \<Rightarrow> organization) \<Rightarrow> org_db \<Rightarrow> org_db" where
  "update_org o' f db = db\<lparr>od_orgs := update_where (\<lambda>r. or_id r = o') f (od_orgs db)\<rparr>"

definition rename_org :: "uuid \<Rightarrow> string \<Rightarrow> org_db \<Rightarrow> org_db" where
  "rename_org o' name = update_org o' (\<lambda>r. r\<lparr>or_name := name\<rparr>)"

definition update_handle :: "uuid \<Rightarrow> string \<Rightarrow> org_db \<Rightarrow> org_db" where
  "update_handle o' handle = update_org o' (\<lambda>r. r\<lparr>or_handle := handle\<rparr>)"

definition set_timezone :: "uuid \<Rightarrow> string \<Rightarrow> org_db \<Rightarrow> org_db" where
  "set_timezone o' tz = update_org o' (\<lambda>r. r\<lparr>or_timezone := tz\<rparr>)"

definition create_invitation_row ::
  "uuid \<Rightarrow> uuid \<Rightarrow> instant \<Rightarrow> uuid \<Rightarrow> string \<Rightarrow> org_role \<Rightarrow> uuid \<Rightarrow> org_db \<Rightarrow> org_db" where
  "create_invitation_row new_id token now o' email role invited_by db =
     db\<lparr>od_invitations := od_invitations db @ [\<lparr>iv_id = new_id, iv_org = o', iv_email = email, iv_role = role,
       iv_token = token, iv_invited_by = invited_by, iv_status = InvPending, iv_created_at = now\<rparr>]\<rparr>"

definition set_invitation_status :: "uuid \<Rightarrow> invitation_status \<Rightarrow> org_db \<Rightarrow> org_db" where
  "set_invitation_status i' status db = db\<lparr>od_invitations :=
     update_where (\<lambda>i. iv_id i = i') (\<lambda>i. i\<lparr>iv_status := status\<rparr>) (od_invitations db)\<rparr>"

definition revoke_invitation_row :: "uuid \<Rightarrow> org_db \<Rightarrow> org_db" where
  "revoke_invitation_row i' = set_invitation_status i' InvRevoked"

section \<open>Handles of organisations\<close>

text \<open>
  What the mounts registered: the reserved words, the organisations' open list over the table, and the
  profiles' over the profiles: their handle, their row and the account they belong to.
\<close>

record org_config =
  oc_reserved :: "string list"
  oc_profile_handles :: "(string \<times> uuid \<times> uuid) list"
  oc_timezones :: "string list"
  oc_max_owned :: int
  oc_max_invitations :: int
  oc_auto_personal :: bool

definition profile_handle_taken :: "org_config \<Rightarrow> uuid option \<Rightarrow> org_db \<Rightarrow> string \<Rightarrow> uuid option \<Rightarrow> bool" where
  "profile_handle_taken cfg reader db handle exclude_id \<longleftrightarrow>
     (\<exists>(h, i, u) \<in> set (oc_profile_handles cfg). profile_visible reader db u \<and> h = handle \<and> Some i \<noteq> exclude_id)"

definition org_registry :: "org_config \<Rightarrow> uuid option \<Rightarrow> org_db \<Rightarrow> slug_registry" where
  "org_registry cfg reader db =
     register_open_list ''profiles'' (profile_handle_taken cfg reader db)
       (register_open_list ''organizations'' (org_handle_taken reader db)
         \<lparr>sr_reserved = oc_reserved cfg, sr_open_lists = []\<rparr>)"

lemmas registry_defs = handle_is_available_def is_reserved_def org_registry_def register_open_list_def
  org_handle_taken_def profile_handle_taken_def

lemma registry_available:
  "handle_is_available (org_registry cfg reader db) None None h \<longleftrightarrow> h \<notin> set (oc_reserved cfg)
     \<and> (\<forall>r \<in> set (od_orgs db). org_visible reader db (or_id r) \<longrightarrow> or_handle r \<noteq> h)
     \<and> (\<forall>(p, i, u) \<in> set (oc_profile_handles cfg). profile_visible reader db u \<longrightarrow> p \<noteq> h)"
  by (auto simp: registry_defs)

lemma available_unreserved: "handle_is_available (org_registry cfg reader db) ef ei h \<Longrightarrow> h \<notin> set (oc_reserved cfg)"
  by (simp add: registry_defs)

lemma registry_taken_set:
  "{h. registry_taken (org_registry cfg reader db) None h None}
     \<subseteq> set (oc_reserved cfg @ map or_handle (od_orgs db) @ map fst (oc_profile_handles cfg))"
  by (force simp: registry_taken_def registry_available)

interpretation org_handles: handle_namespace "org_registry cfg reader db" None None for cfg reader db
  by unfold_locales (rule finite_subset[OF registry_taken_set finite_set])

definition namespace_size :: "org_config \<Rightarrow> org_db \<Rightarrow> nat" where
  "namespace_size cfg db = length (oc_reserved cfg @ map or_handle (od_orgs db) @ map fst (oc_profile_handles cfg))"

lemma unique_handle_total:
  "\<exists>m. unique_handle (Suc (namespace_size cfg db)) (org_registry cfg reader db) None None base = Some (handle_candidate base m)
     \<and> handle_is_available (org_registry cfg reader db) None None (handle_candidate base m)
     \<and> (\<forall>j < m. \<not> handle_is_available (org_registry cfg reader db) None None (handle_candidate base j))"
proof -
  have "card {h. registry_taken (org_registry cfg reader db) None h None}
      \<le> card (set (oc_reserved cfg @ map or_handle (od_orgs db) @ map fst (oc_profile_handles cfg)))"
    by (rule card_mono[OF finite_set registry_taken_set])
  also have "\<dots> < Suc (namespace_size cfg db)"
    unfolding namespace_size_def less_Suc_eq_le by (rule card_length)
  finally show ?thesis by (rule org_handles.first_free)
qed


section \<open>Who asks, and in which organisation\<close>

record current_user =
  cu_id :: uuid
  cu_email :: string
  cu_api_key_org :: "uuid option"

text \<open>The answers, as a JSON client gets them.  \<open>Crashed\<close> is an exception nobody maps: a 500, rolled back.\<close>

datatype org_reply = Refused int string | Answered int | RedirectTo string | Crashed

definition not_found :: org_reply where "not_found = Refused 404 ''Not found''"

definition ensure_api_key_scope :: "current_user \<Rightarrow> uuid \<Rightarrow> org_reply + unit" where
  "ensure_api_key_scope cu o' = (case cu_api_key_org cu of
       None \<Rightarrow> Inr ()
     | Some bound \<Rightarrow> if o' \<noteq> bound then Inl (Refused 403 ''This API key is not valid for this organisation'')
         else Inr ())"

definition resolve_current_org ::
  "org_config \<Rightarrow> string option \<Rightarrow> current_user \<Rightarrow> org_db \<Rightarrow> org_reply + uuid" where
  "resolve_current_org cfg slug cu db =
     (if slug \<noteq> None \<and> slug \<noteq> Some []
      then (if is_reserved (org_registry cfg None db) (the slug) then Inl not_found
            else (case get_by_handle_for_user (the slug) (cu_id cu) db of
                Some r \<Rightarrow> bind_err (ensure_api_key_scope cu (or_id r)) (\<lambda>_. Inr (or_id r))
              | None \<Rightarrow> Inl (Refused 403 ''Organisation not found or access denied'')))
      else (case cu_api_key_org cu of
          Some bound \<Rightarrow> Inr bound
        | None \<Rightarrow> (case get_first_for_user (cu_id cu) db of
            None \<Rightarrow> Inl (Refused 403 ''No organization found'')
          | Some r \<Rightarrow> Inr (or_id r))))"

definition get_current_membership ::
  "org_config \<Rightarrow> string option \<Rightarrow> current_user \<Rightarrow> org_db \<Rightarrow> org_reply + uuid \<times> membership" where
  "get_current_membership cfg slug cu db =
     bind_err (resolve_current_org cfg slug cu db) (\<lambda>o'.
       case get_membership o' (cu_id cu) db of
         None \<Rightarrow> Inl (Refused 403 ''Not a member'')
       | Some m \<Rightarrow> Inr (o', m))"

definition gate_owner :: "uuid \<times> membership \<Rightarrow> org_reply + uuid \<times> membership" where
  "gate_owner om = (if mb_role (snd om) \<noteq> Owner then Inl (Refused 403 ''Forbidden'') else Inr om)"

definition require_current_owner ::
  "org_config \<Rightarrow> string option \<Rightarrow> current_user \<Rightarrow> org_db \<Rightarrow> org_reply + uuid \<times> membership" where
  "require_current_owner cfg slug cu db = bind_err (get_current_membership cfg slug cu db) gate_owner"

definition get_membership_by_org_id :: "uuid \<Rightarrow> current_user \<Rightarrow> org_db \<Rightarrow> org_reply + uuid \<times> membership" where
  "get_membership_by_org_id o' cu db = (case get_membership o' (cu_id cu) db of
       None \<Rightarrow> Inl not_found | Some m \<Rightarrow> Inr (o', m))"

definition require_owner :: "uuid \<Rightarrow> current_user \<Rightarrow> org_db \<Rightarrow> org_reply + uuid \<times> membership" where
  "require_owner o' cu db = bind_err (get_membership_by_org_id o' cu db) gate_owner"

section \<open>The domain guards\<close>

definition ensure_not_last_owner :: "uuid \<Rightarrow> uuid \<Rightarrow> org_db \<Rightarrow> bool" where
  "ensure_not_last_owner o' target db =
     (case get_membership o' target db of
        None \<Rightarrow> True
      | Some m \<Rightarrow> mb_role m \<noteq> Owner \<or> 1 < count_owners o' db)"

definition ensure_no_pending_invitation :: "uuid \<Rightarrow> string \<Rightarrow> org_db \<Rightarrow> bool" where
  "ensure_no_pending_invitation o' email db \<longleftrightarrow> get_invitation_by_email o' email InvPending db = None"

definition last_owner_refusal :: org_reply where
  "last_owner_refusal = Refused 403 ''Cannot remove or demote the last owner''"

section \<open>Handlers\<close>

type_synonym org_result = "org_db \<times> org_fact list \<times> org_reply"

definition refuse :: "org_db \<Rightarrow> org_reply \<Rightarrow> org_result" where
  "refuse db reply = (db, [], reply)"

definition with_gate ::
  "org_reply + uuid \<times> membership \<Rightarrow> (uuid \<Rightarrow> org_result) \<Rightarrow> org_db \<Rightarrow> org_result" where
  "with_gate gate handler db = (case gate of Inl r \<Rightarrow> refuse db r | Inr (o', _) \<Rightarrow> handler o')"

text \<open>
  \<open>create_with_owner\<close>: a fresh handle, then the function \<open>create_org_with_owner\<close>, which seats the
  owner in the same statement; \<open>None\<close> is an integrity error (the identifier is taken, the owner's
  account is gone, or the handle belongs to an organisation the session does not see: the column is
  unique whoever reads it).
\<close>

definition handle_base :: "string \<Rightarrow> string option \<Rightarrow> string" where
  "handle_base name suggested =
     (let base = (case suggested of Some s \<Rightarrow> if s = [] then slugify name else s | None \<Rightarrow> slugify name) in
      if base = [] then ''org'' else base)"

definition create_with_owner ::
  "org_config \<Rightarrow> uuid option \<Rightarrow> uuid \<Rightarrow> instant \<Rightarrow> string \<Rightarrow> uuid \<Rightarrow> string option \<Rightarrow> bool \<Rightarrow> org_db
    \<Rightarrow> (org_db \<times> organization) option" where
  "create_with_owner cfg reader new_id now name user suggested is_personal db =
     (case unique_handle (Suc (namespace_size cfg db)) (org_registry cfg reader db) None None (handle_base name suggested) of
        None \<Rightarrow> None
      | Some handle \<Rightarrow>
          if new_id \<in> or_id ` set (od_orgs db) \<or> handle \<in> or_handle ` set (od_orgs db) \<or> \<not> user_exists user db then None
          else (let r = \<lparr>or_id = new_id, or_name = name, or_handle = handle, or_timezone = ''UTC'',
                         or_is_personal = is_personal, or_created_at = now\<rparr>;
                    m = \<lparr>mb_org = new_id, mb_user = user, mb_role = Owner, mb_created_at = now\<rparr> in
                Some (db\<lparr>od_orgs := od_orgs db @ [r], od_members := od_members db @ [m]\<rparr>, r)))"

definition limit_message :: "int \<Rightarrow> string" where
  "limit_message n = ''You can own at most '' @ str_int n @ '' organisation'' @ (if n = 1 then [] else ''s'') @ ''.''"

definition create_organization ::
  "org_config \<Rightarrow> current_user \<Rightarrow> uuid \<Rightarrow> instant \<Rightarrow> string \<Rightarrow> org_db \<Rightarrow> org_result" where
  "create_organization cfg cu new_id now body_name db =
     (if cu_api_key_org cu \<noteq> None then refuse db (Refused 403 ''An API key cannot create an organisation'')
      else let name = strip body_name; n = oc_max_owned cfg in
        if 0 \<le> n \<and> n \<le> int (count_owned_by (cu_id cu) db) then refuse db (Refused 403 (limit_message n))
        else (case create_with_owner cfg (Some (cu_id cu)) new_id now name (cu_id cu) None False db of
            None \<Rightarrow> refuse db Crashed
          | Some (db', r) \<Rightarrow> (db', [OrganizationCreated (cu_id cu) (or_id r) name], Answered 201)))"

definition list_organizations :: "current_user \<Rightarrow> org_db \<Rightarrow> (organization \<times> org_role) list" where
  "list_organizations cu db = filter (\<lambda>(r, _). cu_api_key_org cu = None \<or> cu_api_key_org cu = Some (or_id r))
     (list_with_role_for_user (cu_id cu) db)"

definition rename_organization ::
  "org_config \<Rightarrow> string \<Rightarrow> current_user \<Rightarrow> string \<Rightarrow> org_db \<Rightarrow> org_result" where
  "rename_organization cfg slug cu body_name db =
     with_gate (require_current_owner cfg (Some slug) cu db) (\<lambda>o'.
       let name = strip body_name in
       if get_org o' db = None then refuse db not_found
       else if name = [] then refuse db (Refused 422 ''Name cannot be empty.'')
       else if 255 < length name then refuse db (Refused 422 ''Name must be 255 characters or fewer.'')
       else (rename_org o' name db, [OrganizationRenamed (cu_id cu) o' name], Answered 200)) db"

definition update_org_handle ::
  "org_config \<Rightarrow> string \<Rightarrow> current_user \<Rightarrow> string \<Rightarrow> org_db \<Rightarrow> org_result" where
  "update_org_handle cfg slug cu body_handle db =
     with_gate (require_current_owner cfg (Some slug) cu db) (\<lambda>o'.
       let handle = lower (strip body_handle); reg = org_registry cfg (Some (cu_id cu)) db in
       if get_org o' db = None then refuse db not_found
       else (case validate_handle reg handle of
           Some (code, message) \<Rightarrow> refuse db (Refused code message)
         | None \<Rightarrow>
             if \<not> handle_is_available reg (Some ''organizations'') (Some o') handle
             then refuse db (Refused 409 (CHR 0x27 # handle @ CHR 0x27 # '' is already taken.''))
             else if \<exists>r \<in> set (od_orgs db). or_handle r = handle \<and> or_id r \<noteq> o' then refuse db Crashed
             else (update_handle o' handle db, [OrgHandleChanged (cu_id cu) o' handle], Answered 200))) db"

definition update_org_timezone ::
  "org_config \<Rightarrow> string \<Rightarrow> current_user \<Rightarrow> string \<Rightarrow> org_db \<Rightarrow> org_result" where
  "update_org_timezone cfg slug cu body_tz db =
     with_gate (require_current_owner cfg (Some slug) cu db) (\<lambda>o'.
       let tz = strip body_tz in
       if get_org o' db = None then refuse db not_found
       else if tz \<notin> set (oc_timezones cfg)
       then refuse db (Refused 422 (CHR 0x27 # tz @ CHR 0x27 # '' is not a valid timezone.''))
       else (set_timezone o' tz db, [], Answered 200)) db"

definition leave_organization :: "org_config \<Rightarrow> string \<Rightarrow> current_user \<Rightarrow> org_db \<Rightarrow> org_result" where
  "leave_organization cfg slug cu db =
     with_gate (get_current_membership cfg (Some slug) cu db) (\<lambda>o'.
       if get_org o' db = None then refuse db not_found
       else if \<not> ensure_not_last_owner o' (cu_id cu) db then refuse db last_owner_refusal
       else (case remove_member o' (cu_id cu) db of
           None \<Rightarrow> refuse db Crashed
         | Some (db', removed) \<Rightarrow> (db', if removed then [MemberLeft (cu_id cu) o'] else [], Answered 204))) db"

definition change_member_role ::
  "org_config \<Rightarrow> string \<Rightarrow> current_user \<Rightarrow> uuid \<Rightarrow> org_role \<Rightarrow> org_db \<Rightarrow> org_result" where
  "change_member_role cfg slug cu target role db =
     with_gate (require_current_owner cfg (Some slug) cu db) (\<lambda>o'.
       if get_org o' db = None then refuse db not_found
       else if role \<noteq> Owner \<and> \<not> ensure_not_last_owner o' target db then refuse db last_owner_refusal
       else (case update_member_role o' target role db of
           None \<Rightarrow> refuse db Crashed
         | Some (db', False) \<Rightarrow> refuse db not_found
         | Some (db', True) \<Rightarrow> (db', [MemberRoleChanged (cu_id cu) o' target role], Answered 200))) db"

definition expel_member ::
  "org_config \<Rightarrow> string \<Rightarrow> current_user \<Rightarrow> uuid \<Rightarrow> org_db \<Rightarrow> org_result" where
  "expel_member cfg slug cu target db =
     with_gate (require_current_owner cfg (Some slug) cu db) (\<lambda>o'.
       if \<not> ensure_not_last_owner o' target db then refuse db last_owner_refusal
       else (case remove_member o' target db of
           None \<Rightarrow> refuse db Crashed
         | Some (db', False) \<Rightarrow> refuse db not_found
         | Some (db', True) \<Rightarrow> (db', [MemberRemoved (cu_id cu) o' target], Answered 204))) db"

text \<open>Invitations.\<close>

definition issue_invitation ::
  "org_config \<Rightarrow> uuid \<Rightarrow> uuid \<Rightarrow> instant \<Rightarrow> uuid \<Rightarrow> string \<Rightarrow> uuid \<Rightarrow> org_db \<Rightarrow> string + org_db" where
  "issue_invitation cfg new_id token now o' email inviter db =
     (let n = oc_max_invitations cfg in
      if (case invitee_by_email email db of None \<Rightarrow> False | Some u \<Rightarrow> get_membership o' u db \<noteq> None)
      then Inl ''already a member''
      else if 0 \<le> n \<and> n \<le> int (length (list_invitations o' InvPending db))
      then Inl (''invitation limit reached ('' @ str_int n @ '' pending)'')
      else if \<not> ensure_no_pending_invitation o' email db then Inl ''invitation already pending''
      else Inr (create_invitation_row new_id token now o' email Member inviter db))"

definition create_invitation ::
  "org_config \<Rightarrow> string \<Rightarrow> current_user \<Rightarrow> uuid \<Rightarrow> uuid \<Rightarrow> instant \<Rightarrow> string \<Rightarrow> org_db \<Rightarrow> org_result" where
  "create_invitation cfg slug cu new_id token now body_email db =
     with_gate (require_current_owner cfg (Some slug) cu db) (\<lambda>o'.
       let email = lower (strip body_email) in
       (case issue_invitation cfg new_id token now o' email (cu_id cu) db of
          Inl why \<Rightarrow> refuse db (Refused 409 why)
        | Inr db' \<Rightarrow> (db', [InvitationSent (cu_id cu) o' email], Answered 201))) db"

definition revoke_invitation ::
  "org_config \<Rightarrow> string \<Rightarrow> current_user \<Rightarrow> uuid \<Rightarrow> org_db \<Rightarrow> org_result" where
  "revoke_invitation cfg slug cu i' db =
     with_gate (require_current_owner cfg (Some slug) cu db) (\<lambda>o'.
       (case get_invitation_by_id o' i' db of
          None \<Rightarrow> refuse db not_found
        | Some i \<Rightarrow> (revoke_invitation_row i' db, [InvitationRevoked (cu_id cu) o' i'], Answered 204))) db"

definition invitation_not_found :: org_reply where
  "invitation_not_found = Refused 404 ''invitation not found or already used''"

definition get_invitation :: "uuid \<Rightarrow> org_db \<Rightarrow> org_reply" where
  "get_invitation token db = (case get_invitation_by_token token db of
       None \<Rightarrow> invitation_not_found
     | Some i \<Rightarrow> if iv_status i = InvRevoked then invitation_not_found else Answered 200)"

text \<open>
  The page an invitee sees, by name, from the invitation, who is signed in, and whether the invited
  address has an account.
\<close>

definition invitation_state :: "bool \<Rightarrow> current_user option \<Rightarrow> org_invitation option \<Rightarrow> string" where
  "invitation_state account_exists cu invite = (case invite of
       None \<Rightarrow> ''invalid''
     | Some i \<Rightarrow> if iv_status i = InvAccepted then ''already_accepted''
         else if iv_status i = InvRevoked then ''invalid''
         else if cu \<noteq> None then ''valid''
         else if account_exists then ''valid_login'' else ''valid_register'')"

text \<open>
  \<open>accept_org_invitation\<close>: \<open>Inl True\<close> is the error P0404, \<open>Inl False\<close> a foreign key failing because
  the caller's account is gone.  An account without an address compares as \<open>NULL\<close>, which is not
  unequal: the function lets it pass (the route compares the claim first).
\<close>

definition differs_sql :: "string option \<Rightarrow> string \<Rightarrow> bool" where
  "differs_sql a b = (case a of None \<Rightarrow> False | Some x \<Rightarrow> lower x \<noteq> lower b)"

definition accept_org_invitation :: "uuid \<Rightarrow> uuid \<Rightarrow> instant \<Rightarrow> org_db \<Rightarrow> bool + org_db" where
  "accept_org_invitation token caller now db =
     (case get_invitation_by_token token db of
        None \<Rightarrow> Inl True
      | Some i \<Rightarrow>
          if iv_status i = InvAccepted then Inr db
          else if iv_status i \<noteq> InvPending then Inl True
          else (case map_of (od_users db) caller of
              None \<Rightarrow> Inl False
            | Some email \<Rightarrow>
                if differs_sql email (iv_email i) then Inl True
                else (let members = (if get_membership (iv_org i) caller db \<noteq> None then od_members db
                          else od_members db @ [\<lparr>mb_org = iv_org i, mb_user = caller, mb_role = iv_role i,
                                                 mb_created_at = now\<rparr>]) in
                      Inr (set_invitation_status (iv_id i) InvAccepted (db\<lparr>od_members := members\<rparr>)))))"

text \<open>Row-level security shows an organisation to its members only.\<close>

definition dashboard_redirect :: "uuid \<Rightarrow> uuid \<Rightarrow> org_db \<Rightarrow> org_reply" where
  "dashboard_redirect o' caller db = RedirectTo (''/'' @
     (case get_org o' db of None \<Rightarrow> [] | Some r \<Rightarrow> if get_membership o' caller db \<noteq> None then or_handle r else [])
     @ ''/dashboard'')"

definition accept_invitation :: "current_user \<Rightarrow> uuid \<Rightarrow> instant \<Rightarrow> org_db \<Rightarrow> org_result" where
  "accept_invitation cu token now db =
     (case get_invitation_by_token token db of
        None \<Rightarrow> refuse db invitation_not_found
      | Some i \<Rightarrow>
          if iv_status i = InvAccepted then refuse db (dashboard_redirect (iv_org i) (cu_id cu) db)
          else if iv_status i \<noteq> InvPending then refuse db invitation_not_found
          else if lower (cu_email cu) \<noteq> lower (iv_email i)
          then refuse db (Refused 403 ''this invitation was sent to a different email address'')
          else (case accept_org_invitation token (cu_id cu) now db of
              Inl True \<Rightarrow> refuse db invitation_not_found
            | Inl False \<Rightarrow> refuse db Crashed
            | Inr db' \<Rightarrow> (db', [MemberJoined (cu_id cu) (iv_org i)],
                          dashboard_redirect (iv_org i) (cu_id cu) db')))"

section \<open>Reactions\<close>

definition create_personal_org ::
  "org_config \<Rightarrow> uuid \<Rightarrow> instant \<Rightarrow> uuid option \<Rightarrow> string \<Rightarrow> org_db \<Rightarrow> org_result" where
  "create_personal_org cfg new_id now user email db =
     (if \<not> oc_auto_personal cfg then refuse db (Answered 0)
      else (case user of
          None \<Rightarrow> refuse db (Answered 0)
        | Some u \<Rightarrow>
            if \<not> user_exists u db then refuse db (Answered 0)
            else if count_personal_owned_by u db \<noteq> 0 then refuse db (Answered 0)
            else (case create_with_owner cfg None new_id now email u None True db of
                None \<Rightarrow> if user_exists u db then refuse db Crashed else refuse db (Answered 0)
              | Some (db', r) \<Rightarrow> (db', [OrganizationCreated u (or_id r) (or_name r)], Answered 0))))"

text \<open>Deleting an organisation cascades to its memberships and invitations.\<close>

definition delete_org :: "uuid \<Rightarrow> org_db \<Rightarrow> org_db" where
  "delete_org o' db = db\<lparr>od_orgs := delete_where (\<lambda>r. or_id r = o') (od_orgs db),
     od_members := delete_where (\<lambda>m. mb_org m = o') (od_members db),
     od_invitations := delete_where (\<lambda>i. iv_org i = o') (od_invitations db)\<rparr>"

definition other_owners :: "uuid \<Rightarrow> uuid \<Rightarrow> org_db \<Rightarrow> nat" where
  "other_owners o' u db = count_where (\<lambda>m. mb_org m = o' \<and> mb_role m = Owner \<and> mb_user m \<noteq> u) (od_members db)"

definition forget_member :: "uuid \<Rightarrow> org_db \<Rightarrow> org_db \<times> uuid list" where
  "forget_member u db =
     (let mine = filter (\<lambda>m. mb_user m = u) (od_members db);
          doomed = map mb_org (filter (\<lambda>m. mb_role m = Owner \<and> other_owners (mb_org m) u db = 0) mine);
          left = map mb_org (filter (\<lambda>m. mb_org m \<notin> set doomed) mine) in
      (db\<lparr>od_members := delete_where (\<lambda>m. mb_user m = u \<and> mb_org m \<in> set left) (od_members db)\<rparr>, doomed))"

definition forget_user :: "uuid option \<Rightarrow> org_db \<Rightarrow> org_db" where
  "forget_user user db = (case user of
       None \<Rightarrow> db
     | Some u \<Rightarrow>
         (let org_ids = remdups (map mb_org (filter (\<lambda>m. mb_user m = u) (od_members db))) in
          case forget_member u db of (db1, doomed) \<Rightarrow>
            fold (\<lambda>o' e. if get_org o' e = None then e
                else if o' \<in> set doomed \<or> count_where (\<lambda>m. mb_org m = o') (od_members e) = 0
                then delete_org o' e else e) org_ids db1))"

end
