(* ===== verification/Org_Requests.thy ===== *)
theory Org_Requests
  imports Organizations
begin

text \<open>
  The organisations' requests as one machine: any sequence of the handlers of \<open>Organizations\<close>, with
  the invariant of its tables, who can gain what, and the race the last-owner guard leaves.
\<close>

section \<open>Requests\<close>

datatype org_request =
    CreateOrg uuid string
  | RenameOrg string string
  | ChangeHandle string string
  | ChangeTimezone string string
  | LeaveOrg string
  | ChangeRole string uuid org_role
  | ExpelMember string uuid
  | Invite string uuid uuid string
  | RevokeInvite string uuid
  | AcceptInvite uuid
  | UserCreatedFact uuid "uuid option" string
  | UserDeletedFact "uuid option"

fun org_act :: "org_config \<Rightarrow> current_user \<Rightarrow> instant \<Rightarrow> org_request \<Rightarrow> org_db \<Rightarrow> org_result" where
  "org_act cfg cu now (CreateOrg new_id name) db = create_organization cfg cu new_id now name db" |
  "org_act cfg cu now (RenameOrg slug name) db = rename_organization cfg slug cu name db" |
  "org_act cfg cu now (ChangeHandle slug handle) db = update_org_handle cfg slug cu handle db" |
  "org_act cfg cu now (ChangeTimezone slug tz) db = update_org_timezone cfg slug cu tz db" |
  "org_act cfg cu now (LeaveOrg slug) db = leave_organization cfg slug cu db" |
  "org_act cfg cu now (ChangeRole slug target role) db = change_member_role cfg slug cu target role db" |
  "org_act cfg cu now (ExpelMember slug target) db = expel_member cfg slug cu target db" |
  "org_act cfg cu now (Invite slug new_id token email) db = create_invitation cfg slug cu new_id token now email db" |
  "org_act cfg cu now (RevokeInvite slug i') db = revoke_invitation cfg slug cu i' db" |
  "org_act cfg cu now (AcceptInvite token) db = accept_invitation cu token now db" |
  "org_act cfg cu now (UserCreatedFact new_id user email) db = create_personal_org cfg new_id now user email db" |
  "org_act cfg cu now (UserDeletedFact user) db = (forget_user user db, [], Answered 0)"

section \<open>The invariant of the tables\<close>

definition owners_of :: "uuid \<Rightarrow> org_db \<Rightarrow> uuid set" where
  "owners_of o' db = mb_user ` {m \<in> set (od_members db). mb_org m = o' \<and> mb_role m = Owner}"

definition member_key :: "membership \<Rightarrow> uuid \<times> uuid" where
  "member_key m = (mb_org m, mb_user m)"

definition pending_key :: "org_invitation \<Rightarrow> uuid \<times> string" where
  "pending_key i = (iv_org i, iv_email i)"

definition members_ok :: "org_db \<Rightarrow> bool" where
  "members_ok db \<longleftrightarrow> distinct (map member_key (od_members db))
     \<and> (\<forall>m \<in> set (od_members db). user_exists (mb_user m) db)"

definition fk_ok :: "org_db \<Rightarrow> bool" where
  "fk_ok db \<longleftrightarrow> (\<forall>m \<in> set (od_members db). mb_org m \<in> or_id ` set (od_orgs db))
     \<and> (\<forall>i \<in> set (od_invitations db). iv_org i \<in> or_id ` set (od_orgs db))"

definition orgs_ok :: "org_config \<Rightarrow> org_db \<Rightarrow> bool" where
  "orgs_ok cfg db \<longleftrightarrow> distinct (map or_id (od_orgs db)) \<and> distinct (map or_handle (od_orgs db))
     \<and> (\<forall>r \<in> set (od_orgs db). or_handle r \<notin> set (oc_reserved cfg))"

definition invitations_ok :: "org_db \<Rightarrow> bool" where
  "invitations_ok db \<longleftrightarrow> distinct (map pending_key (filter (\<lambda>i. iv_status i = InvPending) (od_invitations db)))
     \<and> (\<forall>i \<in> set (od_invitations db). iv_role i = Member)"

definition owned :: "org_db \<Rightarrow> bool" where
  "owned db \<longleftrightarrow> (\<forall>r \<in> set (od_orgs db). owners_of (or_id r) db \<noteq> {})"

definition org_ok :: "org_config \<Rightarrow> org_db \<Rightarrow> bool" where
  "org_ok cfg db \<longleftrightarrow> members_ok db \<and> fk_ok db \<and> orgs_ok cfg db \<and> invitations_ok db \<and> owned db"

lemma get_membership_Some:
  "get_membership o' u db = Some m \<Longrightarrow> m \<in> set (od_members db) \<and> mb_org m = o' \<and> mb_user m = u"
  by (auto simp: get_membership_def find_Some_iff)

lemma get_membership_None:
  "get_membership o' u db = None \<longleftrightarrow> (\<forall>m \<in> set (od_members db). \<not> (mb_org m = o' \<and> mb_user m = u))"
  by (auto simp: get_membership_def find_None_iff)

lemma members_unique:
  "members_ok db \<Longrightarrow> m \<in> set (od_members db) \<Longrightarrow> n \<in> set (od_members db)
    \<Longrightarrow> member_key m = member_key n \<Longrightarrow> m = n"
  unfolding members_ok_def by (metis distinct_map inj_onD)

lemma get_membership_iff:
  assumes "members_ok db"
  shows "get_membership o' u db = Some m \<longleftrightarrow> m \<in> set (od_members db) \<and> mb_org m = o' \<and> mb_user m = u"
proof
  assume m: "m \<in> set (od_members db) \<and> mb_org m = o' \<and> mb_user m = u"
  then obtain n where n: "get_membership o' u db = Some n"
    using get_membership_None[of o' u db] by (cases "get_membership o' u db") auto
  then have "n = m" using members_unique[OF assms, of n m] m get_membership_Some[OF n]
    by (simp add: member_key_def)
  then show "get_membership o' u db = Some m" using n by simp
qed (rule get_membership_Some)

lemma in_owners_of: "u \<in> owners_of o' db \<longleftrightarrow>
    (\<exists>m \<in> set (od_members db). mb_org m = o' \<and> mb_user m = u \<and> mb_role m = Owner)"
  by (auto simp: owners_of_def)

lemma count_owners_card:
  assumes "members_ok db"
  shows "count_owners o' db = card (owners_of o' db)"
proof -
  let ?xs = "filter (\<lambda>m. mb_org m = o' \<and> mb_role m = Owner) (od_members db)"
  have "inj_on mb_user (set ?xs)"
    using members_unique[OF assms] by (auto simp: inj_on_def member_key_def)
  moreover have "distinct ?xs" using assms by (auto simp: members_ok_def distinct_map)
  moreover have "owners_of o' db = mb_user ` set ?xs" by (auto simp: owners_of_def)
  ultimately have "card (owners_of o' db) = length ?xs" by (metis card_image distinct_card)
  then show ?thesis by (simp add: count_owners_def count_where_def)
qed

lemma finite_owners [simp]: "finite (owners_of o' db)"
  by (simp add: owners_of_def)

text \<open>The application's guard refuses exactly the last owner.\<close>

lemma guard_iff_last_owner:
  assumes "members_ok db"
  shows "\<not> ensure_not_last_owner o' u db \<longleftrightarrow> owners_of o' db = {u}"
proof -
  have card: "card (owners_of o' db) \<le> 1 \<longleftrightarrow> owners_of o' db = {u}" if "u \<in> owners_of o' db"
    using that card_le_Suc0_iff_eq[OF finite_owners[of o' db]] by auto
  have own: "u \<in> owners_of o' db \<longleftrightarrow> (\<exists>m. get_membership o' u db = Some m \<and> mb_role m = Owner)"
    by (auto simp: in_owners_of get_membership_iff[OF assms])
  show ?thesis
  proof (cases "u \<in> owners_of o' db")
    case True
    then obtain m where "get_membership o' u db = Some m" "mb_role m = Owner" using own by blast
    then show ?thesis using card[OF True] by (simp add: ensure_not_last_owner_def count_owners_card[OF assms] not_less)
  next
    case False
    then have "ensure_not_last_owner o' u db"
      using own by (auto simp: ensure_not_last_owner_def split: option.splits)
    then show ?thesis using False by auto
  qed
qed

lemma sole_owner:
  assumes "members_ok db" "m \<in> set (od_members db)" "mb_org m = o'" "mb_user m = u"
  shows "owners_of o' db = {u} \<longleftrightarrow> mb_role m = Owner
    \<and> (\<forall>n \<in> set (od_members db). mb_org n = o' \<and> mb_role n = Owner \<longrightarrow> mb_user n = u)"
    (is "?sole \<longleftrightarrow> ?owner \<and> ?others")
proof
  assume o: ?sole
  then have "u \<in> owners_of o' db" by simp
  then obtain n where n: "n \<in> set (od_members db)" "mb_org n = o'" "mb_user n = u" "mb_role n = Owner"
    unfolding in_owners_of by blast
  then have "m = n" using members_unique[OF assms(1,2) n(1)] assms(3,4) by (simp add: member_key_def)
  moreover have ?others
  proof (intro ballI impI)
    fix k assume "k \<in> set (od_members db)" "mb_org k = o' \<and> mb_role k = Owner"
    then have "mb_user k \<in> owners_of o' db" unfolding in_owners_of by blast
    then show "mb_user k = u" using o by simp
  qed
  ultimately show "?owner \<and> ?others" using n(4) by simp
next
  assume r: "?owner \<and> ?others"
  then have "u \<in> owners_of o' db" unfolding in_owners_of using assms(2-4) by blast
  moreover have "v = u" if "v \<in> owners_of o' db" for v using that r unfolding in_owners_of by blast
  ultimately show ?sole by blast
qed

lemma trigger_iff_last_owner:
  assumes "members_ok db" "get_membership o' u db = Some m"
  shows "last_owner_trigger db m new \<longleftrightarrow> owners_of o' db = {u} \<and> new \<noteq> Some Owner \<and> get_org o' db \<noteq> None"
proof -
  have m: "m \<in> set (od_members db)" "mb_org m = o'" "mb_user m = u" using get_membership_Some[OF assms(2)] by auto
  have u: "user_exists u db" using assms(1) m unfolding members_ok_def by blast
  show ?thesis unfolding sole_owner[OF assms(1) m] last_owner_trigger_def m(2,3) using u by blast
qed

section \<open>Removing a member keeps an owner\<close>

lemma delete_member_ok: "members_ok db \<Longrightarrow> members_ok (delete_member o' u db)"
  by (auto simp: members_ok_def delete_member_def distinct_map_delete_where in_delete_where user_exists_def)

lemma owners_delete_member:
  "owners_of p (delete_member o' u db) = (if p = o' then owners_of p db - {u} else owners_of p db)"
  by (auto simp: owners_of_def delete_member_def in_delete_where)

interpretation org_owners: keep_one members_ok "owners_of o'" "delete_member o'"
    "\<lambda>u db. \<not> ensure_not_last_owner o' u db" for o'
  by unfold_locales (simp_all add: delete_member_ok owners_delete_member guard_iff_last_owner)


section \<open>The transitions behind the requests\<close>

text \<open>
  Each handler either changes nothing or makes one of these transitions, on behalf of a caller who
  holds what the transition needs.
\<close>

definition in_scope :: "current_user \<Rightarrow> uuid \<Rightarrow> bool" where
  "in_scope cu o' \<longleftrightarrow> cu_api_key_org cu = None \<or> cu_api_key_org cu = Some o'"

definition acts_as_owner :: "current_user \<Rightarrow> uuid \<Rightarrow> org_db \<Rightarrow> bool" where
  "acts_as_owner cu o' db \<longleftrightarrow> in_scope cu o' \<and> cu_id cu \<in> owners_of o' db"

definition add_org :: "organization \<Rightarrow> uuid \<Rightarrow> org_db \<Rightarrow> org_db" where
  "add_org r u db = db\<lparr>od_orgs := od_orgs db @ [r], od_members := od_members db @
     [\<lparr>mb_org = or_id r, mb_user = u, mb_role = Owner, mb_created_at = or_created_at r\<rparr>]\<rparr>"

inductive org_step :: "org_config \<Rightarrow> current_user \<Rightarrow> org_db \<Rightarrow> org_db \<Rightarrow> bool" for cfg cu where
  unchanged: "org_step cfg cu db db"
| created: "or_handle r \<notin> set (oc_reserved cfg) \<Longrightarrow> or_handle r \<notin> or_handle ` set (od_orgs db) \<Longrightarrow>
    or_id r \<notin> or_id ` set (od_orgs db) \<Longrightarrow> user_exists u db \<Longrightarrow> org_step cfg cu db (add_org r u db)"
| retitled: "acts_as_owner cu o' db \<Longrightarrow> (\<forall>r. or_id (f r) = or_id r \<and> or_handle (f r) = or_handle r) \<Longrightarrow>
    org_step cfg cu db (update_org o' f db)"
| rehandled: "acts_as_owner cu o' db \<Longrightarrow>
    h \<notin> set (oc_reserved cfg) \<Longrightarrow> \<forall>r \<in> set (od_orgs db). or_handle r = h \<longrightarrow> or_id r = o' \<Longrightarrow>
    org_step cfg cu db (update_handle o' h db)"
| departed: "u = cu_id cu \<and> in_scope cu o' \<or> acts_as_owner cu o' db \<Longrightarrow> ensure_not_last_owner o' u db \<Longrightarrow>
    org_step cfg cu db (delete_member o' u db)"
| promoted: "acts_as_owner cu o' db \<Longrightarrow> role = Owner \<or> ensure_not_last_owner o' u db \<Longrightarrow>
    org_step cfg cu db (write_role o' u role db)"
| invited: "acts_as_owner cu o' db \<Longrightarrow> ensure_no_pending_invitation o' email db \<Longrightarrow>
    org_step cfg cu db (create_invitation_row new_id token now o' email Member (cu_id cu) db)"
| revoked: "acts_as_owner cu (iv_org i) db \<Longrightarrow> i \<in> set (od_invitations db) \<Longrightarrow>
    org_step cfg cu db (revoke_invitation_row (iv_id i) db)"
| accepted: "get_invitation_by_token token db = Some i \<Longrightarrow> iv_status i = InvPending \<Longrightarrow>
    lower (cu_email cu) = lower (iv_email i) \<Longrightarrow>
    accept_org_invitation token (cu_id cu) now db = Inr db' \<Longrightarrow> org_step cfg cu db db'"
| forgotten: "org_step cfg cu db (forget_user user db)"

inductive_cases org_stepE: "org_step cfg cu db db'"

lemma resolve_scope:
  "resolve_current_org cfg (Some slug) cu db = Inr o' \<Longrightarrow> in_scope cu o'"
  by (auto simp: resolve_current_org_def ensure_api_key_scope_def in_scope_def bind_err_Inr_iff
      split: if_splits option.splits)

lemma current_membership_gate:
  assumes "get_current_membership cfg (Some slug) cu db = Inr (o', m)"
  shows "in_scope cu o' \<and> get_membership o' (cu_id cu) db = Some m"
  using assms resolve_scope by (auto simp: get_current_membership_def bind_err_Inr_iff split: option.splits)

lemma current_owner_gate:
  assumes "require_current_owner cfg (Some slug) cu db = Inr (o', m)"
  shows "acts_as_owner cu o' db"
proof -
  have "get_current_membership cfg (Some slug) cu db = Inr (o', m)" "mb_role m = Owner"
    using assms by (auto simp: require_current_owner_def gate_owner_def bind_err_Inr_iff split: if_splits)
  then have "in_scope cu o'" "get_membership o' (cu_id cu) db = Some m" "mb_role m = Owner"
    using current_membership_gate by auto
  then show ?thesis using get_membership_Some[of o' "cu_id cu" db m]
    unfolding acts_as_owner_def in_owners_of by blast
qed

lemma with_owner_gate:
  assumes "\<And>o'. acts_as_owner cu o' db \<Longrightarrow> org_step cfg cu db (fst (handler o'))"
  shows "org_step cfg cu db (fst (with_gate (require_current_owner cfg (Some slug) cu db) handler db))"
  using assms current_owner_gate[of cfg slug cu db]
  by (auto simp: with_gate_def refuse_def intro: unchanged split: sum.splits)

lemma create_with_owner_step:
  assumes "create_with_owner cfg reader new_id now name u suggested personal db = Some (db', r)"
  shows "db' = add_org r u db \<and> or_handle r \<notin> set (oc_reserved cfg) \<and> or_handle r \<notin> or_handle ` set (od_orgs db)
    \<and> or_id r \<notin> or_id ` set (od_orgs db) \<and> user_exists u db"
  using assms unique_handle_total[of cfg db reader "handle_base name suggested"]
  by (auto simp: create_with_owner_def add_org_def Let_def registry_available split: option.splits if_splits)

lemma created_by:
  "create_with_owner cfg reader new_id now name u suggested personal db = Some (db', r) \<Longrightarrow> org_step cfg cu db db'"
  using create_with_owner_step created by metis

lemma remove_member_step:
  "remove_member o' u db = Some (db', removed) \<Longrightarrow> db' = (if removed then delete_member o' u db else db)"
  by (auto simp: remove_member_def split: option.splits if_splits)

lemma update_member_role_step:
  "update_member_role o' u role db = Some (db', True) \<Longrightarrow> db' = write_role o' u role db"
  by (auto simp: update_member_role_def split: option.splits if_splits)

lemma invitation_by_id_props:
  "get_invitation_by_id o' i' db = Some i \<Longrightarrow> i \<in> set (od_invitations db) \<and> iv_org i = o' \<and> iv_id i = i'"
  by (auto simp: get_invitation_by_id_def find_Some_iff)

lemma create_organization_step: "org_step cfg cu db (fst (create_organization cfg cu new_id now name db))"
proof (cases "create_with_owner cfg (Some (cu_id cu)) new_id now (strip name) (cu_id cu) None False db")
  case (Some x)
  then obtain db' r where "x = (db', r)" by force
  then show ?thesis using created_by Some
    by (auto simp: create_organization_def refuse_def Let_def intro: unchanged)
qed (simp add: create_organization_def refuse_def Let_def unchanged)

lemma create_personal_step: "org_step cfg cu db (fst (create_personal_org cfg new_id now user email db))"
proof (cases user)
  case (Some u)
  show ?thesis
  proof (cases "create_with_owner cfg None new_id now email u None True db")
    case (Some x)
    then obtain db' r where "x = (db', r)" by force
    then show ?thesis using created_by Some \<open>user = Some u\<close>
      by (auto simp: create_personal_org_def refuse_def intro: unchanged)
  qed (simp add: create_personal_org_def refuse_def unchanged \<open>user = Some u\<close>)
qed (simp add: create_personal_org_def refuse_def unchanged)

lemma leave_step: "org_step cfg cu db (fst (leave_organization cfg slug cu db))"
proof (cases "get_current_membership cfg (Some slug) cu db")
  case (Inr om)
  obtain o' m where om: "om = (o', m)" by force
  show ?thesis
  proof (cases "remove_member o' (cu_id cu) db")
    case (Some x)
    then obtain db' removed where x: "x = (db', removed)" by force
    then have db': "db' = (if removed then delete_member o' (cu_id cu) db else db)"
      using remove_member_step Some by blast
    show ?thesis using Inr om Some x db' current_membership_gate[of cfg slug cu db o' m]
      by (auto simp: leave_organization_def with_gate_def refuse_def intro: unchanged departed)
  qed (use Inr om in \<open>simp add: leave_organization_def with_gate_def refuse_def unchanged\<close>)
qed (simp add: leave_organization_def with_gate_def refuse_def unchanged)

lemma change_role_step: "org_step cfg cu db (fst (change_member_role cfg slug cu target role db))"
  unfolding change_member_role_def
proof (rule with_owner_gate)
  fix o' assume own: "acts_as_owner cu o' db"
  show "org_step cfg cu db (fst (if get_org o' db = None then refuse db not_found
     else if role \<noteq> Owner \<and> \<not> ensure_not_last_owner o' target db then refuse db last_owner_refusal
     else (case update_member_role o' target role db of
         None \<Rightarrow> refuse db Crashed
       | Some (db', False) \<Rightarrow> refuse db not_found
       | Some (db', True) \<Rightarrow> (db', [MemberRoleChanged (cu_id cu) o' target role], Answered 200))))"
    using promoted[OF own, of role target] update_member_role_step[of o' target role db]
    by (auto simp: refuse_def intro: unchanged split: option.splits bool.splits)
qed

lemma expel_step: "org_step cfg cu db (fst (expel_member cfg slug cu target db))"
  unfolding expel_member_def
proof (rule with_owner_gate)
  fix o' assume own: "acts_as_owner cu o' db"
  show "org_step cfg cu db (fst (if \<not> ensure_not_last_owner o' target db then refuse db last_owner_refusal
     else (case remove_member o' target db of
         None \<Rightarrow> refuse db Crashed
       | Some (db', False) \<Rightarrow> refuse db not_found
       | Some (db', True) \<Rightarrow> (db', [MemberRemoved (cu_id cu) o' target], Answered 204))))"
    using departed[of target cu o' db cfg] own remove_member_step[of o' target db]
    by (auto simp: refuse_def intro: unchanged split: option.splits bool.splits)
qed

lemma update_handle_step: "org_step cfg cu db (fst (update_org_handle cfg slug cu handle db))"
  unfolding update_org_handle_def
  by (rule with_owner_gate) (auto simp: Let_def refuse_def intro: unchanged rehandled dest: available_unreserved split: option.splits)

lemma rename_step: "org_step cfg cu db (fst (rename_organization cfg slug cu name db))"
  unfolding rename_organization_def rename_org_def
  by (rule with_owner_gate) (auto simp: Let_def refuse_def intro!: unchanged retitled)

lemma timezone_step: "org_step cfg cu db (fst (update_org_timezone cfg slug cu tz db))"
  unfolding update_org_timezone_def set_timezone_def
  by (rule with_owner_gate) (auto simp: Let_def refuse_def intro!: unchanged retitled)

lemma invite_step: "org_step cfg cu db (fst (create_invitation cfg slug cu new_id token now email db))"
  unfolding create_invitation_def
  by (rule with_owner_gate) (auto simp: Let_def refuse_def issue_invitation_def intro: unchanged invited
      split: sum.splits option.splits if_splits)

lemma revoke_step: "org_step cfg cu db (fst (revoke_invitation cfg slug cu i' db))"
  unfolding revoke_invitation_def
proof (rule with_owner_gate)
  fix o' assume own: "acts_as_owner cu o' db"
  show "org_step cfg cu db (fst (case get_invitation_by_id o' i' db of
      None \<Rightarrow> refuse db not_found
    | Some i \<Rightarrow> (revoke_invitation_row i' db, [InvitationRevoked (cu_id cu) o' i'], Answered 204)))"
    using own revoked[of cu _ db cfg] invitation_by_id_props[of o' i' db]
    by (cases "get_invitation_by_id o' i' db") (auto simp: refuse_def unchanged)
qed

lemma accept_step: "org_step cfg cu db (fst (accept_invitation cu token now db))"
  by (auto simp: accept_invitation_def refuse_def Let_def intro: unchanged accepted
      split: option.splits sum.splits bool.splits)

lemma org_act_step: "org_step cfg cu db (fst (org_act cfg cu now rq db))"
  by (cases rq) (simp_all add: create_organization_step create_personal_step leave_step change_role_step
      expel_step update_handle_step rename_step timezone_step invite_step revoke_step accept_step forgotten)


section \<open>The transitions keep the invariant\<close>

lemma ids_update_org: "(\<And>r. or_id (f r) = or_id r) \<Longrightarrow> map or_id (od_orgs (update_org o' f db)) = map or_id (od_orgs db)"
  by (simp add: update_org_def map_update_where_key)

lemma ids_update_org_set: "(\<And>r. or_id (f r) = or_id r) \<Longrightarrow> or_id ` set (od_orgs (update_org o' f db)) = or_id ` set (od_orgs db)"
  using ids_update_org[of f o' db] by (metis list.set_map)

lemma owned_same:
  assumes "or_id ` set (od_orgs db') = or_id ` set (od_orgs db)" "od_members db' = od_members db" "owned db"
  shows "owned db'"
proof -
  have "owners_of o' db' = owners_of o' db" for o' using assms(2) by (simp add: owners_of_def)
  then show ?thesis using assms(1,3) unfolding owned_def by (metis (no_types, lifting) image_iff)
qed

lemma same_orgs_ok: "od_orgs db' = od_orgs db \<Longrightarrow> orgs_ok cfg db \<Longrightarrow> orgs_ok cfg db'"
  by (simp add: orgs_ok_def)

lemma owners_add_org: "owners_of o' (add_org r u db) = owners_of o' db \<union> (if o' = or_id r then {u} else {})"
  by (intro set_eqI) (auto simp: in_owners_of add_org_def)

lemma created_ok:
  assumes "org_ok cfg db" "or_handle r \<notin> set (oc_reserved cfg)" "or_handle r \<notin> or_handle ` set (od_orgs db)"
    "or_id r \<notin> or_id ` set (od_orgs db)" "user_exists u db"
  shows "org_ok cfg (add_org r u db)"
proof -
  have fk: "\<forall>m \<in> set (od_members db). mb_org m \<noteq> or_id r"
    using assms(1,4) unfolding org_ok_def fk_ok_def by metis
  have "members_ok (add_org r u db)"
    using assms(1,5) fk by (auto simp: org_ok_def members_ok_def add_org_def member_key_def user_exists_def)
  moreover have "fk_ok (add_org r u db)" using assms(1) by (auto simp: org_ok_def fk_ok_def add_org_def)
  moreover have "orgs_ok cfg (add_org r u db)"
    using assms(1-4) by (auto simp: org_ok_def orgs_ok_def add_org_def)
  moreover have "invitations_ok (add_org r u db)" using assms(1) by (simp add: org_ok_def invitations_ok_def add_org_def)
  moreover have "owned (add_org r u db)"
    using assms(1) by (auto simp: org_ok_def owned_def owners_add_org) (auto simp: add_org_def)
  ultimately show ?thesis by (simp add: org_ok_def)
qed

lemma retitled_ok:
  assumes "org_ok cfg db" "\<And>r. or_id (f r) = or_id r \<and> or_handle (f r) = or_handle r"
  shows "org_ok cfg (update_org o' f db)"
proof -
  have ids: "map or_id (od_orgs (update_org o' f db)) = map or_id (od_orgs db)" using assms(2) ids_update_org by blast
  have hs: "map or_handle (od_orgs (update_org o' f db)) = map or_handle (od_orgs db)"
    using assms(2) by (simp add: update_org_def map_update_where_key)
  have sets: "or_id ` set (od_orgs (update_org o' f db)) = or_id ` set (od_orgs db)"
    "or_handle ` set (od_orgs (update_org o' f db)) = or_handle ` set (od_orgs db)"
    using ids hs by (metis list.set_map)+
  have same: "od_members (update_org o' f db) = od_members db" "od_users (update_org o' f db) = od_users db"
    "od_invitations (update_org o' f db) = od_invitations db" by (simp_all add: update_org_def)
  have handles: "orgs_ok cfg e \<longleftrightarrow> distinct (map or_id (od_orgs e)) \<and> distinct (map or_handle (od_orgs e))
     \<and> (\<forall>h \<in> or_handle ` set (od_orgs e). h \<notin> set (oc_reserved cfg))" for e
    by (simp add: orgs_ok_def)
  show ?thesis using assms(1) owned_same[OF sets(1) same(1)] unfolding org_ok_def handles ids hs sets
    by (simp add: members_ok_def fk_ok_def invitations_ok_def same sets user_exists_def)
qed

lemma rehandled_ok:
  assumes "org_ok cfg db" "h \<notin> set (oc_reserved cfg)" "\<forall>r \<in> set (od_orgs db). or_handle r = h \<longrightarrow> or_id r = o'"
  shows "org_ok cfg (update_handle o' h db)"
proof -
  let ?db = "update_handle o' h db"
  have ids: "map or_id (od_orgs ?db) = map or_id (od_orgs db)"
    unfolding update_handle_def by (rule ids_update_org) simp
  then have sets: "or_id ` set (od_orgs ?db) = or_id ` set (od_orgs db)" by (metis list.set_map)
  have same: "od_members ?db = od_members db" "od_users ?db = od_users db"
    "od_invitations ?db = od_invitations db" by (simp_all add: update_handle_def update_org_def)
  have "distinct (map or_handle (update_where (\<lambda>r. or_id r = o') (\<lambda>r. r\<lparr>or_handle := h\<rparr>) rows))"
    if "distinct (map or_id rows)" "distinct (map or_handle rows)"
      "\<forall>r \<in> set rows. or_handle r = h \<longrightarrow> or_id r = o'" for rows
    using that
  proof (induction rows)
    case (Cons r rows)
    show ?case
    proof (cases "or_id r = o'")
      case True
      have "or_id r \<notin> or_id ` set rows" using Cons.prems(1) by simp
      then have away: "\<forall>q \<in> set rows. or_id q \<noteq> o'" using True by (metis image_eqI)
      then have "update_where (\<lambda>r. or_id r = o') (\<lambda>r. r\<lparr>or_handle := h\<rparr>) rows = rows"
        by (intro update_where_id) blast
      then show ?thesis using Cons.prems True away by auto
    next
      case False
      then have "h \<noteq> or_handle r" using Cons.prems(3) by auto
      then show ?thesis using Cons False by (auto simp: in_update_where split: if_splits)
    qed
  qed simp
  then have "orgs_ok cfg ?db" using assms ids
    by (auto simp: org_ok_def orgs_ok_def update_handle_def update_org_def in_update_where split: if_splits)
  then show ?thesis using assms(1) owned_same[OF sets same(1)]
    by (simp add: org_ok_def members_ok_def fk_ok_def invitations_ok_def same sets user_exists_def)
qed

lemma departed_ok:
  assumes "org_ok cfg db" "ensure_not_last_owner o' u db"
  shows "org_ok cfg (delete_member o' u db)"
proof -
  have m: "members_ok db" using assms(1) by (simp add: org_ok_def)
  have "owners_of p (delete_member o' u db) \<noteq> {}" if "owners_of p db \<noteq> {}" for p
    using org_owners.guarded_keeps[OF m that, of u] assms(2) that guard_iff_last_owner[OF m, of o' u]
    by (auto simp: owners_delete_member)
  then have "owned (delete_member o' u db)" using assms(1)
    by (simp add: org_ok_def owned_def delete_member_def)
  then show ?thesis using assms(1) delete_member_ok[OF m, of o' u]
    by (simp add: org_ok_def fk_ok_def orgs_ok_def invitations_ok_def) (auto simp: delete_member_def in_delete_where)
qed

lemma in_owners_write_role:
  "v \<in> owners_of p (write_role o' u role db) \<longleftrightarrow> (if p = o' \<and> v = u
     then role = Owner \<and> (\<exists>q \<in> set (od_members db). mb_org q = o' \<and> mb_user q = u)
     else v \<in> owners_of p db)"
proof -
  let ?f = "\<lambda>q. if mb_org q = o' \<and> mb_user q = u then q\<lparr>mb_role := role\<rparr> else q"
  have f: "mb_org (?f q) = mb_org q" "mb_user (?f q) = mb_user q"
    "mb_role (?f q) = (if mb_org q = o' \<and> mb_user q = u then role else mb_role q)" for q by simp_all
  have rows: "od_members (write_role o' u role db) = map ?f (od_members db)"
    by (simp add: write_role_def update_where_def)
  have "v \<in> owners_of p (write_role o' u role db) \<longleftrightarrow>
      (\<exists>q \<in> set (od_members db). mb_org (?f q) = p \<and> mb_user (?f q) = v \<and> mb_role (?f q) = Owner)"
    unfolding in_owners_of rows set_map by blast
  then have E: "v \<in> owners_of p (write_role o' u role db) \<longleftrightarrow> (\<exists>q \<in> set (od_members db). mb_org q = p
      \<and> mb_user q = v \<and> (if mb_org q = o' \<and> mb_user q = u then role else mb_role q) = Owner)"
    unfolding f .
  show ?thesis
  proof (cases "p = o' \<and> v = u")
    case True
    then show ?thesis unfolding E by auto
  next
    case False
    then have "(\<exists>q \<in> set (od_members db). mb_org q = p \<and> mb_user q = v
        \<and> (if mb_org q = o' \<and> mb_user q = u then role else mb_role q) = Owner)
      \<longleftrightarrow> (\<exists>q \<in> set (od_members db). mb_org q = p \<and> mb_user q = v \<and> mb_role q = Owner)"
      by (intro bex_cong) auto
    then show ?thesis using False unfolding E in_owners_of[of v p db] by auto
  qed
qed

lemma promoted_ok:
  assumes "org_ok cfg db" "role = Owner \<or> ensure_not_last_owner o' u db"
  shows "org_ok cfg (write_role o' u role db)"
proof -
  have m: "members_ok db" using assms(1) by (simp add: org_ok_def)
  have keep: "owners_of p (write_role o' u role db) \<noteq> {}" if h: "owners_of p db \<noteq> {}" for p
  proof -
    obtain v where v: "v \<in> owners_of p db" using h by blast
    show ?thesis
    proof (cases "p = o' \<and> owners_of p db = {u}")
      case True
      then have "role = Owner" using assms(2) guard_iff_last_owner[OF m, of o' u] by blast
      moreover have "\<exists>q \<in> set (od_members db). mb_org q = o' \<and> mb_user q = u"
        using True in_owners_of[of u o' db] by auto
      ultimately have "u \<in> owners_of p (write_role o' u role db)"
        unfolding in_owners_write_role using True by simp
      then show ?thesis by blast
    next
      case False
      then obtain w where "w \<in> owners_of p db" "\<not> (p = o' \<and> w = u)" using v by blast
      then have "w \<in> owners_of p (write_role o' u role db)" unfolding in_owners_write_role by auto
      then show ?thesis by blast
    qed
  qed
  have "map member_key (od_members (write_role o' u role db)) = map member_key (od_members db)"
    by (simp add: write_role_def map_update_where_key member_key_def)
  then have "members_ok (write_role o' u role db)" using m
    by (auto simp: members_ok_def) (auto simp: write_role_def in_update_where user_exists_def)
  moreover have "fk_ok (write_role o' u role db)" using assms(1)
    by (auto simp: org_ok_def fk_ok_def write_role_def in_update_where)
  moreover have "orgs_ok cfg (write_role o' u role db)" "invitations_ok (write_role o' u role db)"
    using assms(1) by (simp_all add: org_ok_def orgs_ok_def invitations_ok_def write_role_def)
  moreover have "owned (write_role o' u role db)"
  proof -
    have "od_orgs (write_role o' u role db) = od_orgs db" by (simp add: write_role_def)
    then show ?thesis using assms(1) keep unfolding org_ok_def owned_def by simp
  qed
  ultimately show ?thesis by (simp add: org_ok_def)
qed


lemma invited_ok:
  assumes "org_ok cfg db" "o' \<in> or_id ` set (od_orgs db)" "ensure_no_pending_invitation o' email db"
  shows "org_ok cfg (create_invitation_row new_id token now o' email Member by db)"
proof -
  let ?db = "create_invitation_row new_id token now o' email Member by db"
  have same: "od_members ?db = od_members db" "od_users ?db = od_users db" "od_orgs ?db = od_orgs db"
    by (simp_all add: create_invitation_row_def)
  have none: "\<forall>i \<in> set (od_invitations db). \<not> (iv_org i = o' \<and> iv_email i = email \<and> iv_status i = InvPending)"
    using assms(3) by (auto simp: ensure_no_pending_invitation_def get_invitation_by_email_def find_None_iff)
  then have "invitations_ok ?db" using assms(1)
    by (auto simp: org_ok_def invitations_ok_def create_invitation_row_def pending_key_def)
  moreover have "fk_ok ?db" using assms(1,2) by (auto simp: org_ok_def fk_ok_def create_invitation_row_def)
  moreover have "owned ?db" using assms(1) owned_same[of ?db db] by (simp add: same org_ok_def)
  ultimately show ?thesis using assms(1) by (simp add: org_ok_def members_ok_def orgs_ok_def same user_exists_def)
qed

lemma set_status_ok:
  assumes "org_ok cfg db" "status \<noteq> InvPending"
  shows "org_ok cfg (set_invitation_status i' status db)"
proof -
  let ?db = "set_invitation_status i' status db"
  have same: "od_members ?db = od_members db" "od_users ?db = od_users db" "od_orgs ?db = od_orgs db"
    by (simp_all add: set_invitation_status_def)
  have "distinct (map pending_key (filter (\<lambda>i. iv_status i = InvPending)
      (update_where (\<lambda>i. iv_id i = i') (\<lambda>i. i\<lparr>iv_status := status\<rparr>) is)))"
    if "distinct (map pending_key (filter (\<lambda>i. iv_status i = InvPending) is))" for "is" :: "org_invitation list"
    using that assms(2) by (induction "is") (auto simp: in_update_where pending_key_def split: if_splits)
  then have "invitations_ok ?db" using assms(1)
    by (auto simp: org_ok_def invitations_ok_def set_invitation_status_def in_update_where)
  moreover have "fk_ok ?db" using assms(1) by (auto simp: org_ok_def fk_ok_def set_invitation_status_def in_update_where)
  moreover have "owned ?db" using assms(1) owned_same[of ?db db] by (simp add: same org_ok_def)
  ultimately show ?thesis using assms(1) by (simp add: org_ok_def members_ok_def orgs_ok_def same user_exists_def)
qed

definition seat :: "org_invitation \<Rightarrow> uuid \<Rightarrow> instant \<Rightarrow> org_db \<Rightarrow> org_db" where
  "seat i u now db = (if get_membership (iv_org i) u db \<noteq> None then db
     else db\<lparr>od_members := od_members db @ [\<lparr>mb_org = iv_org i, mb_user = u, mb_role = iv_role i, mb_created_at = now\<rparr>]\<rparr>)"

lemma accept_seats:
  assumes "accept_org_invitation token u now db = Inr db'" "get_invitation_by_token token db = Some i"
    "iv_status i = InvPending"
  shows "db' = set_invitation_status (iv_id i) InvAccepted (seat i u now db) \<and> user_exists u db"
  using assms by (auto simp: accept_org_invitation_def seat_def user_exists_def Let_def
      split: option.splits if_splits dest!: map_of_SomeD) (auto simp: rev_image_eqI)

lemma token_invitation: "get_invitation_by_token token db = Some i \<Longrightarrow> i \<in> set (od_invitations db) \<and> iv_token i = token"
  unfolding get_invitation_by_token_def by (rule row_by_SomeD)

lemma owners_seat: "iv_role i = Member \<Longrightarrow> owners_of p (seat i u now db) = owners_of p db"
  by (intro set_eqI) (auto simp: in_owners_of seat_def)

lemma seat_ok:
  assumes "org_ok cfg db" "i \<in> set (od_invitations db)" "user_exists u db"
  shows "org_ok cfg (seat i u now db)"
proof (cases "get_membership (iv_org i) u db")
  case None
  let ?db = "seat i u now db"
  have same: "od_invitations ?db = od_invitations db" "od_users ?db = od_users db" "od_orgs ?db = od_orgs db"
    by (simp_all add: seat_def)
  have role: "iv_role i = Member" using assms(1,2) unfolding org_ok_def invitations_ok_def by blast
  have "owned ?db" using assms(1) unfolding org_ok_def owned_def same owners_seat[OF role] by blast
  moreover have "members_ok ?db"
    using assms(1,3) None unfolding get_membership_None
    by (auto simp: org_ok_def members_ok_def seat_def member_key_def user_exists_def split: if_splits)
  moreover have "fk_ok ?db" using assms(1,2) by (auto simp: org_ok_def fk_ok_def seat_def)
  ultimately show ?thesis using assms(1) by (simp add: org_ok_def orgs_ok_def invitations_ok_def same)
qed (use assms(1) in \<open>simp add: seat_def\<close>)


section \<open>Forgetting a user\<close>

definition drop_orgs :: "(uuid \<Rightarrow> bool) \<Rightarrow> org_db \<Rightarrow> org_db" where
  "drop_orgs D db = db\<lparr>od_orgs := delete_where (\<lambda>r. D (or_id r)) (od_orgs db),
     od_members := delete_where (\<lambda>m. D (mb_org m)) (od_members db),
     od_invitations := delete_where (\<lambda>i. D (iv_org i)) (od_invitations db)\<rparr>"

lemma delete_where_twice: "delete_where P (delete_where Q xs) = delete_where (\<lambda>x. P x \<or> Q x) xs"
  by (induction xs) auto

lemma delete_org_drop: "delete_org o' (drop_orgs D db) = drop_orgs (\<lambda>x. x = o' \<or> D x) db"
  by (simp add: delete_org_def drop_orgs_def delete_where_twice)

lemma drop_none: "drop_orgs (\<lambda>_. False) db = db"
  by (simp add: drop_orgs_def delete_where_def)

lemma get_org_drop: "get_org o' (drop_orgs D db) = (if D o' then None else get_org o' db)"
proof -
  have "row_by or_id o' (delete_where (\<lambda>r. D (or_id r)) rows) = (if D o' then None else row_by or_id o' rows)" for rows
    by (induction rows) auto
  from this[of "od_orgs db"] show ?thesis by (simp add: get_org_def drop_orgs_def)
qed

lemma ids_drop: "or_id ` set (od_orgs (drop_orgs D db)) = {x \<in> or_id ` set (od_orgs db). \<not> D x}"
  by (auto simp: drop_orgs_def in_delete_where)

lemma count_drop: "\<not> D o' \<Longrightarrow> count_where (\<lambda>m. mb_org m = o') (od_members (drop_orgs D db))
    = count_where (\<lambda>m. mb_org m = o') (od_members db)"
proof -
  assume "\<not> D o'"
  then have "count_where (\<lambda>m. mb_org m = o') (delete_where (\<lambda>m. D (mb_org m)) rows)
      = count_where (\<lambda>m. mb_org m = o') rows" for rows
    by (induction rows) auto
  then show ?thesis by (simp add: drop_orgs_def)
qed

definition forsaken :: "uuid list \<Rightarrow> uuid list \<Rightarrow> org_db \<Rightarrow> uuid \<Rightarrow> bool" where
  "forsaken org_ids doomed db o' \<longleftrightarrow> o' \<in> set org_ids \<and> get_org o' db \<noteq> None
     \<and> (o' \<in> set doomed \<or> count_where (\<lambda>m. mb_org m = o') (od_members db) = 0)"

lemma forget_fold:
  assumes "distinct org_ids" "\<forall>o' \<in> set org_ids. \<not> D o'"
  shows "fold (\<lambda>o' e. if get_org o' e = None then e
      else if o' \<in> set doomed \<or> count_where (\<lambda>m. mb_org m = o') (od_members e) = 0
      then delete_org o' e else e) org_ids (drop_orgs D db) = drop_orgs (\<lambda>x. D x \<or> forsaken org_ids doomed db x) db"
  using assms
proof (induction org_ids arbitrary: D)
  case (Cons p ps)
  define F where "F = forsaken (p # ps) doomed db p"
  have D: "\<not> D p" using Cons.prems by simp
  have step: "(if get_org p (drop_orgs D db) = None then drop_orgs D db
      else if p \<in> set doomed \<or> count_where (\<lambda>m. mb_org m = p) (od_members (drop_orgs D db)) = 0
      then delete_org p (drop_orgs D db) else drop_orgs D db) = drop_orgs (\<lambda>x. (x = p \<and> F) \<or> D x) db"
    using D by (auto simp: get_org_drop count_drop delete_org_drop F_def forsaken_def)
  have rest: "(\<lambda>x. ((x = p \<and> F) \<or> D x) \<or> forsaken ps doomed db x) = (\<lambda>x. D x \<or> forsaken (p # ps) doomed db x)"
    using Cons.prems by (auto simp: fun_eq_iff F_def forsaken_def)
  have "\<forall>o' \<in> set ps. \<not> ((o' = p \<and> F) \<or> D o')" using Cons.prems by auto
  then show ?case using Cons.IH[of "\<lambda>x. (x = p \<and> F) \<or> D x"] Cons.prems step rest by simp
qed (simp add: forsaken_def)

definition orgs_of :: "uuid \<Rightarrow> org_db \<Rightarrow> uuid list" where
  "orgs_of u db = remdups (map mb_org (filter (\<lambda>m. mb_user m = u) (od_members db)))"

lemma forget_user_drop:
  assumes "forget_member u db = (db1, doomed)"
  shows "forget_user (Some u) db = drop_orgs (forsaken (orgs_of u db) doomed db1) db1"
  using forget_fold[of "orgs_of u db" "\<lambda>_. False" doomed db1] assms
  by (simp add: forget_user_def orgs_of_def drop_none Let_def)

lemma other_owners_pos: "0 < other_owners o' u db \<longleftrightarrow> (\<exists>v \<in> owners_of o' db. v \<noteq> u)"
proof -
  have "other_owners o' u db = 0 \<longleftrightarrow> \<not> (\<exists>v \<in> owners_of o' db. v \<noteq> u)"
    unfolding other_owners_def count_where_0_iff by (auto simp: in_owners_of)
  then show ?thesis by (metis gr_zeroI less_irrefl)
qed

lemma forget_user_ok:
  assumes "org_ok cfg db"
  shows "org_ok cfg (forget_user user db)"
proof (cases user)
  case (Some u)
  obtain db1 doomed where fm: "forget_member u db = (db1, doomed)" by force
  define D where "D = forsaken (orgs_of u db) doomed db1"
  let ?e = "drop_orgs D db1"
  have mem1: "set (od_members db1) \<subseteq> set (od_members db)"
    and same: "od_orgs db1 = od_orgs db" "od_users db1 = od_users db" "od_invitations db1 = od_invitations db"
    and kept: "\<And>m. m \<in> set (od_members db) \<Longrightarrow> mb_user m \<noteq> u \<Longrightarrow> m \<in> set (od_members db1)"
    and doomed: "\<And>o'. o' \<in> set doomed \<longleftrightarrow> (\<exists>m \<in> set (od_members db). mb_user m = u \<and> mb_org m = o'
        \<and> mb_role m = Owner \<and> other_owners o' u db = 0)"
    and dist: "distinct (map member_key (od_members db)) \<Longrightarrow> distinct (map member_key (od_members db1))"
    using fm by (auto simp: forget_member_def Let_def in_delete_where intro: distinct_map_delete_where)
  have members: "members_ok ?e" using assms mem1 dist
    by (auto simp: org_ok_def members_ok_def drop_orgs_def in_delete_where distinct_map_delete_where
        user_exists_def same)
  have fk: "fk_ok ?e" using assms mem1
    by (auto simp: org_ok_def fk_ok_def ids_drop same) (auto simp: drop_orgs_def in_delete_where subset_iff same)
  have orgs: "orgs_ok cfg ?e" using assms
    by (auto simp: org_ok_def orgs_ok_def drop_orgs_def in_delete_where distinct_map_delete_where same)
  have "filter Q (delete_where P xs) = delete_where P (filter Q xs)" for P Q and xs :: "org_invitation list"
    by (induction xs) auto
  then have invs: "invitations_ok ?e" using assms
    by (auto simp: org_ok_def invitations_ok_def drop_orgs_def in_delete_where distinct_map_delete_where same)
  have "owners_of (or_id r) ?e \<noteq> {}" if r: "r \<in> set (od_orgs ?e)" for r
  proof -
    let ?o = "or_id r"
    have rdb: "r \<in> set (od_orgs db)" "\<not> D ?o" using r by (auto simp: drop_orgs_def in_delete_where same)
    then have own: "owners_of ?o db \<noteq> {}" using assms unfolding org_ok_def owned_def by blast
    have "\<exists>v \<in> owners_of ?o db. v \<noteq> u"
    proof (rule ccontr)
      assume no: "\<not> ?thesis"
      then have "u \<in> owners_of ?o db" using own by (metis ex_in_conv)
      then obtain m where m: "m \<in> set (od_members db)" "mb_org m = ?o" "mb_user m = u" "mb_role m = Owner"
        unfolding in_owners_of by blast
      then have "?o \<in> set doomed" using doomed other_owners_pos[of ?o u db] no by blast
      moreover have "?o \<in> set (orgs_of u db)" using m by (auto simp: orgs_of_def rev_image_eqI)
      moreover have "get_org ?o db1 \<noteq> None" using rdb(1) by (auto simp: get_org_def row_by_None_iff same)
      ultimately show False using rdb(2) by (simp add: D_def forsaken_def)
    qed
    then obtain v where "v \<in> owners_of ?o db" "v \<noteq> u" by blast
    then obtain m where m: "m \<in> set (od_members db)" "mb_org m = ?o" "mb_user m \<noteq> u" "mb_role m = Owner"
      unfolding in_owners_of by blast
    then have "m \<in> set (od_members ?e)" using kept rdb(2) by (auto simp: drop_orgs_def in_delete_where)
    then show ?thesis using m in_owners_of[of "mb_user m" ?o ?e] by blast
  qed
  then have "owned ?e" unfolding owned_def by blast
  then show ?thesis using members fk orgs invs forget_user_drop[OF fm] Some by (simp add: org_ok_def D_def)
qed (use assms in \<open>simp add: forget_user_def\<close>)

lemma org_step_ok:
  assumes "org_step cfg cu db db'" "org_ok cfg db"
  shows "org_ok cfg db'"
  using assms(1)
proof cases
  case (created r u)
  then show ?thesis using created_ok assms(2) by blast
next
  case (retitled o' f)
  then show ?thesis using retitled_ok assms(2) by blast
next
  case (invited o' email new_id token now)
  have "o' \<in> or_id ` set (od_orgs db)"
    using invited(2) assms(2) unfolding acts_as_owner_def in_owners_of org_ok_def fk_ok_def by blast
  then show ?thesis using invited invited_ok assms(2) by blast
next
  case (accepted token i now)
  have "i \<in> set (od_invitations db)" using token_invitation accepted(1) by blast
  then have "org_ok cfg (seat i (cu_id cu) now db)"
    using accept_seats[OF accepted(4,1,2)] seat_ok[OF assms(2)] by blast
  then show ?thesis using accept_seats[OF accepted(4,1,2)] set_status_ok by auto
next
  case (revoked i)
  then show ?thesis using set_status_ok[OF assms(2)] by (simp add: revoke_invitation_row_def)
qed (use assms(2) rehandled_ok departed_ok promoted_ok forget_user_ok in blast)+

text \<open>A history of requests, each by its caller at its time.\<close>

fun org_run :: "org_config \<Rightarrow> (current_user \<times> instant \<times> org_request) list \<Rightarrow> org_db \<Rightarrow> org_db" where
  "org_run cfg [] db = db" |
  "org_run cfg ((cu, now, rq) # rqs) db = org_run cfg rqs (fst (org_act cfg cu now rq db))"

lemma org_run_ok: "org_ok cfg db \<Longrightarrow> org_ok cfg (org_run cfg rqs db)"
  by (induction cfg rqs db rule: org_run.induct) (auto intro: org_step_ok org_act_step)


text \<open>
  C2.  The organisations stay well formed under any history of requests and reactions, whoever makes
  them: every organisation keeps an owner, handles are distinct and unreserved, each
  user has one membership per organisation, and each address one pending invitation.
\<close>

theorem organizations_keep_invariant:
  assumes "org_ok cfg db"
  shows "(\<forall>r \<in> set (od_orgs (org_run cfg rqs db)). owners_of (or_id r) (org_run cfg rqs db) \<noteq> {})
    \<and> distinct (map or_handle (od_orgs (org_run cfg rqs db)))
    \<and> (\<forall>r \<in> set (od_orgs (org_run cfg rqs db)). or_handle r \<notin> set (oc_reserved cfg))
    \<and> distinct (map (\<lambda>m. (mb_org m, mb_user m)) (od_members (org_run cfg rqs db)))
    \<and> distinct (map (\<lambda>i. (iv_org i, iv_email i))
        (filter (\<lambda>i. iv_status i = InvPending) (od_invitations (org_run cfg rqs db))))"
proof -
  have keys: "(\<lambda>m. (mb_org m, mb_user m)) = member_key" "(\<lambda>i. (iv_org i, iv_email i)) = pending_key"
    by (simp_all add: fun_eq_iff member_key_def pending_key_def)
  show ?thesis using org_run_ok[OF assms, of rqs] unfolding keys
    by (simp add: org_ok_def owned_def orgs_ok_def members_ok_def invitations_ok_def)
qed

definition demo_cfg :: org_config where
  "demo_cfg = \<lparr>oc_reserved = [''static''], oc_profile_handles = [(''ann'', 4, 2)], oc_timezones = [''UTC''],
     oc_max_owned = -1, oc_max_invitations = -1, oc_auto_personal = True\<rparr>"

definition demo_org :: organization where
  "demo_org = \<lparr>or_id = 7, or_name = ''Acme'', or_handle = ''acme'', or_timezone = ''UTC'',
     or_is_personal = False, or_created_at = 0\<rparr>"

definition demo_invitation :: org_invitation where
  "demo_invitation = \<lparr>iv_id = 30, iv_org = 7, iv_email = ''bob@x'', iv_role = Member, iv_token = 31,
     iv_invited_by = 2, iv_status = InvPending, iv_created_at = 0\<rparr>"

definition demo_org_db :: org_db where
  "demo_org_db = \<lparr>od_orgs = [demo_org],
     od_members = [\<lparr>mb_org = 7, mb_user = 2, mb_role = Owner, mb_created_at = 0\<rparr>,
                   \<lparr>mb_org = 7, mb_user = 3, mb_role = Owner, mb_created_at = 0\<rparr>],
     od_invitations = [demo_invitation], od_users = [(2, Some ''ann@x''), (3, Some ''cid@x''), (5, Some ''Bob@x'')]\<rparr>"

definition demo_caller :: current_user where
  "demo_caller = \<lparr>cu_id = 5, cu_email = ''Bob@x'', cu_api_key_org = None\<rparr>"

lemma demo_org_ok: "org_ok demo_cfg demo_org_db"
  by (simp add: org_ok_def members_ok_def fk_ok_def orgs_ok_def invitations_ok_def owned_def owners_of_def
      user_exists_def member_key_def pending_key_def demo_cfg_def demo_org_db_def
      demo_org_def demo_invitation_def)
    (rule exI[of _ "\<lparr>mb_org = 7, mb_user = 2, mb_role = Owner, mb_created_at = 0\<rparr>"], simp)

lemma organizations_keep_invariant_witness:
  "owners_of 7 (org_run demo_cfg [(demo_caller, 9, AcceptInvite 31), (demo_caller, 10, LeaveOrg ''acme''),
     (demo_caller, 11, UserDeletedFact (Some 3))] demo_org_db) \<noteq> {}"
proof -
  let ?run = "org_run demo_cfg [(demo_caller, 9, AcceptInvite 31), (demo_caller, 10, LeaveOrg ''acme''),
     (demo_caller, 11, UserDeletedFact (Some 3))] demo_org_db"
  have "od_orgs ?run = [demo_org]" by code_simp
  then have "demo_org \<in> set (od_orgs ?run)" by simp
  then have owned: "owners_of (or_id demo_org) ?run \<noteq> {}"
    by (rule bspec[OF conjunct1[OF organizations_keep_invariant[OF demo_org_ok]]])
  have "or_id demo_org = 7" by (simp add: demo_org_def)
  from owned [unfolded this] show ?thesis .
qed

section \<open>Who gains what\<close>

lemma owners_same_members: "od_members db' = od_members db \<Longrightarrow> owners_of o' db' = owners_of o' db"
  by (simp add: owners_of_def)

definition members_of :: "uuid \<Rightarrow> org_db \<Rightarrow> uuid set" where
  "members_of o' db = mb_user ` {m \<in> set (od_members db). mb_org m = o'}"

lemma in_members_of: "u \<in> members_of o' db \<longleftrightarrow> (\<exists>m \<in> set (od_members db). mb_org m = o' \<and> mb_user m = u)"
  by (auto simp: members_of_def)

lemma members_same: "od_members db' = od_members db \<Longrightarrow> members_of o' db' = members_of o' db"
  by (simp add: members_of_def)

lemma fewer_members:
  assumes "set (od_members db') \<subseteq> set (od_members db)"
  shows "members_of o' db' \<subseteq> members_of o' db" "owners_of o' db' \<subseteq> owners_of o' db"
  using assms unfolding owners_of_def members_of_def by blast+

lemma forget_user_members: "set (od_members (forget_user user db)) \<subseteq> set (od_members db)"
proof (cases user)
  case (Some u)
  obtain db1 doomed where fm: "forget_member u db = (db1, doomed)" by force
  then have "set (od_members db1) \<subseteq> set (od_members db)"
    by (auto simp: forget_member_def Let_def in_delete_where)
  then show ?thesis unfolding Some forget_user_drop[OF fm] by (auto simp: drop_orgs_def in_delete_where)
qed (simp add: forget_user_def)

lemma write_role_members: "members_of p (write_role o' u role db) = members_of p db"
proof -
  have "map member_key (od_members (write_role o' u role db)) = map member_key (od_members db)"
    by (simp add: write_role_def map_update_where_key member_key_def)
  then have "member_key ` set (od_members (write_role o' u role db)) = member_key ` set (od_members db)"
    by (metis list.set_map)
  moreover have "members_of p d = {u. (p, u) \<in> member_key ` set (od_members d)}" for d
    by (auto simp: members_of_def member_key_def)
  ultimately show ?thesis by simp
qed

definition invited_to :: "current_user \<Rightarrow> uuid \<Rightarrow> org_db \<Rightarrow> bool" where
  "invited_to cu o' db \<longleftrightarrow> (\<exists>i \<in> set (od_invitations db). iv_org i = o' \<and> iv_status i = InvPending
     \<and> lower (iv_email i) = lower (cu_email cu))"

lemma step_gains:
  assumes "org_step cfg cu db db'" "org_ok cfg db"
  shows "u \<in> members_of o' db' - members_of o' db \<Longrightarrow> o' \<notin> or_id ` set (od_orgs db) \<or> (u = cu_id cu \<and> invited_to cu o' db)"
    and "u \<in> owners_of o' db' - owners_of o' db \<Longrightarrow> o' \<notin> or_id ` set (od_orgs db) \<or> acts_as_owner cu o' db"
proof -
  have "(u \<in> members_of o' db' - members_of o' db \<longrightarrow> o' \<notin> or_id ` set (od_orgs db) \<or> (u = cu_id cu \<and> invited_to cu o' db))
    \<and> (u \<in> owners_of o' db' - owners_of o' db \<longrightarrow> o' \<notin> or_id ` set (od_orgs db) \<or> acts_as_owner cu o' db)"
    using assms(1)
  proof cases
    case (created r v)
    then show ?thesis by (auto simp: in_members_of in_owners_of add_org_def)
  next
    case (departed v p)
    then show ?thesis by (auto simp: in_members_of in_owners_of delete_member_def in_delete_where)
  next
    case (promoted p role v)
    then show ?thesis by (auto simp: write_role_members in_owners_write_role split: if_splits)
  next
    case (accepted token i now)
    have i: "i \<in> set (od_invitations db)" using token_invitation accepted(1) by blast
    then have role: "iv_role i = Member" using assms(2) unfolding org_ok_def invitations_ok_def by blast
    have db': "od_members db' = od_members (seat i (cu_id cu) now db)"
      using accept_seats[OF accepted(4,1,2)] by (simp add: set_invitation_status_def)
    have "owners_of o' db' = owners_of o' db"
      using owners_same_members[OF db'] owners_seat[OF role] by simp
    moreover have "u \<in> members_of o' db' - members_of o' db \<Longrightarrow> u = cu_id cu \<and> iv_org i = o'"
      unfolding members_same[OF db'] by (auto simp: in_members_of seat_def split: if_splits)
    ultimately show ?thesis using i accepted(2,3) unfolding invited_to_def by auto
  next
    case (forgotten user)
    then show ?thesis using fewer_members[OF forget_user_members[of user db]] by blast
  qed (auto simp: members_of_def owners_of_def update_org_def update_handle_def create_invitation_row_def
      revoke_invitation_row_def set_invitation_status_def)
  then show "u \<in> members_of o' db' - members_of o' db \<Longrightarrow> o' \<notin> or_id ` set (od_orgs db) \<or> (u = cu_id cu \<and> invited_to cu o' db)"
    and "u \<in> owners_of o' db' - owners_of o' db \<Longrightarrow> o' \<notin> or_id ` set (od_orgs db) \<or> acts_as_owner cu o' db"
    by blast+
qed

text \<open>
  C3.  Nobody enters an organisation uninvited, and nobody becomes an owner but by an owner.  Whatever
  the request, a user who is a member of an existing organisation afterwards and was not before is the
  caller accepting a pending invitation sent to the caller's own address; and a user who owns it
  afterwards and did not before was promoted by a caller who owned it and, with an API key, whose key
  is that organisation's.
\<close>

theorem no_membership_uninvited:
  assumes "org_ok cfg db" "db' = fst (org_act cfg cu now rq db)" "r \<in> set (od_orgs db)" "o' = or_id r"
  shows "(u \<in> members_of o' db' - members_of o' db \<longrightarrow> u = cu_id cu \<and> invited_to cu o' db)
    \<and> (u \<in> owners_of o' db' - owners_of o' db \<longrightarrow> cu_id cu \<in> owners_of o' db \<and> in_scope cu o')"
proof -
  have "org_step cfg cu db db'" unfolding assms(2) by (rule org_act_step)
  then show ?thesis using step_gains[of cfg cu db db' u o'] assms(1,3,4) unfolding acts_as_owner_def by blast
qed

lemma no_membership_uninvited_witness:
  "5 \<in> members_of 7 (fst (org_act demo_cfg demo_caller 9 (AcceptInvite 31) demo_org_db)) - members_of 7 demo_org_db
    \<and> invited_to demo_caller 7 demo_org_db"
proof -
  have "od_members (fst (org_act demo_cfg demo_caller 9 (AcceptInvite 31) demo_org_db))
      = od_members demo_org_db @ [\<lparr>mb_org = 7, mb_user = 5, mb_role = Member, mb_created_at = 9\<rparr>]"
    by code_simp
  then have gain: "5 \<in> members_of 7 (fst (org_act demo_cfg demo_caller 9 (AcceptInvite 31) demo_org_db)) - members_of 7 demo_org_db"
    by (simp add: in_members_of) (simp add: demo_org_db_def)
  have "demo_org \<in> set (od_orgs demo_org_db)" "7 = or_id demo_org" by (simp_all add: demo_org_db_def demo_org_def)
  then show ?thesis using no_membership_uninvited[OF demo_org_ok refl, of demo_org 7 5 demo_caller 9 "AcceptInvite 31"] gain
    by blast
qed


section \<open>The last owner\<close>

text \<open>
  C18.  The application's guard and the database's trigger agree.  On tables that are well formed, an
  owner who expels a member of an organisation, or demotes one, is refused with a 403 exactly when
  that member is its only owner, and the trigger behind the write then never fires: such a request
  never crashes.
\<close>

theorem last_owner_guard_agrees:
  assumes "org_ok cfg db" "require_current_owner cfg (Some slug) cu db = Inr (o', m)"
    and "get_membership o' target db \<noteq> None"
  shows "(snd (snd (expel_member cfg slug cu target db)) = last_owner_refusal \<longleftrightarrow> owners_of o' db = {target})
    \<and> (snd (snd (change_member_role cfg slug cu target Member db)) = last_owner_refusal \<longleftrightarrow> owners_of o' db = {target})
    \<and> snd (snd (expel_member cfg slug cu target db)) \<noteq> Crashed
    \<and> (\<forall>role. snd (snd (change_member_role cfg slug cu target role db)) \<noteq> Crashed)"
proof -
  have ok: "members_ok db" using assms(1) by (simp add: org_ok_def)
  obtain t where t: "get_membership o' target db = Some t" using assms(3) by blast
  have "\<exists>r. get_org o' db = Some r"
  proof -
    have "t \<in> set (od_members db)" "mb_org t = o'" using get_membership_Some[OF t] by auto
    then have "o' \<in> or_id ` set (od_orgs db)" using assms(1) unfolding org_ok_def fk_ok_def by blast
    then show ?thesis unfolding get_org_def using row_by_None_iff[of or_id o' "od_orgs db"]
      by (cases "row_by or_id o' (od_orgs db)") auto
  qed
  then obtain r where r: "get_org o' db = Some r" by blast
  have trig: "last_owner_trigger db t new \<longleftrightarrow> owners_of o' db = {target} \<and> new \<noteq> Some Owner" for new
    using trigger_iff_last_owner[OF ok t] r by simp
  note guard = guard_iff_last_owner[OF ok, of o' target]
  note defs = expel_member_def change_member_role_def with_gate_def refuse_def remove_member_def
    update_member_role_def last_owner_refusal_def not_found_def
  show ?thesis using assms(2) t r trig guard
    by (cases "owners_of o' db = {target}") (auto simp: defs)
qed

lemma last_owner_guard_agrees_witness:
  "snd (snd (expel_member demo_cfg ''acme'' (demo_caller\<lparr>cu_id := 2\<rparr>) 3 demo_org_db)) \<noteq> last_owner_refusal"
proof -
  have gate: "require_current_owner demo_cfg (Some ''acme'') (demo_caller\<lparr>cu_id := 2\<rparr>) demo_org_db
      = Inr (7, \<lparr>mb_org = 7, mb_user = 2, mb_role = Owner, mb_created_at = 0\<rparr>)" by code_simp
  have "get_membership 7 3 demo_org_db \<noteq> None" by code_simp
  moreover have "2 \<in> owners_of 7 demo_org_db" unfolding in_owners_of by (simp add: demo_org_db_def)
  then have "owners_of 7 demo_org_db \<noteq> {3}" by auto
  ultimately show ?thesis using last_owner_guard_agrees[OF demo_org_ok gate, of 3] by blast
qed

text \<open>
  Two owners leaving at once leave nobody.  In an organisation with exactly two owners, each of
  them passes the application's guard and the database's trigger on the tables as they stand, and
  once both writes are applied the organisation has no owner: the trigger reads the rows it sees
  without locking them, so it does not close the race of the check that precedes it.
\<close>

theorem last_owner_race:
  assumes "org_ok cfg db" "owners_of o' db = {a, b}" "a \<noteq> b"
  shows "ensure_not_last_owner o' a db \<and> ensure_not_last_owner o' b db
    \<and> remove_member o' a db = Some (delete_member o' a db, True)
    \<and> remove_member o' b db = Some (delete_member o' b db, True)
    \<and> owners_of o' (delete_member o' b (delete_member o' a db)) = {}"
proof -
  have ok: "members_ok db" using assms(1) by (simp add: org_ok_def)
  have race: "ensure_not_last_owner o' a db" "ensure_not_last_owner o' b db"
      "owners_of o' (delete_member o' b (delete_member o' a db)) = {}"
    using org_owners.check_then_act_race[OF ok assms(3,2)] by simp_all
  have "remove_member o' u db = Some (delete_member o' u db, True)" if "u \<in> {a, b}" for u
  proof -
    have "u \<in> owners_of o' db" using that assms(2) by simp
    then obtain m where m: "get_membership o' u db = Some m"
      using get_membership_iff[OF ok] in_owners_of by meson
    then have "\<not> last_owner_trigger db m None" using trigger_iff_last_owner[OF ok m] assms(2,3) by auto
    then show ?thesis using m by (simp add: remove_member_def)
  qed
  then show ?thesis using race by simp
qed

lemma last_owner_race_witness:
  "owners_of 7 (delete_member 7 3 (delete_member 7 2 demo_org_db)) = {}"
proof -
  have "owners_of 7 demo_org_db = {2, 3}" by (auto simp: in_owners_of demo_org_db_def)
  from last_owner_race[OF demo_org_ok this] show ?thesis by simp
qed

section \<open>Accepting an invitation\<close>

text \<open>
  C19.  An invitation is spent once.  A request to accept a known token takes effect exactly when the
  invitation is pending, the caller's session bears the invited address, and so does the caller's account
  (one without any address passes too, \<open>NULL\<close> being unequal to nothing); then the caller is a member, exactly one fact is emitted, and no later request on the same
  token, by anyone, changes anything.  Otherwise nothing changes and nothing is emitted.
\<close>

theorem invitation_spent_once:
  assumes "get_invitation_by_token token db = Some i" "accept_invitation cu token now db = (db', facts, reply)"
  shows "if iv_status i = InvPending \<and> lower (cu_email cu) = lower (iv_email i)
      \<and> map_option (\<lambda>e. differs_sql e (iv_email i)) (map_of (od_users db) (cu_id cu)) = Some False
    then facts = [MemberJoined (cu_id cu) (iv_org i)] \<and> get_membership (iv_org i) (cu_id cu) db' \<noteq> None
      \<and> (\<forall>cu2 later. fst (accept_invitation cu2 token later db') = db')
    else db' = db \<and> facts = []"
proof (cases "iv_status i = InvPending \<and> lower (cu_email cu) = lower (iv_email i)
      \<and> map_option (\<lambda>e. differs_sql e (iv_email i)) (map_of (od_users db) (cu_id cu)) = Some False")
  case True
  let ?s = "seat i (cu_id cu) now db"
  have acc: "accept_org_invitation token (cu_id cu) now db = Inr (set_invitation_status (iv_id i) InvAccepted ?s)"
    using True assms(1) by (auto simp: accept_org_invitation_def seat_def Let_def)
  then have db': "db' = set_invitation_status (iv_id i) InvAccepted ?s" "facts = [MemberJoined (cu_id cu) (iv_org i)]"
    using assms True by (auto simp: accept_invitation_def)
  have "row_by iv_token token (update_where (\<lambda>j. iv_id j = iv_id i) (\<lambda>j. j\<lparr>iv_status := InvAccepted\<rparr>) rows)
      = Some (i\<lparr>iv_status := InvAccepted\<rparr>)" if "row_by iv_token token rows = Some i" for rows
    using that by (induction rows) auto
  then have "get_invitation_by_token token db' = Some (i\<lparr>iv_status := InvAccepted\<rparr>)"
    using assms(1) by (simp add: db' get_invitation_by_token_def set_invitation_status_def seat_def)
  then have "fst (accept_invitation cu2 token later db') = db'" for cu2 later
    by (simp add: accept_invitation_def refuse_def)
  moreover have "get_membership (iv_org i) (cu_id cu) db' \<noteq> None"
    unfolding get_membership_None db' by (auto simp: set_invitation_status_def seat_def get_membership_None)
  ultimately show ?thesis using True db'(2) by simp
next
  case False
  then have "db' = db \<and> facts = []"
    using assms by (auto simp: accept_invitation_def accept_org_invitation_def refuse_def Let_def
        split: if_splits option.splits)
  then show ?thesis using False by simp
qed

lemma invitation_spent_once_witness:
  "fst (accept_invitation demo_caller 31 10 (fst (accept_invitation demo_caller 31 9 demo_org_db)))
    = fst (accept_invitation demo_caller 31 9 demo_org_db)"
proof -
  have i: "get_invitation_by_token 31 demo_org_db = Some demo_invitation" by code_simp
  have c: "iv_status demo_invitation = InvPending \<and> lower (cu_email demo_caller) = lower (iv_email demo_invitation)
      \<and> map_option (\<lambda>e. differs_sql e (iv_email demo_invitation)) (map_of (od_users demo_org_db) (cu_id demo_caller)) = Some False"
    by code_simp
  obtain db' facts reply where run: "accept_invitation demo_caller 31 9 demo_org_db = (db', facts, reply)"
    by (metis prod_cases3)
  show ?thesis using invitation_spent_once[OF i run] c run by simp
qed

section \<open>Handles the session does not see\<close>

definition new_org :: "uuid \<Rightarrow> instant \<Rightarrow> string \<Rightarrow> string \<Rightarrow> organization" where
  "new_org new_id now name handle = \<lparr>or_id = new_id, or_name = name, or_handle = handle, or_timezone = ''UTC'',
     or_is_personal = False, or_created_at = now\<rparr>"

lemma create_with_free_base:
  assumes "handle_is_available (org_registry cfg reader db) None None (handle_base name None)"
    and "new_id \<notin> or_id ` set (od_orgs db)" "user_exists u db"
  shows "create_with_owner cfg reader new_id now name u None False db
    = (if handle_base name None \<in> or_handle ` set (od_orgs db) then None
       else Some (add_org (new_org new_id now name (handle_base name None)) u db, new_org new_id now name (handle_base name None)))"
proof -
  from unique_handle_total[of cfg db reader "handle_base name None"] obtain m where
    m: "unique_handle (Suc (namespace_size cfg db)) (org_registry cfg reader db) None None (handle_base name None)
      = Some (handle_candidate (handle_base name None) m)"
    "\<forall>j < m. \<not> handle_is_available (org_registry cfg reader db) None None (handle_candidate (handle_base name None) j)"
    by blast
  have "m = 0" using assms(1) m(2) by (metis handle_candidate.simps(1) not_gr_zero)
  then show ?thesis using m(1) assms(2,3)
    by (simp add: create_with_owner_def add_org_def new_org_def Let_def)
qed

text \<open>
  C35.  The search for a free handle sees what the caller may read, while the column is unique for all.
  When no organisation of the caller and no profile the caller sees holds the handle, a request to
  create an organisation of that name fails with an integrity error, a 500, exactly when an
  organisation of strangers holds it; and when only the profile of a stranger holds it, the
  organisation gets the same handle.
\<close>

theorem strangers_handles_unseen:
  assumes "cu_api_key_org cu = None" "oc_max_owned cfg < 0"
    and "new_id \<notin> or_id ` set (od_orgs db)" "user_exists (cu_id cu) db"
    and "handle = handle_base (strip name) None" "handle \<notin> set (oc_reserved cfg)"
    and "\<forall>r \<in> set (od_orgs db). get_membership (or_id r) (cu_id cu) db \<noteq> None \<longrightarrow> or_handle r \<noteq> handle"
    and "\<forall>(h, i, u) \<in> set (oc_profile_handles cfg). profile_visible (Some (cu_id cu)) db u \<longrightarrow> h \<noteq> handle"
  shows "create_organization cfg cu new_id now name db =
    (if handle \<in> or_handle ` set (od_orgs db) then (db, [], Crashed)
     else (add_org (new_org new_id now (strip name) handle) (cu_id cu) db,
           [OrganizationCreated (cu_id cu) new_id (strip name)], Answered 201))"
proof -
  have "handle_is_available (org_registry cfg (Some (cu_id cu)) db) None None handle"
    using assms(6-8) by (simp add: registry_available org_visible_def)
  note cr = create_with_free_base[OF this[unfolded assms(5)] assms(3,4), of now, folded assms(5)]
  show ?thesis using assms(1,2) unfolding create_organization_def Let_def cr
    by (simp add: refuse_def new_org_def)
qed

theorem strangers_handles_unseen_witness:
  "snd (snd (create_organization demo_cfg demo_caller 8 1 ''Acme'' demo_org_db)) = Crashed
   \<and> or_handle ` set (od_orgs (fst (create_organization demo_cfg demo_caller 8 1 ''Ann'' demo_org_db))) = {''acme'', ''ann''}
   \<and> ''ann'' \<in> fst ` set (oc_profile_handles demo_cfg)"
proof -
  have base: "handle_base (strip ''Acme'') None = ''acme''" "handle_base (strip ''Ann'') None = ''ann''" by code_simp+
  have pre: "cu_api_key_org demo_caller = None" "oc_max_owned demo_cfg < 0"
    "8 \<notin> or_id ` set (od_orgs demo_org_db)" "user_exists (cu_id demo_caller) demo_org_db"
    "\<forall>r \<in> set (od_orgs demo_org_db). get_membership (or_id r) (cu_id demo_caller) demo_org_db \<noteq> None \<longrightarrow> or_handle r \<noteq> h"
    "\<forall>(p, i, u) \<in> set (oc_profile_handles demo_cfg). profile_visible (Some (cu_id demo_caller)) demo_org_db u \<longrightarrow> p \<noteq> h" for h
    by (simp_all add: demo_caller_def demo_cfg_def demo_org_db_def demo_org_def user_exists_def get_membership_def
        profile_visible_def)
  have "create_organization demo_cfg demo_caller 8 1 ''Acme'' demo_org_db = (demo_org_db, [], Crashed)"
    using strangers_handles_unseen[OF pre(1-4) base(1)[symmetric] _ pre(5,6), of 1]
    by (simp add: demo_cfg_def demo_org_db_def demo_org_def)
  moreover have "fst (create_organization demo_cfg demo_caller 8 1 ''Ann'' demo_org_db)
      = add_org (new_org 8 1 (strip ''Ann'') ''ann'') 5 demo_org_db"
    using strangers_handles_unseen[OF pre(1-4) base(2)[symmetric] _ pre(5,6), of 1]
    by (simp add: demo_cfg_def demo_org_db_def demo_org_def demo_caller_def)
  ultimately show ?thesis by (auto simp: add_org_def new_org_def demo_org_db_def demo_org_def demo_cfg_def)
qed

end
