(* ===== verification/Dependency.thy ===== *)
theory Dependency
  imports Py_Text
begin

text \<open>
  \<open>apps/shared/logs/dependency.py\<close>: one verdict for a failed call out of the process, read off the
  attributes the exception and its response carry.
\<close>

text \<open>An attribute: absent, or a Python value of one of the types the verdict tells apart.\<close>

datatype py_attr = AttrMissing | AttrBool bool | AttrInt int | AttrStr string | AttrOther

record failure_response =
  fr_status :: py_attr
  fr_status_code :: py_attr

record dependency_failure =
  df_status :: py_attr
  df_status_code :: py_attr
  df_response :: "failure_response option"

definition as_status :: "py_attr \<Rightarrow> int option" where
  "as_status v = (case v of
       AttrInt n \<Rightarrow> Some n
     | AttrStr s \<Rightarrow> if s \<noteq> [] \<and> list_all is_digit s then map_option int (parse_nat s) else None
     | _ \<Rightarrow> None)"

fun first_some :: "'a option list \<Rightarrow> 'a option" where
  "first_some [] = None" |
  "first_some (Some x # xs) = Some x" |
  "first_some (None # xs) = first_some xs"

definition refused_status :: "dependency_failure \<Rightarrow> int option" where
  "refused_status exc = first_some (map as_status
     ([df_status exc, df_status_code exc] @
      (case df_response exc of None \<Rightarrow> [] | Some r \<Rightarrow> [fr_status r, fr_status_code r])))"

definition is_refusal :: "dependency_failure \<Rightarrow> bool" where
  "is_refusal exc = (case refused_status exc of None \<Rightarrow> False | Some status \<Rightarrow> 400 \<le> status \<and> status < 500)"

text \<open>A line at \<open>info\<close>, or an exception, which becomes an issue.\<close>

datatype dependency_line = RefusalLine string | BreakageLine string

definition log_dependency_failure :: "string \<Rightarrow> dependency_failure \<Rightarrow> dependency_line" where
  "log_dependency_failure event exc = (if is_refusal exc then RefusalLine event else BreakageLine event)"

definition answered :: "int \<Rightarrow> dependency_failure" where
  "answered status = \<lparr>df_status = AttrInt status, df_status_code = AttrMissing, df_response = None\<rparr>"

lemma is_refusal_answered [simp]: "is_refusal (answered status) \<longleftrightarrow> 400 \<le> status \<and> status < 500"
  by (simp add: is_refusal_def refused_status_def answered_def as_status_def)

end
