(* ===== verification/Auth_Session.thy ===== *)
theory Auth_Session
  imports Dependency
begin

text \<open>
  \<open>apps/auth/infra/security.py\<close> and \<open>cookies.py\<close>: who a request is, from its cookies and its
  \<open>Authorization\<close> header.  A cookie jar is a dictionary; what a handler sets or deletes is a list of
  changes.  The tokens' verification (PyJWT), the refresh (GoTrue), the enrolment query and the
  providers that resolve an API key are parameters.
\<close>

section \<open>Cookies\<close>

type_synonym cookies = "(string, string) dict"

datatype cookie_change = SetCookie string string int | DeleteCookie string

text \<open>A cookie that is present and not empty.\<close>

definition cookie :: "cookies \<Rightarrow> string \<Rightarrow> string option" where
  "cookie jar name = (case map_of jar name of Some v \<Rightarrow> if v = [] then None else Some v | None \<Rightarrow> None)"

definition change_name :: "cookie_change \<Rightarrow> string" where
  "change_name c = (case c of SetCookie name _ _ \<Rightarrow> name | DeleteCookie name \<Rightarrow> name)"

definition apply_change :: "cookie_change \<Rightarrow> cookies \<Rightarrow> cookies" where
  "apply_change c jar = (case c of SetCookie name v _ \<Rightarrow> AList.update name v jar | DeleteCookie name \<Rightarrow> AList.delete name jar)"

record auth_tokens =
  at_access :: string
  at_refresh :: string

record users_settings =
  us_session_ttl :: int
  us_two_factor :: bool
  us_passkeys :: bool
  us_resend_confirmation :: bool
  us_user_management :: bool
  us_oauth_google :: bool
  us_oauth_github :: bool

definition set_auth_cookies :: "users_settings \<Rightarrow> auth_tokens \<Rightarrow> int option \<Rightarrow> cookie_change list" where
  "set_auth_cookies us tokens max_age =
     (let age = (case max_age of Some a \<Rightarrow> a | None \<Rightarrow> us_session_ttl us) in
      [SetCookie ''access_token'' (at_access tokens) age, SetCookie ''refresh_token'' (at_refresh tokens) age])"

section \<open>Tokens\<close>

record jwt_claims =
  jc_sub :: "uuid option"
  jc_email :: string
  jc_aal :: string
  jc_role :: string

datatype jwt_error = ExpiredSignature | BadToken

text \<open>What auth asks the world: its record of answers.\<close>

record auth_world =
  aw_decode :: "string \<Rightarrow> jwt_error + jwt_claims"
  aw_refresh :: "string \<Rightarrow> dependency_failure + auth_tokens"
  aw_enrolled :: "uuid \<Rightarrow> bool"
  aw_now :: int
  aw_settings :: users_settings

record auth_user =
  au_id :: uuid
  au_email :: string
  au_is_admin :: bool
  au_claims :: "jwt_claims option"
  au_api_key_org :: "uuid option"

datatype auth_outcome = Authenticated auth_user | Unauthorized string | KeyUnavailable | AuthCrashed

definition api_key_prefix :: string where "api_key_prefix = ''lbk_''"

definition bearer_token :: "string option \<Rightarrow> string option" where
  "bearer_token authorization = (case authorization of
       None \<Rightarrow> None
     | Some a \<Rightarrow> if startswith (lower a) ''bearer ''
         then (let t = strip (drop 7 a) in if t = [] then None else Some t) else None)"

text \<open>The providers in turn; a provider that raises ends the search, with a 503.\<close>

datatype provider_answer = ProviderRaised | NotMine | Principal auth_user

fun resolve_api_key :: "provider_answer list \<Rightarrow> auth_outcome" where
  "resolve_api_key [] = Unauthorized ''Invalid API key''" |
  "resolve_api_key (ProviderRaised # ps) = KeyUnavailable" |
  "resolve_api_key (Principal u # ps) = Authenticated u" |
  "resolve_api_key (NotMine # ps) = resolve_api_key ps"

section \<open>The second factor\<close>

definition short_of_aal2 :: "auth_world \<Rightarrow> jwt_claims \<Rightarrow> bool" where
  "short_of_aal2 w payload \<longleftrightarrow> jc_aal payload \<noteq> ''aal2'' \<and> us_two_factor (aw_settings w)"

text \<open>A claim set without a subject raises a \<open>KeyError\<close> here, \<open>None\<close>.\<close>

definition second_factor_owed :: "auth_world \<Rightarrow> jwt_claims \<Rightarrow> bool option" where
  "second_factor_owed w payload =
     (if \<not> short_of_aal2 w payload then Some False else map_option (aw_enrolled w) (jc_sub payload))"

definition impersonated_by_an_admin :: "auth_world \<Rightarrow> string option \<Rightarrow> bool option" where
  "impersonated_by_an_admin w stash = (case stash of
       None \<Rightarrow> Some False
     | Some t \<Rightarrow> (case aw_decode w t of
           Inl _ \<Rightarrow> Some False
         | Inr admin \<Rightarrow> if jc_role admin \<noteq> ''admin'' then Some False
             else map_option Not (second_factor_owed w admin)))"

definition impersonation_remaining :: "auth_world \<Rightarrow> string option \<Rightarrow> int option" where
  "impersonation_remaining w deadline = (case deadline of
       None \<Rightarrow> None
     | Some d \<Rightarrow> map_option (\<lambda>n. n - aw_now w) (py_int d))"

definition impersonator_cookie :: string where "impersonator_cookie = ''impersonator_access_token''"
definition impersonator_refresh_cookie :: string where "impersonator_refresh_cookie = ''impersonator_refresh_token''"
definition impersonator_deadline_cookie :: string where "impersonator_deadline_cookie = ''impersonator_deadline''"

section \<open>The current user\<close>

text \<open>Past the token's verification: the second factor, then the principal.  A token without a subject crashes.\<close>

definition admitted :: "jwt_claims \<Rightarrow> auth_outcome" where
  "admitted payload = (case jc_sub payload of
       None \<Rightarrow> AuthCrashed
     | Some sub \<Rightarrow> Authenticated \<lparr>au_id = sub, au_email = jc_email payload, au_is_admin = (jc_role payload = ''admin''),
         au_claims = Some payload, au_api_key_org = None\<rparr>)"

definition admit :: "auth_world \<Rightarrow> cookies \<Rightarrow> jwt_claims \<Rightarrow> auth_outcome" where
  "admit w jar payload = (case second_factor_owed w payload of
       None \<Rightarrow> AuthCrashed
     | Some owed \<Rightarrow>
         if \<not> owed then admitted payload
         else (case impersonated_by_an_admin w (cookie jar impersonator_cookie) of
             None \<Rightarrow> AuthCrashed
           | Some vouched \<Rightarrow> if vouched then admitted payload else Unauthorized ''Second factor required''))"

text \<open>
  The second component is what was put on the response under construction; a request whose dependency
  raises is answered by the exception, without it (\<open>sent_cookies\<close>).
\<close>

definition refresh_and_admit :: "auth_world \<Rightarrow> cookies \<Rightarrow> auth_outcome \<times> cookie_change list" where
  "refresh_and_admit w jar = (case cookie jar ''refresh_token'' of
       None \<Rightarrow> (Unauthorized ''Token expired'', [])
     | Some refresh \<Rightarrow>
         (let ttl = impersonation_remaining w (cookie jar impersonator_deadline_cookie) in
          if (case ttl of None \<Rightarrow> False | Some t \<Rightarrow> t \<le> 0) then (Unauthorized ''Impersonation window elapsed'', [])
          else (case aw_refresh w refresh of
              Inl _ \<Rightarrow> (Unauthorized ''Token expired'', [])
            | Inr tokens \<Rightarrow>
                (let changes = set_auth_cookies (aw_settings w) tokens ttl in
                 case aw_decode w (at_access tokens) of
                   Inl _ \<Rightarrow> (AuthCrashed, changes)
                 | Inr payload \<Rightarrow> (admit w jar payload, changes)))))"

definition sent_cookies :: "auth_outcome \<times> cookie_change list \<Rightarrow> cookie_change list" where
  "sent_cookies r = (case fst r of Authenticated u \<Rightarrow> snd r | _ \<Rightarrow> [])"

definition get_current_user ::
  "auth_world \<Rightarrow> (string \<Rightarrow> provider_answer list) \<Rightarrow> cookies \<Rightarrow> string option \<Rightarrow> auth_outcome \<times> cookie_change list" where
  "get_current_user w providers jar authorization =
     (let bearer = bearer_token authorization in
      case bearer of
        Some key \<Rightarrow>
          if startswith key api_key_prefix then (resolve_api_key (providers key), [])
          else (case aw_decode w (case cookie jar ''access_token'' of Some t \<Rightarrow> t | None \<Rightarrow> key) of
              Inr payload \<Rightarrow> (admit w jar payload, [])
            | Inl ExpiredSignature \<Rightarrow> refresh_and_admit w jar
            | Inl BadToken \<Rightarrow> (Unauthorized ''Invalid token'', []))
      | None \<Rightarrow>
          (case cookie jar ''access_token'' of
             None \<Rightarrow> (Unauthorized ''Not authenticated'', [])
           | Some t \<Rightarrow>
               (case aw_decode w t of
                  Inr payload \<Rightarrow> (admit w jar payload, [])
                | Inl ExpiredSignature \<Rightarrow> refresh_and_admit w jar
                | Inl BadToken \<Rightarrow> (Unauthorized ''Invalid token'', []))))"

text \<open>The lookup that refuses nobody swallows the refusal and keeps the response's cookies.\<close>

definition try_get_current_user ::
  "auth_world \<Rightarrow> (string \<Rightarrow> provider_answer list) \<Rightarrow> cookies \<Rightarrow> string option \<Rightarrow> auth_outcome option \<times> cookie_change list" where
  "try_get_current_user w providers jar authorization =
     (if cookie jar ''access_token'' = None \<and> bearer_token authorization = None then (None, [])
      else (case get_current_user w providers jar authorization of
          (Authenticated u, changes) \<Rightarrow> (Some (Authenticated u), changes)
        | (AuthCrashed, changes) \<Rightarrow> (Some AuthCrashed, [])
        | (_, changes) \<Rightarrow> (None, changes)))"

text \<open>Only an administrator passes; anybody else is told there is nothing.\<close>

definition get_current_admin :: "auth_user \<Rightarrow> nat option" where
  "get_current_admin user = (if \<not> au_is_admin user then Some 404 else None)"

definition report_refresh_failure :: "dependency_failure \<Rightarrow> dependency_line option" where
  "report_refresh_failure exc = (case refused_status exc of
       Some status \<Rightarrow> if status \<noteq> 429 \<and> 400 \<le> status \<and> status < 500 then None
         else Some (log_dependency_failure ''auth.token_refresh_failed'' exc)
     | None \<Rightarrow> Some (log_dependency_failure ''auth.token_refresh_failed'' exc))"

section \<open>What authentication guarantees\<close>

definition second_factor_ok :: "auth_world \<Rightarrow> cookies \<Rightarrow> jwt_claims \<Rightarrow> bool" where
  "second_factor_ok w jar payload \<longleftrightarrow> jc_aal payload = ''aal2'' \<or> \<not> us_two_factor (aw_settings w)
     \<or> (\<forall>u. jc_sub payload = Some u \<longrightarrow> \<not> aw_enrolled w u)
     \<or> impersonated_by_an_admin w (cookie jar impersonator_cookie) = Some True"

lemma admit_second_factor:
  "admit w jar payload = Authenticated u \<Longrightarrow> au_claims u = Some payload \<and> jc_sub payload = Some (au_id u)
    \<and> au_is_admin u = (jc_role payload = ''admin'') \<and> au_api_key_org u = None \<and> second_factor_ok w jar payload"
  by (auto simp: admit_def admitted_def second_factor_owed_def short_of_aal2_def second_factor_ok_def split: if_splits option.splits)

lemma refresh_second_factor:
  assumes "refresh_and_admit w jar = (Authenticated u, changes)"
  shows "\<exists>payload token. aw_decode w token = Inr payload \<and> admit w jar payload = Authenticated u
    \<and> (\<exists>refresh tokens. cookie jar ''refresh_token'' = Some refresh \<and> aw_refresh w refresh = Inr tokens
        \<and> at_access tokens = token)"
  using assms by (auto simp: refresh_and_admit_def Let_def split: option.splits sum.splits if_splits)

lemma resolve_api_key_principal: "resolve_api_key ps = Authenticated u \<Longrightarrow> Principal u \<in> set ps"
  by (induction ps rule: resolve_api_key.induct) auto

text \<open>
  C7.  A password is never a session on its own.  Whoever a request authenticates as, either a
  provider vouched for its API key, or a verified token names that user and the second factor is
  settled: the token is at the second level, or the server does not ask for it, or the account has no
  authenticator, or the request carries the token of an administrator who owes none either.
\<close>

theorem second_factor_enforced:
  assumes "get_current_user w providers jar authorization = (Authenticated u, changes)"
  shows "(\<exists>key. bearer_token authorization = Some key \<and> startswith key api_key_prefix
        \<and> Principal u \<in> set (providers key))
    \<or> (\<exists>payload token. aw_decode w token = Inr payload \<and> jc_sub payload = Some (au_id u)
        \<and> au_is_admin u = (jc_role payload = ''admin'') \<and> au_api_key_org u = None
        \<and> (jc_aal payload = ''aal2'' \<or> \<not> us_two_factor (aw_settings w) \<or> \<not> aw_enrolled w (au_id u)
           \<or> (\<exists>stash admin. cookie jar impersonator_cookie = Some stash \<and> aw_decode w stash = Inr admin
               \<and> jc_role admin = ''admin'' \<and> second_factor_owed w admin = Some False)))"
proof -
  have settled: "jc_sub payload = Some (au_id u) \<and> au_is_admin u = (jc_role payload = ''admin'')
      \<and> au_api_key_org u = None
      \<and> (jc_aal payload = ''aal2'' \<or> \<not> us_two_factor (aw_settings w) \<or> \<not> aw_enrolled w (au_id u)
         \<or> (\<exists>stash admin. cookie jar impersonator_cookie = Some stash \<and> aw_decode w stash = Inr admin
             \<and> jc_role admin = ''admin'' \<and> second_factor_owed w admin = Some False))"
    if "admit w jar payload = Authenticated u" for payload
    using admit_second_factor[OF that] unfolding second_factor_ok_def impersonated_by_an_admin_def
    by (auto split: option.splits sum.splits if_splits)
  consider (key) key where "bearer_token authorization = Some key" "startswith key api_key_prefix"
      "resolve_api_key (providers key) = Authenticated u"
    | (token) token payload where "aw_decode w token = Inr payload" "admit w jar payload = Authenticated u"
    | (refreshed) "refresh_and_admit w jar = (Authenticated u, changes)"
    using assms by (auto simp: get_current_user_def Let_def split: option.splits sum.splits jwt_error.splits if_splits)
  then show ?thesis
  proof cases
    case key
    then show ?thesis using resolve_api_key_principal by blast
  next
    case token
    then show ?thesis using settled by blast
  next
    case refreshed
    then show ?thesis using refresh_second_factor settled by blast
  qed
qed

definition demo_settings :: users_settings where
  "demo_settings = \<lparr>us_session_ttl = 604800, us_two_factor = True, us_passkeys = True,
     us_resend_confirmation = True, us_user_management = True, us_oauth_google = True, us_oauth_github = False\<rparr>"

definition demo_claims :: "uuid \<Rightarrow> string \<Rightarrow> jwt_claims" where
  "demo_claims u aal = \<lparr>jc_sub = Some u, jc_email = ''ann@x'', jc_aal = aal, jc_role = ''admin''\<rparr>"

definition demo_world :: auth_world where
  "demo_world = \<lparr>aw_decode = (\<lambda>t. if t = ''tok'' then Inr (demo_claims 2 ''aal2'') else if t = ''old'' then Inl ExpiredSignature
       else Inl BadToken),
     aw_refresh = (\<lambda>t. Inr \<lparr>at_access = ''tok'', at_refresh = ''r2''\<rparr>), aw_enrolled = (\<lambda>u. u = 2), aw_now = 1000,
     aw_settings = demo_settings\<rparr>"

lemma second_factor_enforced_witness:
  "fst (get_current_user demo_world (\<lambda>_. []) [(''access_token'', ''tok'')] None)
     = Authenticated \<lparr>au_id = 2, au_email = ''ann@x'', au_is_admin = True,
         au_claims = Some (demo_claims 2 ''aal2''), au_api_key_org = None\<rparr>
   \<and> (\<exists>payload token. aw_decode demo_world token = Inr payload \<and> jc_sub payload = Some 2)"
proof -
  have run: "get_current_user demo_world (\<lambda>_. []) [(''access_token'', ''tok'')] None
    = (Authenticated \<lparr>au_id = 2, au_email = ''ann@x'', au_is_admin = True,
         au_claims = Some (demo_claims 2 ''aal2''), au_api_key_org = None\<rparr>, [])" by code_simp
  from second_factor_enforced[OF this] run show ?thesis by (auto simp: bearer_token_def)
qed

end
