(* ===== verification/Auth_Signin.thy ===== *)
theory Auth_Signin
  imports Auth_Session
begin

text \<open>
  \<open>apps/auth/infra/router.py\<close>: every route that starts, changes or ends a session.  GoTrue is a record
  of answers; a route returns the facts it emits, the cookies it sets or deletes, and its answer.  A
  call of GoTrue fails with an \<open>AuthError\<close> (its status, code and message, and the reasons when it is
  the weak-password kind), or otherwise.
\<close>

section \<open>GoTrue\<close>

datatype gotrue_failure = GtAuthError dependency_failure string string "string list option" | GtOther dependency_failure

text \<open>How a password change ends: a \<open>PasswordUpdateError\<close> carries its text and status.\<close>

datatype password_update = PasswordUpdated | PasswordUpdateError string dependency_failure | PasswordUpdateBroke

record gotrue_factor =
  gf_id :: string
  gf_type :: string
  gf_status :: string

record gotrue_user =
  gu_status :: int
  gu_factors :: "gotrue_factor list"

record gotrue =
  gt_login :: "string \<Rightarrow> string \<Rightarrow> gotrue_failure + auth_tokens"
  gt_user :: "string \<Rightarrow> gotrue_user"
  gt_challenge :: "string \<Rightarrow> string \<Rightarrow> string option"
  gt_verify_totp :: "string \<Rightarrow> string \<Rightarrow> string \<Rightarrow> string \<Rightarrow> auth_tokens option"
  gt_passkey :: "string \<Rightarrow> string \<Rightarrow> string + auth_tokens"
  gt_exchange :: "string \<Rightarrow> string \<Rightarrow> string + auth_tokens"
  gt_confirm :: "string \<Rightarrow> string \<Rightarrow> gotrue_failure + auth_tokens"
  gt_update_password :: "string \<Rightarrow> string \<Rightarrow> password_update"
  gt_register :: "string \<Rightarrow> string \<Rightarrow> gotrue_failure + string option"
  gt_magiclink :: "string \<Rightarrow> auth_tokens option"
  gt_resend :: "string \<Rightarrow> gotrue_failure option"

text \<open>The account's verified authenticator; a failed answer raises rather than reading as none.\<close>

definition verified_totp_factor :: "gotrue \<Rightarrow> string \<Rightarrow> gotrue_failure + string option" where
  "verified_totp_factor gt token =
     (let u = gt_user gt token in
      if 400 \<le> gu_status u then Inl (GtOther (answered (gu_status u)))
      else Inr (map_option gf_id (List.find (\<lambda>f. gf_type f = ''totp'' \<and> gf_status f = ''verified'') (gu_factors u))))"

section \<open>Facts and answers\<close>

datatype sign_in_method = ByPassword | ByOauth | ByPasskey | ByEmailLink

datatype auth_fact =
    SignedIn "uuid option" sign_in_method bool
  | SignedOut "uuid option"
  | EmailChanged "uuid option"
  | PasswordReset "uuid option"
  | ConfirmationResent string
  | ImpersonationStarted uuid "uuid option" string
  | ImpersonationStopped "uuid option" uuid string

datatype auth_answer =
    AuthPage int string
  | SessionIssued string
  | MfaRequired string string string
  | AuthRedirect string
  | AuthRefused int string
  | AuthException

record auth_result =
  ar_facts :: "auth_fact list"
  ar_cookies :: "cookie_change list"
  ar_answer :: auth_answer

definition answer_only :: "auth_answer \<Rightarrow> auth_result" where
  "answer_only a = \<lparr>ar_facts = [], ar_cookies = [], ar_answer = a\<rparr>"

section \<open>Helpers\<close>

definition safe_next :: "string \<Rightarrow> string" where
  "safe_next next_url = (if startswith next_url ''/'' \<and> \<not> startswith next_url ''//'' then next_url else ''/profile'')"

definition enabled_oauth_providers :: "users_settings \<Rightarrow> string list" where
  "enabled_oauth_providers us = (if us_oauth_google us then [''google''] else []) @ (if us_oauth_github us then [''github''] else [])"

definition token_sub :: "auth_world \<Rightarrow> string \<Rightarrow> jwt_error + uuid option" where
  "token_sub w token = bind_err (aw_decode w token) (\<lambda>c. Inr (jc_sub c))"

definition auth_error_messages :: "(string, string) dict" where
  "auth_error_messages = [(''email_exists'', ''An account already exists with this email.''),
     (''user_already_exists'', ''An account already exists with this email.''),
     (''email_address_not_authorized'', ''This email address is not authorized.''),
     (''signup_disabled'', ''Sign-ups are disabled.''),
     (''invalid_email'', ''Invalid email address.''),
     (''email_address_invalid'', ''Invalid email address.''),
     (''email_not_confirmed'', ''Please verify your email before signing in.''),
     (''user_banned'', ''This account is disabled.'')]"

definition strip_quotes :: "string \<Rightarrow> string" where
  "strip_quotes s = rev (dropWhile (\<lambda>c. c = CHR 0x22) (rev (dropWhile (\<lambda>c. c = CHR 0x22) s)))"

definition weak_password_reasons :: "(string, string) dict" where
  "weak_password_reasons = [(''too_short'', ''too short''),
     (''length'', ''too short''),
     (''too_simple'', ''too simple''),
     (''no_uppercase'', ''must contain an uppercase letter''),
     (''no_lowercase'', ''must contain a lowercase letter''),
     (''no_digit'', ''must contain a digit''),
     (''no_special'', ''must contain a special character''),
     (''pwned'', ''this password has been compromised'')]"

definition format_weak_password_reasons :: "string list \<Rightarrow> string" where
  "format_weak_password_reasons reasons =
     (let labels = map (\<lambda>r. dict_get weak_password_reasons (strip_quotes r) (strip_quotes r)) reasons in
      if labels = [] then ''requirements not met'' else join_with '', '' labels)"

definition friendly_auth_error :: "string \<Rightarrow> string \<Rightarrow> string" where
  "friendly_auth_error code message = strip_quotes (dict_get auth_error_messages code message)"

definition mfa_cookie :: string where "mfa_cookie = ''mfa_access_token''"
definition mfa_refresh_cookie :: string where "mfa_refresh_cookie = ''mfa_refresh_token''"
definition mfa_method_cookie :: string where "mfa_method_cookie = ''mfa_method''"
definition mfa_max_seconds :: int where "mfa_max_seconds = 300"

definition method_name :: "sign_in_method \<Rightarrow> string" where
  "method_name m = (case m of ByPassword \<Rightarrow> ''password'' | ByOauth \<Rightarrow> ''oauth'' | ByPasskey \<Rightarrow> ''passkey''
     | ByEmailLink \<Rightarrow> ''email_link'')"

definition relayed_method :: "string option \<Rightarrow> sign_in_method" where
  "relayed_method c = (if c = Some ''oauth'' then ByOauth else if c = Some ''passkey'' then ByPasskey else ByPassword)"

definition mfa_challenge_response ::
  "gotrue \<Rightarrow> auth_tokens \<Rightarrow> string \<Rightarrow> string \<Rightarrow> sign_in_method \<Rightarrow> auth_result option" where
  "mfa_challenge_response gt tokens factor next_url m =
     (case gt_challenge gt (at_access tokens) factor of
        None \<Rightarrow> None
      | Some challenge \<Rightarrow> Some \<lparr>ar_facts = [],
          ar_cookies = [SetCookie mfa_cookie (at_access tokens) mfa_max_seconds,
            SetCookie mfa_refresh_cookie (at_refresh tokens) mfa_max_seconds,
            SetCookie mfa_method_cookie (method_name m) mfa_max_seconds],
          ar_answer = MfaRequired factor challenge next_url\<rparr>)"

text \<open>A session handed over: JSON gets the token, a browser is sent on.\<close>

definition session_issued ::
  "auth_world \<Rightarrow> bool \<Rightarrow> auth_tokens \<Rightarrow> auth_fact list \<Rightarrow> cookie_change list \<Rightarrow> string \<Rightarrow> auth_result" where
  "session_issued w json tokens facts more_changes url =
     \<lparr>ar_facts = facts, ar_cookies = set_auth_cookies (aw_settings w) tokens None @ more_changes,
      ar_answer = (if json then SessionIssued (at_access tokens) else AuthRedirect url)\<rparr>"

section \<open>Password\<close>

definition system_error :: auth_result where
  "system_error = answer_only (AuthPage 503 ''A system error occurred. Please try again later.'')"

definition login_endpoint :: "auth_world \<Rightarrow> gotrue \<Rightarrow> bool \<Rightarrow> string \<Rightarrow> string \<Rightarrow> string \<Rightarrow> auth_result" where
  "login_endpoint w gt json email password next_url =
     (if email = [] \<or> password = [] then answer_only (AuthPage 400 ''Email and password are required.'')
      else (case gt_login gt email password of
          Inl (GtAuthError d code message weak) \<Rightarrow>
            if is_refusal d
            then answer_only (AuthPage 401 (dict_get auth_error_messages code ''Invalid email or password''))
            else system_error
        | Inl (GtOther d) \<Rightarrow> system_error
        | Inr tokens \<Rightarrow>
            (let finish = (case token_sub w (at_access tokens) of
                 Inl _ \<Rightarrow> system_error
               | Inr sub \<Rightarrow> session_issued w json tokens [SignedIn sub ByPassword False] [] (safe_next next_url)) in
             if us_two_factor (aw_settings w)
             then (case verified_totp_factor gt (at_access tokens) of
                 Inl _ \<Rightarrow> system_error
               | Inr None \<Rightarrow> finish
               | Inr (Some factor) \<Rightarrow>
                   if factor = [] then finish
                   else (case mfa_challenge_response gt tokens factor next_url ByPassword of
                       Some r \<Rightarrow> r | None \<Rightarrow> system_error))
             else finish)))"

section \<open>The second factor\<close>

definition mfa_page :: "cookies \<Rightarrow> auth_result" where
  "mfa_page jar = (if cookie jar mfa_cookie = None then answer_only (AuthRedirect ''/auth/login'')
     else answer_only (AuthPage 200 ''mfa''))"

definition mfa_error :: string where "mfa_error = ''That code did not work. Try the next one from your app.''"

definition mfa_verify_endpoint ::
  "auth_world \<Rightarrow> gotrue \<Rightarrow> bool \<Rightarrow> cookies \<Rightarrow> string \<Rightarrow> string \<Rightarrow> string \<Rightarrow> string \<Rightarrow> auth_result" where
  "mfa_verify_endpoint w gt json jar body_code factor challenge next_url =
     (case cookie jar mfa_cookie of
        None \<Rightarrow> answer_only (AuthRedirect ''/auth/login'')
      | Some token \<Rightarrow>
          if factor = [] then answer_only (AuthRedirect ''/auth/login'')
          else (case gt_verify_totp gt token factor challenge (strip body_code) of
              None \<Rightarrow>
                (case token_sub w token of
                   Inl _ \<Rightarrow> answer_only AuthException
                 | Inr _ \<Rightarrow>
                     if json then answer_only (AuthPage 401 mfa_error)
                     else (case gt_challenge gt token factor of
                         None \<Rightarrow> answer_only AuthException
                       | Some _ \<Rightarrow> answer_only (AuthPage 401 mfa_error)))
            | Some tokens \<Rightarrow>
                (case token_sub w (at_access tokens) of
                   Inl _ \<Rightarrow> answer_only AuthException
                 | Inr sub \<Rightarrow> session_issued w json tokens
                     [SignedIn sub (relayed_method (map_of jar mfa_method_cookie)) True]
                     [DeleteCookie mfa_cookie, DeleteCookie mfa_refresh_cookie, DeleteCookie mfa_method_cookie]
                     (safe_next next_url))))"

definition logout_endpoint :: "auth_world \<Rightarrow> cookies \<Rightarrow> auth_result" where
  "logout_endpoint w jar =
     \<lparr>ar_facts = (case cookie jar ''access_token'' of
          None \<Rightarrow> []
        | Some token \<Rightarrow> [SignedOut (case token_sub w token of Inl _ \<Rightarrow> None | Inr sub \<Rightarrow> sub)]),
      ar_cookies = [DeleteCookie ''access_token'', DeleteCookie ''refresh_token''],
      ar_answer = AuthRedirect ''/auth/login''\<rparr>"

section \<open>Passkeys and providers\<close>

definition passkey_verify_endpoint ::
  "auth_world \<Rightarrow> gotrue \<Rightarrow> string \<Rightarrow> string \<Rightarrow> string \<Rightarrow> auth_result" where
  "passkey_verify_endpoint w gt challenge credential next_url =
     (if \<not> us_passkeys (aw_settings w) then answer_only (AuthRefused 404 ''Not found'')
      else if challenge = [] \<or> credential = []
      then answer_only (AuthPage 400 ''challenge_id and credential are required.'')
      else (case gt_passkey gt challenge credential of
          Inl message \<Rightarrow> answer_only (AuthPage 401 message)
        | Inr tokens \<Rightarrow>
            (let finish = (case token_sub w (at_access tokens) of
                 Inl _ \<Rightarrow> answer_only AuthException
               | Inr sub \<Rightarrow> session_issued w True tokens [SignedIn sub ByPasskey False] [] (safe_next next_url)) in
             if us_two_factor (aw_settings w)
             then (case verified_totp_factor gt (at_access tokens) of
                 Inl _ \<Rightarrow> answer_only AuthException
               | Inr None \<Rightarrow> finish
               | Inr (Some factor) \<Rightarrow>
                   if factor = [] then finish
                   else (case mfa_challenge_response gt tokens factor (safe_next next_url) ByPasskey of
                       Some r \<Rightarrow> r | None \<Rightarrow> answer_only AuthException))
             else finish)))"

definition oauth_verifier_cookie :: string where "oauth_verifier_cookie = ''oauth_code_verifier''"
definition oauth_next_cookie :: string where "oauth_next_cookie = ''oauth_next''"

definition clear_oauth_cookies :: "cookie_change list" where
  "clear_oauth_cookies = [DeleteCookie oauth_verifier_cookie, DeleteCookie oauth_next_cookie]"

definition oauth_start ::
  "auth_world \<Rightarrow> (string \<Rightarrow> string \<Rightarrow> string) \<Rightarrow> string \<times> string \<Rightarrow> string \<Rightarrow> string \<Rightarrow> auth_result" where
  "oauth_start w authorize_url pkce provider next_url =
     (if provider \<notin> set (enabled_oauth_providers (aw_settings w)) then answer_only (AuthRefused 404 ''Not found'')
      else \<lparr>ar_facts = [],
            ar_cookies = [SetCookie oauth_verifier_cookie (fst pkce) 300, SetCookie oauth_next_cookie next_url 300],
            ar_answer = AuthRedirect (authorize_url provider (snd pkce))\<rparr>)"

definition oauth_failure :: "string \<Rightarrow> auth_result" where
  "oauth_failure message = \<lparr>ar_facts = [], ar_cookies = clear_oauth_cookies, ar_answer = AuthPage 401 message\<rparr>"

definition oauth_callback ::
  "auth_world \<Rightarrow> gotrue \<Rightarrow> cookies \<Rightarrow> string \<Rightarrow> string \<Rightarrow> auth_result" where
  "oauth_callback w gt jar code error_description =
     (case cookie jar oauth_verifier_cookie of
        None \<Rightarrow> oauth_failure (if error_description = [] then ''Sign-in with the provider failed. Please try again.'' else error_description)
      | Some verifier \<Rightarrow>
          if code = []
          then oauth_failure (if error_description = [] then ''Sign-in with the provider failed. Please try again.'' else error_description)
          else (case gt_exchange gt code verifier of
              Inl message \<Rightarrow> oauth_failure message
            | Inr tokens \<Rightarrow>
                (case token_sub w (at_access tokens) of
                   Inl _ \<Rightarrow> answer_only AuthException
                 | Inr sub \<Rightarrow>
                     (let next_url = dict_get jar oauth_next_cookie [];
                          finish = session_issued w False tokens [SignedIn sub ByOauth False] clear_oauth_cookies (safe_next next_url) in
                      if us_two_factor (aw_settings w)
                      then (case verified_totp_factor gt (at_access tokens) of
                          Inl _ \<Rightarrow> answer_only AuthException
                        | Inr None \<Rightarrow> finish
                        | Inr (Some factor) \<Rightarrow>
                            if factor = [] then finish
                            else (case mfa_challenge_response gt tokens factor next_url ByOauth of
                                Some r \<Rightarrow> r\<lparr>ar_cookies := ar_cookies r @ clear_oauth_cookies\<rparr>
                              | None \<Rightarrow> answer_only AuthException))
                      else finish))))"

section \<open>Accounts and mailed links\<close>

definition register_endpoint :: "gotrue \<Rightarrow> bool \<Rightarrow> string \<Rightarrow> string \<Rightarrow> string \<Rightarrow> auth_result" where
  "register_endpoint gt json email password next_url =
     (if email = [] \<or> password = [] then answer_only (AuthPage 400 ''Email and password are required.'')
      else (case gt_register gt email password of
          Inr token \<Rightarrow>
            if json then answer_only (AuthPage 201 ''Account created. Please verify your email.'')
            else \<lparr>ar_facts = [], ar_cookies = [DeleteCookie ''access_token'', DeleteCookie ''refresh_token''],
                  ar_answer = AuthRedirect (''/auth/login?info='' @ (if token = None then ''registered_pending_email'' else ''registered_active'')
                    @ (if next_url = [] then [] else ''&next='' @ next_url))\<rparr>
        | Inl (GtAuthError d code message (Some reasons)) \<Rightarrow>
            answer_only (AuthPage 400 (''Password too weak: '' @ format_weak_password_reasons reasons))
        | Inl (GtAuthError d code message None) \<Rightarrow>
            if is_refusal d then answer_only (AuthPage 400 (friendly_auth_error code message))
            else answer_only (AuthPage 400 ''An unexpected error occurred.'')
        | Inl (GtOther d) \<Rightarrow> answer_only (AuthPage 400 ''An unexpected error occurred.'')))"

definition resend_confirmation_endpoint :: "auth_world \<Rightarrow> gotrue \<Rightarrow> (string \<Rightarrow> bool) \<Rightarrow> string \<Rightarrow> auth_result" where
  "resend_confirmation_endpoint w gt awaiting body_email =
     (if \<not> us_resend_confirmation (aw_settings w) then answer_only (AuthRefused 404 ''Not found'')
      else let email = lower (strip body_email) in
        \<lparr>ar_facts = (if email \<noteq> [] \<and> gt_resend gt email = None \<and> awaiting email then [ConfirmationResent email] else []),
         ar_cookies = [],
         ar_answer = AuthPage 200 ''If an account exists for this address, a confirmation email is on its way.''\<rparr>)"

definition stale_reset_link :: string where
  "stale_reset_link = ''This reset link is invalid or has expired. Please request a new one.''"

definition reset_password_endpoint :: "auth_world \<Rightarrow> gotrue \<Rightarrow> bool \<Rightarrow> string \<Rightarrow> string \<Rightarrow> auth_result" where
  "reset_password_endpoint w gt json token_hash password =
     (case gt_confirm gt token_hash ''recovery'' of
        Inl _ \<Rightarrow> answer_only (AuthPage 400 stale_reset_link)
      | Inr tokens \<Rightarrow>
          (case gt_update_password gt (at_access tokens) password of
             PasswordUpdateError text exc \<Rightarrow> answer_only (AuthPage 400
                (if is_refusal exc then text @ ''. Please request a new reset link.'' else stale_reset_link))
           | PasswordUpdateBroke \<Rightarrow> answer_only (AuthPage 400 stale_reset_link)
           | PasswordUpdated \<Rightarrow>
               (case token_sub w (at_access tokens) of
                  Inl _ \<Rightarrow> answer_only AuthException
                | Inr sub \<Rightarrow> \<lparr>ar_facts = [PasswordReset sub], ar_cookies = [],
                    ar_answer = (if json then AuthPage 200 ''Your password was changed. You can now sign in.''
                                 else AuthRedirect ''/auth/login?info=password_reset'')\<rparr>)))"

definition confirm_email_endpoint :: "auth_world \<Rightarrow> gotrue \<Rightarrow> string \<Rightarrow> auth_result" where
  "confirm_email_endpoint w gt token_hash =
     (case gt_confirm gt token_hash ''email_change'' of
        Inl _ \<Rightarrow> answer_only (AuthRedirect ''/auth/login?info=email_change_failed'')
      | Inr tokens \<Rightarrow>
          (case token_sub w (at_access tokens) of
             Inl _ \<Rightarrow> answer_only AuthException
           | Inr sub \<Rightarrow>
               (let finish = session_issued w False tokens [EmailChanged sub, SignedIn sub ByEmailLink False] [] ''/profile'' in
                if us_two_factor (aw_settings w)
                then (case verified_totp_factor gt (at_access tokens) of
                    Inl _ \<Rightarrow> answer_only AuthException
                  | Inr None \<Rightarrow> finish
                  | Inr (Some factor) \<Rightarrow>
                      if factor = [] then finish
                      else \<lparr>ar_facts = [EmailChanged sub], ar_cookies = [],
                            ar_answer = AuthRedirect ''/auth/login?info=email_changed''\<rparr>)
                else finish)))"

definition confirm_endpoint :: "auth_world \<Rightarrow> gotrue \<Rightarrow> string \<Rightarrow> string \<Rightarrow> string \<Rightarrow> auth_result" where
  "confirm_endpoint w gt token_hash link_type body_next =
     (case gt_confirm gt token_hash link_type of
        Inl _ \<Rightarrow> answer_only (AuthRedirect ''/auth/login?info=confirm_failed'')
      | Inr tokens \<Rightarrow>
          (case token_sub w (at_access tokens) of
             Inl _ \<Rightarrow> answer_only (AuthRedirect ''/auth/login?info=confirm_failed'')
           | Inr sub \<Rightarrow> session_issued w False tokens [SignedIn sub ByEmailLink False] []
               (safe_next (if body_next = [] then ''/profile'' else body_next))))"

section \<open>Impersonation\<close>

definition impersonation_max_seconds :: int where "impersonation_max_seconds = 3600"

definition impersonate_endpoint ::
  "auth_world \<Rightarrow> gotrue \<Rightarrow> (string \<Rightarrow> uuid option) \<Rightarrow> bool \<Rightarrow> cookies \<Rightarrow> auth_user \<Rightarrow> string \<Rightarrow> auth_result" where
  "impersonate_endpoint w gt find_user json jar admin body_email =
     (let email = lower (strip body_email) in
      case cookie jar ''access_token'' of
        None \<Rightarrow> answer_only (AuthRefused 400 ''Pick another user's email.'')
      | Some access \<Rightarrow>
          if email = [] \<or> email = lower (au_email admin) then answer_only (AuthRefused 400 ''Pick another user's email.'')
          else (case gt_magiclink gt email of
              None \<Rightarrow> answer_only (AuthRefused 404 ''No user with this email.'')
            | Some tokens \<Rightarrow>
                (let age = impersonation_max_seconds; deadline = aw_now w + age in
                 \<lparr>ar_facts = [ImpersonationStarted (au_id admin) (find_user email) email],
                  ar_cookies = [SetCookie impersonator_cookie access age,
                    SetCookie impersonator_refresh_cookie (dict_get jar ''refresh_token'' []) age,
                    SetCookie impersonator_deadline_cookie (str_int deadline) age,
                    SetCookie ''access_token'' (at_access tokens) age,
                    SetCookie ''refresh_token'' (at_refresh tokens) age],
                  ar_answer = (if json then AuthPage 200 email else AuthRedirect ''/profile'')\<rparr>)))"

definition stop_impersonation_endpoint :: "auth_world \<Rightarrow> bool \<Rightarrow> cookies \<Rightarrow> auth_user \<Rightarrow> auth_result" where
  "stop_impersonation_endpoint w json jar user =
     (case cookie jar impersonator_cookie of
        None \<Rightarrow> answer_only (AuthRedirect ''/profile'')
      | Some stash \<Rightarrow>
          \<lparr>ar_facts = [ImpersonationStopped (case token_sub w stash of Inl _ \<Rightarrow> None | Inr sub \<Rightarrow> sub) (au_id user) (au_email user)],
           ar_cookies = set_auth_cookies (aw_settings w) \<lparr>at_access = stash,
               at_refresh = dict_get jar impersonator_refresh_cookie []\<rparr> None
             @ [DeleteCookie impersonator_cookie, DeleteCookie impersonator_refresh_cookie, DeleteCookie impersonator_deadline_cookie],
           ar_answer = (if json then AuthPage 200 [] else AuthRedirect ''/console'')\<rparr>)"


section \<open>Every way to a session\<close>

datatype auth_request =
    PostLogin bool string string string
  | PostMfa bool string string string string
  | PostLogout
  | PostPasskey string string string
  | GetOauthStart "string \<times> string" string string
  | GetOauthCallback string string
  | PostRegister bool string string string
  | PostResend string
  | PostReset bool string string
  | PostConfirmEmail string
  | PostConfirm string string string
  | PostImpersonate bool auth_user string
  | PostStopImpersonation bool auth_user

record auth_services =
  av_find_user :: "string \<Rightarrow> uuid option"
  av_awaiting :: "string \<Rightarrow> bool"
  av_authorize_url :: "string \<Rightarrow> string \<Rightarrow> string"

fun auth_handle :: "auth_world \<Rightarrow> gotrue \<Rightarrow> auth_services \<Rightarrow> cookies \<Rightarrow> auth_request \<Rightarrow> auth_result" where
  "auth_handle w gt sv jar (PostLogin json email password next_url) = login_endpoint w gt json email password next_url" |
  "auth_handle w gt sv jar (PostMfa json code factor challenge next_url) = mfa_verify_endpoint w gt json jar code factor challenge next_url" |
  "auth_handle w gt sv jar PostLogout = logout_endpoint w jar" |
  "auth_handle w gt sv jar (PostPasskey challenge credential next_url) = passkey_verify_endpoint w gt challenge credential next_url" |
  "auth_handle w gt sv jar (GetOauthStart pkce provider next_url) = oauth_start w (av_authorize_url sv) pkce provider next_url" |
  "auth_handle w gt sv jar (GetOauthCallback code description) = oauth_callback w gt jar code description" |
  "auth_handle w gt sv jar (PostRegister json email password next_url) = register_endpoint gt json email password next_url" |
  "auth_handle w gt sv jar (PostResend email) = resend_confirmation_endpoint w gt (av_awaiting sv) email" |
  "auth_handle w gt sv jar (PostReset json token_hash password) = reset_password_endpoint w gt json token_hash password" |
  "auth_handle w gt sv jar (PostConfirmEmail token_hash) = confirm_email_endpoint w gt token_hash" |
  "auth_handle w gt sv jar (PostConfirm token_hash link_type next_url) = confirm_endpoint w gt token_hash link_type next_url" |
  "auth_handle w gt sv jar (PostImpersonate json admin email) = impersonate_endpoint w gt (av_find_user sv) json jar admin email" |
  "auth_handle w gt sv jar (PostStopImpersonation json user) = stop_impersonation_endpoint w json jar user"

definition is_session_fact :: "auth_fact \<Rightarrow> bool" where
  "is_session_fact f = (case f of SignedIn _ _ _ \<Rightarrow> True | ImpersonationStarted _ _ _ \<Rightarrow> True
     | ImpersonationStopped _ _ _ \<Rightarrow> True | _ \<Rightarrow> False)"

definition delivered :: "auth_result \<Rightarrow> string list" where
  "delivered r = List.map_filter (\<lambda>c. case c of SetCookie name v _ \<Rightarrow> if name = ''access_token'' then Some v else None
     | DeleteCookie _ \<Rightarrow> None) (ar_cookies r)"

text \<open>
  What vouches for a session.  A sign-in names the subject of the session; with the second factor, the
  server verified the code against the pending session of the cookie; without, an enrolled authenticator
  would have been asked, the mailed sign-up link excepted.  A disguise is the session the server minted for
  the mailbox asked, on behalf of the administrator; its end gives back the stashed session.
\<close>

definition second_factor_settled :: "auth_world \<Rightarrow> gotrue \<Rightarrow> string \<Rightarrow> bool" where
  "second_factor_settled w gt token \<longleftrightarrow> \<not> us_two_factor (aw_settings w)
     \<or> verified_totp_factor gt token = Inr None \<or> verified_totp_factor gt token = Inr (Some [])"

definition code_verified :: "gotrue \<Rightarrow> cookies \<Rightarrow> auth_request \<Rightarrow> string \<Rightarrow> bool" where
  "code_verified gt jar rq token = (case rq of
       PostMfa json code factor challenge next_url \<Rightarrow> (case cookie jar mfa_cookie of
           None \<Rightarrow> False
         | Some pending \<Rightarrow> map_option at_access (gt_verify_totp gt pending factor challenge (strip code)) = Some token)
     | _ \<Rightarrow> False)"

definition is_signup_link :: "auth_request \<Rightarrow> bool" where
  "is_signup_link rq = (case rq of PostConfirm _ _ _ \<Rightarrow> True | _ \<Rightarrow> False)"

definition fact_fits :: "auth_world \<Rightarrow> gotrue \<Rightarrow> auth_services \<Rightarrow> cookies \<Rightarrow> auth_request \<Rightarrow> auth_fact \<Rightarrow> string \<Rightarrow> bool" where
  "fact_fits w gt sv jar rq f token = (case f of
       SignedIn sub m two \<Rightarrow> token_sub w token = Inr sub
         \<and> (if two then code_verified gt jar rq token else is_signup_link rq \<or> second_factor_settled w gt token)
     | ImpersonationStarted admin_id target email \<Rightarrow> (case rq of
           PostImpersonate json admin body_email \<Rightarrow> admin_id = au_id admin \<and> email = lower (strip body_email)
             \<and> email \<noteq> lower (au_email admin) \<and> cookie jar ''access_token'' \<noteq> None
             \<and> target = av_find_user sv email \<and> map_option at_access (gt_magiclink gt email) = Some token
         | _ \<Rightarrow> False)
     | ImpersonationStopped sub target_id email \<Rightarrow> cookie jar impersonator_cookie = Some token
         \<and> (case token_sub w token of Inl _ \<Rightarrow> sub = None | Inr s \<Rightarrow> sub = s)
         \<and> (case rq of PostStopImpersonation json user \<Rightarrow> target_id = au_id user \<and> email = au_email user | _ \<Rightarrow> False)
     | _ \<Rightarrow> False)"

text \<open>The facts and the session of a result fit: none and none, or one and one that vouch for each other.\<close>

definition result_fits :: "auth_world \<Rightarrow> gotrue \<Rightarrow> auth_services \<Rightarrow> cookies \<Rightarrow> auth_request \<Rightarrow> auth_result \<Rightarrow> bool" where
  "result_fits w gt sv jar rq r \<longleftrightarrow>
     (case filter is_session_fact (ar_facts r) of
        [] \<Rightarrow> delivered r = []
      | [f] \<Rightarrow> (case delivered r of [token] \<Rightarrow> fact_fits w gt sv jar rq f token | _ \<Rightarrow> False)
      | _ \<Rightarrow> False)"

lemma map_filter_simps [simp]:
  "List.map_filter f [] = []"
  "List.map_filter f (x # xs) = (case f x of None \<Rightarrow> List.map_filter f xs | Some y \<Rightarrow> y # List.map_filter f xs)"
  by (simp_all add: List.map_filter_simps)

lemma map_filter_append [simp]: "List.map_filter f (xs @ ys) = List.map_filter f xs @ List.map_filter f ys"
  by (induction xs) (auto split: option.splits)

lemma fits_answer_only [simp]: "result_fits w gt sv jar rq (answer_only a)"
  by (simp add: result_fits_def delivered_def answer_only_def)

lemma fits_system_error [simp]: "result_fits w gt sv jar rq system_error"
  by (simp add: system_error_def)

lemma fits_oauth_failure [simp]: "result_fits w gt sv jar rq (oauth_failure m)"
  by (simp add: result_fits_def delivered_def oauth_failure_def clear_oauth_cookies_def)

lemma fits_challenge:
  "mfa_challenge_response gt tokens factor url m = Some r \<Longrightarrow> result_fits w gt sv jar rq r
    \<and> result_fits w gt sv jar rq (r\<lparr>ar_cookies := ar_cookies r @ clear_oauth_cookies\<rparr>)"
  by (auto simp: mfa_challenge_response_def result_fits_def delivered_def clear_oauth_cookies_def mfa_cookie_def
      mfa_refresh_cookie_def mfa_method_cookie_def split: option.splits)

lemma fits_session:
  assumes "token_sub w (at_access tokens) = Inr sub"
    and "filter is_session_fact facts = [SignedIn sub m two]"
    and "if two then code_verified gt jar rq (at_access tokens)
      else is_signup_link rq \<or> second_factor_settled w gt (at_access tokens)"
    and "\<forall>c \<in> set changes. \<exists>name. c = DeleteCookie name"
  shows "result_fits w gt sv jar rq (session_issued w json tokens facts changes url)"
proof -
  have "List.map_filter (\<lambda>c. case c of SetCookie name v _ \<Rightarrow> if name = ''access_token'' then Some v else None
     | DeleteCookie _ \<Rightarrow> None) changes = []"
    using assms(4) by (induction changes) auto
  then have "delivered (session_issued w json tokens facts changes url) = [at_access tokens]"
    by (simp add: delivered_def session_issued_def set_auth_cookies_def Let_def)
  then show ?thesis using assms(1-3) by (simp add: result_fits_def fact_fits_def session_issued_def)
qed

lemmas signed_in_simps = is_session_fact_def clear_oauth_cookies_def second_factor_settled_def code_verified_def is_signup_link_def

lemma fits_login: "result_fits w gt sv jar (PostLogin json email password next_url) (login_endpoint w gt json email password next_url)"
  by (auto simp: login_endpoint_def Let_def signed_in_simps intro!: fits_session dest: fits_challenge
      split: sum.splits gotrue_failure.splits option.splits)

lemma fits_passkey: "result_fits w gt sv jar (PostPasskey challenge credential next_url) (passkey_verify_endpoint w gt challenge credential next_url)"
  by (auto simp: passkey_verify_endpoint_def Let_def signed_in_simps intro!: fits_session dest: fits_challenge
      split: sum.splits option.splits)

lemma fits_callback: "result_fits w gt sv jar (GetOauthCallback code description) (oauth_callback w gt jar code description)"
  by (auto simp: oauth_callback_def Let_def signed_in_simps intro!: fits_session dest: fits_challenge
      split: sum.splits option.splits)

lemma fits_mfa:
  "result_fits w gt sv jar (PostMfa json code factor challenge next_url) (mfa_verify_endpoint w gt json jar code factor challenge next_url)"
  by (auto simp: mfa_verify_endpoint_def signed_in_simps intro!: fits_session split: sum.splits option.splits)

lemma fits_confirm_email: "result_fits w gt sv jar (PostConfirmEmail token_hash) (confirm_email_endpoint w gt token_hash)"
  by (auto simp: confirm_email_endpoint_def Let_def signed_in_simps intro!: fits_session split: sum.splits option.splits)
    (simp add: result_fits_def delivered_def is_session_fact_def)

lemma fits_confirm: "result_fits w gt sv jar (PostConfirm token_hash link_type next_url) (confirm_endpoint w gt token_hash link_type next_url)"
  by (auto simp: confirm_endpoint_def signed_in_simps intro!: fits_session split: sum.splits)

lemma fits_impersonate:
  "result_fits w gt sv jar (PostImpersonate json admin email) (impersonate_endpoint w gt (av_find_user sv) json jar admin email)"
  by (auto simp: impersonate_endpoint_def Let_def result_fits_def delivered_def is_session_fact_def fact_fits_def
      impersonator_cookie_def impersonator_refresh_cookie_def impersonator_deadline_cookie_def answer_only_def
      split: option.splits)

lemma fits_stop: "result_fits w gt sv jar (PostStopImpersonation json user) (stop_impersonation_endpoint w json jar user)"
  by (auto simp: stop_impersonation_endpoint_def result_fits_def delivered_def is_session_fact_def fact_fits_def
      set_auth_cookies_def answer_only_def Let_def split: option.splits sum.splits)

lemma fits_handle: "result_fits w gt sv jar rq (auth_handle w gt sv jar rq)"
proof (cases rq)
  case PostLogout
  then show ?thesis by (auto simp: logout_endpoint_def result_fits_def delivered_def is_session_fact_def split: option.splits)
next
  case (GetOauthStart pkce provider next_url)
  then show ?thesis by (auto simp: oauth_start_def result_fits_def delivered_def oauth_verifier_cookie_def
        oauth_next_cookie_def answer_only_def)
next
  case (PostRegister json email password next_url)
  then show ?thesis by (auto simp: register_endpoint_def result_fits_def delivered_def answer_only_def
        split: sum.splits gotrue_failure.splits option.splits)
next
  case (PostResend email)
  then show ?thesis by (auto simp: resend_confirmation_endpoint_def result_fits_def delivered_def Let_def
        is_session_fact_def answer_only_def)
next
  case (PostReset json token_hash password)
  then show ?thesis by (auto simp: reset_password_endpoint_def result_fits_def delivered_def is_session_fact_def
        answer_only_def split: sum.splits option.splits password_update.splits)
qed (simp_all add: fits_login fits_passkey fits_callback fits_mfa fits_confirm_email fits_confirm fits_impersonate fits_stop)

text \<open>
  C8.  Signing in is one fact.  A response of the sign-in routes hands a session over exactly when it
  emits one session fact, and never two of either.  The session of a sign-in is the one of the fact's
  subject: recorded with a second factor, it is the session the server answered to the code, for the
  pending session of the cookie; recorded without, the two-factor setting is off or the account has no
  enrolled authenticator, the mailed sign-up link being the one route that does not ask.  A recorded
  disguise hands over the session minted for the mailbox asked, in exchange for an administrator's
  session with another address; its end hands back the stashed session.
\<close>

theorem signing_in_is_one_fact:
  "(filter is_session_fact (ar_facts (auth_handle w gt sv jar rq)) = [] \<and> delivered (auth_handle w gt sv jar rq) = [])
   \<or> (\<exists>f token. filter is_session_fact (ar_facts (auth_handle w gt sv jar rq)) = [f]
        \<and> delivered (auth_handle w gt sv jar rq) = [token] \<and> fact_fits w gt sv jar rq f token)"
  using fits_handle[of w gt sv jar rq] unfolding result_fits_def by (auto split: list.splits)

section \<open>The impersonation window\<close>

lemma cookie_apply_set: "cookie (apply_change (SetCookie n v age) jar) name = (if name = n then (if v = [] then None else Some v) else cookie jar name)"
  by (simp add: cookie_def apply_change_def map_of_AList_update)

definition session_ages :: "cookie_change list \<Rightarrow> int list" where
  "session_ages changes = List.map_filter (\<lambda>c. case c of SetCookie _ _ age \<Rightarrow> Some age | DeleteCookie _ \<Rightarrow> None) changes"

text \<open>
  Refreshing never extends a disguise.  A browser that started an impersonation and keeps the
  cookies it was handed can refresh the target's session only while the hour lasts: at any later
  moment the refreshed cookies expire within what is left of that hour, and once it has elapsed a
  request with an expired token authenticates nobody and is handed nothing.
\<close>

theorem impersonation_window_bounds:
  assumes "ar_facts r = [ImpersonationStarted (au_id admin) target email]"
    and "r = impersonate_endpoint w gt find_user json jar admin body_email"
    and "jar' = fold apply_change (ar_cookies r) jar"
    and "refresh_and_admit w' jar' = (outcome, changes)"
  shows "(\<forall>age \<in> set (session_ages changes). 0 < age \<and> aw_now w' + age \<le> aw_now w + 3600)
    \<and> (aw_now w + 3600 \<le> aw_now w' \<longrightarrow> changes = [] \<and> (\<forall>u. outcome \<noteq> Authenticated u))"
proof -
  obtain access ta tr where r: "ar_cookies r = [SetCookie impersonator_cookie access 3600,
      SetCookie impersonator_refresh_cookie (dict_get jar ''refresh_token'' []) 3600,
      SetCookie impersonator_deadline_cookie (str_int (aw_now w + 3600)) 3600,
      SetCookie ''access_token'' ta 3600, SetCookie ''refresh_token'' tr 3600]"
    using assms(1,2) by (auto simp: impersonate_endpoint_def Let_def answer_only_def impersonation_max_seconds_def
        split: option.splits if_splits)
  have "cookie jar' impersonator_deadline_cookie = Some (str_int (aw_now w + 3600))"
    unfolding assms(3) r by (simp add: cookie_apply_set impersonator_cookie_def impersonator_refresh_cookie_def
        impersonator_deadline_cookie_def)
  then have ttl: "impersonation_remaining w' (cookie jar' impersonator_deadline_cookie) = Some (aw_now w + 3600 - aw_now w')"
    by (simp add: impersonation_remaining_def)
  show ?thesis using assms(4) unfolding refresh_and_admit_def ttl
    by (auto simp: Let_def set_auth_cookies_def session_ages_def split: option.splits if_splits sum.splits)
qed


definition demo_tokens :: auth_tokens where
  "demo_tokens = \<lparr>at_access = ''other'', at_refresh = ''r3''\<rparr>"

definition demo_gotrue :: gotrue where
  "demo_gotrue = \<lparr>gt_login = (\<lambda>e p. Inr demo_tokens), gt_user = (\<lambda>t. \<lparr>gu_status = 200, gu_factors = []\<rparr>),
     gt_challenge = (\<lambda>t f. Some ''c''), gt_verify_totp = (\<lambda>t f c k. Some demo_tokens),
     gt_passkey = (\<lambda>c k. Inr demo_tokens), gt_exchange = (\<lambda>c v. Inr demo_tokens),
     gt_confirm = (\<lambda>h k. Inr demo_tokens), gt_update_password = (\<lambda>t p. PasswordUpdated), gt_register = (\<lambda>e p. Inr None),
     gt_magiclink = (\<lambda>e. Some demo_tokens), gt_resend = (\<lambda>e. None)\<rparr>"

definition demo_admin :: auth_user where
  "demo_admin = \<lparr>au_id = 2, au_email = ''ann@x'', au_is_admin = True, au_claims = None, au_api_key_org = None\<rparr>"

lemma impersonation_window_bounds_witness:
  "snd (refresh_and_admit (demo_world\<lparr>aw_now := 5000\<rparr>)
     (fold apply_change (ar_cookies (impersonate_endpoint demo_world demo_gotrue (\<lambda>_. Some 5) True
        [(''access_token'', ''tok''), (''refresh_token'', ''r1'')] demo_admin ''bob@x''))
       [(''access_token'', ''tok''), (''refresh_token'', ''r1'')])) = []"
proof -
  let ?jar = "[(''access_token'', ''tok''), (''refresh_token'', ''r1'')]"
  let ?r = "impersonate_endpoint demo_world demo_gotrue (\<lambda>_. Some 5) True ?jar demo_admin ''bob@x''"
  have "lower (strip ''bob@x'') = ''bob@x''" "lower (au_email demo_admin) = ''ann@x''" by code_simp+
  then have facts: "ar_facts ?r = [ImpersonationStarted (au_id demo_admin) (Some 5) ''bob@x'']"
    by (simp add: impersonate_endpoint_def cookie_def demo_gotrue_def Let_def)
  obtain outcome changes where run: "refresh_and_admit (demo_world\<lparr>aw_now := 5000\<rparr>) (fold apply_change (ar_cookies ?r) ?jar)
      = (outcome, changes)" by force
  have "aw_now demo_world + 3600 \<le> aw_now (demo_world\<lparr>aw_now := 5000\<rparr>)" by (simp add: demo_world_def)
  then have "changes = []" using impersonation_window_bounds[OF facts refl refl run] by blast
  then show ?thesis unfolding run by simp
qed

end
