(* ===== verification/Admin_Directory.thy ===== *)
theory Admin_Directory
  imports Auth_Session Keep_One
begin

text \<open>
  \<open>apps/auth/infra/user_repository.py\<close> and the listing of \<open>accounts_router.py\<close>: the accounts GoTrue
  keeps, read page by page, and what the server makes of them.  GoTrue's admin API is a parameter: a
  record of its calls over a directory of an unspecified type.  What the code relies on is the
  predicate \<open>admin_api_ok\<close>: a page is a slice of one list of accounts, and a call that succeeds changes
  the one account it names.
\<close>

section \<open>Accounts and the admin API\<close>

record gotrue_account =
  ga_id :: uuid
  ga_email :: "string option"
  ga_role :: "string option"
  ga_banned_until :: bool
  ga_deleted_at :: bool
  ga_created_on :: string
  ga_confirmed :: bool

text \<open>An update lands, lands with an unreadable answer (\<open>ValidationError\<close>), or is refused.\<close>

datatype 'd api_update = Written 'd | WrittenUnreadable 'd | ApiRefused

record 'd admin_api =
  api_list_users :: "'d \<Rightarrow> nat \<Rightarrow> nat \<Rightarrow> gotrue_account list"
  api_set_role :: "uuid \<Rightarrow> string option \<Rightarrow> 'd \<Rightarrow> 'd api_update"
  api_set_ban :: "uuid \<Rightarrow> bool \<Rightarrow> 'd \<Rightarrow> 'd api_update"
  api_soft_delete :: "uuid \<Rightarrow> 'd \<Rightarrow> 'd api_update"

definition update_dir :: "'d api_update \<Rightarrow> 'd option" where
  "update_dir a = (case a of Written d \<Rightarrow> Some d | WrittenUnreadable d \<Rightarrow> Some d | ApiRefused \<Rightarrow> None)"

definition role_set :: "uuid \<Rightarrow> string option \<Rightarrow> gotrue_account list \<Rightarrow> gotrue_account list" where
  "role_set u r = update_where (\<lambda>a. ga_id a = u) (\<lambda>a. a\<lparr>ga_role := r\<rparr>)"

definition ban_set :: "uuid \<Rightarrow> bool \<Rightarrow> gotrue_account list \<Rightarrow> gotrue_account list" where
  "ban_set u b = update_where (\<lambda>a. ga_id a = u) (\<lambda>a. a\<lparr>ga_banned_until := b\<rparr>)"

definition soft_deleted :: "uuid \<Rightarrow> gotrue_account list \<Rightarrow> gotrue_account list" where
  "soft_deleted u = update_where (\<lambda>a. ga_id a = u) (\<lambda>a. a\<lparr>ga_deleted_at := True\<rparr>)"

definition admin_api_ok :: "'d admin_api \<Rightarrow> ('d \<Rightarrow> gotrue_account list) \<Rightarrow> bool" where
  "admin_api_ok api accounts \<longleftrightarrow>
     (\<forall>d page n. 1 \<le> page \<longrightarrow> api_list_users api d page n = take n (drop ((page - 1) * n) (accounts d)))
   \<and> (\<forall>d d' u r. update_dir (api_set_role api u r d) = Some d' \<longrightarrow> accounts d' = role_set u r (accounts d))
   \<and> (\<forall>d d' u b. update_dir (api_set_ban api u b d) = Some d' \<longrightarrow> accounts d' = ban_set u b (accounts d))
   \<and> (\<forall>d d' u. update_dir (api_soft_delete api u d) = Some d' \<longrightarrow> accounts d' = soft_deleted u (accounts d))"

section \<open>Reading the directory\<close>

definition page_size :: nat where "page_size = 1000"

partial_function (option) iter_all_users ::
  "(nat \<Rightarrow> nat \<Rightarrow> gotrue_account list) \<Rightarrow> nat \<Rightarrow> gotrue_account list option" where
  "iter_all_users list_users page =
     (let users = list_users page page_size; live = filter (\<lambda>u. \<not> ga_deleted_at u) users in
      if length users < page_size then Some live
      else Option.bind (iter_all_users list_users (page + 1)) (\<lambda>rest. Some (live @ rest)))"

record user_admin_status =
  ua_user_id :: uuid
  ua_email :: string
  ua_is_admin :: bool
  ua_is_banned :: bool

definition can_act :: "user_admin_status \<Rightarrow> bool" where
  "can_act u \<longleftrightarrow> ua_is_admin u \<and> \<not> ua_is_banned u"

definition has_admin_role :: "gotrue_account \<Rightarrow> bool" where
  "has_admin_role u \<longleftrightarrow> ga_role u = Some ''admin''"

definition is_user_banned :: "gotrue_account \<Rightarrow> bool" where
  "is_user_banned u = ga_banned_until u"

definition account_email :: "gotrue_account \<Rightarrow> string" where
  "account_email u = (case ga_email u of None \<Rightarrow> [] | Some e \<Rightarrow> e)"

definition admin_status :: "gotrue_account \<Rightarrow> user_admin_status" where
  "admin_status u = \<lparr>ua_user_id = ga_id u, ua_email = account_email u, ua_is_admin = has_admin_role u,
     ua_is_banned = is_user_banned u\<rparr>"

definition list_server_admins :: "'d admin_api \<Rightarrow> 'd \<Rightarrow> user_admin_status list option" where
  "list_server_admins api d = map_option (map admin_status) (iter_all_users (api_list_users api d) 1)"

definition count_server_admins :: "'d admin_api \<Rightarrow> 'd \<Rightarrow> nat option" where
  "count_server_admins api d = map_option (count_where ua_is_admin) (list_server_admins api d)"

definition set_server_admin :: "'d admin_api \<Rightarrow> uuid \<Rightarrow> bool \<Rightarrow> 'd \<Rightarrow> 'd option" where
  "set_server_admin api u is_admin d = update_dir (api_set_role api u (if is_admin then Some ''admin'' else None) d)"

definition find_user_id_by_email :: "'d admin_api \<Rightarrow> 'd \<Rightarrow> string \<Rightarrow> uuid option option" where
  "find_user_id_by_email api d email =
     map_option (\<lambda>us. map_option ga_id (List.find (\<lambda>u. account_email u \<noteq> [] \<and> lower (account_email u) = lower email) us))
       (iter_all_users (api_list_users api d) 1)"

section \<open>Looking accounts up by id\<close>

text \<open>Any failure resolves to the empty address; the batch is judged once.\<close>

definition report_lookup_failures :: "dependency_failure list \<Rightarrow> dependency_line option" where
  "report_lookup_failures failures = (case failures of
       [] \<Rightarrow> None
     | f # _ \<Rightarrow> Some (log_dependency_failure ''auth.user_lookup_failed''
          (case List.find (\<lambda>e. \<not> is_refusal e) failures of Some e \<Rightarrow> e | None \<Rightarrow> f)))"

definition resolve_user_emails ::
  "(uuid \<Rightarrow> dependency_failure + string option) \<Rightarrow> uuid list \<Rightarrow> (uuid, string) dict \<times> dependency_line option" where
  "resolve_user_emails get_user user_ids =
     (if user_ids = [] then ([], None)
      else let failures = List.map_filter (\<lambda>u. case get_user u of Inl e \<Rightarrow> Some e | Inr _ \<Rightarrow> None) user_ids in
        (fold (\<lambda>u d. AList.update u (case get_user u of Inr (Some e) \<Rightarrow> e | _ \<Rightarrow> []) d) user_ids [],
         report_lookup_failures failures))"

section \<open>The console's list\<close>

record account_row =
  ac_id :: uuid
  ac_email :: string
  ac_created_at :: string
  ac_confirmed :: bool
  ac_disabled :: bool
  ac_is_admin :: bool

definition account_row_of :: "gotrue_account \<Rightarrow> account_row" where
  "account_row_of u = \<lparr>ac_id = ga_id u, ac_email = account_email u, ac_created_at = ga_created_on u,
     ac_confirmed = ga_confirmed u, ac_disabled = is_user_banned u, ac_is_admin = has_admin_role u\<rparr>"

text \<open>A reversed stable sort keeps equal rows in their order.\<close>

definition list_accounts_rows :: "'d admin_api \<Rightarrow> 'd \<Rightarrow> account_row list option" where
  "list_accounts_rows api d =
     map_option (\<lambda>us. rev (sort_key ac_created_at (rev (map account_row_of us)))) (iter_all_users (api_list_users api d) 1)"

definition list_accounts :: "'d admin_api \<Rightarrow> bool \<Rightarrow> string \<Rightarrow> 'd \<Rightarrow> (nat + account_row list) option" where
  "list_accounts api enabled q d =
     (if \<not> enabled then Some (Inl 404)
      else let needle = lower (strip q) in
        map_option (\<lambda>rows. Inr (if needle = [] then rows else filter (\<lambda>a. contains (lower (ac_email a)) needle) rows))
          (list_accounts_rows api d))"

section \<open>The walk returns the live accounts\<close>

definition live_accounts :: "gotrue_account list \<Rightarrow> gotrue_account list" where
  "live_accounts = filter (\<lambda>u. \<not> ga_deleted_at u)"

lemma iter_from_page:
  assumes pages: "\<And>p. list_users (Suc p) page_size = take page_size (drop (p * page_size) xs)"
  shows "iter_all_users list_users (Suc p) = Some (live_accounts (drop (p * page_size) xs))"
proof (induction "length xs - p * page_size" arbitrary: p rule: less_induct)
  case less
  let ?rest = "drop (p * page_size) xs"
  show ?case
  proof (cases "length ?rest < page_size")
    case True
    then show ?thesis
      by (subst iter_all_users.simps) (simp add: pages live_accounts_def)
  next
    case False
    then have shorter: "length xs - Suc p * page_size < length xs - p * page_size"
      by (simp add: page_size_def)
    have "drop page_size ?rest = drop (Suc p * page_size) xs" by (simp add: add.commute)
    then have split: "?rest = take page_size ?rest @ drop (Suc p * page_size) xs"
      by (metis append_take_drop_id)
    have "live_accounts ?rest = live_accounts (take page_size ?rest) @ live_accounts (drop (Suc p * page_size) xs)"
      by (subst split) (simp only: live_accounts_def filter_append)
    then show ?thesis
      using False less[OF shorter] by (subst iter_all_users.simps) (simp add: pages Let_def live_accounts_def)
  qed
qed

lemma iter_all_users_ok:
  assumes "admin_api_ok api accounts"
  shows "iter_all_users (api_list_users api d) 1 = Some (live_accounts (accounts d))"
proof -
  have "api_list_users api d (Suc p) page_size = take page_size (drop (p * page_size) (accounts d))" for p
    using assms by (simp add: admin_api_ok_def)
  then show ?thesis using iter_from_page[where xs = "accounts d" and p = 0 and list_users = "api_list_users api d"] by simp
qed

lemma list_server_admins_ok:
  "admin_api_ok api accounts \<Longrightarrow> list_server_admins api d = Some (map admin_status (live_accounts (accounts d)))"
  by (simp add: list_server_admins_def iter_all_users_ok del: One_nat_def)

text \<open>
  C21.  The walk over GoTrue's pages ends.  Against an API whose pages slice one list, however many
  accounts there are and also when the last page is full, the listing returns, and it lists every
  account that is not deleted exactly once and in order; the console's table is a permutation of it,
  newest first.
\<close>

theorem directory_walk_complete:
  assumes "admin_api_ok api accounts"
  shows "list_server_admins api d = Some (map admin_status (filter (\<lambda>u. \<not> ga_deleted_at u) (accounts d)))
    \<and> (\<exists>rows. list_accounts api True [] d = Some (Inr rows)
        \<and> mset rows = mset (map account_row_of (filter (\<lambda>u. \<not> ga_deleted_at u) (accounts d)))
        \<and> sorted (rev (map ac_created_at rows)))"
proof (intro conjI exI)
  let ?live = "map account_row_of (filter (\<lambda>u. \<not> ga_deleted_at u) (accounts d))"
  let ?rows = "rev (sort_key ac_created_at (rev ?live))"
  show "list_server_admins api d = Some (map admin_status (filter (\<lambda>u. \<not> ga_deleted_at u) (accounts d)))"
    using list_server_admins_ok[OF assms] by (simp add: live_accounts_def)
  have "lower (strip []) = []" by (simp add: strip_no_space lower_def)
  then show "list_accounts api True [] d = Some (Inr ?rows)"
    using iter_all_users_ok[OF assms]
    by (simp add: list_accounts_def list_accounts_rows_def live_accounts_def Let_def del: One_nat_def)
  show "mset ?rows = mset ?live" by simp
  show "sorted (rev (map ac_created_at ?rows))" by (simp add: rev_map)
qed

definition demo_directory :: "gotrue_account list" where
  "demo_directory = [
     \<lparr>ga_id = 1, ga_email = Some ''ann@x'', ga_role = Some ''admin'', ga_banned_until = False, ga_deleted_at = False,
      ga_created_on = ''2026-01-01'', ga_confirmed = True\<rparr>,
     \<lparr>ga_id = 2, ga_email = None, ga_role = None, ga_banned_until = False, ga_deleted_at = True,
      ga_created_on = ''2026-01-02'', ga_confirmed = False\<rparr>,
     \<lparr>ga_id = 3, ga_email = Some ''bob@x'', ga_role = None, ga_banned_until = False, ga_deleted_at = False,
      ga_created_on = ''2026-01-03'', ga_confirmed = True\<rparr>]"

text \<open>An API over a plain list, refusing an account it does not hold.\<close>

definition list_update :: "uuid \<Rightarrow> gotrue_account list \<Rightarrow> gotrue_account list \<Rightarrow> gotrue_account list api_update" where
  "list_update u d d' = (if u \<in> ga_id ` set d then Written d' else ApiRefused)"

definition list_api :: "gotrue_account list admin_api" where
  "list_api = \<lparr>api_list_users = (\<lambda>d page n. take n (drop ((page - 1) * n) d)),
     api_set_role = (\<lambda>u r d. list_update u d (role_set u r d)),
     api_set_ban = (\<lambda>u b d. list_update u d (ban_set u b d)),
     api_soft_delete = (\<lambda>u d. list_update u d (soft_deleted u d))\<rparr>"

lemma list_api_ok: "admin_api_ok list_api id"
  by (auto simp: admin_api_ok_def list_api_def list_update_def update_dir_def split: if_splits)

lemma directory_walk_complete_witness:
  "list_server_admins list_api demo_directory
     = Some [\<lparr>ua_user_id = 1, ua_email = ''ann@x'', ua_is_admin = True, ua_is_banned = False\<rparr>,
             \<lparr>ua_user_id = 3, ua_email = ''bob@x'', ua_is_admin = False, ua_is_banned = False\<rparr>]"
  using directory_walk_complete[OF list_api_ok, of demo_directory]
  by (simp add: demo_directory_def admin_status_def account_email_def has_admin_role_def is_user_banned_def)

end
