(* ===== verification/Admin_Requests.thy ===== *)
theory Admin_Requests
  imports Admin_Directory
begin

text \<open>
  Who administers the server: \<open>apps/auth/domain/admin_guard.py\<close>, the account screens of
  \<open>apps/auth/infra/accounts_router.py\<close>, granting and revoking in \<open>apps/console/domain/admins.py\<close> and
  \<open>console/infra/router.py\<close>, the bootstrap consumer of \<open>console/contract/integration.py\<close> and the
  self-deletion of \<open>apps/profile/infra/router.py\<close>.  Every path that removes an administrator takes one
  advisory lock, held until its transaction ends, so the requests are taken one after another.  A
  handler returns the directory, the facts and the answer; \<open>None\<close> is a listing that does not return.
\<close>

section \<open>The guard\<close>

definition ensure_not_last_admin :: "bool \<Rightarrow> bool \<Rightarrow> nat \<Rightarrow> bool" where
  "ensure_not_last_admin removes_admin target_is_admin admin_count
     \<longleftrightarrow> \<not> (removes_admin \<and> target_is_admin \<and> admin_count \<le> 1)"

datatype admin_fact =
    AdminGranted uuid uuid string
  | AdminRevoked uuid uuid string
  | AccountDisabled uuid uuid
  | AccountEnabled uuid uuid
  | AccountDeletedByAdmin uuid uuid
  | AccountDeleted uuid
  | UserDeleted uuid uuid

datatype admin_answer = Answered int string | AdminRows "user_admin_status list" | Raised

type_synonym 'd handled = "('d \<times> admin_fact list \<times> admin_answer) option"

definition last_admin_message :: string where
  "last_admin_message = ''The server must keep at least one admin''"

text \<open>\<open>None\<close>: the guard lets the request pass.  The id is read once per listed account.\<close>

definition guard_last_admin :: "user_admin_status list \<Rightarrow> string \<Rightarrow> admin_answer option" where
  "guard_last_admin admins user_id =
     (if admins \<noteq> [] \<and> uuid_parse user_id = None then Some Raised
      else if ensure_not_last_admin True (list_ex (\<lambda>u. Some (ua_user_id u) = uuid_parse user_id \<and> can_act u) admins)
                (count_where can_act admins)
      then None else Some (Answered 403 last_admin_message))"

section \<open>Granting and revoking\<close>

datatype admin_error = AdminNotFound string | LastAdminViolation | GoTrueRaised

definition sorted_admins :: "user_admin_status list \<Rightarrow> user_admin_status list" where
  "sorted_admins users = sort_key ua_email (filter ua_is_admin users)"

definition by_email :: "user_admin_status list \<Rightarrow> string \<Rightarrow> user_admin_status option" where
  "by_email users email = List.find (\<lambda>u. lower (ua_email u) = lower email) users"

definition marked :: "uuid \<Rightarrow> bool \<Rightarrow> user_admin_status list \<Rightarrow> user_admin_status list" where
  "marked u b users = map (\<lambda>s. if ua_user_id s = u then s\<lparr>ua_is_admin := b\<rparr> else s) users"

type_synonym 'd admin_change = "admin_error + (user_admin_status list \<times> bool \<times> uuid \<times> 'd)"

definition grant_admin :: "'d admin_api \<Rightarrow> string \<Rightarrow> 'd \<Rightarrow> 'd admin_change option" where
  "grant_admin api email d =
     (if email = [] then Some (Inl (AdminNotFound email))
      else case list_server_admins api d of
          None \<Rightarrow> None
        | Some users \<Rightarrow>
            (case by_email users email of
               None \<Rightarrow> Some (Inl (AdminNotFound email))
             | Some target \<Rightarrow>
                 if ua_is_admin target then Some (Inr (sorted_admins users, False, ua_user_id target, d))
                 else (case set_server_admin api (ua_user_id target) True d of
                     None \<Rightarrow> Some (Inl GoTrueRaised)
                   | Some d' \<Rightarrow> Some (Inr (sorted_admins (marked (ua_user_id target) True users), True,
                       ua_user_id target, d')))))"

definition set_admin :: "'d admin_api \<Rightarrow> string \<Rightarrow> bool \<Rightarrow> 'd \<Rightarrow> 'd admin_change option" where
  "set_admin api email is_admin d =
     (case list_server_admins api d of
        None \<Rightarrow> None
      | Some users \<Rightarrow>
          (case by_email users email of
             None \<Rightarrow> Some (Inl (AdminNotFound email))
           | Some target \<Rightarrow>
               if \<not> ensure_not_last_admin (\<not> is_admin) (can_act target) (count_where can_act users)
               then Some (Inl LastAdminViolation)
               else if ua_is_admin target = is_admin
               then Some (Inr (sorted_admins users, False, ua_user_id target, d))
               else (case set_server_admin api (ua_user_id target) is_admin d of
                   None \<Rightarrow> Some (Inl GoTrueRaised)
                 | Some d' \<Rightarrow> Some (Inr (sorted_admins (marked (ua_user_id target) is_admin users), True,
                     ua_user_id target, d')))))"

definition add_admin :: "'d admin_api \<Rightarrow> uuid \<Rightarrow> string \<Rightarrow> 'd \<Rightarrow> 'd handled" where
  "add_admin api me body_email d =
     (let email = strip body_email in
      map_option (\<lambda>r. case r of
          Inl (AdminNotFound e) \<Rightarrow> (d, [], Answered 404 (''No account exists for '' @ e))
        | Inl LastAdminViolation \<Rightarrow> (d, [], Raised)
        | Inl GoTrueRaised \<Rightarrow> (d, [], Raised)
        | Inr (rows, granted, u, d') \<Rightarrow> (d', if granted then [AdminGranted me u email] else [], AdminRows rows))
        (grant_admin api email d))"

definition update_admin :: "'d admin_api \<Rightarrow> uuid \<Rightarrow> string \<Rightarrow> bool \<Rightarrow> 'd \<Rightarrow> 'd handled" where
  "update_admin api me email is_admin d =
     map_option (\<lambda>r. case r of
         Inl (AdminNotFound e) \<Rightarrow> (d, [], Answered 404 ''Not found'')
       | Inl LastAdminViolation \<Rightarrow> (d, [], Answered 403 last_admin_message)
       | Inl GoTrueRaised \<Rightarrow> (d, [], Raised)
       | Inr (rows, changed, u, d') \<Rightarrow>
           (d', if changed then [if is_admin then AdminGranted me u email else AdminRevoked me u email] else [],
            AdminRows rows))
       (set_admin api email is_admin d)"

section \<open>The account screens\<close>

definition self_guard :: "uuid \<Rightarrow> string \<Rightarrow> admin_answer option" where
  "self_guard current_user_id user_id =
     (if uuid_str current_user_id = user_id then Some (Answered 400 ''You cannot act on your own account.'') else None)"

text \<open>A call of GoTrue that lands emits its facts; one that raises leaves nothing.\<close>

definition landed :: "'d api_update \<Rightarrow> 'd \<Rightarrow> admin_fact list \<Rightarrow> string \<Rightarrow> 'd \<times> admin_fact list \<times> admin_answer" where
  "landed a d facts message = (case a of
       Written d' \<Rightarrow> (d', facts, Answered 200 message)
     | WrittenUnreadable d' \<Rightarrow> (d', [], Raised)
     | ApiRefused \<Rightarrow> (d, [], Raised))"

definition disable_user :: "'d admin_api \<Rightarrow> bool \<Rightarrow> uuid \<Rightarrow> string \<Rightarrow> 'd \<Rightarrow> 'd handled" where
  "disable_user api enabled me user_id d =
     (if \<not> enabled then Some (d, [], Answered 404 ''Not found'')
      else case self_guard me user_id of
          Some a \<Rightarrow> Some (d, [], a)
        | None \<Rightarrow> map_option (\<lambda>admins. case guard_last_admin admins user_id of
              Some a \<Rightarrow> (d, [], a)
            | None \<Rightarrow> (case uuid_parse user_id of
                  None \<Rightarrow> (d, [], Raised)
                | Some u \<Rightarrow> landed (api_set_ban api u True d) d [AccountDisabled me u] ''Account disabled.''))
            (list_server_admins api d))"

definition enable_user :: "'d admin_api \<Rightarrow> bool \<Rightarrow> uuid \<Rightarrow> string \<Rightarrow> 'd \<Rightarrow> 'd handled" where
  "enable_user api enabled me user_id d =
     (if \<not> enabled then Some (d, [], Answered 404 ''Not found'')
      else case uuid_parse user_id of
          None \<Rightarrow> Some (d, [], Raised)
        | Some u \<Rightarrow> Some (landed (api_set_ban api u False d) d [AccountEnabled me u] ''Account enabled.''))"

definition delete_user :: "'d admin_api \<Rightarrow> bool \<Rightarrow> uuid \<Rightarrow> string \<Rightarrow> 'd \<Rightarrow> 'd handled" where
  "delete_user api enabled me user_id d =
     (if \<not> enabled then Some (d, [], Answered 404 ''Not found'')
      else case self_guard me user_id of
          Some a \<Rightarrow> Some (d, [], a)
        | None \<Rightarrow> map_option (\<lambda>admins. case guard_last_admin admins user_id of
              Some a \<Rightarrow> (d, [], a)
            | None \<Rightarrow> (case uuid_parse user_id of
                  None \<Rightarrow> (d, [], Raised)
                | Some u \<Rightarrow> landed (api_soft_delete api u d) d
                    [AccountDeletedByAdmin me u, UserDeleted me u] ''Account deleted.''))
            (list_server_admins api d))"

section \<open>Deleting one's own account\<close>

definition account_delete ::
  "'d admin_api \<Rightarrow> bool \<Rightarrow> (string \<Rightarrow> bool) \<Rightarrow> uuid \<Rightarrow> string \<Rightarrow> 'd \<Rightarrow> 'd handled" where
  "account_delete api enabled verify_password me current_password d =
     (if \<not> enabled then Some (d, [], Answered 404 ''Not found'')
      else if current_password = [] then Some (d, [], Answered 400 ''Your password is required.'')
      else if \<not> verify_password current_password then Some (d, [], Answered 400 ''Current password is incorrect.'')
      else map_option (\<lambda>admins.
          if \<not> ensure_not_last_admin True (list_ex (\<lambda>u. ua_user_id u = me \<and> can_act u) admins)
                 (count_where can_act admins)
          then (d, [], Answered 400 ''You are the server's last admin - promote another admin first.'')
          else landed (api_soft_delete api me d) d [AccountDeleted me, UserDeleted me me] ''Account deleted.'')
        (list_server_admins api d))"

section \<open>The first administrator\<close>

definition bootstrap_first_admin :: "'d admin_api \<Rightarrow> uuid option \<Rightarrow> 'd \<Rightarrow> 'd option" where
  "bootstrap_first_admin api user_id d =
     (case user_id of
        None \<Rightarrow> Some d
      | Some u \<Rightarrow> map_option (\<lambda>directory.
            if list_ex ua_is_admin directory then d
            else if list_all (\<lambda>s. ua_user_id s \<noteq> u) directory then d
            else (case set_server_admin api u True d of Some d' \<Rightarrow> d' | None \<Rightarrow> d))
          (list_server_admins api d))"

section \<open>The guard is the last-holder guard\<close>

definition acting :: "gotrue_account list \<Rightarrow> uuid set" where
  "acting xs = {ga_id a | a. a \<in> set xs \<and> \<not> ga_deleted_at a \<and> has_admin_role a \<and> \<not> is_user_banned a}"

definition ids_distinct :: "gotrue_account list \<Rightarrow> bool" where
  "ids_distinct xs \<longleftrightarrow> distinct (map ga_id xs)"

definition statuses :: "gotrue_account list \<Rightarrow> user_admin_status list" where
  "statuses xs = map admin_status (live_accounts xs)"

definition guard_refuses :: "uuid \<Rightarrow> gotrue_account list \<Rightarrow> bool" where
  "guard_refuses u xs \<longleftrightarrow> \<not> ensure_not_last_admin True
     (list_ex (\<lambda>s. ua_user_id s = u \<and> can_act s) (statuses xs)) (count_where can_act (statuses xs))"

lemmas account_simps = admin_status_def can_act_def has_admin_role_def is_user_banned_def

lemma ids_update [simp]:
  "ids_distinct (role_set u r xs) = ids_distinct xs"
  "ids_distinct (ban_set u b xs) = ids_distinct xs"
  "ids_distinct (soft_deleted u xs) = ids_distinct xs"
  by (simp_all add: ids_distinct_def role_set_def ban_set_def soft_deleted_def map_update_where_key)

lemma acting_statuses: "acting xs = ua_user_id ` {s \<in> set (statuses xs). can_act s}"
  unfolding acting_def statuses_def live_accounts_def by (force simp: account_simps)

lemma statuses_distinct: "ids_distinct xs \<Longrightarrow> distinct (map ua_user_id (statuses xs))"
  by (simp add: ids_distinct_def statuses_def live_accounts_def admin_status_def comp_def distinct_map_filter)

lemma count_acting:
  assumes "ids_distinct xs"
  shows "count_where can_act (statuses xs) = card (acting xs)"
proof -
  have "distinct (map ua_user_id (filter can_act (statuses xs)))"
    using statuses_distinct[OF assms] by (rule distinct_map_filter)
  then have "card (set (map ua_user_id (filter can_act (statuses xs)))) = count_where can_act (statuses xs)"
    by (simp only: distinct_card length_map count_where_def)
  then show ?thesis by (simp add: acting_statuses)
qed

lemma finite_acting [simp]: "finite (acting xs)"
  by (simp add: acting_statuses)

lemma listed_acting: "list_ex (\<lambda>s. ua_user_id s = u \<and> can_act s) (statuses xs) \<longleftrightarrow> u \<in> acting xs"
  by (auto simp: acting_statuses list_ex_iff)

lemma guard_refuses_last:
  assumes "ids_distinct xs"
  shows "guard_refuses u xs \<longleftrightarrow> acting xs = {u}"
proof -
  have "u \<in> acting xs \<and> card (acting xs) \<le> 1 \<longleftrightarrow> acting xs = {u}"
    using card_le_Suc0_iff_eq[of "acting xs"] by auto
  then show ?thesis
    by (simp add: guard_refuses_def ensure_not_last_admin_def listed_acting count_acting[OF assms])
qed

definition acts :: "gotrue_account \<Rightarrow> bool" where
  "acts a \<longleftrightarrow> \<not> ga_deleted_at a \<and> has_admin_role a \<and> \<not> is_user_banned a"

lemma acting_Nil [simp]: "acting [] = {}"
  by (simp add: acting_def)

lemma acting_Cons [simp]: "acting (a # xs) = (if acts a then insert (ga_id a) (acting xs) else acting xs)"
  by (auto simp: acting_def acts_def)

lemmas acts_simps = acts_def has_admin_role_def is_user_banned_def

lemma acting_revoked: "acting (role_set u None xs) = acting xs - {u}"
  by (induction xs) (auto simp: role_set_def acts_simps)

lemma acting_granted: "acting xs \<subseteq> acting (role_set u (Some ''admin'') xs)"
  by (induction xs) (auto simp: role_set_def acts_simps)

lemma acting_ban: "acting (ban_set u True xs) = acting xs - {u}"
  by (induction xs) (auto simp: ban_set_def acts_simps)

lemma acting_unban: "acting xs \<subseteq> acting (ban_set u False xs)"
  by (induction xs) (auto simp: ban_set_def acts_simps)

lemma acting_deleted: "acting (soft_deleted u xs) = acting xs - {u}"
  by (induction xs) (auto simp: soft_deleted_def acts_simps)

interpretation revoking: keep_one ids_distinct acting "\<lambda>u. role_set u None" guard_refuses
  by unfold_locales (simp_all add: guard_refuses_last acting_revoked)

interpretation banning: keep_one ids_distinct acting "\<lambda>u. ban_set u True" guard_refuses
  by unfold_locales (simp_all add: guard_refuses_last acting_ban)

interpretation deleting: keep_one ids_distinct acting soft_deleted guard_refuses
  by unfold_locales (simp_all add: guard_refuses_last acting_deleted)

section \<open>Every request is a guarded move\<close>

inductive admin_move :: "gotrue_account list \<Rightarrow> gotrue_account list \<Rightarrow> bool" where
  stayed: "admin_move xs xs"
| granted: "admin_move xs (role_set u (Some ''admin'') xs)"
| revoked: "\<not> guard_refuses u xs \<Longrightarrow> admin_move xs (role_set u None xs)"
| banned: "\<not> guard_refuses u xs \<Longrightarrow> admin_move xs (ban_set u True xs)"
| unbanned: "admin_move xs (ban_set u False xs)"
| deleted: "\<not> guard_refuses u xs \<Longrightarrow> admin_move xs (soft_deleted u xs)"

lemma move_keeps:
  "admin_move xs ys \<Longrightarrow> ids_distinct xs \<Longrightarrow> acting xs \<noteq> {} \<Longrightarrow> ids_distinct ys \<and> acting ys \<noteq> {}"
proof (induction rule: admin_move.induct)
  case (granted xs u)
  then show ?case using acting_granted[of xs u] by auto
next
  case (revoked u xs)
  then show ?case using revoking.guarded_keeps[of xs u] by (simp add: revoking.guarded_def)
next
  case (banned u xs)
  then show ?case using banning.guarded_keeps[of xs u] by (simp add: banning.guarded_def)
next
  case (unbanned xs u)
  then show ?case using acting_unban[of xs u] by auto
next
  case (deleted u xs)
  then show ?case using deleting.guarded_keeps[of xs u] by (simp add: deleting.guarded_def)
qed simp_all

lemma listed: "admin_api_ok api accounts \<Longrightarrow> list_server_admins api d = Some (statuses (accounts d))"
  by (simp add: list_server_admins_ok statuses_def)

lemma guard_passes:
  "guard_last_admin (statuses xs) user_id = None \<Longrightarrow> uuid_parse user_id = Some u \<Longrightarrow> \<not> guard_refuses u xs"
  by (auto simp: guard_last_admin_def guard_refuses_def split: if_splits)

lemma target_acts:
  assumes "ids_distinct xs" "by_email (statuses xs) email = Some target"
  shows "can_act target \<longleftrightarrow> ua_user_id target \<in> acting xs"
proof -
  have target: "target \<in> set (statuses xs)" using assms(2) by (auto simp: by_email_def dest: find_SomeD)
  have "s = target" if "s \<in> set (statuses xs)" "ua_user_id s = ua_user_id target" for s
    using statuses_distinct[OF assms(1)] that target by (auto simp: distinct_map dest: inj_onD)
  then show ?thesis using target by (auto simp: acting_statuses)
qed

lemma api_lands:
  assumes "admin_api_ok api accounts"
  shows "update_dir (api_set_ban api u b d) = Some d' \<Longrightarrow> accounts d' = ban_set u b (accounts d)"
    and "update_dir (api_soft_delete api u d) = Some d' \<Longrightarrow> accounts d' = soft_deleted u (accounts d)"
    and "set_server_admin api u c d = Some d' \<Longrightarrow> accounts d' = role_set u (if c then Some ''admin'' else None) (accounts d)"
  using assms by (auto simp: admin_api_ok_def set_server_admin_def)

lemma landed_dir: "landed a d facts m = (d', fs, ans) \<Longrightarrow> d' = d \<or> update_dir a = Some d'"
  by (auto simp: landed_def update_dir_def split: api_update.splits)

lemma ban_moves:
  assumes "admin_api_ok api accounts" "landed (api_set_ban api u b d) d facts m = (d', fs, ans)"
    "\<not> (b \<and> guard_refuses u (accounts d))"
  shows "admin_move (accounts d) (accounts d')"
  using landed_dir[OF assms(2)]
proof
  assume "update_dir (api_set_ban api u b d) = Some d'"
  from api_lands(1)[OF assms(1) this] show ?thesis using assms(3)
    by (cases b) (simp_all add: admin_move.banned admin_move.unbanned)
qed (simp add: admin_move.stayed)

lemma delete_moves:
  assumes "admin_api_ok api accounts" "landed (api_soft_delete api u d) d facts m = (d', fs, ans)"
    "\<not> guard_refuses u (accounts d)"
  shows "admin_move (accounts d) (accounts d')"
  using landed_dir[OF assms(2)]
proof
  assume "update_dir (api_soft_delete api u d) = Some d'"
  from api_lands(2)[OF assms(1) this] show ?thesis using assms(3) by (simp add: admin_move.deleted)
qed (simp add: admin_move.stayed)

lemma disable_moves:
  "admin_api_ok api accounts \<Longrightarrow> disable_user api enabled me user_id d = Some (d', fs, ans)
   \<Longrightarrow> admin_move (accounts d) (accounts d')"
  by (auto simp: disable_user_def listed admin_move.stayed dest: ban_moves guard_passes
      split: if_splits option.splits)

lemma delete_user_moves:
  "admin_api_ok api accounts \<Longrightarrow> delete_user api enabled me user_id d = Some (d', fs, ans)
   \<Longrightarrow> admin_move (accounts d) (accounts d')"
  by (auto simp: delete_user_def listed admin_move.stayed dest: delete_moves guard_passes
      split: if_splits option.splits)

lemma enable_moves:
  "admin_api_ok api accounts \<Longrightarrow> enable_user api enabled me user_id d = Some (d', fs, ans)
   \<Longrightarrow> admin_move (accounts d) (accounts d')"
  by (auto simp: enable_user_def admin_move.stayed dest: ban_moves split: if_splits option.splits)

lemma account_delete_moves:
  "admin_api_ok api accounts \<Longrightarrow> account_delete api enabled verify me pw d = Some (d', fs, ans)
   \<Longrightarrow> admin_move (accounts d) (accounts d')"
  by (auto simp: account_delete_def listed guard_refuses_def admin_move.stayed dest: delete_moves
      split: if_splits)

lemma grant_moves:
  assumes "admin_api_ok api accounts" "grant_admin api email d = Some (Inr (rows, c, u, d'))"
  shows "admin_move (accounts d) (accounts d')"
  using assms(2) api_lands(3)[OF assms(1)]
  by (auto simp: grant_admin_def listed[OF assms(1)] admin_move.stayed admin_move.granted split: if_splits option.splits)

lemma set_admin_moves:
  assumes "admin_api_ok api accounts" "ids_distinct (accounts d)"
    "set_admin api email b d = Some (Inr (rows, c, u, d'))"
  shows "admin_move (accounts d) (accounts d')"
proof -
  obtain target where t: "by_email (statuses (accounts d)) email = Some target"
    and g: "ensure_not_last_admin (\<not> b) (can_act target) (count_where can_act (statuses (accounts d)))"
    and d': "d' = d \<or> set_server_admin api (ua_user_id target) b d = Some d'"
    using assms(3) by (auto simp: set_admin_def listed[OF assms(1)] split: if_splits option.splits)
  have "\<not> b \<Longrightarrow> \<not> guard_refuses (ua_user_id target) (accounts d)"
    using g by (simp add: guard_refuses_def listed_acting target_acts[OF assms(2) t])
  then show ?thesis using d' api_lands(3)[OF assms(1)]
    by (cases b) (auto intro: admin_move.intros)
qed

lemma add_admin_moves:
  assumes "admin_api_ok api accounts" "add_admin api me email d = Some (d', fs, ans)"
  shows "admin_move (accounts d) (accounts d')"
proof -
  consider "d' = d" | rows c u where "grant_admin api (strip email) d = Some (Inr (rows, c, u, d'))"
    using assms(2) unfolding add_admin_def Let_def
    by (cases "grant_admin api (strip email) d") (auto split: sum.split_asm admin_error.split_asm prod.split_asm)
  then show ?thesis using grant_moves[OF assms(1)] by cases (auto simp: admin_move.stayed)
qed

lemma update_admin_moves:
  assumes "admin_api_ok api accounts" "ids_distinct (accounts d)" "update_admin api me email b d = Some (d', fs, ans)"
  shows "admin_move (accounts d) (accounts d')"
proof -
  consider "d' = d" | rows c u where "set_admin api email b d = Some (Inr (rows, c, u, d'))"
    using assms(3) unfolding update_admin_def
    by (cases "set_admin api email b d") (auto split: sum.split_asm admin_error.split_asm prod.split_asm)
  then show ?thesis using set_admin_moves[OF assms(1,2)] by cases (auto simp: admin_move.stayed)
qed

lemma bootstrap_moves:
  "admin_api_ok api accounts \<Longrightarrow> bootstrap_first_admin api u d = Some d' \<Longrightarrow> admin_move (accounts d) (accounts d')"
  by (auto simp: bootstrap_first_admin_def listed admin_move.stayed dest!: api_lands(3) intro: admin_move.granted
      split: option.splits if_splits)

section \<open>The server keeps an administrator\<close>

datatype admin_request =
    AddAdmin uuid string
  | UpdateAdmin uuid string bool
  | DisableUser uuid string
  | EnableUser uuid string
  | DeleteUser uuid string
  | DeleteSelf uuid string

record admin_config =
  ac_user_management :: bool
  ac_account_deletion :: bool
  ac_verify :: "uuid \<Rightarrow> string \<Rightarrow> bool"

fun admin_handle :: "'d admin_api \<Rightarrow> admin_config \<Rightarrow> admin_request \<Rightarrow> 'd \<Rightarrow> 'd handled" where
  "admin_handle api cfg (AddAdmin me email) d = add_admin api me email d" |
  "admin_handle api cfg (UpdateAdmin me email b) d = update_admin api me email b d" |
  "admin_handle api cfg (DisableUser me user_id) d = disable_user api (ac_user_management cfg) me user_id d" |
  "admin_handle api cfg (EnableUser me user_id) d = enable_user api (ac_user_management cfg) me user_id d" |
  "admin_handle api cfg (DeleteUser me user_id) d = delete_user api (ac_user_management cfg) me user_id d" |
  "admin_handle api cfg (DeleteSelf me pw) d = account_delete api (ac_account_deletion cfg) (ac_verify cfg me) me pw d"

lemma handle_moves:
  assumes "admin_api_ok api accounts" "ids_distinct (accounts d)" "admin_handle api cfg rq d = Some (d', fs, ans)"
  shows "admin_move (accounts d) (accounts d')"
  using assms by (cases rq) (auto dest: add_admin_moves update_admin_moves disable_moves enable_moves
      delete_user_moves account_delete_moves)

lemma a_triple [simp]: "\<exists>a b c. x = (a, b, c)"
  by (metis prod_cases3)

lemma handle_total: "admin_api_ok api accounts \<Longrightarrow> admin_handle api cfg rq d \<noteq> None"
  by (cases rq) (auto simp: add_admin_def update_admin_def grant_admin_def set_admin_def disable_user_def
      enable_user_def delete_user_def account_delete_def listed Let_def split: option.splits)

text \<open>What happens to a server: a request, the delivery of a sign-up to the bootstrap, a sign-up itself.\<close>

inductive server_step :: "'d admin_api \<Rightarrow> ('d \<Rightarrow> gotrue_account list) \<Rightarrow> admin_config \<Rightarrow> 'd \<Rightarrow> 'd \<Rightarrow> bool"
  for api accounts cfg where
  request: "admin_handle api cfg rq d = Some (d', facts, answer) \<Longrightarrow> server_step api accounts cfg d d'"
| bootstrap: "bootstrap_first_admin api u d = Some d' \<Longrightarrow> server_step api accounts cfg d d'"
| signed_up: "accounts d' = accounts d @ [a] \<Longrightarrow> ga_id a \<notin> ga_id ` set (accounts d) \<Longrightarrow> server_step api accounts cfg d d'"

lemma acting_append: "acting (xs @ ys) = acting xs \<union> acting ys"
  by (auto simp: acting_def)

lemma step_keeps:
  assumes "server_step api accounts cfg d d'" "admin_api_ok api accounts"
    "ids_distinct (accounts d)" "acting (accounts d) \<noteq> {}"
  shows "ids_distinct (accounts d') \<and> acting (accounts d') \<noteq> {}"
  using assms(1)
proof cases
  case (request rq facts answer)
  from handle_moves[OF assms(2,3) this] show ?thesis by (rule move_keeps[OF _ assms(3,4)])
next
  case (bootstrap u)
  from bootstrap_moves[OF assms(2) this] show ?thesis by (rule move_keeps[OF _ assms(3,4)])
next
  case (signed_up a)
  then show ?thesis using assms(3,4) by (simp add: ids_distinct_def acting_append)
qed

text \<open>
  C9.  The server keeps an administrator who can act.  From a server that has one, through any
  history of grants, revocations, bans, releases, deletions by an administrator or by the account
  itself, sign-ups and bootstraps, some live account with the role and no ban remains, and every
  request is answered.
\<close>

theorem server_keeps_an_admin:
  assumes "(server_step api accounts cfg)\<^sup>*\<^sup>* d d'"
    and "admin_api_ok api accounts"
    and "distinct (map ga_id (accounts d))"
    and "a \<in> set (accounts d)" "\<not> ga_deleted_at a" "ga_role a = Some ''admin''" "\<not> ga_banned_until a"
  shows "(\<exists>a' \<in> set (accounts d'). \<not> ga_deleted_at a' \<and> ga_role a' = Some ''admin'' \<and> \<not> ga_banned_until a')
    \<and> admin_handle api cfg rq d' \<noteq> None"
proof -
  have start: "ids_distinct (accounts d) \<and> acting (accounts d) \<noteq> {}"
    using assms(3-7) by (auto simp: ids_distinct_def acting_def acts_simps)
  have "ids_distinct (accounts d') \<and> acting (accounts d') \<noteq> {}"
    using assms(1)
  proof (induction rule: rtranclp_induct)
    case (step y z)
    then show ?case using step_keeps[OF _ assms(2)] by blast
  qed (rule start)
  then show ?thesis using handle_total[OF assms(2)]
    by (auto simp: acting_def has_admin_role_def is_user_banned_def)
qed

definition demo_config :: admin_config where
  "demo_config = \<lparr>ac_user_management = True, ac_account_deletion = True, ac_verify = (\<lambda>u pw. True)\<rparr>"

lemma server_keeps_an_admin_witness:
  "\<exists>a' \<in> set (role_set 3 (Some ''admin'') demo_directory).
     \<not> ga_deleted_at a' \<and> ga_role a' = Some ''admin'' \<and> \<not> ga_banned_until a'"
proof -
  let ?d' = "role_set 3 (Some ''admin'') demo_directory"
  have bob: "by_email (statuses demo_directory) ''bob@x'' = Some
      \<lparr>ua_user_id = 3, ua_email = ''bob@x'', ua_is_admin = False, ua_is_banned = False\<rparr>" by code_simp
  have "set_server_admin list_api 3 True demo_directory = Some ?d'"
    by (simp add: set_server_admin_def list_api_def list_update_def update_dir_def demo_directory_def)
  then obtain rows where "set_admin list_api ''bob@x'' True demo_directory = Some (Inr (rows, True, 3, ?d'))"
    using bob listed[OF list_api_ok, of demo_directory]
    by (simp add: set_admin_def ensure_not_last_admin_def)
  then have "admin_handle list_api demo_config (UpdateAdmin 1 ''bob@x'' True) demo_directory
      = Some (?d', [AdminGranted 1 3 ''bob@x''], AdminRows rows)"
    by (simp add: update_admin_def)
  then have "(server_step list_api id demo_config)\<^sup>*\<^sup>* demo_directory ?d'"
    by (blast intro: r_into_rtranclp server_step.request)
  from server_keeps_an_admin[OF this list_api_ok, of "hd demo_directory" "UpdateAdmin 1 [] True"]
  show ?thesis by (simp add: demo_directory_def)
qed

text \<open>
  Only the last administrator is refused, on every path alike.  For an administrator acting on
  another account, and for an account deleting itself with its password, a removal is refused exactly
  when the account is the only one left that can act, and then the directory is as before and no fact
  is recorded; otherwise GoTrue decides, and when it accepts, the account is banned or deleted and the
  facts say so.
\<close>

theorem last_admin_refused_exactly:
  assumes "admin_api_ok api accounts" "distinct (map ga_id (accounts d))"
    and "uuid_parse user_id = Some u" "uuid_str me \<noteq> user_id"
    and "pw \<noteq> []" "verify pw"
  shows "if acting (accounts d) = {u}
    then disable_user api True me user_id d = Some (d, [], Answered 403 last_admin_message)
      \<and> delete_user api True me user_id d = Some (d, [], Answered 403 last_admin_message)
      \<and> (\<exists>m. account_delete api True verify u pw d = Some (d, [], Answered 400 m))
    else disable_user api True me user_id d = Some (landed (api_set_ban api u True d) d [AccountDisabled me u] ''Account disabled.'')
      \<and> delete_user api True me user_id d = Some (landed (api_soft_delete api u d) d
          [AccountDeletedByAdmin me u, UserDeleted me u] ''Account deleted.'')
      \<and> account_delete api True verify u pw d = Some (landed (api_soft_delete api u d) d
          [AccountDeleted u, UserDeleted u u] ''Account deleted.'')"
proof -
  have own: "guard_refuses u (accounts d) \<longleftrightarrow> acting (accounts d) = {u}"
    using guard_refuses_last[of "accounts d" u] assms(2) by (simp add: ids_distinct_def)
  have guard: "guard_last_admin (statuses (accounts d)) user_id
      = (if guard_refuses u (accounts d) then Some (Answered 403 last_admin_message) else None)"
    unfolding guard_last_admin_def guard_refuses_def assms(3) by simp
  show ?thesis
    using assms(3-6) unfolding own[symmetric]
    by (simp add: disable_user_def delete_user_def account_delete_def listed[OF assms(1)] self_guard_def guard
        guard_refuses_def[symmetric])
qed

lemma last_admin_refused_exactly_witness:
  "disable_user list_api True 9 (uuid_str 1) demo_directory = Some (demo_directory, [], Answered 403 last_admin_message)"
proof -
  have 1: "uuid_parse (uuid_str 1) = Some 1" by (rule uuid_parse_uuid_str) simp
  have 2: "uuid_str 9 \<noteq> uuid_str 1" using uuid_str_inj[of 9 1] by simp
  have 3: "distinct (map ga_id (id demo_directory))" by (simp add: demo_directory_def)
  have 4: "acting (id demo_directory) = {1}"
    by (simp add: demo_directory_def acts_def has_admin_role_def is_user_banned_def)
  show ?thesis
    using last_admin_refused_exactly[OF list_api_ok 3 1 2, of "''pw''" "\<lambda>_. True"] unfolding 4 by simp
qed

text \<open>
  The own-account guard compares spellings: any other spelling of one's own id (upper case, without
  dashes) names the same account and passes it.
\<close>

lemma self_guard_by_spelling: "user_id \<noteq> uuid_str u \<Longrightarrow> self_guard u user_id = None"
  by (simp add: self_guard_def)

end
