(* ===== verification/Learning.thy ===== *)
theory Learning
  imports Py_Text
begin

text \<open>
  \<open>apps/learning\<close>: spaced repetition.  The catalogue (decks, cards) belongs to an organisation, the
  progress (subscriptions, card states) to a user.  The schedule and the daily cap are written against
  a protocol, \<open>domain/repository.py\<close>; the protocol is the locale \<open>review_repository\<close>, and the SQL
  repository interprets it.
\<close>

section \<open>The rows\<close>

datatype outcome = Learned | Again

record deck =
  dk_id :: uuid
  dk_org :: uuid
  dk_name :: string
  dk_url :: "string option"
  dk_position :: int

record card =
  cd_id :: uuid
  cd_org :: uuid
  cd_deck :: uuid
  cd_external :: string
  cd_question :: string
  cd_answer :: string
  cd_url :: "string option"
  cd_position :: int

record deck_subscription =
  sb_org :: uuid
  sb_user :: uuid
  sb_deck :: uuid

record card_state =
  cs_org :: uuid
  cs_user :: uuid
  cs_card :: uuid
  cs_level :: int
  cs_last :: "date option"
  cs_next :: "date option"

record learning_db =
  ld_decks :: "deck list"
  ld_cards :: "card list"
  ld_subs :: "deck_subscription list"
  ld_states :: "card_state list"

section \<open>The schedule\<close>

record schedule =
  sc_level :: int
  sc_last :: date
  sc_next :: date

definition fibonacci_intervals :: "(int, int) dict" where
  "fibonacci_intervals = [(1, 1), (2, 1), (3, 2), (4, 3), (5, 5), (6, 8), (7, 13), (8, 21), (9, 34)]"

definition max_level :: int where "max_level = 9"

text \<open>\<open>None\<close> is the \<open>KeyError\<close> of a level outside the table.\<close>

definition interval_for_level :: "int \<Rightarrow> int option" where
  "interval_for_level level = map_of fibonacci_intervals level"

definition apply_outcome :: "int \<Rightarrow> date \<Rightarrow> outcome \<Rightarrow> schedule option" where
  "apply_outcome current_level today oc =
     (let new_level = (if oc = Again then 1 else min (current_level + 1) max_level) in
      map_option (\<lambda>n. \<lparr>sc_level = new_level, sc_last = today, sc_next = today + n\<rparr>) (interval_for_level new_level))"

section \<open>The review, over its protocol\<close>

record 's review_ops =
  rr_get_state :: "uuid \<Rightarrow> 's \<Rightarrow> card_state option"
  rr_reviews_today :: "date \<Rightarrow> 's \<Rightarrow> int"
  rr_apply_schedule :: "uuid \<Rightarrow> schedule \<Rightarrow> 's \<Rightarrow> 's"

datatype review_error = DailyLimitReached | LevelKeyError

definition review_card :: "'s review_ops \<Rightarrow> uuid \<Rightarrow> outcome \<Rightarrow> date \<Rightarrow> int \<Rightarrow> 's \<Rightarrow> review_error + schedule \<times> 's" where
  "review_card ops card_id oc today daily_limit s =
     (let state = rr_get_state ops card_id s;
          already_today = (case state of None \<Rightarrow> False | Some st \<Rightarrow> cs_last st = Some today) in
      if \<not> already_today \<and> daily_limit \<le> rr_reviews_today ops today s then Inl DailyLimitReached
      else (case apply_outcome (case state of None \<Rightarrow> 0 | Some st \<Rightarrow> cs_level st) today oc of
          None \<Rightarrow> Inl LevelKeyError
        | Some sch \<Rightarrow> Inr (sch, rr_apply_schedule ops card_id sch s)))"

section \<open>What is due\<close>

record due_card =
  dc_external :: string
  dc_level :: int
  dc_deck_position :: int
  dc_card_position :: int
  dc_next :: "date option"

definition is_due :: "date option \<Rightarrow> date \<Rightarrow> bool" where
  "is_due next_review_on today = (case next_review_on of None \<Rightarrow> True | Some d \<Rightarrow> d \<le> today)"

definition date_min :: date where "date_min = 1"

definition due_key :: "due_card \<Rightarrow> bool \<times> date \<times> int \<times> int" where
  "due_key c = (dc_next c \<noteq> None, case dc_next c of None \<Rightarrow> date_min | Some d \<Rightarrow> d, dc_deck_position c, dc_card_position c)"

definition order_due_cards :: "due_card list \<Rightarrow> due_card list" where
  "order_due_cards cards = sort_key due_key cards"

definition select_due_cards :: "due_card list \<Rightarrow> date \<Rightarrow> due_card list" where
  "select_due_cards cards today = order_due_cards (filter (\<lambda>c. is_due (dc_next c) today) cards)"

section \<open>Resources\<close>

definition needs_resources :: "int \<Rightarrow> bool" where "needs_resources level \<longleftrightarrow> level \<le> 1"

record card_resource =
  cr_deck :: string
  cr_deck_position :: int
  cr_card_position :: int
  cr_deck_url :: "string option"
  cr_card_url :: "string option"

definition filled :: "string option \<Rightarrow> string option" where
  "filled u = (case u of None \<Rightarrow> None | Some s \<Rightarrow> if s = [] then None else Some s)"

text \<open>The links of one deck: its own first, then its cards', each once.\<close>

fun card_links :: "string option \<Rightarrow> string list \<Rightarrow> card_resource list \<Rightarrow> string list" where
  "card_links deck_url seen [] = []" |
  "card_links deck_url seen (c # cs) = (case filled (cr_card_url c) of
       None \<Rightarrow> card_links deck_url seen cs
     | Some link \<Rightarrow>
         if Some link \<noteq> deck_url \<and> link \<notin> set seen then link # card_links deck_url (seen @ [link]) cs
         else card_links deck_url seen cs)"

definition deck_links :: "card_resource list \<Rightarrow> string list" where
  "deck_links deck_cards =
     (let deck_url = (case deck_cards of [] \<Rightarrow> None | c # _ \<Rightarrow> cr_deck_url c) in
      case filled deck_url of
        Some u \<Rightarrow> u # card_links deck_url [u] deck_cards
      | None \<Rightarrow> card_links deck_url [] deck_cards)"

definition compute_resources :: "card_resource list \<Rightarrow> (string \<times> string) list" where
  "compute_resources cards =
     (let decks_in_order = map snd (sorted_list_of_set (set (map (\<lambda>c. (cr_deck_position c, cr_deck c)) cards))) in
      concat (map (\<lambda>d. map (Pair d) (deck_links (sort_key cr_card_position (filter (\<lambda>c. cr_deck c = d) cards))))
        decks_in_order))"

section \<open>The repository\<close>

definition get_deck_by_name :: "uuid \<Rightarrow> string \<Rightarrow> learning_db \<Rightarrow> deck option" where
  "get_deck_by_name o' name db = List.find (\<lambda>d. dk_org d = o' \<and> dk_name d = name) (ld_decks db)"

text \<open>The first row of an unordered query: an external id is unique within its deck only.\<close>

definition get_card_by_external :: "uuid \<Rightarrow> string \<Rightarrow> learning_db \<Rightarrow> card option" where
  "get_card_by_external o' ext db = List.find (\<lambda>c. cd_org c = o' \<and> cd_external c = ext) (ld_cards db)"

definition subscribed :: "uuid \<Rightarrow> uuid \<Rightarrow> learning_db \<Rightarrow> bool" where
  "subscribed user deck_id db = list_ex (\<lambda>s. sb_user s = user \<and> sb_deck s = deck_id) (ld_subs db)"

definition subscribe_row :: "uuid \<Rightarrow> uuid \<Rightarrow> uuid \<Rightarrow> learning_db \<Rightarrow> learning_db" where
  "subscribe_row o' user deck_id db =
     (if subscribed user deck_id db then db
      else db\<lparr>ld_subs := ld_subs db @ [\<lparr>sb_org = o', sb_user = user, sb_deck = deck_id\<rparr>]\<rparr>)"

definition available_decks :: "uuid \<Rightarrow> uuid \<Rightarrow> learning_db \<Rightarrow> deck list" where
  "available_decks o' user db =
     sort_key dk_position (filter (\<lambda>d. dk_org d = o' \<and> \<not> subscribed user (dk_id d) db) (ld_decks db))"

definition get_state :: "uuid \<Rightarrow> uuid \<Rightarrow> learning_db \<Rightarrow> card_state option" where
  "get_state user card_id db = List.find (\<lambda>s. cs_card s = card_id \<and> cs_user s = user) (ld_states db)"

type_synonym catalog_row = "deck \<times> card \<times> card_state option"

text \<open>The joins, one row per subscription, deck, card and state; then the order by the two positions.\<close>

definition catalog :: "uuid \<Rightarrow> uuid \<Rightarrow> learning_db \<Rightarrow> catalog_row list" where
  "catalog o' user db = sort_key (\<lambda>(d, c, st). (dk_position d, cd_position c))
     (concat (map (\<lambda>d. concat (map (\<lambda>s.
        if sb_user s = user \<and> sb_deck s = dk_id d
        then concat (map (\<lambda>c.
           if cd_deck c = dk_id d
           then (case filter (\<lambda>st. cs_card st = cd_id c \<and> cs_user st = user) (ld_states db) of
                   [] \<Rightarrow> [(d, c, None)]
                 | sts \<Rightarrow> map (\<lambda>st. (d, c, Some st)) sts)
           else []) (ld_cards db))
        else []) (ld_subs db))) (filter (\<lambda>d. dk_org d = o') (ld_decks db))))"

definition reviews_today :: "uuid \<Rightarrow> date \<Rightarrow> learning_db \<Rightarrow> int" where
  "reviews_today user today db = int (count_where (\<lambda>s. cs_user s = user \<and> cs_last s = Some today) (ld_states db))"

definition scheduled :: "schedule \<Rightarrow> card_state \<Rightarrow> card_state" where
  "scheduled sch st = st\<lparr>cs_level := sc_level sch, cs_last := Some (sc_last sch), cs_next := Some (sc_next sch)\<rparr>"

definition apply_schedule :: "uuid \<Rightarrow> uuid \<Rightarrow> uuid \<Rightarrow> schedule \<Rightarrow> learning_db \<Rightarrow> learning_db" where
  "apply_schedule o' user card_id sch db =
     (case get_state user card_id db of
        None \<Rightarrow> db\<lparr>ld_states := ld_states db @ [scheduled sch \<lparr>cs_org = o', cs_user = user, cs_card = card_id,
            cs_level = 0, cs_last = None, cs_next = None\<rparr>]\<rparr>
      | Some _ \<Rightarrow> db\<lparr>ld_states := update_where (\<lambda>s. cs_card s = card_id \<and> cs_user s = user) (scheduled sch) (ld_states db)\<rparr>)"

definition learning_repo :: "uuid \<Rightarrow> uuid \<Rightarrow> learning_db review_ops" where
  "learning_repo o' user = \<lparr>rr_get_state = get_state user, rr_reviews_today = reviews_today user,
     rr_apply_schedule = apply_schedule o' user\<rparr>"

section \<open>The routes\<close>

definition card_level :: "catalog_row \<Rightarrow> int" where
  "card_level r = (case snd (snd r) of None \<Rightarrow> 0 | Some st \<Rightarrow> cs_level st)"

definition due_card_of :: "catalog_row \<Rightarrow> due_card" where
  "due_card_of r = (let (d, c, st) = r in
     \<lparr>dc_external = cd_external c, dc_level = card_level r, dc_deck_position = dk_position d,
      dc_card_position = cd_position c, dc_next = Option.bind st cs_next\<rparr>)"

definition due_rows :: "catalog_row list \<Rightarrow> date \<Rightarrow> catalog_row list" where
  "due_rows rows today =
     (let by_external = fold (\<lambda>r. AList.update (cd_external (fst (snd r))) r) rows [] in
      List.map_filter (\<lambda>c. map_of by_external (dc_external c)) (select_due_cards (map due_card_of rows) today))"

datatype learning_answer = ReviewSession "catalog_row list" | CardDetail card "card_state option"
  | Resources "(string \<times> string) list" | LearningRefused nat string | LearningCrash

record card_reviewed =
  rv_user :: uuid
  rv_org :: uuid
  rv_card :: uuid
  rv_name :: string
  rv_outcome :: outcome

definition subscribe :: "bool \<Rightarrow> uuid \<Rightarrow> uuid \<Rightarrow> string \<Rightarrow> date \<Rightarrow> learning_db \<Rightarrow> learning_db \<times> learning_answer" where
  "subscribe sharing_enabled o' user body_deck today db =
     (if \<not> sharing_enabled then (db, LearningRefused 403 ''Deck sharing is disabled'')
      else case get_deck_by_name o' body_deck db of
          None \<Rightarrow> (db, LearningRefused 404 ''Not found'')
        | Some found \<Rightarrow> (let db' = subscribe_row o' user (dk_id found) db in
            (db', ReviewSession (due_rows (catalog o' user db') today))))"

definition today_session :: "uuid \<Rightarrow> uuid \<Rightarrow> date \<Rightarrow> learning_db \<Rightarrow> learning_answer" where
  "today_session o' user today db = ReviewSession (due_rows (catalog o' user db) today)"

definition card_detail :: "uuid \<Rightarrow> uuid \<Rightarrow> string \<Rightarrow> learning_db \<Rightarrow> learning_answer" where
  "card_detail o' user ext db = (case get_card_by_external o' ext db of
       None \<Rightarrow> LearningRefused 404 ''Not found''
     | Some c \<Rightarrow> CardDetail c (get_state user (cd_id c) db))"

definition mark_card ::
  "uuid \<Rightarrow> uuid \<Rightarrow> int \<Rightarrow> string \<Rightarrow> outcome \<Rightarrow> date \<Rightarrow> learning_db \<Rightarrow> learning_db \<times> card_reviewed list \<times> learning_answer" where
  "mark_card o' user daily_limit ext oc today db =
     (case get_card_by_external o' ext db of
        None \<Rightarrow> (db, [], LearningRefused 404 ''Not found'')
      | Some c \<Rightarrow>
          (case review_card (learning_repo o' user) (cd_id c) oc today daily_limit db of
             Inl DailyLimitReached \<Rightarrow> (db, [], LearningRefused 429 ''Daily review limit reached'')
           | Inl LevelKeyError \<Rightarrow> (db, [], LearningCrash)
           | Inr (sch, db') \<Rightarrow>
               (db', [\<lparr>rv_user = user, rv_org = o', rv_card = cd_id c, rv_name = cd_question c, rv_outcome = oc\<rparr>],
                ReviewSession (due_rows (catalog o' user db') today))))"

definition resources :: "uuid \<Rightarrow> uuid \<Rightarrow> learning_db \<Rightarrow> learning_answer" where
  "resources o' user db =
     Resources (compute_resources (map (\<lambda>(d, c, st). \<lparr>cr_deck = dk_name d, cr_deck_position = dk_position d,
        cr_card_position = cd_position c, cr_deck_url = dk_url d, cr_card_url = cd_url c\<rparr>)
      (filter (\<lambda>r. needs_resources (card_level r)) (catalog o' user db))))"

definition welcome_cards :: "(string \<times> string \<times> string) list" where
  "welcome_cards =
     [(''what-is-a-deck'', ''What is a deck?'', ''A collection of flashcards you review with spaced repetition.''),
      (''how-to-review'', ''How does reviewing work?'', ''Cards you know come back less often; cards you miss come back sooner.'')]"

text \<open>The identifiers are the database's; they are arguments here.\<close>

definition seed_welcome :: "uuid \<Rightarrow> uuid \<Rightarrow> uuid list \<Rightarrow> learning_db \<Rightarrow> learning_db" where
  "seed_welcome o' deck_id card_ids db =
     db\<lparr>ld_decks := ld_decks db @ [\<lparr>dk_id = deck_id, dk_org = o', dk_name = ''Welcome'', dk_url = None, dk_position = 0\<rparr>],
        ld_cards := ld_cards db @ map (\<lambda>(i, u, ext, q, a). \<lparr>cd_id = u, cd_org = o', cd_deck = deck_id,
          cd_external = ext, cd_question = q, cd_answer = a, cd_url = None, cd_position = int i\<rparr>)
          (zip [0..<length welcome_cards] (zip card_ids welcome_cards))\<rparr>"

end
