(* ===== verification/Learning_Review.thy ===== *)
theory Learning_Review
  imports Learning
begin

text \<open>
  What the review owes its repository, as a locale over the protocol of \<open>learning/domain/repository.py\<close>,
  the SQL repository as its interpretation, and what follows for any history of marks: the daily cap,
  well-formed schedules, and which cards a session shows.
\<close>

definition progress :: "card_state \<Rightarrow> int \<times> date option \<times> date option" where
  "progress st = (cs_level st, cs_last st, cs_next st)"

locale review_repository =
  fixes ops :: "'s review_ops"
    and valid :: "'s \<Rightarrow> bool"
  assumes valid_applied: "valid s \<Longrightarrow> valid (rr_apply_schedule ops c sch s)"
    and get_applied: "valid s \<Longrightarrow> map_option progress (rr_get_state ops c (rr_apply_schedule ops c' sch s))
      = (if c = c' then Some (sc_level sch, Some (sc_last sch), Some (sc_next sch))
         else map_option progress (rr_get_state ops c s))"
    and counted: "valid s \<Longrightarrow> finite {c. map_option (fst \<circ> snd) (map_option progress (rr_get_state ops c s)) = Some (Some t)}
      \<and> rr_reviews_today ops t s
        = int (card {c. map_option (fst \<circ> snd) (map_option progress (rr_get_state ops c s)) = Some (Some t)})"
begin

definition last_of :: "uuid \<Rightarrow> 's \<Rightarrow> date option option" where
  "last_of c s = map_option (fst \<circ> snd) (map_option progress (rr_get_state ops c s))"

definition reviewed :: "date \<Rightarrow> 's \<Rightarrow> uuid set" where
  "reviewed t s = {c. last_of c s = Some (Some t)}"

lemma count_reviewed: "valid s \<Longrightarrow> finite (reviewed t s) \<and> rr_reviews_today ops t s = int (card (reviewed t s))"
  using counted[of s t] by (simp add: reviewed_def last_of_def)

lemma reviewed_applied:
  "valid s \<Longrightarrow> reviewed t (rr_apply_schedule ops c sch s)
    = (if sc_last sch = t then insert c (reviewed t s) else reviewed t s - {c})"
  by (auto simp: reviewed_def last_of_def get_applied)

lemma already_iff:
  "(case rr_get_state ops c s of None \<Rightarrow> False | Some st \<Rightarrow> cs_last st = Some t) \<longleftrightarrow> c \<in> reviewed t s"
  by (auto simp: reviewed_def last_of_def progress_def split: option.splits)

lemma review_refused_iff:
  "valid s \<Longrightarrow> review_card ops c oc today limit s = Inl DailyLimitReached
    \<longleftrightarrow> c \<notin> reviewed today s \<and> limit \<le> int (card (reviewed today s))"
  using count_reviewed[of s today] by (simp add: review_card_def Let_def already_iff split: option.splits)

lemma applied_last: "apply_outcome l today oc = Some sch \<Longrightarrow> sc_last sch = today"
  by (auto simp: apply_outcome_def Let_def)

text \<open>A review that passes keeps each day's count within the limit.\<close>

lemma review_cap:
  assumes "valid s" "review_card ops c oc today limit s = Inr (sch, s')"
  shows "valid s' \<and> rr_reviews_today ops t s' \<le> max limit (rr_reviews_today ops t s)"
proof -
  have s': "s' = rr_apply_schedule ops c sch s" and last: "sc_last sch = today"
    and room: "c \<in> reviewed today s \<or> rr_reviews_today ops today s < limit"
    using assms(2) by (auto simp: review_card_def Let_def already_iff applied_last split: if_splits option.splits)
  have valid: "valid s'" using assms(1) by (simp add: s' valid_applied)
  have "rr_reviews_today ops t s' = int (card (reviewed t s'))" using count_reviewed[OF valid] by simp
  also have "reviewed t s' = (if today = t then insert c (reviewed t s) else reviewed t s - {c})"
    unfolding s' reviewed_applied[OF assms(1)] last ..
  also have "int (card (if today = t then insert c (reviewed t s) else reviewed t s - {c}))
      \<le> max limit (rr_reviews_today ops t s)"
    using room count_reviewed[OF assms(1), of t] card_mono[of "reviewed t s" "reviewed t s - {c}"]
    by (auto simp: insert_absorb card_insert_if)
  finally show ?thesis using valid by simp
qed

end

section \<open>The SQL repository keeps the protocol\<close>

definition states_unique :: "learning_db \<Rightarrow> bool" where
  "states_unique db \<longleftrightarrow> distinct (map (\<lambda>s. (cs_user s, cs_card s)) (ld_states db))"

lemma scheduled_sel [simp]:
  "cs_user (scheduled sch st) = cs_user st" "cs_card (scheduled sch st) = cs_card st"
  "progress (scheduled sch st) = (sc_level sch, Some (sc_last sch), Some (sc_next sch))"
  by (simp_all add: scheduled_def progress_def)

lemma get_state_SomeD: "get_state user c db = Some st \<Longrightarrow> st \<in> set (ld_states db) \<and> cs_card st = c \<and> cs_user st = user"
  by (auto simp: get_state_def find_Some_iff)

lemma get_state_None_iff:
  "get_state user c db = None \<longleftrightarrow> (\<forall>st \<in> set (ld_states db). \<not> (cs_card st = c \<and> cs_user st = user))"
  by (auto simp: get_state_def find_None_iff)

lemma apply_schedule_unique: "states_unique db \<Longrightarrow> states_unique (apply_schedule o' user c sch db)"
  by (cases "get_state user c db")
    (auto simp: states_unique_def apply_schedule_def map_update_where_key dest: get_state_None_iff[THEN iffD1])

lemma find_update_where:
  assumes "\<And>s. P s \<Longrightarrow> Q (f s) = Q s"
  shows "List.find Q (update_where P f xs) = map_option (\<lambda>s. if P s then f s else s) (List.find Q xs)"
  using assms by (induction xs) auto

lemma get_apply_schedule:
  "map_option progress (get_state user c (apply_schedule o' user c' sch db))
    = (if c = c' then Some (sc_level sch, Some (sc_last sch), Some (sc_next sch))
       else map_option progress (get_state user c db))"
proof (cases "get_state user c' db")
  case None
  then show ?thesis
    by (cases "get_state user c db") (auto simp: get_state_def apply_schedule_def find_append)
next
  case (Some st)
  have upd: "get_state user c (apply_schedule o' user c' sch db)
      = map_option (\<lambda>s. if cs_card s = c' \<and> cs_user s = user then scheduled sch s else s) (get_state user c db)"
    using Some by (simp add: apply_schedule_def get_state_def find_update_where)
  show ?thesis unfolding upd using Some get_state_SomeD[of user c db]
    by (cases "get_state user c db") auto
qed

lemma get_state_unique:
  assumes "states_unique db" "st \<in> set (ld_states db)"
  shows "get_state (cs_user st) (cs_card st) db = Some st"
proof -
  obtain st' where st': "get_state (cs_user st) (cs_card st) db = Some st'"
    using assms(2) get_state_None_iff[of "cs_user st" "cs_card st" db] by auto
  have "st' = st"
    using get_state_SomeD[OF st'] assms by (auto simp: states_unique_def distinct_map dest!: inj_onD)
  then show ?thesis using st' by simp
qed

lemma reviews_today_counts:
  assumes "states_unique db"
  shows "{c. map_option (fst \<circ> snd) (map_option progress (get_state user c db)) = Some (Some t)}
      = cs_card ` set (filter (\<lambda>s. cs_user s = user \<and> cs_last s = Some t) (ld_states db))"
    and "reviews_today user t db
      = int (card (cs_card ` set (filter (\<lambda>s. cs_user s = user \<and> cs_last s = Some t) (ld_states db))))"
proof -
  let ?mine = "filter (\<lambda>s. cs_user s = user \<and> cs_last s = Some t) (ld_states db)"
  show "{c. map_option (fst \<circ> snd) (map_option progress (get_state user c db)) = Some (Some t)} = cs_card ` set ?mine"
  proof (intro set_eqI iffI)
    fix c assume "c \<in> {c. map_option (fst \<circ> snd) (map_option progress (get_state user c db)) = Some (Some t)}"
    then obtain st where "get_state user c db = Some st" "cs_last st = Some t" by (auto simp: progress_def)
    then show "c \<in> cs_card ` set ?mine" using get_state_SomeD[of user c db st] by auto
  next
    fix c assume "c \<in> cs_card ` set ?mine"
    then obtain st where "st \<in> set (ld_states db)" "cs_user st = user" "cs_last st = Some t" "c = cs_card st" by auto
    then show "c \<in> {c. map_option (fst \<circ> snd) (map_option progress (get_state user c db)) = Some (Some t)}"
      using get_state_unique[OF assms] by (auto simp: progress_def)
  qed
  have pairs: "distinct (map (\<lambda>s. (cs_user s, cs_card s)) ?mine)"
    using assms unfolding states_unique_def by (rule distinct_map_filter)
  have "inj_on cs_card (set ?mine)"
  proof (rule inj_onI)
    fix x y assume "x \<in> set ?mine" "y \<in> set ?mine" "cs_card x = cs_card y"
    then show "x = y" using pairs unfolding distinct_map inj_on_def by simp
  qed
  then have "card (cs_card ` set ?mine) = card (set ?mine)" by (rule card_image)
  also have "\<dots> = length ?mine" using pairs unfolding distinct_map by (intro distinct_card) blast
  finally show "reviews_today user t db = int (card (cs_card ` set ?mine))"
    by (simp only: reviews_today_def count_where_def)
qed

lemma sql_counted:
  assumes "states_unique db"
  shows "finite {c. map_option (fst \<circ> snd) (map_option progress (get_state user c db)) = Some (Some t)}
    \<and> reviews_today user t db
      = int (card {c. map_option (fst \<circ> snd) (map_option progress (get_state user c db)) = Some (Some t)})"
  unfolding reviews_today_counts(1)[OF assms] using reviews_today_counts(2)[OF assms] by simp

interpretation sql: review_repository "learning_repo o' user" states_unique for o' user
  by unfold_locales (simp_all only: learning_repo_def review_ops.simps apply_schedule_unique get_apply_schedule sql_counted)

section \<open>Marking, day after day\<close>

text \<open>A state the program writes: never studied, or on a level of the table and due an interval after.\<close>

definition state_ok :: "card_state \<Rightarrow> bool" where
  "state_ok st \<longleftrightarrow> progress st = (0, None, None)
     \<or> (\<exists>l n. 1 \<le> cs_level st \<and> cs_level st \<le> max_level \<and> cs_last st = Some l
          \<and> interval_for_level (cs_level st) = Some n \<and> cs_next st = Some (l + n))"

definition states_ok :: "learning_db \<Rightarrow> bool" where
  "states_ok db \<longleftrightarrow> states_unique db \<and> list_all state_ok (ld_states db)"

lemma interval_total: "1 \<le> l \<Longrightarrow> l \<le> max_level \<Longrightarrow> \<exists>n. interval_for_level l = Some n \<and> 1 \<le> n"
proof -
  assume "1 \<le> l" "l \<le> max_level"
  then have "l = 1 \<or> l = 2 \<or> l = 3 \<or> l = 4 \<or> l = 5 \<or> l = 6 \<or> l = 7 \<or> l = 8 \<or> l = 9"
    unfolding max_level_def by arith
  then show ?thesis by (auto simp: interval_for_level_def fibonacci_intervals_def)
qed

lemma apply_outcome_ok:
  assumes "0 \<le> l" "l \<le> max_level"
  obtains sch n where "apply_outcome l today oc = Some sch" "sc_last sch = today" "1 \<le> sc_level sch"
    "sc_level sch \<le> max_level" "interval_for_level (sc_level sch) = Some n" "sc_next sch = today + n"
proof -
  define l' where "l' = (if oc = Again then 1 else min (l + 1) max_level)"
  have range: "1 \<le> l'" "l' \<le> max_level" using assms by (auto simp: l'_def max_level_def)
  then obtain n where "interval_for_level l' = Some n" using interval_total by blast
  then have "apply_outcome l today oc = Some \<lparr>sc_level = l', sc_last = today, sc_next = today + n\<rparr>"
    by (simp add: apply_outcome_def Let_def l'_def)
  from that[OF this] show ?thesis using range \<open>interval_for_level l' = Some n\<close> by simp
qed

lemma state_ok_level: "state_ok st \<Longrightarrow> 0 \<le> cs_level st \<and> cs_level st \<le> max_level"
  by (auto simp: state_ok_def progress_def max_level_def)

lemma scheduled_ok:
  "1 \<le> sc_level sch \<Longrightarrow> sc_level sch \<le> max_level \<Longrightarrow> interval_for_level (sc_level sch) = Some n
   \<Longrightarrow> sc_next sch = sc_last sch + n \<Longrightarrow> state_ok (scheduled sch st)"
  by (simp add: state_ok_def scheduled_def)

lemma review_keeps_ok:
  assumes "states_ok db"
  shows "review_card (learning_repo o' user) c oc today limit db \<noteq> Inl LevelKeyError"
    and "review_card (learning_repo o' user) c oc today limit db = Inr (sch, db') \<Longrightarrow> states_ok db'"
proof -
  define l where "l = (case get_state user c db of None \<Rightarrow> 0 | Some st \<Rightarrow> cs_level st)"
  have "0 \<le> l \<and> l \<le> max_level"
    using assms state_ok_level get_state_SomeD[of user c db]
    by (auto simp: l_def states_ok_def list_all_iff max_level_def split: option.splits)
  then obtain sch' n where ok: "apply_outcome l today oc = Some sch'" "sc_last sch' = today" "1 \<le> sc_level sch'"
    "sc_level sch' \<le> max_level" "interval_for_level (sc_level sch') = Some n" "sc_next sch' = today + n"
    by (blast elim: apply_outcome_ok)
  have run: "review_card (learning_repo o' user) c oc today limit db \<in>
      {Inl DailyLimitReached, Inr (sch', apply_schedule o' user c sch' db)}"
    using ok(1) by (simp add: review_card_def learning_repo_def l_def Let_def)
  then show "review_card (learning_repo o' user) c oc today limit db \<noteq> Inl LevelKeyError" by auto
  have "state_ok (scheduled sch' st)" for st using ok by (intro scheduled_ok) auto
  then have "list_all state_ok (ld_states (apply_schedule o' user c sch' db))"
    using assms by (auto simp: states_ok_def list_all_iff apply_schedule_def in_update_where split: option.splits)
  then have "states_ok (apply_schedule o' user c sch' db)"
    using assms by (simp add: states_ok_def apply_schedule_unique)
  then show "review_card (learning_repo o' user) c oc today limit db = Inr (sch, db') \<Longrightarrow> states_ok db'"
    using run by auto
qed

definition mark_all :: "uuid \<Rightarrow> uuid \<Rightarrow> int \<Rightarrow> (string \<times> outcome \<times> date) list \<Rightarrow> learning_db \<Rightarrow> learning_db" where
  "mark_all o' user limit marks db =
     fold (\<lambda>(ext, oc, today) db. fst (mark_card o' user limit ext oc today db)) marks db"

lemma mark_cases:
  obtains "fst (mark_card o' user limit ext oc today db) = db"
  | c sch where "review_card (learning_repo o' user) c oc today limit db
      = Inr (sch, fst (mark_card o' user limit ext oc today db))"
proof (cases "get_card_by_external o' ext db")
  case (Some c)
  then show ?thesis using that
    by (cases "review_card (learning_repo o' user) (cd_id c) oc today limit db")
      (auto simp: mark_card_def split: review_error.splits)
qed (use that in \<open>simp add: mark_card_def\<close>)

lemma sql_review_cap:
  assumes "states_unique db" "review_card (learning_repo o' user) c oc today limit db = Inr (sch, db')"
  shows "reviews_today user t db' \<le> max limit (reviews_today user t db)"
  using sql.review_cap[OF assms] by (simp add: learning_repo_def)

lemma mark_step:
  assumes "states_ok db" "\<And>t. reviews_today user t db \<le> limit"
  shows "states_ok (fst (mark_card o' user limit ext oc today db))
    \<and> reviews_today user t (fst (mark_card o' user limit ext oc today db)) \<le> limit"
proof (cases rule: mark_cases[of o' user limit ext oc today db])
  case (2 c sch)
  have "reviews_today user t (fst (mark_card o' user limit ext oc today db)) \<le> max limit (reviews_today user t db)"
    by (rule sql_review_cap[OF _ 2]) (use assms(1) in \<open>simp add: states_ok_def\<close>)
  then show ?thesis using review_keeps_ok(2)[OF assms(1) 2] assms(2)[of t] by simp
qed (use assms in auto)

lemma mark_all_ok:
  "states_ok db \<Longrightarrow> (\<And>t. reviews_today user t db \<le> limit)
   \<Longrightarrow> states_ok (mark_all o' user limit marks db) \<and> (\<forall>t. reviews_today user t (mark_all o' user limit marks db) \<le> limit)"
proof (induction marks arbitrary: db)
  case (Cons m marks)
  obtain ext oc today where m: "m = (ext, oc, today)" by (metis prod_cases3)
  have "states_ok (fst (mark_card o' user limit ext oc today db))"
    and "\<And>t. reviews_today user t (fst (mark_card o' user limit ext oc today db)) \<le> limit"
    using mark_step[OF Cons.prems] by blast+
  from Cons.IH[OF this] show ?case by (simp add: mark_all_def m)
qed (simp add: mark_all_def)

text \<open>
  C22.  The daily cap holds for every day of every history.  Starting with well-formed progress, after
  any sequence of marks (any cards, outcomes and dates, in any order) no day counts more distinct
  cards than the limit, every state is on a level of the table and due one interval after its last
  review, and a mark is refused with a 429 exactly when its card was not reviewed that day and the
  day is full; it never fails otherwise on a card that exists.
\<close>

theorem daily_cap_holds:
  assumes "states_ok db" and "\<And>t. reviews_today user t db \<le> limit"
    and "db' = mark_all o' user limit marks db"
    and "get_card_by_external o' ext db' = Some c"
  shows "reviews_today user t db' \<le> limit
    \<and> list_all state_ok (ld_states db')
    \<and> (if (\<forall>st. get_state user (cd_id c) db' = Some st \<longrightarrow> cs_last st \<noteq> Some today) \<and> reviews_today user today db' = limit
       then mark_card o' user limit ext oc today db' = (db', [], LearningRefused 429 ''Daily review limit reached'')
       else fst (snd (mark_card o' user limit ext oc today db'))
         = [\<lparr>rv_user = user, rv_org = o', rv_card = cd_id c, rv_name = cd_question c, rv_outcome = oc\<rparr>])"
proof -
  have ok: "states_ok db'" and cap: "\<And>t. reviews_today user t db' \<le> limit"
    using mark_all_ok[OF assms(1,2)] by (auto simp: assms(3))
  let ?r = "review_card (learning_repo o' user) (cd_id c) oc today limit db'"
  let ?new = "\<forall>st. get_state user (cd_id c) db' = Some st \<longrightarrow> cs_last st \<noteq> Some today"
  have refused: "?r = Inl DailyLimitReached \<longleftrightarrow> ?new \<and> reviews_today user today db' = limit"
    using cap[of today]
    by (auto simp: review_card_def learning_repo_def Let_def split: option.splits)
  have "?r = Inl DailyLimitReached \<or> (\<exists>sch db''. ?r = Inr (sch, db''))"
    using review_keeps_ok(1)[OF ok, of o' user "cd_id c" oc today limit]
    by (cases ?r) (auto intro: review_error.exhaust)
  then have "if ?new \<and> reviews_today user today db' = limit
       then mark_card o' user limit ext oc today db' = (db', [], LearningRefused 429 ''Daily review limit reached'')
       else fst (snd (mark_card o' user limit ext oc today db'))
         = [\<lparr>rv_user = user, rv_org = o', rv_card = cd_id c, rv_name = cd_question c, rv_outcome = oc\<rparr>]"
    using refused by (auto simp: mark_card_def assms(4))
  then show ?thesis using ok cap[of t] by (simp add: states_ok_def)
qed

definition demo_deck :: "uuid \<Rightarrow> string \<Rightarrow> deck" where
  "demo_deck i name = \<lparr>dk_id = i, dk_org = 1, dk_name = name, dk_url = None, dk_position = int i\<rparr>"

definition demo_card :: "uuid \<Rightarrow> uuid \<Rightarrow> string \<Rightarrow> card" where
  "demo_card i dk ext = \<lparr>cd_id = i, cd_org = 1, cd_deck = dk, cd_external = ext, cd_question = ''q'',
     cd_answer = ''a'', cd_url = None, cd_position = int i\<rparr>"

definition demo_learning :: learning_db where
  "demo_learning = \<lparr>ld_decks = [demo_deck 1 ''one'', demo_deck 2 ''two''],
     ld_cards = [demo_card 10 1 ''intro'', demo_card 20 2 ''intro'', demo_card 30 1 ''b''],
     ld_subs = [\<lparr>sb_org = 1, sb_user = 7, sb_deck = 1\<rparr>, \<lparr>sb_org = 1, sb_user = 7, sb_deck = 2\<rparr>], ld_states = []\<rparr>"

lemma daily_cap_holds_witness:
  "reviews_today 7 100 (mark_all 1 7 1 [(''intro'', Learned, 100)] demo_learning) \<le> 1"
proof -
  have 1: "states_ok demo_learning" by (simp add: states_ok_def states_unique_def demo_learning_def)
  have 2: "\<And>t. reviews_today 7 t demo_learning \<le> 1" by (simp add: reviews_today_def demo_learning_def)
  have 3: "get_card_by_external 1 ''b'' (mark_all 1 7 1 [(''intro'', Learned, 100)] demo_learning) = Some (demo_card 30 1 ''b'')"
    by code_simp
  show ?thesis using daily_cap_holds[OF 1 2 refl 3] by blast
qed

section \<open>What a session shows\<close>

definition external :: "catalog_row \<Rightarrow> string" where
  "external r = cd_external (fst (snd r))"

definition row_due :: "date \<Rightarrow> catalog_row \<Rightarrow> bool" where
  "row_due today r \<longleftrightarrow> is_due (dc_next (due_card_of r)) today"

lemma dc_external_of [simp]: "dc_external (due_card_of r) = external r"
  by (cases r) (simp add: due_card_of_def external_def)

definition by_external :: "catalog_row list \<Rightarrow> (string, catalog_row) dict" where
  "by_external rows = fold (\<lambda>r. AList.update (external r) r) rows []"

lemma map_of_fold_update:
  "map_of (fold (\<lambda>r. AList.update (f r) r) rows d) k
    = (case List.find (\<lambda>r. f r = k) (rev rows) of Some r \<Rightarrow> Some r | None \<Rightarrow> map_of d k)"
  by (induction rows arbitrary: d) (auto simp: map_of_AList_update find_append split: option.splits)

lemma map_of_by_external: "map_of (by_external rows) k = List.find (\<lambda>r. external r = k) (rev rows)"
  by (simp add: by_external_def map_of_fold_update split: option.splits)

lemma due_rows_alt:
  "due_rows rows today = List.map_filter (\<lambda>c. map_of (by_external rows) (dc_external c))
     (sort_key due_key (map due_card_of (filter (row_due today) rows)))"
  by (simp add: due_rows_def by_external_def external_def select_due_cards_def order_due_cards_def Let_def filter_map
      comp_def row_due_def[abs_def])

lemma by_external_found: "r \<in> set rows \<Longrightarrow> map_of (by_external rows) (external r) \<noteq> None"
  unfolding map_of_by_external find_None_iff set_rev by blast

lemma by_external_distinct:
  assumes "distinct (map external rows)" "r \<in> set rows"
  shows "map_of (by_external rows) (external r) = Some r"
proof -
  obtain r' where r': "List.find (\<lambda>q. external q = external r) (rev rows) = Some r'"
    using by_external_found[OF assms(2)] unfolding map_of_by_external by blast
  then have "r' \<in> set rows" "external r' = external r" by (auto dest: find_SomeD)
  then have "r' = r" using assms by (auto simp: distinct_map dest: inj_onD)
  then show ?thesis using r' by (simp add: map_of_by_external)
qed

text \<open>
  A session shows what is due, never-studied cards first.  When no two cards of the subscribed
  decks share an external id, the session is a permutation of the due rows of the catalogue, in the
  order of the key: never studied, then the oldest next review, then deck and card order.
\<close>

theorem session_shows_due_cards:
  assumes "distinct (map (\<lambda>(d, c, st). cd_external c) (catalog o' user db))"
    and "today_session o' user today db = ReviewSession rows"
  shows "mset rows = mset (filter (\<lambda>(d, c, st). is_due (Option.bind st cs_next) today) (catalog o' user db))
    \<and> sorted (map (\<lambda>(d, c, st). due_key (due_card_of (d, c, st))) rows)"
proof -
  let ?cat = "catalog o' user db" let ?due = "filter (row_due today) ?cat"
  have ext: "(\<lambda>(d, c, st). cd_external c) = external" by (auto simp: external_def)
  have due: "(\<lambda>(d, c, st). is_due (Option.bind st cs_next) today) = row_due today"
    by (auto simp: row_due_def due_card_of_def)
  have dist: "distinct (map external ?cat)" using assms(1) by (simp only: ext)
  define row_of :: "due_card \<Rightarrow> catalog_row" where "row_of = (\<lambda>c. the (map_of (by_external ?cat) (dc_external c)))"
  have row_of: "row_of (due_card_of r) = r" if "r \<in> set ?cat" for r
    using by_external_distinct[OF dist that] by (simp add: row_of_def)
  have rows: "rows = map row_of (sort_key due_key (map due_card_of ?due))"
    using assms(2) unfolding today_session_def due_rows_alt learning_answer.inject
    by (elim subst, intro map_filter_Some) (use by_external_distinct[OF dist] in \<open>fastforce simp: row_of_def\<close>)
  have "mset rows = image_mset row_of (image_mset due_card_of (mset ?due))" by (simp add: rows)
  also have "\<dots> = image_mset (\<lambda>r. r) (mset ?due)"
    unfolding image_mset.compositionality comp_def by (intro image_mset_cong) (auto simp: row_of)
  finally have "mset rows = mset ?due" by simp
  moreover have "map (due_key \<circ> due_card_of) rows = map due_key (sort_key due_key (map due_card_of ?due))"
    unfolding rows map_map by (intro map_cong refl) (auto simp: row_of)
  then have "sorted (map (due_key \<circ> due_card_of) rows)" by simp
  ultimately show ?thesis unfolding due by (simp add: comp_def split_def)
qed

text \<open>
  Two decks sharing an external id hide a card.  The routes look a card up by its external id
  in the whole organisation, while the id is unique in its deck only: of two due cards that share it,
  the session shows the later row of the catalogue twice and never the earlier.
\<close>

theorem shared_external_id_hides_a_card:
  assumes "catalog o' user db = xs @ (d1, c1, s1) # ys" and "(d2, c2, s2) \<in> set ys"
    and "cd_external c2 = cd_external c1" and "(d1, c1, s1) \<notin> set ys"
    and "today_session o' user today db = ReviewSession rows"
  shows "(d1, c1, s1) \<notin> set rows
    \<and> length rows = length (filter (\<lambda>(d, c, st). is_due (Option.bind st cs_next) today) (catalog o' user db))"
proof -
  let ?cat = "catalog o' user db"
  have due: "(\<lambda>(d, c, st). is_due (Option.bind st cs_next) today) = row_due today"
    by (auto simp: row_due_def due_card_of_def)
  have rows: "rows = List.map_filter (\<lambda>c. map_of (by_external ?cat) (dc_external c))
      (sort_key due_key (map due_card_of (filter (row_due today) ?cat)))"
    using assms(5) by (simp add: today_session_def due_rows_alt)
  define g :: "due_card \<Rightarrow> catalog_row" where "g = (\<lambda>c. the (map_of (by_external ?cat) (dc_external c)))"
  have found: "map_of (by_external ?cat) (external r) \<noteq> None" if "r \<in> set ?cat" for r
    using that by (rule by_external_found)
  then have rows': "rows = map g (sort_key due_key (map due_card_of (filter (row_due today) ?cat)))"
    unfolding rows by (intro map_filter_Some) (use found in \<open>fastforce simp: g_def\<close>)
  have later: "r \<in> set ys" if "map_of (by_external ?cat) k = Some r" "k = external (d1, c1, s1)" for r k
  proof -
    have "\<exists>r' \<in> set ys. external r' = k" using assms(2,3) that(2) by (force simp: external_def)
    then obtain q where q: "List.find (\<lambda>r. external r = k) (rev ys) = Some q"
      by (cases "List.find (\<lambda>r. external r = k) (rev ys)") (auto simp: find_None_iff)
    then have "r = q" using that(1) by (simp add: map_of_by_external assms(1) find_append)
    then show ?thesis using q by (auto dest: find_SomeD)
  qed
  have "(d1, c1, s1) \<notin> set rows"
  proof
    assume "(d1, c1, s1) \<in> set rows"
    then obtain r where r: "map_of (by_external ?cat) (external r) = Some (d1, c1, s1)"
      unfolding rows List.map_filter_def by auto
    then have "external (d1, c1, s1) = external r" by (auto simp: map_of_by_external dest: find_SomeD)
    then show False using later[OF r] assms(4) by simp
  qed
  then show ?thesis by (simp add: due rows')
qed

lemma session_shows_due_cards_witness:
  "\<exists>rows. today_session 1 7 100 (demo_learning\<lparr>ld_subs := [\<lparr>sb_org = 1, sb_user = 7, sb_deck = 1\<rparr>]\<rparr>) = ReviewSession rows
    \<and> mset rows = {#(demo_deck 1 ''one'', demo_card 10 1 ''intro'', None), (demo_deck 1 ''one'', demo_card 30 1 ''b'', None)#}"
proof -
  let ?db = "demo_learning\<lparr>ld_subs := [\<lparr>sb_org = 1, sb_user = 7, sb_deck = 1\<rparr>]\<rparr>"
  obtain rows where rows: "today_session 1 7 100 ?db = ReviewSession rows" by (simp add: today_session_def)
  have cat: "catalog 1 7 ?db = [(demo_deck 1 ''one'', demo_card 10 1 ''intro'', None), (demo_deck 1 ''one'', demo_card 30 1 ''b'', None)]"
    by code_simp
  have "mset rows = mset (filter (\<lambda>(d, c, st). is_due (Option.bind st cs_next) 100) (catalog 1 7 ?db))"
    using session_shows_due_cards[OF _ rows] unfolding cat by (simp add: demo_card_def)
  then show ?thesis using rows unfolding cat by (simp add: is_due_def add_mset_commute)
qed

lemma shared_external_id_hides_a_card_witness:
  "\<exists>rows. today_session 1 7 100 demo_learning = ReviewSession rows
    \<and> (demo_deck 1 ''one'', demo_card 10 1 ''intro'', None) \<notin> set rows \<and> length rows = 3"
proof -
  obtain rows where rows: "today_session 1 7 100 demo_learning = ReviewSession rows" by (simp add: today_session_def)
  have cat: "catalog 1 7 demo_learning = [] @ (demo_deck 1 ''one'', demo_card 10 1 ''intro'', None)
      # [(demo_deck 1 ''one'', demo_card 30 1 ''b'', None), (demo_deck 2 ''two'', demo_card 20 2 ''intro'', None)]"
    by code_simp
  have 2: "(demo_deck 2 ''two'', demo_card 20 2 ''intro'', None) \<in>
    set [(demo_deck 1 ''one'', demo_card 30 1 ''b'', None), (demo_deck 2 ''two'', demo_card 20 2 ''intro'', None)]" by simp
  have 3: "cd_external (demo_card 20 2 ''intro'') = cd_external (demo_card 10 1 ''intro'')" by (simp add: demo_card_def)
  have 4: "(demo_deck 1 ''one'', demo_card 10 1 ''intro'', None) \<notin>
    set [(demo_deck 1 ''one'', demo_card 30 1 ''b'', None), (demo_deck 2 ''two'', demo_card 20 2 ''intro'', None)]"
    by (simp add: demo_card_def)
  show ?thesis using shared_external_id_hides_a_card[OF cat 2 3 4 rows] rows unfolding cat by (simp add: is_due_def)
qed

end
