(* ===== verification/Positioned.thy ===== *)
theory Positioned
  imports Prelude
begin

text \<open>
  \<open>apps/shared/persistence/repository.py\<close>: the rows of one organisation, and \<open>PositionedRepository\<close>, which
  keeps them in the order of an integer position.  A model is a record of accessors, so that the same
  operations serve tasks and navigation entries; what they owe each other is the locale \<open>positioned\<close>.
  The session's flush writes each object back to its row; versions (the optimistic lock) are not
  modelled, requests being taken one after another.
\<close>

section \<open>The operations\<close>

record 'a row_model =
  rm_id :: "'a \<Rightarrow> uuid"
  rm_org :: "'a \<Rightarrow> uuid"
  rm_key :: "'a \<Rightarrow> uuid"
  rm_position :: "'a \<Rightarrow> int"
  rm_set_position :: "int \<Rightarrow> 'a \<Rightarrow> 'a"

definition org_rows :: "'a row_model \<Rightarrow> uuid \<Rightarrow> 'a list \<Rightarrow> 'a list" where
  "org_rows m o' rows = filter (\<lambda>r. rm_org m r = o') rows"

text \<open>\<open>OrgScopedRepository\<close>, ordered by position.\<close>

definition repo_get :: "'a row_model \<Rightarrow> uuid \<Rightarrow> uuid \<Rightarrow> 'a list \<Rightarrow> 'a option" where
  "repo_get m o' pk rows = List.find (\<lambda>r. rm_id m r = pk \<and> rm_org m r = o') rows"

definition repo_all :: "'a row_model \<Rightarrow> uuid \<Rightarrow> 'a list \<Rightarrow> 'a list" where
  "repo_all m o' rows = sort_key (rm_position m) (org_rows m o' rows)"

definition repo_count :: "'a row_model \<Rightarrow> uuid \<Rightarrow> 'a list \<Rightarrow> nat" where
  "repo_count m o' rows = count_where (\<lambda>r. rm_org m r = o') rows"

definition repo_delete :: "'a row_model \<Rightarrow> 'a \<Rightarrow> 'a list \<Rightarrow> 'a list" where
  "repo_delete m entity rows = delete_where (\<lambda>r. rm_id m r = rm_id m entity) rows"

definition reorder :: "('a \<Rightarrow> uuid) \<Rightarrow> 'a list \<Rightarrow> uuid \<Rightarrow> uuid option \<Rightarrow> 'a list option" where
  "reorder key items item_key above_key =
     (case List.find (\<lambda>i. key i = item_key) items of
        None \<Rightarrow> None
      | Some item \<Rightarrow>
          (let ordered = filter (\<lambda>i. key i \<noteq> item_key) items in
           case above_key of
             None \<Rightarrow> Some (ordered @ [item])
           | Some k \<Rightarrow>
               if list_ex (\<lambda>e. key e = k) ordered
               then Some (takeWhile (\<lambda>e. key e \<noteq> k) ordered @ item # dropWhile (\<lambda>e. key e \<noteq> k) ordered)
               else None))"

text \<open>Every object of the list gets its index as position, and is written back to its row.\<close>

definition numbered :: "'a row_model \<Rightarrow> 'a list \<Rightarrow> 'a list" where
  "numbered m ordered = map (\<lambda>(pos, e). rm_set_position m (int pos) e) (zip [0..<length ordered] ordered)"

definition flush_rows :: "'a row_model \<Rightarrow> 'a list \<Rightarrow> 'a list \<Rightarrow> 'a list" where
  "flush_rows m objects rows =
     map (\<lambda>r. case List.find (\<lambda>e. rm_id m e = rm_id m r) objects of Some e \<Rightarrow> e | None \<Rightarrow> r) rows"

definition move_above :: "'a row_model \<Rightarrow> uuid \<Rightarrow> uuid \<Rightarrow> uuid option \<Rightarrow> 'a list \<Rightarrow> 'a list" where
  "move_above m o' item_key above_key rows =
     (case reorder (rm_key m) (repo_all m o' rows) item_key above_key of
        None \<Rightarrow> rows
      | Some ordered \<Rightarrow> flush_rows m (numbered m ordered) rows)"

section \<open>The abstract list\<close>

text \<open>What a caller sees: keys in order.  Moving is taking a key out and putting it back above another.\<close>

definition put_above :: "'k \<Rightarrow> 'k option \<Rightarrow> 'k list \<Rightarrow> 'k list" where
  "put_above k up ks = (case up of
       None \<Rightarrow> ks @ [k]
     | Some a \<Rightarrow> takeWhile (\<lambda>x. x \<noteq> a) ks @ k # dropWhile (\<lambda>x. x \<noteq> a) ks)"

definition move_key :: "'k \<Rightarrow> 'k option \<Rightarrow> 'k list \<Rightarrow> 'k list" where
  "move_key k up ks =
     (let rest = filter (\<lambda>x. x \<noteq> k) ks in
      if k \<in> set ks \<and> (case up of None \<Rightarrow> True | Some a \<Rightarrow> a \<in> set rest) then put_above k up rest else ks)"

lemma mset_put_above: "mset (put_above k up ks) = add_mset k (mset ks)"
proof (cases up)
  case (Some a)
  have "mset (takeWhile (\<lambda>x. x \<noteq> a) ks) + mset (dropWhile (\<lambda>x. x \<noteq> a) ks) = mset ks"
    by (metis mset_append takeWhile_dropWhile_id)
  then show ?thesis by (simp add: put_above_def Some)
qed (simp add: put_above_def)

lemma mset_move_key: "distinct ks \<Longrightarrow> mset (move_key k up ks) = mset ks"
proof -
  assume "distinct ks"
  moreover have absent: "k \<notin> set xs \<Longrightarrow> filter (\<lambda>x. x \<noteq> k) xs = xs" for xs
    by (induction xs) auto
  ultimately have "k \<in> set ks \<Longrightarrow> add_mset k (mset (filter (\<lambda>x. x \<noteq> k) ks)) = mset ks"
    by (induction ks) (auto simp: absent simp del: mset_filter)
  then show ?thesis by (auto simp: move_key_def Let_def mset_put_above)
qed

lemma find_key_exists: "(\<exists>i. List.find P xs = Some i) \<longleftrightarrow> (\<exists>x \<in> set xs. P x)"
  by (metis find_None_iff not_Some_eq)

lemma map_takeWhile_key: "map key (takeWhile (\<lambda>e. key e \<noteq> k) xs) = takeWhile (\<lambda>x. x \<noteq> k) (map key xs)"
  by (simp add: takeWhile_map comp_def)

lemma map_dropWhile_key: "map key (dropWhile (\<lambda>e. key e \<noteq> k) xs) = dropWhile (\<lambda>x. x \<noteq> k) (map key xs)"
  by (simp add: dropWhile_map comp_def)

lemma map_filter_key: "map key (filter (\<lambda>i. key i \<noteq> k) xs) = filter (\<lambda>x. x \<noteq> k) (map key xs)"
  by (simp add: filter_map comp_def)

lemma reorder_keys:
  "(case reorder key items k up of None \<Rightarrow> map key items | Some ordered \<Rightarrow> map key ordered)
    = move_key k up (map key items)"
proof (cases "List.find (\<lambda>i. key i = k) items")
  case None
  then have "k \<notin> set (map key items)" by (auto simp: find_None_iff)
  then show ?thesis by (simp add: reorder_def None move_key_def Let_def)
next
  case (Some item)
  then have item: "item \<in> set items" "key item = k" by (auto dest: find_SomeD)
  then have k: "k \<in> key ` set items" by blast
  show ?thesis
  proof (cases up)
    case None
    then show ?thesis using k item by (simp add: reorder_def Some move_key_def put_above_def Let_def map_filter_key)
  next
    case up: (Some a)
    show ?thesis
      using k item by (auto simp: reorder_def Some up move_key_def put_above_def Let_def list_ex_iff image_iff
          map_takeWhile_key map_dropWhile_key map_filter_key)
  qed
qed

lemma reorder_map:
  assumes "\<And>i. ekey (f i) = key i"
  shows "reorder ekey (map f items) k up = map_option (map f) (reorder key items k up)"
proof -
  have 1: "List.find (\<lambda>e. ekey e = k) (map f items) = map_option f (List.find (\<lambda>i. key i = k) items)"
    by (induction items) (auto simp: assms)
  have 2: "filter (\<lambda>e. ekey e \<noteq> k) (map f items) = map f (filter (\<lambda>i. key i \<noteq> k) items)"
    by (simp add: filter_map comp_def assms)
  show ?thesis
    by (auto simp: reorder_def 1 2 Let_def takeWhile_map dropWhile_map list_ex_iff comp_def assms
        split: option.splits)
qed

lemma reorder_mset:
  assumes "distinct (map key items)" "reorder key items k up = Some ordered"
  shows "mset ordered = mset items"
proof -
  obtain item where item: "List.find (\<lambda>i. key i = k) items = Some item"
    using assms(2) by (auto simp: reorder_def split: option.splits)
  then have in_items: "item \<in> set items" "key item = k" by (auto dest: find_SomeD)
  have unique: "i = item" if "i \<in> set items" "key i = k" for i
    using assms(1) that in_items by (auto simp: distinct_map dest: inj_onD)
  have "filter (\<lambda>i. key i \<noteq> k) items = filter (\<lambda>x. x \<noteq> item) items"
    using unique in_items(2) by (intro filter_cong) auto
  moreover have "distinct items" using assms(1) by (simp add: distinct_map)
  ultimately have "add_mset item (mset (filter (\<lambda>i. key i \<noteq> k) items)) = mset items"
    using mset_move_key[of items item None] in_items(1) by (simp add: move_key_def put_above_def Let_def)
  moreover have "mset (takeWhile P ys) + mset (dropWhile P ys) = mset ys" for P and ys :: "'a list"
    by (metis mset_append takeWhile_dropWhile_id)
  ultimately show ?thesis
    using assms(2) by (auto simp: reorder_def item Let_def split: option.splits if_splits)
qed

section \<open>The contract of a positioned model\<close>

lemma find_by_key: "distinct (map f xs) \<Longrightarrow> x \<in> set xs \<Longrightarrow> List.find (\<lambda>e. f e = f x) xs = Some x"
  by (induction xs) auto

locale positioned =
  fixes m :: "'a row_model"
  assumes id_set [simp]: "rm_id m (rm_set_position m n r) = rm_id m r"
    and org_set [simp]: "rm_org m (rm_set_position m n r) = rm_org m r"
    and key_set [simp]: "rm_key m (rm_set_position m n r) = rm_key m r"
    and position_set [simp]: "rm_position m (rm_set_position m n r) = n"
begin

definition rows_ok :: "uuid \<Rightarrow> 'a list \<Rightarrow> bool" where
  "rows_ok o' rows \<longleftrightarrow> distinct (map (rm_id m) rows)
     \<and> distinct (map (rm_key m) (org_rows m o' rows))
     \<and> distinct (map (rm_position m) (org_rows m o' rows))"

lemma mset_all: "mset (repo_all m o' rows) = mset (org_rows m o' rows)"
  by (simp add: repo_all_def)

lemma all_unique:
  "distinct (map (rm_position m) ys) \<Longrightarrow> mset (org_rows m o' rows) = mset ys \<Longrightarrow> sorted (map (rm_position m) ys)
   \<Longrightarrow> repo_all m o' rows = ys"
  unfolding repo_all_def by (intro sort_key_inj_key_eq) (auto simp: distinct_map dest: mset_eq_setD)

lemma numbered_map:
  assumes "\<And>n r. f (rm_set_position m n r) = f r"
  shows "map f (numbered m ordered) = map f ordered"
proof -
  have "map (f \<circ> snd) (zip [0..<length ordered] ordered) = map f ordered" by (simp flip: map_map)
  then show ?thesis by (simp add: numbered_def split_def comp_def assms)
qed

lemma numbered_positions: "map (rm_position m) (numbered m ordered) = map int [0..<length ordered]"
proof -
  have "map (int \<circ> fst) (zip [0..<length ordered] ordered) = map int [0..<length ordered]" by (simp flip: map_map)
  then show ?thesis by (simp add: numbered_def split_def comp_def)
qed

lemma numbered_nth: "i < length ordered \<Longrightarrow> numbered m ordered ! i = rm_set_position m (int i) (ordered ! i)"
  by (simp add: numbered_def)

lemma numbered_ids: "map (rm_id m) (numbered m ordered) = map (rm_id m) ordered"
  by (rule numbered_map) simp

lemma length_numbered [simp]: "length (numbered m ordered) = length ordered"
  by (simp add: numbered_def)

lemma flush_objects:
  assumes "distinct (map (rm_id m) ordered)"
  shows "map (\<lambda>r. case List.find (\<lambda>e. rm_id m e = rm_id m r) (numbered m ordered) of Some e \<Rightarrow> e | None \<Rightarrow> r) ordered
    = numbered m ordered" (is "map ?h ordered = _")
proof (rule nth_equalityI)
  fix i assume "i < length (map ?h ordered)"
  then have i: "i < length ordered" by simp
  let ?e = "numbered m ordered ! i"
  have "distinct (map (rm_id m) (numbered m ordered))" using assms by (simp only: numbered_ids)
  moreover have "?e \<in> set (numbered m ordered)" using i by simp
  ultimately have "List.find (\<lambda>e. rm_id m e = rm_id m ?e) (numbered m ordered) = Some ?e" by (rule find_by_key)
  then show "map ?h ordered ! i = ?e" using i by (simp add: numbered_nth)
qed simp

lemma flush_org:
  assumes "rows_ok o' rows" "mset ordered = mset (org_rows m o' rows)"
  shows "mset (org_rows m o' (flush_rows m (numbered m ordered) rows)) = mset (numbered m ordered)"
    and "p \<noteq> o' \<Longrightarrow> org_rows m p (flush_rows m (numbered m ordered) rows) = org_rows m p rows"
    and "map (rm_id m) (flush_rows m (numbered m ordered) rows) = map (rm_id m) rows"
proof -
  define h where "h = (\<lambda>r. case List.find (\<lambda>e. rm_id m e = rm_id m r) (numbered m ordered) of Some e \<Rightarrow> e | None \<Rightarrow> r)"
  have h_Some: "h r = e" if "List.find (\<lambda>e. rm_id m e = rm_id m r) (numbered m ordered) = Some e" for r e
    unfolding h_def that by (rule option.case)
  have h_None: "h r = r" if "List.find (\<lambda>e. rm_id m e = rm_id m r) (numbered m ordered) = None" for r
    unfolding h_def that by (rule option.case)
  have ids: "rm_id m (h r) = rm_id m r" for r
  proof (cases "List.find (\<lambda>e. rm_id m e = rm_id m r) (numbered m ordered)")
    case (Some e)
    from find_SomeD[OF this] show ?thesis unfolding h_Some[OF Some] by blast
  qed (simp only: h_None)
  have in_org: "set ordered = set (org_rows m o' rows)" using assms(2) by (rule mset_eq_setD)
  have objects: "rm_org m e = o' \<and> rm_id m e \<in> rm_id m ` set (org_rows m o' rows)"
    if listed: "e \<in> set (numbered m ordered)" for e
  proof -
    obtain i where i: "i < length ordered" "numbered m ordered ! i = e"
      using listed unfolding in_set_conv_nth length_numbered by blast
    have "ordered ! i \<in> set (org_rows m o' rows)" using i(1) unfolding in_org[symmetric] by (rule nth_mem)
    moreover then have "rm_org m (ordered ! i) = o'" by (simp add: org_rows_def)
    ultimately show ?thesis unfolding i(2)[symmetric] numbered_nth[OF i(1)] id_set org_set by (intro conjI imageI)
  qed
  have inj: "inj_on (rm_id m) (set rows)" using assms(1) by (simp add: rows_ok_def distinct_map)
  have same: "rm_org m (h r) = rm_org m r \<and> (rm_org m r \<noteq> o' \<longrightarrow> h r = r)" if "r \<in> set rows" for r
  proof (cases "List.find (\<lambda>e. rm_id m e = rm_id m r) (numbered m ordered)")
    case (Some e)
    from find_SomeD[OF this] have e: "e \<in> set (numbered m ordered)" "rm_id m e = rm_id m r" by blast+
    obtain q where q: "q \<in> set (org_rows m o' rows)" "rm_id m e = rm_id m q" using objects[OF e(1)] by blast
    then have "q \<in> set rows" "rm_org m q = o'" by (simp_all add: org_rows_def)
    moreover have "q = r" by (rule inj_onD[OF inj _ \<open>q \<in> set rows\<close> that]) (simp only: q(2)[symmetric] e(2))
    ultimately show ?thesis using objects[OF e(1)] unfolding h_Some[OF Some] by blast
  qed (simp only: h_None simp_thms)
  have flush: "flush_rows m (numbered m ordered) rows = map h rows" by (simp add: flush_rows_def h_def)
  have org: "org_rows m p (map h rows) = map h (org_rows m p rows)" for p
    unfolding org_rows_def filter_map comp_def by (intro arg_cong[of _ _ "map h"] filter_cong refl) (simp add: same)
  have "distinct (map (rm_id m) ordered)"
  proof -
    have "distinct (map (rm_id m) (org_rows m o' rows))"
      using assms(1) unfolding rows_ok_def org_rows_def by (intro distinct_map_filter) simp
    moreover have "mset (map (rm_id m) ordered) = mset (map (rm_id m) (org_rows m o' rows))"
      unfolding mset_map assms(2) ..
    ultimately show ?thesis using mset_eq_imp_distinct_iff by blast
  qed
  from flush_objects[OF this] have "map h ordered = numbered m ordered" by (simp add: h_def)
  then show "mset (org_rows m o' (flush_rows m (numbered m ordered) rows)) = mset (numbered m ordered)"
    using arg_cong[OF assms(2), of "image_mset h"] unfolding flush org by (simp only: mset_map[symmetric])
  show "p \<noteq> o' \<Longrightarrow> org_rows m p (flush_rows m (numbered m ordered) rows) = org_rows m p rows"
    unfolding flush org by (intro map_idI) (use same in \<open>simp add: org_rows_def\<close>)
  show "map (rm_id m) (flush_rows m (numbered m ordered) rows) = map (rm_id m) rows"
    by (simp add: flush ids)
qed

lemma moved_all:
  assumes ok: "rows_ok o' rows" and moved: "reorder (rm_key m) (repo_all m o' rows) k up = Some ordered"
  shows "repo_all m o' (move_above m o' k up rows) = numbered m ordered"
    and "rows_ok o' (move_above m o' k up rows)"
    and "p \<noteq> o' \<Longrightarrow> org_rows m p (move_above m o' k up rows) = org_rows m p rows"
proof -
  let ?rows' = "flush_rows m (numbered m ordered) rows"
  have run: "move_above m o' k up rows = ?rows'" by (simp add: move_above_def moved)
  have "distinct (map (rm_key m) (repo_all m o' rows))"
    using ok by (metis mset_all mset_eq_imp_distinct_iff mset_map rows_ok_def)
  from reorder_mset[OF this moved] have mset: "mset ordered = mset (org_rows m o' rows)" by (simp add: mset_all)
  note fl = flush_org[OF ok mset]
  have dist: "distinct (map (rm_position m) (numbered m ordered))"
    unfolding numbered_positions by (simp add: distinct_map)
  show all: "repo_all m o' (move_above m o' k up rows) = numbered m ordered"
    unfolding run by (rule all_unique[OF dist fl(1)]) (simp add: numbered_positions sorted_map)
  have keys: "map (rm_key m) (numbered m ordered) = map (rm_key m) ordered" by (rule numbered_map) simp
  have "distinct (map (rm_key m) (org_rows m o' ?rows'))"
    using ok mset fl(1) keys by (metis mset_eq_imp_distinct_iff mset_map rows_ok_def)
  moreover have "distinct (map (rm_position m) (org_rows m o' ?rows'))"
    using dist fl(1) by (metis mset_eq_imp_distinct_iff mset_map)
  ultimately show "rows_ok o' (move_above m o' k up rows)"
    using ok fl(3) by (simp add: run rows_ok_def)
  show "p \<noteq> o' \<Longrightarrow> org_rows m p (move_above m o' k up rows) = org_rows m p rows"
    unfolding run by (rule fl(2))
qed

lemma move_entries:
  assumes ok: "rows_ok o' rows" and f: "\<And>n r. f (rm_set_position m n r) = f r" and e: "\<And>r. ekey (f r) = rm_key m r"
  shows "map f (repo_all m o' (move_above m o' k up rows))
    = (case reorder ekey (map f (repo_all m o' rows)) k up of None \<Rightarrow> map f (repo_all m o' rows) | Some es \<Rightarrow> es)"
proof (cases "reorder (rm_key m) (repo_all m o' rows) k up")
  case None
  then show ?thesis using reorder_map[of ekey f "rm_key m" "repo_all m o' rows" k up] e by (simp add: move_above_def)
next
  case (Some ordered)
  have "reorder ekey (map f (repo_all m o' rows)) k up = Some (map f ordered)"
    using reorder_map[of ekey f "rm_key m" "repo_all m o' rows" k up] e Some by simp
  then show ?thesis using moved_all(1)[OF ok Some] numbered_map[of f ordered] f by simp
qed

lemma move_keys:
  assumes "rows_ok o' rows"
  shows "map (rm_key m) (repo_all m o' (move_above m o' k up rows)) = move_key k up (map (rm_key m) (repo_all m o' rows))"
proof (cases "reorder (rm_key m) (repo_all m o' rows) k up")
  case None
  then show ?thesis using reorder_keys[of "rm_key m" "repo_all m o' rows" k up] by (simp add: move_above_def)
next
  case (Some ordered)
  then show ?thesis using reorder_keys[of "rm_key m" "repo_all m o' rows" k up] moved_all(1)[OF assms Some]
      numbered_map[of "rm_key m" ordered] by simp
qed

lemma move_ok: "rows_ok o' rows \<Longrightarrow> rows_ok o' (move_above m o' k up rows)"
  using moved_all(2)[of o' rows k up]
  by (cases "reorder (rm_key m) (repo_all m o' rows) k up") (simp_all add: move_above_def)

lemma move_dense:
  assumes "rows_ok o' rows" "k \<in> rm_key m ` set (org_rows m o' rows)"
    "case up of None \<Rightarrow> True | Some a \<Rightarrow> a \<in> rm_key m ` set (org_rows m o' rows) - {k}"
  shows "map (rm_position m) (repo_all m o' (move_above m o' k up rows)) = map int [0..<repo_count m o' rows]"
proof -
  have set_all: "set (repo_all m o' rows) = set (org_rows m o' rows)" by (simp add: repo_all_def)
  obtain item where item: "List.find (\<lambda>i. rm_key m i = k) (repo_all m o' rows) = Some item"
    using assms(2) set_all by (metis (mono_tags, lifting) find_key_exists imageE)
  obtain ordered where ord: "reorder (rm_key m) (repo_all m o' rows) k up = Some ordered"
  proof -
    have "reorder (rm_key m) (repo_all m o' rows) k up \<noteq> None"
      using assms(3) by (cases up) (auto simp: reorder_def item Let_def list_ex_iff set_all)
    then show ?thesis using that by blast
  qed
  have "length ordered = length (repo_all m o' rows)"
    using reorder_mset[OF _ ord] assms(1) by (metis mset_all mset_eq_imp_distinct_iff mset_map rows_ok_def size_mset)
  then show ?thesis
    unfolding moved_all(1)[OF assms(1) ord] numbered_positions
    by (simp add: repo_all_def repo_count_def count_where_def org_rows_def)
qed

end

end
