(* ===== verification/Todo.thy ===== *)
theory Todo
  imports Positioned Py_Text
begin

text \<open>
  \<open>apps/todo\<close>: an organisation's tasks, on the positioned repository.  A handler returns the table, the
  facts and the answer.  The abstract view is the list of tasks a member sees, topmost first; every
  request is shown to act on it as the corresponding list operation.
\<close>

section \<open>Tasks\<close>

record todo =
  td_id :: uuid
  td_org :: uuid
  td_user :: uuid
  td_title :: string
  td_done :: bool
  td_position :: int

definition todo_model :: "todo row_model" where
  "todo_model = \<lparr>rm_id = td_id, rm_org = td_org, rm_key = td_id, rm_position = td_position,
     rm_set_position = (\<lambda>n r. r\<lparr>td_position := n\<rparr>)\<rparr>"

lemma todo_model_sel [simp]:
  "rm_id todo_model = td_id" "rm_org todo_model = td_org" "rm_key todo_model = td_id"
  "rm_position todo_model = td_position" "rm_set_position todo_model n r = r\<lparr>td_position := n\<rparr>"
  by (simp_all add: todo_model_def)

interpretation todos: positioned todo_model
  by unfold_locales simp_all

definition todo_add :: "uuid \<Rightarrow> uuid \<Rightarrow> string \<Rightarrow> uuid \<Rightarrow> todo list \<Rightarrow> todo list \<times> todo" where
  "todo_add o' user title new_id rows =
     (let t = \<lparr>td_id = new_id, td_org = o', td_user = user, td_title = title, td_done = False, td_position = 0\<rparr> in
      (update_where (\<lambda>r. td_org r = o') (\<lambda>r. r\<lparr>td_position := td_position r + 1\<rparr>) rows @ [t], t))"

definition recent_open :: "uuid \<Rightarrow> nat \<Rightarrow> todo list \<Rightarrow> todo list" where
  "recent_open o' limit rows = take limit (sort_key td_position (filter (\<lambda>r. td_org r = o' \<and> \<not> td_done r) rows))"

definition todo_save :: "todo \<Rightarrow> todo list \<Rightarrow> todo list" where
  "todo_save t rows = update_where (\<lambda>r. td_id r = td_id t) (\<lambda>_. t) rows"

section \<open>Requests\<close>

datatype todo_fact =
    TodoCreated uuid string
  | TodoTicked uuid string
  | TodoUnticked uuid string
  | TodoEdited uuid string
  | TodoDeleted uuid string

datatype todo_answer = TodoList "todo list" | TodoRefused nat string | TodoGone

type_synonym todo_result = "todo list \<times> todo_fact list \<times> todo_answer"

record todo_settings =
  ts_creation_enabled :: bool
  ts_max_items_per_org :: int

datatype todo_patch = TodoTick bool | TodoEdit string

definition render_todos :: "uuid \<Rightarrow> todo list \<Rightarrow> todo_answer" where
  "render_todos o' rows = TodoList (repo_all todo_model o' rows)"

definition todo_list :: "uuid \<Rightarrow> todo list \<Rightarrow> todo_result" where
  "todo_list o' rows = (rows, [], render_todos o' rows)"

definition add_todo :: "todo_settings \<Rightarrow> uuid \<Rightarrow> uuid \<Rightarrow> string \<Rightarrow> uuid \<Rightarrow> todo list \<Rightarrow> todo_result" where
  "add_todo settings o' user title new_id rows =
     (if \<not> ts_creation_enabled settings then (rows, [], TodoRefused 403 ''Task creation is disabled'')
      else if ts_max_items_per_org settings \<le> int (repo_count todo_model o' rows)
      then (rows, [], TodoRefused 403 ''Task limit reached for this organisation'')
      else (let (rows', t) = todo_add o' user title new_id rows in
            (rows', [TodoCreated (td_id t) title], render_todos o' rows')))"

definition patch_todo :: "uuid \<Rightarrow> uuid \<Rightarrow> todo_patch \<Rightarrow> todo list \<Rightarrow> todo_result" where
  "patch_todo o' todo_id body rows =
     (case repo_get todo_model o' todo_id rows of
        None \<Rightarrow> (rows, [], TodoRefused 404 ''Not Found'')
      | Some t \<Rightarrow>
          (case body of
             TodoTick b \<Rightarrow> (let rows' = todo_save (t\<lparr>td_done := b\<rparr>) rows in
               (rows', [if b then TodoTicked todo_id (td_title t) else TodoUnticked todo_id (td_title t)],
                render_todos o' rows'))
           | TodoEdit title \<Rightarrow> (let rows' = todo_save (t\<lparr>td_title := title\<rparr>) rows in
               (rows', [TodoEdited todo_id title], render_todos o' rows'))))"

definition delete_todo :: "bool \<Rightarrow> uuid \<Rightarrow> uuid \<Rightarrow> todo list \<Rightarrow> todo_result" where
  "delete_todo json o' todo_id rows =
     (let (rows', facts) = (case repo_get todo_model o' todo_id rows of
          None \<Rightarrow> (rows, [])
        | Some t \<Rightarrow> (repo_delete todo_model t rows, [TodoDeleted todo_id (td_title t)])) in
      (rows', facts, if json then TodoGone else render_todos o' rows'))"

definition move_todo :: "uuid \<Rightarrow> uuid \<Rightarrow> uuid option \<Rightarrow> todo list \<Rightarrow> todo_result" where
  "move_todo o' todo_id above_id rows =
     (let rows' = move_above todo_model o' todo_id above_id rows in (rows', [], render_todos o' rows'))"

datatype todo_request =
    AddTodo uuid string
  | PatchTodo uuid todo_patch
  | DeleteTodo bool uuid
  | MoveTodo uuid "uuid option"

fun todo_handle :: "todo_settings \<Rightarrow> uuid \<Rightarrow> uuid \<Rightarrow> todo_request \<Rightarrow> todo list \<Rightarrow> todo_result" where
  "todo_handle settings o' user (AddTodo new_id title) rows = add_todo settings o' user title new_id rows" |
  "todo_handle settings o' user (PatchTodo i body) rows = patch_todo o' i body rows" |
  "todo_handle settings o' user (DeleteTodo json i) rows = delete_todo json o' i rows" |
  "todo_handle settings o' user (MoveTodo i up) rows = move_todo o' i up rows"

section \<open>The abstract list\<close>

type_synonym entry = "uuid \<times> string \<times> bool"

definition entry :: "todo \<Rightarrow> entry" where
  "entry t = (td_id t, td_title t, td_done t)"

definition entries :: "uuid \<Rightarrow> todo list \<Rightarrow> entry list" where
  "entries o' rows = map entry (repo_all todo_model o' rows)"

fun patched :: "todo_patch \<Rightarrow> entry \<Rightarrow> entry" where
  "patched (TodoTick b) (i, title, d) = (i, title, b)" |
  "patched (TodoEdit title) (i, _, d) = (i, title, d)"

text \<open>Moving an entry: out of its place, and right above another or last; nothing when either is gone.\<close>

fun place_above :: "entry \<Rightarrow> uuid \<Rightarrow> entry list \<Rightarrow> entry list" where
  "place_above e a [] = []" |
  "place_above e a (x # xs) = (if fst x = a then e # x # xs else x # place_above e a xs)"

definition move_entry :: "uuid \<Rightarrow> uuid option \<Rightarrow> entry list \<Rightarrow> entry list" where
  "move_entry i up es = (case map_of es i of
       None \<Rightarrow> es
     | Some d \<Rightarrow> (let rest = filter (\<lambda>e. fst e \<noteq> i) es in
         case up of
           None \<Rightarrow> rest @ [(i, d)]
         | Some a \<Rightarrow> if a \<in> fst ` set rest then place_above (i, d) a rest else es))"

fun list_spec :: "todo_settings \<Rightarrow> todo_request \<Rightarrow> entry list \<Rightarrow> entry list" where
  "list_spec settings (AddTodo new_id title) es =
     (if ts_creation_enabled settings \<and> int (length es) < ts_max_items_per_org settings
      then (new_id, title, False) # es else es)" |
  "list_spec settings (PatchTodo i body) es = map (\<lambda>e. if fst e = i then patched body e else e) es" |
  "list_spec settings (DeleteTodo json i) es = filter (\<lambda>e. fst e \<noteq> i) es" |
  "list_spec settings (MoveTodo i up) es = move_entry i up es"

definition todo_ok :: "uuid \<Rightarrow> todo list \<Rightarrow> bool" where
  "todo_ok o' rows \<longleftrightarrow> todos.rows_ok o' rows \<and> (\<forall>r \<in> set (org_rows todo_model o' rows). 0 \<le> td_position r)"

lemma place_above_split:
  "a \<in> fst ` set es \<Longrightarrow> takeWhile (\<lambda>x. fst x \<noteq> a) es @ e # dropWhile (\<lambda>x. fst x \<noteq> a) es = place_above e a es"
  by (induction es) auto

lemma find_by_fst: "List.find (\<lambda>e. fst e = i) es = map_option (Pair i) (map_of es i)"
  by (induction es) auto

text \<open>The repository's reordering moves the entry.\<close>

lemma reorder_moves_entry: "(case reorder fst es i up of None \<Rightarrow> es | Some es' \<Rightarrow> es') = move_entry i up es"
  unfolding reorder_def move_entry_def find_by_fst
  by (cases "map_of es i"; cases up) (auto simp: Let_def list_ex_iff image_iff place_above_split)

lemma insort_key_map_keep: "(\<And>x. f (g x) = f x) \<Longrightarrow> insort_key f (g x) (map g ys) = map g (insort_key f x ys)"
  by (induction ys) auto

lemma sort_key_map_keep: "(\<And>x. f (g x) = f x) \<Longrightarrow> sort_key f (map g xs) = map g (sort_key f xs)"
  by (induction xs) (simp_all add: insort_key_map_keep)

lemma length_entries: "length (entries o' rows) = repo_count todo_model o' rows"
  by (simp add: entries_def repo_all_def org_rows_def repo_count_def count_where_def)

section \<open>Each request is its list operation\<close>

lemma get_in_org: "repo_get todo_model o' i rows = Some t \<Longrightarrow> t \<in> set rows \<and> td_id t = i \<and> td_org t = o'"
  by (auto simp: repo_get_def dest: find_SomeD)

lemma get_None: "repo_get todo_model o' i rows = None \<longleftrightarrow> i \<notin> fst ` set (entries o' rows)"
  by (auto simp: repo_get_def find_None_iff entries_def repo_all_def org_rows_def entry_def image_image)

lemma add_entries:
  assumes ok: "todo_ok o' rows" and fresh: "i \<notin> td_id ` set rows"
  shows "entries o' (fst (todo_add o' user title i rows)) = (i, title, False) # entries o' rows"
    and "todo_ok o' (fst (todo_add o' user title i rows))"
proof -
  define t :: todo where "t = \<lparr>td_id = i, td_org = o', td_user = user, td_title = title, td_done = False, td_position = 0\<rparr>"
  define up :: "todo \<Rightarrow> todo" where "up = (\<lambda>r. r\<lparr>td_position := td_position r + 1\<rparr>)"
  have run: "fst (todo_add o' user title i rows) = update_where (\<lambda>r. td_org r = o') up rows @ [t]"
    by (simp add: todo_add_def t_def up_def Let_def)
  have org: "org_rows todo_model o' (update_where (\<lambda>r. td_org r = o') up rows @ [t]) = map up (org_rows todo_model o' rows) @ [t]"
    by (induction rows) (auto simp: org_rows_def t_def up_def)
  have posns: "distinct (map td_position (org_rows todo_model o' rows))"
    and nonneg: "\<And>r. r \<in> set (org_rows todo_model o' rows) \<Longrightarrow> 0 \<le> td_position r"
    using ok by (auto simp: todo_ok_def todos.rows_ok_def)
  let ?new = "t # map up (repo_all todo_model o' rows)"
  have all_set: "set (repo_all todo_model o' rows) = set (org_rows todo_model o' rows)" by (simp add: repo_all_def)
  have "distinct (map td_position (repo_all todo_model o' rows))"
    using posns by (metis mset_eq_imp_distinct_iff mset_map todos.mset_all)
  then have dist: "distinct (map td_position ?new)"
    using nonneg by (auto simp: t_def up_def all_set distinct_map inj_on_def dest!: nonneg)
  have "sorted (map td_position (repo_all todo_model o' rows))" by (simp add: repo_all_def)
  then have "sorted (map (\<lambda>x. td_position x + 1) (repo_all todo_model o' rows))"
    by (simp add: sorted_map sorted_wrt_map)
  then have "sorted (map td_position ?new)" using nonneg by (auto simp: t_def up_def all_set comp_def)
  moreover have "mset (org_rows todo_model o' (fst (todo_add o' user title i rows))) = mset ?new"
    unfolding run org by (simp add: repo_all_def)
  ultimately have all: "repo_all todo_model o' (fst (todo_add o' user title i rows)) = ?new"
    using todos.all_unique[of ?new o' "fst (todo_add o' user title i rows)"] dist by simp
  show "entries o' (fst (todo_add o' user title i rows)) = (i, title, False) # entries o' rows"
    unfolding entries_def all by (simp add: entry_def t_def up_def)
  have ids: "map td_id (update_where (\<lambda>r. td_org r = o') up rows) = map td_id rows"
    by (simp add: map_update_where_key up_def)
  have "map td_id (update_where (\<lambda>r. td_org r = o') up rows @ [t]) = map td_id rows @ [i]"
    unfolding map_append ids by (simp add: t_def)
  moreover have "distinct (map td_id rows @ [i])" using ok fresh by (simp add: todo_ok_def todos.rows_ok_def)
  ultimately have "distinct (map td_id (update_where (\<lambda>r. td_org r = o') up rows @ [t]))" by simp
  moreover have "distinct (map td_id (map up (org_rows todo_model o' rows) @ [t]))"
    using ok fresh by (auto simp: todo_ok_def todos.rows_ok_def t_def up_def comp_def org_rows_def)
  moreover have "distinct (map (\<lambda>p. p + 1) (map td_position (org_rows todo_model o' rows)))"
    unfolding distinct_map using posns by (simp add: inj_on_def distinct_map)
  then have "distinct (map td_position (map up (org_rows todo_model o' rows) @ [t]))"
    using nonneg by (fastforce simp: t_def up_def comp_def)
  moreover have "0 \<le> td_position r" if "r \<in> set (map up (org_rows todo_model o' rows) @ [t])" for r
    using that nonneg by (fastforce simp: t_def up_def)
  ultimately show "todo_ok o' (fst (todo_add o' user title i rows))"
    unfolding todo_ok_def todos.rows_ok_def run todo_model_sel org by blast
qed

lemma org_update_where:
  "(\<And>r. td_org (f r) = td_org r) \<Longrightarrow> org_rows todo_model p (update_where P f rows)
    = map (\<lambda>r. if P r then f r else r) (org_rows todo_model p rows)"
  by (induction rows) (auto simp: org_rows_def)

lemma update_entries:
  assumes ok: "todo_ok o' rows" and keep: "\<And>r. td_org (f r) = td_org r \<and> td_id (f r) = td_id r \<and> td_position (f r) = td_position r"
  shows "entries o' (update_where (\<lambda>r. td_id r = i) f rows) = map entry (map (\<lambda>r. if td_id r = i then f r else r) (repo_all todo_model o' rows))"
    and "todo_ok o' (update_where (\<lambda>r. td_id r = i) f rows)"
proof -
  have org: "org_rows todo_model o' (update_where (\<lambda>r. td_id r = i) f rows)
      = map (\<lambda>r. if td_id r = i then f r else r) (org_rows todo_model o' rows)"
    by (rule org_update_where) (use keep in blast)
  show "entries o' (update_where (\<lambda>r. td_id r = i) f rows)
      = map entry (map (\<lambda>r. if td_id r = i then f r else r) (repo_all todo_model o' rows))"
    unfolding entries_def repo_all_def todo_model_sel org
    by (intro arg_cong[of _ _ "map entry"] sort_key_map_keep) (simp add: keep)
  define g where "g = (\<lambda>r. if td_id r = i then f r else r)"
  have g: "td_id (g r) = td_id r" "td_position (g r) = td_position r" for r by (simp_all add: g_def keep)
  have "td_id \<circ> g = td_id" "td_position \<circ> g = td_position" by (simp_all add: g fun_eq_iff)
  then show "todo_ok o' (update_where (\<lambda>r. td_id r = i) f rows)"
    using ok unfolding todo_ok_def todos.rows_ok_def org g_def[symmetric]
    by (simp add: update_where_def g_def[symmetric] g)
qed

lemma save_as_update:
  assumes "todo_ok o' rows" "repo_get todo_model o' i rows = Some t" "td_id (f t) = i"
  shows "todo_save (f t) rows = update_where (\<lambda>r. td_id r = i) f rows"
proof -
  have "r = t" if "r \<in> set rows" "td_id r = i" for r
    using assms(1) get_in_org[OF assms(2)] that by (auto simp: todo_ok_def todos.rows_ok_def distinct_map dest: inj_onD)
  then show ?thesis unfolding todo_save_def update_where_def assms(3) by (intro map_cong refl) auto
qed

lemma patch_entries:
  assumes ok: "todo_ok o' rows"
  shows "entries o' (fst (patch_todo o' i body rows)) = map (\<lambda>e. if fst e = i then patched body e else e) (entries o' rows)
    \<and> todo_ok o' (fst (patch_todo o' i body rows))"
proof (cases "repo_get todo_model o' i rows")
  case None
  then have "i \<notin> fst ` set (entries o' rows)" unfolding get_None .
  then have "map (\<lambda>e. if fst e = i then patched body e else e) (entries o' rows) = entries o' rows"
    by (intro map_idI) (metis image_eqI)
  then show ?thesis using ok by (simp add: patch_todo_def None)
next
  case (Some t)
  have i: "td_id t = i" using get_in_org[OF Some] by blast
  define f where "f = (\<lambda>t :: todo. case body of TodoTick b \<Rightarrow> t\<lparr>td_done := b\<rparr> | TodoEdit title \<Rightarrow> t\<lparr>td_title := title\<rparr>)"
  have keep: "td_org (f r) = td_org r \<and> td_id (f r) = td_id r \<and> td_position (f r) = td_position r" for r
    by (simp add: f_def split: todo_patch.split)
  have "fst (patch_todo o' i body rows) = todo_save (f t) rows"
    by (simp add: patch_todo_def Some f_def Let_def split: todo_patch.split)
  then have run: "fst (patch_todo o' i body rows) = update_where (\<lambda>r. td_id r = i) f rows"
    using save_as_update[OF ok Some, of f] keep i by simp
  have "entry (f r) = patched body (entry r)" for r
    by (cases body) (simp_all add: f_def entry_def)
  then show ?thesis unfolding run update_entries(1)[OF ok keep] using update_entries(2)[OF ok keep]
    by (auto simp: entries_def entry_def)
qed

lemma delete_entries:
  assumes ok: "todo_ok o' rows"
  shows "entries o' (fst (delete_todo json o' i rows)) = filter (\<lambda>e. fst e \<noteq> i) (entries o' rows)
    \<and> todo_ok o' (fst (delete_todo json o' i rows))"
proof (cases "repo_get todo_model o' i rows")
  case None
  then have "i \<notin> fst ` set (entries o' rows)" unfolding get_None .
  then have "filter (\<lambda>e. fst e \<noteq> i) (entries o' rows) = entries o' rows"
    by (intro filter_True) (metis image_eqI)
  then show ?thesis using ok by (simp add: delete_todo_def None)
next
  case (Some t)
  then have i: "td_id t = i" using get_in_org by blast
  have run: "fst (delete_todo json o' i rows) = filter (\<lambda>r. td_id r \<noteq> i) rows"
    by (simp add: delete_todo_def Some repo_delete_def delete_where_def i)
  have org: "org_rows todo_model o' (filter (\<lambda>r. td_id r \<noteq> i) rows) = filter (\<lambda>r. td_id r \<noteq> i) (org_rows todo_model o' rows)"
    by (simp add: org_rows_def conj_commute)
  have "entries o' (filter (\<lambda>r. td_id r \<noteq> i) rows) = filter (\<lambda>e. fst e \<noteq> i) (entries o' rows)"
    unfolding entries_def repo_all_def org by (simp add: filter_sort[symmetric] filter_map comp_def entry_def)
  moreover have "todo_ok o' (filter (\<lambda>r. td_id r \<noteq> i) rows)"
    using ok by (auto simp: todo_ok_def todos.rows_ok_def org distinct_map_filter)
  ultimately show ?thesis by (simp add: run)
qed

lemma move_entries_todo:
  assumes ok: "todo_ok o' rows"
  shows "entries o' (fst (move_todo o' i up rows)) = move_entry i up (entries o' rows)
    \<and> todo_ok o' (fst (move_todo o' i up rows))"
proof -
  have rows: "todos.rows_ok o' rows" using ok by (simp add: todo_ok_def)
  have run: "fst (move_todo o' i up rows) = move_above todo_model o' i up rows" by (simp add: move_todo_def Let_def)
  have "0 \<le> td_position r" if "r \<in> set (org_rows todo_model o' (move_above todo_model o' i up rows))" for r
  proof (cases "reorder td_id (repo_all todo_model o' rows) i up")
    case None
    then show ?thesis using ok that by (simp add: todo_ok_def move_above_def)
  next
    case (Some ordered)
    have "set (org_rows todo_model o' (move_above todo_model o' i up rows)) = set (numbered todo_model ordered)"
      using todos.moved_all(1)[OF rows, of i up ordered] Some by (metis repo_all_def set_sort todo_model_sel(3))
    then have "td_position r \<in> set (map td_position (numbered todo_model ordered))" using that by auto
    then show ?thesis using todos.numbered_positions[of ordered] by (simp only: todo_model_sel) auto
  qed
  then have "todo_ok o' (move_above todo_model o' i up rows)"
    using todos.move_ok[OF rows] by (simp add: todo_ok_def)
  moreover have "map entry (repo_all todo_model o' (move_above todo_model o' i up rows))
      = move_entry i up (map entry (repo_all todo_model o' rows))"
    unfolding reorder_moves_entry[symmetric] using todos.move_entries[OF rows, of entry fst i up] by (simp add: entry_def)
  ultimately show ?thesis unfolding run entries_def by blast
qed

text \<open>
  C12.  The task list is a list.  For every request on an organisation's tasks, what its members see
  afterwards is the corresponding list operation on what they saw before: a new task comes on top (or is
  refused when creation is off or the list is full), a tick or an edit changes one entry in place, a
  deletion takes it out, a move puts it above another or last, and does nothing when either is gone;
  the positions stay distinct, so the order is never a matter of chance.
\<close>

theorem todo_list_refines:
  assumes "todo_ok o' rows"
    and "\<And>i title. rq = AddTodo i title \<Longrightarrow> i \<notin> td_id ` set rows"
  shows "map entry (repo_all todo_model o' (fst (todo_handle settings o' user rq rows)))
      = list_spec settings rq (map entry (repo_all todo_model o' rows))
    \<and> todo_ok o' (fst (todo_handle settings o' user rq rows))"
proof (cases rq)
  case (AddTodo i title)
  have "fst (add_todo settings o' user title i rows) =
      (if ts_creation_enabled settings \<and> int (length (entries o' rows)) < ts_max_items_per_org settings
       then fst (todo_add o' user title i rows) else rows)"
    by (simp add: add_todo_def length_entries Let_def split_def)
  then show ?thesis
    using add_entries[OF assms(1) assms(2)[OF AddTodo]] assms(1) by (simp add: AddTodo flip: entries_def)
next
  case (PatchTodo i body)
  then show ?thesis using patch_entries[OF assms(1)] by (simp flip: entries_def)
next
  case (DeleteTodo json i)
  then show ?thesis using delete_entries[OF assms(1)] by (simp flip: entries_def)
next
  case (MoveTodo i up)
  then show ?thesis using move_entries_todo[OF assms(1)] by (simp flip: entries_def)
qed

lemma todo_list_refines_witness:
  "map entry (repo_all todo_model 1 (fst (todo_handle \<lparr>ts_creation_enabled = True, ts_max_items_per_org = 500\<rparr> 1 7
     (AddTodo 3 ''c'') [\<lparr>td_id = 2, td_org = 1, td_user = 7, td_title = ''b'', td_done = True, td_position = 4\<rparr>])))
   = [(3, ''c'', False), (2, ''b'', True)]"
proof -
  let ?rows = "[\<lparr>td_id = 2, td_org = 1, td_user = 7, td_title = ''b'', td_done = True, td_position = 4\<rparr>]"
  have "todo_ok 1 ?rows" by (simp add: todo_ok_def todos.rows_ok_def org_rows_def)
  then show ?thesis
    using todo_list_refines[of 1 ?rows "AddTodo 3 ''c''" "\<lparr>ts_creation_enabled = True, ts_max_items_per_org = 500\<rparr>" 7]
    by (simp add: repo_all_def org_rows_def entry_def)
qed


section \<open>The welcome tasks and the card\<close>

definition welcome_todos :: "string list" where
  "welcome_todos = [''Invite a teammate to this organisation'', ''Upload your first file'',
     ''Try the spaced-repetition learning decks'']"

text \<open>Each goes on top of the one before, so they are added last first; the identifiers are minted as they are.\<close>

definition seed_welcome_todos :: "uuid \<Rightarrow> uuid \<Rightarrow> uuid list \<Rightarrow> todo list \<Rightarrow> todo list" where
  "seed_welcome_todos o' owner ids rows =
     fold (\<lambda>(i, title) rows. fst (todo_add o' owner title i rows)) (zip ids (rev welcome_todos)) rows"

definition todo_card :: "uuid \<Rightarrow> nat \<Rightarrow> todo list \<Rightarrow> string list \<times> string list" where
  "todo_card o' recent_items rows =
     (let total = count_where (\<lambda>r. td_org r = o') rows; done' = count_where (\<lambda>r. td_org r = o' \<and> td_done r) rows;
          open_n = total - done' in
      (if total \<noteq> 0 then [str_int (int open_n) @ '' open'', str_int (int done') @ '' done''] else [''No tasks yet''],
       if open_n \<noteq> 0 then map td_title (recent_open o' recent_items rows) else []))"

text \<open>A new organisation finds the welcome tasks, in the order they are written down, above what it has.\<close>

lemma seeded_todos:
  assumes "todo_ok o' rows" "distinct [a, b, c]" "set [a, b, c] \<inter> td_id ` set rows = {}"
  shows "map (fst \<circ> snd) (entries o' (seed_welcome_todos o' owner [a, b, c] rows))
      = welcome_todos @ map (fst \<circ> snd) (entries o' rows)"
    and "todo_ok o' (seed_welcome_todos o' owner [a, b, c] rows)"
proof -
  have ids: "td_id ` set (fst (todo_add o' owner t i s)) = insert i (td_id ` set s)" for s i t
    using map_update_where_key[of "\<lambda>r. td_org r = o'" td_id "\<lambda>r. r\<lparr>td_position := td_position r + 1\<rparr>" s]
    by (simp add: todo_add_def Let_def flip: set_map)
  have step: "todo_ok o' (fst (todo_add o' owner t i s)) \<and> entries o' (fst (todo_add o' owner t i s)) = (i, t, False) # entries o' s
      \<and> td_id ` set (fst (todo_add o' owner t i s)) = insert i (td_id ` set s)"
    if "todo_ok o' s" "i \<notin> td_id ` set s" for s i t
    using add_entries[OF that, of owner t] ids by blast
  define r1 where "r1 = fst (todo_add o' owner ''Try the spaced-repetition learning decks'' a rows)"
  define r2 where "r2 = fst (todo_add o' owner ''Upload your first file'' b r1)"
  define r3 where "r3 = fst (todo_add o' owner ''Invite a teammate to this organisation'' c r2)"
  have r: "seed_welcome_todos o' owner [a, b, c] rows = r3"
    by (simp add: seed_welcome_todos_def welcome_todos_def r1_def r2_def r3_def)
  have s1: "a \<notin> td_id ` set rows" and s2: "b \<notin> insert a (td_id ` set rows)" and s3: "c \<notin> insert b (insert a (td_id ` set rows))"
    using assms(2,3) by auto
  note 1 = step[OF assms(1) s1, of "''Try the spaced-repetition learning decks''", folded r1_def]
  then have "b \<notin> td_id ` set r1" using s2 by simp
  note 2 = step[OF conjunct1[OF 1] this, of "''Upload your first file''", folded r2_def]
  then have "c \<notin> td_id ` set r2" using s3 1 by simp
  note 3 = step[OF conjunct1[OF 2] this, of "''Invite a teammate to this organisation''", folded r3_def]
  show "map (fst \<circ> snd) (entries o' (seed_welcome_todos o' owner [a, b, c] rows))
      = welcome_todos @ map (fst \<circ> snd) (entries o' rows)"
    unfolding r using 1 2 3 by (simp add: welcome_todos_def)
  show "todo_ok o' (seed_welcome_todos o' owner [a, b, c] rows)" unfolding r using 3 by blast
qed

end
