(* ===== verification/Pages.thy ===== *)
theory Pages
  imports Positioned Organizations
begin

text \<open>
  \<open>apps/pages\<close>: an organisation's pages and its navigation.  A member reads every page; an outsider reads
  what the database function \<open>public_pages\<close> returns.  Writes go through the row policies of the table,
  which are modelled with the handlers: a write the policy hides from the caller updates no row, which
  the optimistic lock answers with a 409.  Full-text search is a parameter (does a page match, how well).
\<close>

section \<open>Rows\<close>

datatype page_visibility = Draft | Members | Public

record page =
  pg_id :: uuid
  pg_org :: uuid
  pg_user :: uuid
  pg_title :: string
  pg_slug :: string
  pg_content :: string
  pg_visibility :: page_visibility
  pg_created_at :: instant

record nav_item =
  nv_id :: uuid
  nv_org :: uuid
  nv_page :: uuid
  nv_position :: int

record pages_db =
  pb_pages :: "page list"
  pb_nav :: "nav_item list"

definition nav_model :: "nav_item row_model" where
  "nav_model = \<lparr>rm_id = nv_id, rm_org = nv_org, rm_key = nv_page, rm_position = nv_position,
     rm_set_position = (\<lambda>n r. r\<lparr>nv_position := n\<rparr>)\<rparr>"

lemma nav_model_sel [simp]:
  "rm_id nav_model = nv_id" "rm_org nav_model = nv_org" "rm_key nav_model = nv_page"
  "rm_position nav_model = nv_position" "rm_set_position nav_model n r = r\<lparr>nv_position := n\<rparr>"
  by (simp_all add: nav_model_def)

interpretation nav: positioned nav_model
  by unfold_locales simp_all

section \<open>What the database lets through\<close>

definition page_policy :: "org_role \<Rightarrow> page \<Rightarrow> bool" where
  "page_policy role p \<longleftrightarrow> pg_visibility p = Draft \<or> role = Owner"

definition nav_policy :: "org_role \<Rightarrow> bool" where
  "nav_policy role \<longleftrightarrow> role = Owner"

definition public_pages :: "uuid \<Rightarrow> pages_db \<Rightarrow> page list" where
  "public_pages o' db = filter (\<lambda>p. pg_org p = o' \<and> pg_visibility p = Public) (pb_pages db)"

definition public_nav_items :: "uuid \<Rightarrow> pages_db \<Rightarrow> nav_item list" where
  "public_nav_items o' db = concat (map (\<lambda>n. map (\<lambda>_. n)
     (filter (\<lambda>p. pg_id p = nv_page n \<and> pg_visibility p = Public) (pb_pages db)))
     (filter (\<lambda>n. nv_org n = o') (pb_nav db)))"

text \<open>An update under the policy: \<open>None\<close> when the old row is hidden or the new row refused.\<close>

definition rls_save :: "org_role \<Rightarrow> page \<Rightarrow> page \<Rightarrow> pages_db \<Rightarrow> pages_db option" where
  "rls_save role old new db =
     (if page_policy role old \<and> page_policy role new
      then Some (db\<lparr>pb_pages := update_where (\<lambda>p. pg_id p = pg_id old) (\<lambda>_. new) (pb_pages db)\<rparr>) else None)"

definition rls_delete :: "org_role \<Rightarrow> page \<Rightarrow> pages_db \<Rightarrow> pages_db option" where
  "rls_delete role old db =
     (if page_policy role old
      then Some (db\<lparr>pb_pages := delete_where (\<lambda>p. pg_id p = pg_id old) (pb_pages db),
                    pb_nav := delete_where (\<lambda>n. nv_page n = pg_id old) (pb_nav db)\<rparr>) else None)"

section \<open>Queries\<close>

definition by_slug :: "uuid \<Rightarrow> string \<Rightarrow> pages_db \<Rightarrow> page option" where
  "by_slug o' slug db = List.find (\<lambda>p. pg_org p = o' \<and> pg_slug p = slug) (pb_pages db)"

definition by_id :: "uuid \<Rightarrow> uuid \<Rightarrow> pages_db \<Rightarrow> page option" where
  "by_id o' i db = List.find (\<lambda>p. pg_org p = o' \<and> pg_id p = i) (pb_pages db)"

definition slug_taken :: "uuid \<Rightarrow> string \<Rightarrow> uuid option \<Rightarrow> pages_db \<Rightarrow> bool" where
  "slug_taken o' slug exclude db =
     list_ex (\<lambda>p. pg_org p = o' \<and> pg_slug p = slug \<and> exclude \<noteq> Some (pg_id p)) (pb_pages db)"

datatype page_ref = BySlug string | ById uuid

definition public_page :: "uuid \<Rightarrow> page_ref \<Rightarrow> pages_db \<Rightarrow> page option" where
  "public_page o' ref db = List.find (\<lambda>p. case ref of BySlug s \<Rightarrow> pg_slug p = s | ById i \<Rightarrow> pg_id p = i) (public_pages o' db)"

definition add_page :: "uuid \<Rightarrow> uuid \<Rightarrow> string \<Rightarrow> string \<Rightarrow> string \<Rightarrow> uuid \<Rightarrow> instant \<Rightarrow> pages_db \<Rightarrow> pages_db \<times> page" where
  "add_page o' user title slug content new_id now db =
     (let p = \<lparr>pg_id = new_id, pg_org = o', pg_user = user, pg_title = title, pg_slug = slug, pg_content = content,
        pg_visibility = Draft, pg_created_at = now\<rparr> in
      (db\<lparr>pb_pages := pb_pages db @ [p]\<rparr>, p))"

definition visible_pages :: "uuid \<Rightarrow> org_role option \<Rightarrow> pages_db \<Rightarrow> page list" where
  "visible_pages o' role db = sort_key (\<lambda>p. - pg_created_at p)
     (if role = None then public_pages o' db else filter (\<lambda>p. pg_org p = o') (pb_pages db))"

record text_search =
  sx_matches :: "string \<Rightarrow> page \<Rightarrow> bool"
  sx_rank :: "string \<Rightarrow> page \<Rightarrow> int"

definition search_visible_pages :: "text_search \<Rightarrow> uuid \<Rightarrow> string \<Rightarrow> org_role option \<Rightarrow> pages_db \<Rightarrow> page list" where
  "search_visible_pages sx o' query role db = sort_key (\<lambda>p. (- sx_rank sx query p, - pg_created_at p))
     (filter (sx_matches sx query) (if role = None then public_pages o' db else filter (\<lambda>p. pg_org p = o') (pb_pages db)))"

record nav_candidate =
  nc_page :: page
  nc_position :: "int option"

definition nav_by_page :: "uuid \<Rightarrow> pages_db \<Rightarrow> (uuid, nav_item) dict" where
  "nav_by_page o' db = fold (\<lambda>n. AList.update (nv_page n) n) (repo_all nav_model o' (pb_nav db)) []"

definition candidates :: "uuid \<Rightarrow> pages_db \<Rightarrow> nav_candidate list" where
  "candidates o' db =
     (let nav = nav_by_page o' db;
          published = sort_key pg_title (filter (\<lambda>p. pg_org p = o' \<and> pg_visibility p \<noteq> Draft) (pb_pages db));
          in_nav = List.map_filter (\<lambda>p. map_option (\<lambda>n. (nv_position n, p)) (map_of nav (pg_id p))) published;
          not_in_nav = filter (\<lambda>p. map_of nav (pg_id p) = None) published in
      map (\<lambda>(n, p). \<lparr>nc_page = p, nc_position = Some n\<rparr>) (sort_key fst in_nav)
      @ map (\<lambda>p. \<lparr>nc_page = p, nc_position = None\<rparr>) not_in_nav)"

definition nav_items :: "uuid \<Rightarrow> bool \<Rightarrow> pages_db \<Rightarrow> page list" where
  "nav_items o' public_only db =
     (let rows = (if public_only then sort_key nv_position (public_nav_items o' db) else repo_all nav_model o' (pb_nav db));
          pages = (if public_only then visible_pages o' None db
                   else filter (\<lambda>p. pg_id p \<in> nv_page ` set rows) (pb_pages db)) in
      List.map_filter (\<lambda>r. map_of (rev (map (\<lambda>p. (pg_id p, p)) pages)) (nv_page r)) rows)"

definition nav_add :: "uuid \<Rightarrow> uuid \<Rightarrow> uuid \<Rightarrow> pages_db \<Rightarrow> pages_db option" where
  "nav_add o' page_id new_id db =
     (if list_ex (\<lambda>n. nv_org n = o' \<and> nv_page n = page_id) (pb_nav db) then None
      else let ps = map nv_position (org_rows nav_model o' (pb_nav db));
               max_pos = (case ps of [] \<Rightarrow> 0 | _ \<Rightarrow> Max (set ps)) in
        Some (db\<lparr>pb_nav := pb_nav db @ [\<lparr>nv_id = new_id, nv_org = o', nv_page = page_id, nv_position = max_pos + 1\<rparr>]\<rparr>))"

definition nav_remove :: "uuid \<Rightarrow> uuid \<Rightarrow> pages_db \<Rightarrow> pages_db" where
  "nav_remove o' page_id db =
     (case List.find (\<lambda>n. nv_org n = o' \<and> nv_page n = page_id) (pb_nav db) of
        None \<Rightarrow> db
      | Some n \<Rightarrow> db\<lparr>pb_nav := repo_delete nav_model n (pb_nav db)\<rparr>)"

section \<open>Handlers\<close>

datatype page_fact =
    PageCreated uuid string string
  | PageUpdated uuid string string
  | PageSlugChanged uuid string string
  | PagePublishedMembers uuid string string
  | PagePublishedPublic uuid string string
  | PageUnpublished uuid string string
  | PageDeleted uuid string string

datatype page_answer = PageDone page | PageRemoved | PageShown page bool | PageListed "page list"
  | NavListed "nav_candidate list" | NavEntry page | PageAt string | PageRefused nat string | PageBroke

type_synonym page_result = "pages_db \<times> page_fact list \<times> page_answer"

definition can_edit_role :: "page_visibility \<Rightarrow> org_role option \<Rightarrow> bool" where
  "can_edit_role v role \<longleftrightarrow> role = Some Owner \<or> (role \<noteq> None \<and> v = Draft)"

definition editable_page :: "uuid \<Rightarrow> string \<Rightarrow> org_role \<Rightarrow> pages_db \<Rightarrow> page_answer + page" where
  "editable_page o' slug role db = (case by_slug o' slug db of
       None \<Rightarrow> Inl (PageRefused 404 ''Not Found'')
     | Some p \<Rightarrow> if can_edit_role (pg_visibility p) (Some role) then Inr p
                 else Inl (PageRefused 403 ''This page is read-only''))"

definition visible_page :: "uuid \<Rightarrow> org_role option \<Rightarrow> page_ref \<Rightarrow> pages_db \<Rightarrow> page option" where
  "visible_page o' role ref db = (if role = None then public_page o' ref db
     else (case ref of BySlug s \<Rightarrow> by_slug o' s db | ById i \<Rightarrow> by_id o' i db))"

definition create_page :: "uuid \<Rightarrow> uuid \<Rightarrow> string \<Rightarrow> string \<Rightarrow> string \<Rightarrow> uuid \<Rightarrow> instant \<Rightarrow> pages_db \<Rightarrow> page_result" where
  "create_page o' user body_title body_slug content new_id now db =
     (let title = strip body_title in
      if title = [] then (db, [], PageRefused 422 ''Title is required'')
      else let s = slugify (if body_slug = [] then title else body_slug);
               slug = (if s = [] then ''page'' else s) in
        if slug_taken o' slug None db then (db, [], PageRefused 409 ''A page with this slug already exists'')
        else (let (db', p) = add_page o' user title slug content new_id now db in
              (db', [PageCreated (pg_id p) slug title], PageDone p)))"

record page_patch =
  pt_title :: "string option"
  pt_content :: "string option"
  pt_slug :: "string option"
  pt_visibility :: "page_visibility option"

definition publish_event :: "page_visibility \<Rightarrow> uuid \<Rightarrow> string \<Rightarrow> string \<Rightarrow> page_fact" where
  "publish_event v = (case v of Draft \<Rightarrow> PageUnpublished | Members \<Rightarrow> PagePublishedMembers | Public \<Rightarrow> PagePublishedPublic)"

text \<open>The fields the body sent, each with its own default.\<close>

definition patched_page :: "page_patch \<Rightarrow> page \<Rightarrow> page" where
  "patched_page body p = p\<lparr>
     pg_slug := (case pt_slug body of None \<Rightarrow> pg_slug p | Some s \<Rightarrow> (let n = slugify s in if n = [] then pg_slug p else n)),
     pg_content := (case pt_content body of None \<Rightarrow> pg_content p | Some c \<Rightarrow> c),
     pg_title := (case pt_title body of None \<Rightarrow> pg_title p | Some t \<Rightarrow> if strip t = [] then pg_title p else strip t),
     pg_visibility := (case pt_visibility body of None \<Rightarrow> pg_visibility p | Some v \<Rightarrow> v)\<rparr>"

definition update_page :: "uuid \<Rightarrow> org_role \<Rightarrow> string \<Rightarrow> page_patch \<Rightarrow> pages_db \<Rightarrow> page_result" where
  "update_page o' role slug body db = (case editable_page o' slug role db of
       Inl a \<Rightarrow> (db, [], a)
     | Inr p \<Rightarrow>
         (let q = patched_page body p in
          if pg_slug q \<noteq> pg_slug p \<and> slug_taken o' (pg_slug q) (Some (pg_id p)) db
          then (db, [], PageRefused 409 ''A page with this slug already exists'')
          else if pg_visibility q \<noteq> pg_visibility p \<and> role \<noteq> Owner
          then (db, [], PageRefused 403 ''Only owners can change a page's visibility'')
          else (case rls_save role p q db of
              None \<Rightarrow> (db, [], PageRefused 409 ''stale'')
            | Some db' \<Rightarrow> (db',
                [(if pg_visibility q \<noteq> pg_visibility p then publish_event (pg_visibility q)
                  else if pg_slug q \<noteq> pg_slug p then PageSlugChanged else PageUpdated) (pg_id q) (pg_slug q) (pg_title q)],
                PageDone q))))"

definition delete_page :: "uuid \<Rightarrow> org_role \<Rightarrow> string \<Rightarrow> pages_db \<Rightarrow> page_result" where
  "delete_page o' role slug db = (case editable_page o' slug role db of
       Inl a \<Rightarrow> (db, [], a)
     | Inr p \<Rightarrow> (case rls_delete role p db of
           None \<Rightarrow> (db, [], PageRefused 409 ''stale'')
         | Some db' \<Rightarrow> (db', [PageDeleted (pg_id p) slug (pg_title p)], PageRemoved)))"

definition set_visibility :: "uuid \<Rightarrow> org_role \<Rightarrow> string \<Rightarrow> page_visibility \<Rightarrow> pages_db \<Rightarrow> page_result" where
  "set_visibility o' role slug v db =
     (if role \<noteq> Owner then (db, [], PageRefused 403 ''Only owners can change a page's visibility'')
      else (case by_slug o' slug db of
          None \<Rightarrow> (db, [], PageRefused 404 ''Not Found'')
        | Some p \<Rightarrow> (case rls_save role p (p\<lparr>pg_visibility := v\<rparr>) db of
              None \<Rightarrow> (db, [], PageRefused 409 ''stale'')
            | Some db' \<Rightarrow> (db', [publish_event v (pg_id p) slug (pg_title p)], PageDone (p\<lparr>pg_visibility := v\<rparr>)))))"

definition require_nav_owner :: "org_role \<Rightarrow> page_answer option" where
  "require_nav_owner role = (if role \<noteq> Owner then Some (PageRefused 403 ''Only owners can manage navigation'') else None)"

definition nav_manager :: "uuid \<Rightarrow> org_role \<Rightarrow> pages_db \<Rightarrow> page_result" where
  "nav_manager o' role db = (case require_nav_owner role of
       Some a \<Rightarrow> (db, [], a) | None \<Rightarrow> (db, [], NavListed (candidates o' db)))"

definition add_to_nav :: "uuid \<Rightarrow> org_role \<Rightarrow> string \<Rightarrow> uuid \<Rightarrow> pages_db \<Rightarrow> page_result" where
  "add_to_nav o' role body_slug new_id db = (case require_nav_owner role of
       Some a \<Rightarrow> (db, [], a)
     | None \<Rightarrow> (case by_slug o' (strip body_slug) db of
           None \<Rightarrow> (db, [], PageRefused 404 ''Not Found'')
         | Some p \<Rightarrow>
             if pg_visibility p = Draft then (db, [], PageRefused 422 ''Draft pages cannot be added to navigation'')
             else (case nav_add o' (pg_id p) new_id db of
                 None \<Rightarrow> (db, [], PageBroke)
               | Some db' \<Rightarrow> (db', [], NavEntry p))))"

definition remove_from_nav :: "uuid \<Rightarrow> org_role \<Rightarrow> string \<Rightarrow> pages_db \<Rightarrow> page_result" where
  "remove_from_nav o' role slug db = (case require_nav_owner role of
       Some a \<Rightarrow> (db, [], a)
     | None \<Rightarrow> (case by_slug o' slug db of
           None \<Rightarrow> (db, [], PageRefused 404 ''Not Found'')
         | Some p \<Rightarrow> (nav_remove o' (pg_id p) db, [], PageRemoved)))"

definition reorder_nav :: "uuid \<Rightarrow> org_role \<Rightarrow> string \<Rightarrow> string option \<Rightarrow> pages_db \<Rightarrow> page_result" where
  "reorder_nav o' role slug above_slug db = (case require_nav_owner role of
       Some a \<Rightarrow> (db, [], a)
     | None \<Rightarrow> (case by_slug o' slug db of
           None \<Rightarrow> (db, [], PageRefused 404 ''Not Found'')
         | Some p \<Rightarrow>
             (let above_id = (case above_slug of None \<Rightarrow> None
                    | Some s \<Rightarrow> if s = [] then None else map_option pg_id (by_slug o' s db)) in
              (db\<lparr>pb_nav := move_above nav_model o' (pg_id p) above_id (pb_nav db)\<rparr>, [], NavEntry p))))"

definition list_pages :: "text_search \<Rightarrow> uuid \<Rightarrow> org_role option \<Rightarrow> string \<Rightarrow> pages_db \<Rightarrow> page_answer" where
  "list_pages sx o' role q db =
     (let query = strip q in
      PageListed (if query \<noteq> [] then search_visible_pages sx o' query role db else visible_pages o' role db))"

definition view_page :: "uuid \<Rightarrow> org_role option \<Rightarrow> string \<Rightarrow> pages_db \<Rightarrow> page_answer" where
  "view_page o' role slug db = (case visible_page o' role (BySlug slug) db of
       None \<Rightarrow> PageRefused 404 ''Not Found''
     | Some p \<Rightarrow> PageShown p (can_edit_role (pg_visibility p) role))"

definition view_page_by_id :: "uuid \<Rightarrow> string \<Rightarrow> org_role option \<Rightarrow> uuid \<Rightarrow> pages_db \<Rightarrow> page_answer" where
  "view_page_by_id o' org_handle role page_id db = (case visible_page o' role (ById page_id) db of
       None \<Rightarrow> PageRefused 404 ''Not Found''
     | Some p \<Rightarrow> PageAt (''/'' @ org_handle @ ''/pages/'' @ pg_slug p))"

section \<open>The welcome page and the members' menu\<close>

definition seed_welcome_page :: "uuid \<Rightarrow> uuid \<Rightarrow> string \<Rightarrow> uuid \<Rightarrow> uuid \<Rightarrow> instant \<Rightarrow> pages_db \<Rightarrow> pages_db option" where
  "seed_welcome_page o' owner body page_id nav_id now db =
     (if slug_taken o' ''welcome'' None db then Some db
      else let (db', p) = add_page o' owner ''Welcome'' ''welcome'' body page_id now db in
        nav_add o' page_id nav_id
          (db'\<lparr>pb_pages := update_where (\<lambda>q. pg_id q = page_id) (\<lambda>q. q\<lparr>pg_visibility := Public\<rparr>) (pb_pages db')\<rparr>))"

definition org_nav :: "uuid \<Rightarrow> pages_db \<Rightarrow> page list" where
  "org_nav o' db = filter (\<lambda>p. pg_visibility p = Members) (nav_items o' False db)"

section \<open>The site's home, \<open>apps/public\<close>\<close>

datatype home = PlainHome | HomeRedirect string | FeaturedHome "page list"

definition public_index :: "uuid option \<Rightarrow> pages_db \<Rightarrow> home" where
  "public_index featured db = (case featured of
       None \<Rightarrow> PlainHome
     | Some o' \<Rightarrow> (case nav_items o' True db of
           p # _ \<Rightarrow> HomeRedirect (''/'' @ pg_slug p)
         | [] \<Rightarrow> FeaturedHome (visible_pages o' None db)))"

definition public_page_route :: "uuid option \<Rightarrow> string \<Rightarrow> pages_db \<Rightarrow> (page \<times> page list) option" where
  "public_page_route featured slug db = (case featured of
       None \<Rightarrow> None
     | Some o' \<Rightarrow> map_option (\<lambda>p. (p, nav_items o' True db)) (public_page o' (BySlug slug) db))"

end
