(* ===== verification/Page_Access.thy ===== *)
theory Page_Access
  imports Pages
begin

text \<open>
  Who reads and who changes a page.  An outsider sees public pages only, whatever the route; a member
  who is not an owner changes drafts only; and what the handlers let through, the row policies of the
  database let through as well, so that no caller is told a page went stale for want of a right.
\<close>

section \<open>Requests\<close>

datatype page_request =
    CreatePage uuid string string string uuid instant
  | UpdatePage string page_patch
  | DeletePage string
  | SetVisibility string page_visibility
  | AddToNav string uuid
  | RemoveFromNav string
  | ReorderNav string "string option"

fun pages_handle :: "uuid \<Rightarrow> org_role \<Rightarrow> page_request \<Rightarrow> pages_db \<Rightarrow> page_result" where
  "pages_handle o' role (CreatePage user title slug content new_id now) db = create_page o' user title slug content new_id now db" |
  "pages_handle o' role (UpdatePage slug body) db = update_page o' role slug body db" |
  "pages_handle o' role (DeletePage slug) db = delete_page o' role slug db" |
  "pages_handle o' role (SetVisibility slug v) db = set_visibility o' role slug v db" |
  "pages_handle o' role (AddToNav slug new_id) db = add_to_nav o' role slug new_id db" |
  "pages_handle o' role (RemoveFromNav slug) db = remove_from_nav o' role slug db" |
  "pages_handle o' role (ReorderNav slug up) db = reorder_nav o' role slug up db"

section \<open>Reading\<close>

definition shown :: "page_answer \<Rightarrow> page list" where
  "shown a = (case a of PageShown p _ \<Rightarrow> [p] | PageListed ps \<Rightarrow> ps | _ \<Rightarrow> [])"

lemma in_public_pages: "p \<in> set (public_pages o' db) \<longleftrightarrow> p \<in> set (pb_pages db) \<and> pg_org p = o' \<and> pg_visibility p = Public"
  by (auto simp: public_pages_def)

lemma public_page_public: "public_page o' ref db = Some p \<Longrightarrow> p \<in> set (public_pages o' db)"
  by (auto simp: public_page_def dest: find_SomeD)

lemma nav_items_public: "p \<in> set (nav_items o' True db) \<Longrightarrow> p \<in> set (public_pages o' db)"
  by (auto simp: nav_items_def visible_pages_def in_map_filter Let_def dest!: map_of_SomeD)

text \<open>
  C11.  An outsider reads public pages only.  Whatever an outsider asks (a page by its slug or its id, the
  list, a search, the site's home or a page of it, the menu beside it), every page shown, listed, or
  redirected to is a public page of the organisation asked for, and none is offered for editing.
\<close>

theorem outsider_reads_public:
  "(\<forall>p \<in> set (shown (view_page o' None slug db)) \<union> set (shown (list_pages sx o' None q db))
        \<union> set (nav_items o' True db) \<union> set (case public_page_route (Some o') slug db of None \<Rightarrow> [] | Some (p, nav) \<Rightarrow> p # nav)
        \<union> set (case public_index (Some o') db of FeaturedHome ps \<Rightarrow> ps | _ \<Rightarrow> []).
      p \<in> set (pb_pages db) \<and> pg_org p = o' \<and> pg_visibility p = Public)
   \<and> (\<forall>p e. view_page o' None slug db = PageShown p e \<longrightarrow> \<not> e)
   \<and> (\<forall>url. view_page_by_id o' handle None i db = PageAt url \<longrightarrow>
        (\<exists>p \<in> set (pb_pages db). pg_id p = i \<and> pg_org p = o' \<and> pg_visibility p = Public
           \<and> url = ''/'' @ handle @ ''/pages/'' @ pg_slug p))
   \<and> (\<forall>url. public_index (Some o') db = HomeRedirect url \<longrightarrow>
        (\<exists>p \<in> set (pb_pages db). pg_org p = o' \<and> pg_visibility p = Public \<and> url = ''/'' @ pg_slug p))"
proof (intro conjI ballI allI impI)
  fix p
  assume "p \<in> set (shown (view_page o' None slug db)) \<union> set (shown (list_pages sx o' None q db))
        \<union> set (nav_items o' True db) \<union> set (case public_page_route (Some o') slug db of None \<Rightarrow> [] | Some (p, nav) \<Rightarrow> p # nav)
        \<union> set (case public_index (Some o') db of FeaturedHome ps \<Rightarrow> ps | _ \<Rightarrow> [])"
  then have "p \<in> set (public_pages o' db)"
  proof (elim UnE)
    assume "p \<in> set (shown (view_page o' None slug db))"
    then show ?thesis
      by (auto simp: view_page_def visible_page_def shown_def split: option.splits dest: public_page_public)
  next
    assume "p \<in> set (shown (list_pages sx o' None q db))"
    then show ?thesis
      by (auto simp: list_pages_def shown_def Let_def search_visible_pages_def visible_pages_def split: if_splits)
  next
    assume "p \<in> set (nav_items o' True db)"
    then show ?thesis by (rule nav_items_public)
  next
    assume "p \<in> set (case public_page_route (Some o') slug db of None \<Rightarrow> [] | Some (p, nav) \<Rightarrow> p # nav)"
    then show ?thesis
      by (auto simp: public_page_route_def split: option.splits dest: public_page_public[OF sym] public_page_public nav_items_public)
  next
    assume "p \<in> set (case public_index (Some o') db of FeaturedHome ps \<Rightarrow> ps | _ \<Rightarrow> [])"
    then show ?thesis by (auto simp: public_index_def visible_pages_def split: list.splits)
  qed
  then show "p \<in> set (pb_pages db)" "pg_org p = o'" "pg_visibility p = Public" by (simp_all add: in_public_pages)
next
  fix p e assume "view_page o' None slug db = PageShown p e"
  then show "\<not> e" by (auto simp: view_page_def can_edit_role_def split: option.splits)
next
  fix url assume "view_page_by_id o' handle None i db = PageAt url"
  then obtain p where p: "public_page o' (ById i) db = Some p" "url = ''/'' @ handle @ ''/pages/'' @ pg_slug p"
    by (auto simp: view_page_by_id_def visible_page_def split: option.splits)
  from public_page_public[OF p(1)] have "p \<in> set (pb_pages db) \<and> pg_org p = o' \<and> pg_visibility p = Public"
    by (simp add: in_public_pages)
  moreover have "pg_id p = i" using p(1) by (auto simp: public_page_def dest: find_SomeD)
  ultimately show "\<exists>p \<in> set (pb_pages db). pg_id p = i \<and> pg_org p = o' \<and> pg_visibility p = Public
           \<and> url = ''/'' @ handle @ ''/pages/'' @ pg_slug p" using p(2) by blast
next
  fix url assume "public_index (Some o') db = HomeRedirect url"
  then obtain p where "p \<in> set (nav_items o' True db)" "url = ''/'' @ pg_slug p"
    by (auto simp: public_index_def split: list.splits)
  with nav_items_public[OF this(1)]
  show "\<exists>p \<in> set (pb_pages db). pg_org p = o' \<and> pg_visibility p = Public \<and> url = ''/'' @ pg_slug p"
    by (auto simp: in_public_pages)
qed

lemma outsider_reads_public_witness:
  "shown (list_pages \<lparr>sx_matches = \<lambda>q p. True, sx_rank = \<lambda>q p. 0\<rparr> 1 None []
     \<lparr>pb_pages = [\<lparr>pg_id = 5, pg_org = 1, pg_user = 7, pg_title = ''t'', pg_slug = ''s'', pg_content = [],
        pg_visibility = Draft, pg_created_at = 0\<rparr>], pb_nav = []\<rparr>) = []"
proof -
  let ?db = "\<lparr>pb_pages = [\<lparr>pg_id = 5, pg_org = 1, pg_user = 7, pg_title = ''t'', pg_slug = ''s'', pg_content = [],
        pg_visibility = Draft, pg_created_at = 0\<rparr>], pb_nav = []\<rparr>"
  let ?ps = "shown (list_pages \<lparr>sx_matches = \<lambda>q p. True, sx_rank = \<lambda>q p. 0\<rparr> 1 None [] ?db)"
  have "\<forall>p \<in> set ?ps. p \<in> set (pb_pages ?db) \<and> pg_visibility p = Public"
    using conjunct1[OF outsider_reads_public[of 1 "[]" ?db "\<lparr>sx_matches = \<lambda>q p. True, sx_rank = \<lambda>q p. 0\<rparr>" "[]" "[]" 0]]
    by blast
  then have "p \<in> set ?ps \<Longrightarrow> False" for p by auto
  then have "set ?ps = {}" by (rule equals0I)
  then show ?thesis by (simp only: set_empty)
qed

section \<open>Writing\<close>

definition pages_ok :: "pages_db \<Rightarrow> bool" where
  "pages_ok db \<longleftrightarrow> distinct (map pg_id (pb_pages db))"

definition published :: "pages_db \<Rightarrow> page set" where
  "published db = {p \<in> set (pb_pages db). pg_visibility p \<noteq> Draft}"

definition others :: "uuid \<Rightarrow> pages_db \<Rightarrow> page list" where
  "others o' db = filter (\<lambda>p. pg_org p \<noteq> o') (pb_pages db)"

lemma by_slug_SomeD: "by_slug o' slug db = Some p \<Longrightarrow> p \<in> set (pb_pages db) \<and> pg_org p = o' \<and> pg_slug p = slug"
  by (auto simp: by_slug_def dest: find_SomeD)

lemma editable_SomeD:
  "editable_page o' slug role db = Inr p \<Longrightarrow> p \<in> set (pb_pages db) \<and> pg_org p = o' \<and> page_policy role p"
  by (auto simp: editable_page_def can_edit_role_def page_policy_def dest: by_slug_SomeD split: option.splits if_splits)

lemma same_row: "pages_ok db \<Longrightarrow> p \<in> set (pb_pages db) \<Longrightarrow> q \<in> set (pb_pages db) \<Longrightarrow> pg_id q = pg_id p \<Longrightarrow> q = p"
  by (auto simp: pages_ok_def distinct_map dest: inj_onD)

lemma save_draft:
  assumes "pages_ok db" "p \<in> set (pb_pages db)" "pg_visibility p = Draft" "pg_visibility q = Draft"
    "pg_org q = pg_org p" "rls_save role p q db = Some db'"
  shows "published db' = published db \<and> others (pg_org p) db' = others (pg_org p) db \<and> pb_nav db' = pb_nav db"
proof -
  have rows: "pb_pages db' = update_where (\<lambda>r. pg_id r = pg_id p) (\<lambda>_. q) (pb_pages db)" and nav: "pb_nav db' = pb_nav db"
    using assms(6) by (auto simp: rls_save_def split: if_splits)
  have same: "r = p" if "r \<in> set (pb_pages db)" "pg_id r = pg_id p" for r
    using same_row[OF assms(1,2) that] .
  have "published db' = published db"
    using assms(2-4) same unfolding published_def rows in_update_where by (auto split: if_splits)
  moreover have "others (pg_org p) db' = others (pg_org p) db"
  proof -
    have "filter (\<lambda>x. pg_org x \<noteq> pg_org p) (update_where (\<lambda>r. pg_id r = pg_id p) (\<lambda>_. q) xs)
        = filter (\<lambda>x. pg_org x \<noteq> pg_org p) xs" if "set xs \<subseteq> set (pb_pages db)" for xs
      using that same assms(5) by (induction xs) auto
    then show ?thesis by (simp add: others_def rows)
  qed
  ultimately show ?thesis using nav by blast
qed

lemma delete_draft:
  assumes "pages_ok db" "p \<in> set (pb_pages db)" "pg_visibility p = Draft" "rls_delete role p db = Some db'"
  shows "published db' = published db \<and> others (pg_org p) db' = others (pg_org p) db
    \<and> pb_nav db' = filter (\<lambda>n. nv_page n \<noteq> pg_id p) (pb_nav db)"
proof -
  have rows: "pb_pages db' = filter (\<lambda>r. pg_id r \<noteq> pg_id p) (pb_pages db)"
    and nav: "pb_nav db' = filter (\<lambda>n. nv_page n \<noteq> pg_id p) (pb_nav db)"
    using assms(4) by (auto simp: rls_delete_def delete_where_def split: if_splits)
  have same: "r = p" if "r \<in> set (pb_pages db)" "pg_id r = pg_id p" for r
    using same_row[OF assms(1,2) that] .
  have "published db' = published db" using assms(3) same by (auto simp: published_def rows)
  moreover have "others (pg_org p) db' = others (pg_org p) db"
    unfolding others_def rows filter_filter using same by (intro filter_cong) auto
  ultimately show ?thesis using nav by blast
qed

lemma never_hidden:
  assumes "editable_page o' slug role db = Inr p"
  shows "pg_visibility q = pg_visibility p \<or> role = Owner \<Longrightarrow> rls_save role p q db \<noteq> None"
    and "rls_delete role p db \<noteq> None"
  using editable_SomeD[OF assms] by (auto simp: rls_save_def rls_delete_def page_policy_def)

lemma editable_not_stale: "editable_page o' slug role db \<noteq> Inl (PageRefused 409 ''stale'')"
  by (auto simp: editable_page_def split: option.splits)

lemma update_never_stale: "snd (snd (update_page o' role slug body db)) \<noteq> PageRefused 409 ''stale''"
proof (cases "editable_page o' slug role db")
  case (Inl a)
  then show ?thesis using editable_not_stale[of o' slug role db] by (auto simp: update_page_def)
next
  case (Inr p)
  then show ?thesis using never_hidden(1)[OF Inr, of "patched_page body p"]
    by (auto simp: update_page_def Let_def split: option.split)
qed

lemma delete_never_stale: "snd (snd (delete_page o' role slug db)) \<noteq> PageRefused 409 ''stale''"
  using editable_not_stale[of o' slug role db] never_hidden(2)[of o' slug role db]
  by (auto simp: delete_page_def split: sum.splits option.splits)

lemma set_visibility_never_stale: "snd (snd (set_visibility o' role slug v db)) \<noteq> PageRefused 409 ''stale''"
  by (auto simp: set_visibility_def rls_save_def page_policy_def split: option.splits)

lemmas handler_never_stale = update_never_stale delete_never_stale set_visibility_never_stale

lemma create_keeps:
  "pages_handle o' role (CreatePage user title slug content new_id now) db = (db', fs, a) \<Longrightarrow>
   published db' = published db \<and> others o' db' = others o' db \<and> pb_nav db' = pb_nav db"
  by (auto simp: create_page_def add_page_def Let_def published_def others_def split: if_splits)

lemma editable_member: "editable_page o' slug Member db = Inr p \<Longrightarrow> pg_visibility p = Draft"
  by (auto simp: editable_page_def can_edit_role_def split: option.splits if_splits)

lemma update_by_member:
  assumes "update_page o' Member slug body db = (db', fs, a)"
  shows "db' = db \<or> (\<exists>p q. p \<in> set (pb_pages db) \<and> pg_org p = o' \<and> pg_visibility p = Draft \<and> pg_visibility q = Draft
    \<and> pg_org q = pg_org p \<and> rls_save Member p q db = Some db')"
proof (cases "editable_page o' slug Member db")
  case (Inr p)
  then have p: "p \<in> set (pb_pages db)" "pg_org p = o'" "pg_visibility p = Draft"
    using editable_SomeD[OF Inr] editable_member[OF Inr] by auto
  let ?q = "patched_page body p"
  have "db' = db \<or> pg_visibility ?q = pg_visibility p \<and> rls_save Member p ?q db = Some db'"
    using assms by (auto simp: update_page_def Inr Let_def split: if_splits option.splits)
  moreover have "pg_org ?q = pg_org p" by (simp add: patched_page_def)
  ultimately show ?thesis using p by auto
qed (use assms in \<open>simp add: update_page_def\<close>)

text \<open>
  A member changes drafts only.  Whatever a member who is not an owner sends, every page that is not
  a draft is as it was and no page becomes published, other organisations' pages are untouched, and
  the navigation loses at most the entries of a deleted page; and for owner and member alike no save or
  deletion the handlers let through is hidden by the row policies of the database.
\<close>

theorem member_changes_drafts_only:
  assumes "distinct (map pg_id (pb_pages db))"
    and "pages_handle o' Member rq db = (db', facts, answer)"
  shows "{p \<in> set (pb_pages db'). pg_visibility p \<noteq> Draft} = {p \<in> set (pb_pages db). pg_visibility p \<noteq> Draft}
    \<and> filter (\<lambda>p. pg_org p \<noteq> o') (pb_pages db') = filter (\<lambda>p. pg_org p \<noteq> o') (pb_pages db)
    \<and> set (pb_nav db') \<subseteq> set (pb_nav db)
    \<and> (\<forall>n \<in> set (pb_nav db) - set (pb_nav db'). nv_page n \<notin> pg_id ` set (pb_pages db'))
    \<and> snd (snd (pages_handle o' role rq db)) \<noteq> PageRefused 409 ''stale''"
proof -
  have ok: "pages_ok db" using assms(1) by (simp add: pages_ok_def)
  have "published db' = published db \<and> others o' db' = others o' db \<and> set (pb_nav db') \<subseteq> set (pb_nav db)
    \<and> (\<forall>n \<in> set (pb_nav db) - set (pb_nav db'). nv_page n \<notin> pg_id ` set (pb_pages db'))"
  proof (cases rq)
    case (CreatePage user title slug content new_id now)
    then show ?thesis using create_keeps assms(2) by (metis Diff_cancel empty_iff order_refl)
  next
    case (UpdatePage slug body)
    then have "update_page o' Member slug body db = (db', facts, answer)" using assms(2) by simp
    from update_by_member[OF this] show ?thesis using save_draft[OF ok] by (elim disjE exE conjE) auto
  next
    case (DeletePage slug)
    then have "db' = db \<or> (\<exists>p. editable_page o' slug Member db = Inr p \<and> rls_delete Member p db = Some db')"
      using assms(2) by (auto simp: delete_page_def split: sum.splits option.splits)
    then show ?thesis
    proof (elim disjE exE conjE)
      fix p assume p: "editable_page o' slug Member db = Inr p" "rls_delete Member p db = Some db'"
      note e = editable_SomeD[OF p(1)] editable_member[OF p(1)]
      have "pg_id p \<notin> pg_id ` set (pb_pages db')"
        using p(2) by (auto simp: rls_delete_def in_delete_where split: if_splits)
      then show ?thesis using delete_draft[OF ok _ _ p(2)] e by auto
    qed simp
  qed (use assms(2) in \<open>simp_all add: set_visibility_def add_to_nav_def remove_from_nav_def reorder_nav_def require_nav_owner_def\<close>)
  moreover have "snd (snd (pages_handle o' role rq db)) \<noteq> PageRefused 409 ''stale''"
    by (cases rq) (auto simp: handler_never_stale create_page_def add_page_def Let_def add_to_nav_def remove_from_nav_def
        reorder_nav_def require_nav_owner_def split: option.splits)
  ultimately show ?thesis unfolding published_def others_def by blast
qed

lemma member_changes_drafts_only_witness:
  "snd (snd (pages_handle 1 Owner (DeletePage ''s'')
     \<lparr>pb_pages = [\<lparr>pg_id = 5, pg_org = 1, pg_user = 7, pg_title = ''t'', pg_slug = ''s'', pg_content = [],
        pg_visibility = Public, pg_created_at = 0\<rparr>], pb_nav = []\<rparr>)) \<noteq> PageRefused 409 ''stale''"
proof -
  let ?db = "\<lparr>pb_pages = [\<lparr>pg_id = 5, pg_org = 1, pg_user = 7, pg_title = ''t'', pg_slug = ''s'', pg_content = [],
        pg_visibility = Public, pg_created_at = 0\<rparr>], pb_nav = []\<rparr>"
  have 1: "distinct (map pg_id (pb_pages ?db))" by simp
  obtain db' facts answer where 2: "pages_handle 1 Member (DeletePage ''s'') ?db = (db', facts, answer)"
    by (metis prod_cases3)
  show ?thesis using member_changes_drafts_only[OF 1 2, of Owner] by blast
qed

end
