(* ===== verification/Event_Roundtrip.thy ===== *)
theory Event_Roundtrip
  imports Event_Bus
begin

text \<open>
  From the emitter to the reaction: an event is written to the journal (\<open>event_to_record\<close>: some fields
  become columns, the rest the payload), the listener builds a task of it (\<open>task_payload\<close>), and the
  worker's wrapper rebuilds the event (\<open>from_payload\<close>).  What comes out is what went in, with the
  instant of the fact filled in.
\<close>

section \<open>Events as emitters build them\<close>

text \<open>
  A value fits its field: nothing only where there is a default, an identifier or an instant only where
  the annotation carries one, and no text where a text would be parsed back.
\<close>

definition value_fits :: "event_field \<Rightarrow> field_value \<Rightarrow> bool" where
  "value_fits f v = (case v of
       FNone \<Rightarrow> ef_default f \<noteq> None
     | FUuid u \<Rightarrow> ef_uuid f \<and> u < 2 ^ 128
     | FTime t \<Rightarrow> ef_time f \<and> \<not> ef_uuid f
     | FJson j \<Rightarrow> (case j of JNull \<Rightarrow> False | JStr s \<Rightarrow> \<not> ef_uuid f \<and> \<not> ef_time f | _ \<Rightarrow> True))"

text \<open>The fields the base class and the organisation mixin declare, and those the journal adds.\<close>

definition base_field_ok :: "event_class \<Rightarrow> event_field \<Rightarrow> field_value \<Rightarrow> bool" where
  "base_field_ok cls f v =
     (if ef_name f \<in> {''user_id'', ''entity_id'', ''org_id''}
      then (v = FNone \<or> (\<exists>u. v = FUuid u)) \<and> (ef_name f = ''org_id'' \<longrightarrow> ec_org_scoped cls)
      else if ef_name f = ''entity_name'' then v = FNone \<or> (\<exists>s. v = FJson (JStr s))
      else if ef_name f = ''created_at'' then v = FNone \<and> ef_time f \<and> \<not> ef_uuid f
      else ef_name f \<noteq> ''event_id'' \<and> ef_name f \<noteq> ''request_id'')"

definition emitted_ok :: "event \<Rightarrow> bool" where
  "emitted_ok e \<longleftrightarrow> map fst (ev_fields e) = map ef_name (ec_fields (ev_class e))
     \<and> distinct (map fst (ev_fields e))
     \<and> list_all2 (\<lambda>f (name, v). value_fits f v \<and> base_field_ok (ev_class e) f v \<and> \<not> is_secret_field_name (ef_name f))
         (ec_fields (ev_class e)) (ev_fields e)"

definition delivered_value :: "instant \<Rightarrow> string \<Rightarrow> field_value \<Rightarrow> field_value" where
  "delivered_value now name v = (if name = ''created_at'' then FTime now else v)"

section \<open>Field by field\<close>

lemma map_of_fact_payload:
  "map_of (filter (\<lambda>(k, _). k \<notin> set lifted_columns \<and> k \<noteq> ''created_at'') (fact_payload e)) name
    = (if name \<in> set lifted_columns \<or> name = ''created_at'' then None
       else map_option (fact_value name) (map_of (ev_fields e) name))"
proof -
  have "map_of (filter (\<lambda>(k, _). P k) (map (\<lambda>(n, v). (n, fact_value n v)) xs)) name
      = (if P name then map_option (fact_value name) (map_of xs name) else None)" for P and xs :: "(string, field_value) dict"
    by (induction xs) auto
  from this[of "\<lambda>k. k \<notin> set lifted_columns \<and> k \<noteq> ''created_at''"] show ?thesis by (simp add: fact_payload_def)
qed

lemma reparse_fits:
  assumes "value_fits f v" "\<not> is_secret_field_name (ef_name f)"
    and "\<And>t. v = FTime t \<Longrightarrow> fromiso (isoformat t) = Some t"
  shows "reparse fromiso f (fact_value (ef_name f) v) = v
    \<and> \<not> (fact_value (ef_name f) v = JNull \<and> ef_default f = None)"
  using assms by (cases v) (auto simp: value_fits_def fact_value_def reparse_def uuid_parse_uuid_str split: json.splits)

lemma task_payload_field:
  assumes r: "r = event_to_record ctx e user_name org_name i now"
    and v: "map_of (ev_fields e) (ef_name f) = Some v"
    and ok: "base_field_ok (ev_class e) f v" "value_fits f v" "\<not> is_secret_field_name (ef_name f)"
  shows "map_of (task_payload r) (ef_name f)
    = Some (if ef_name f = ''created_at'' then JStr (isoformat now) else fact_value (ef_name f) v)"
proof (cases "ef_name f \<in> set lifted_columns")
  case True
  then show ?thesis
    using v ok by (auto simp: r task_payload_def map_of_AList_update event_to_record_def lifted_columns_def json_uuid_def
        json_text_def ev_uuid_def ev_text_def event_org_id_def base_field_ok_def fact_value_def split: if_splits)
next
  case False
  then have "ef_name f \<noteq> ''user_id''" "ef_name f \<noteq> ''org_id''" "ef_name f \<noteq> ''entity_id''" "ef_name f \<noteq> ''entity_name''"
    by (simp_all add: lifted_columns_def)
  moreover then have "ef_name f \<noteq> ''event_id'' \<and> ef_name f \<noteq> ''request_id''" if "ef_name f \<noteq> ''created_at''"
    using ok(1) that by (simp add: base_field_ok_def)
  ultimately show ?thesis
    using v False by (auto simp: r task_payload_def map_of_AList_update event_to_record_def map_of_fact_payload)
qed

lemma field_delivered:
  assumes r: "r = event_to_record ctx e user_name org_name i now"
    and v: "map_of (ev_fields e) (ef_name f) = Some v"
    and ok: "base_field_ok (ev_class e) f v" "value_fits f v" "\<not> is_secret_field_name (ef_name f)"
    and iso: "fromiso (isoformat now) = Some now" "\<And>t. v = FTime t \<Longrightarrow> fromiso (isoformat t) = Some t"
  shows "field_from fromiso (task_payload r) f = Some (ef_name f, delivered_value now (ef_name f) v)"
proof (cases "ef_name f = ''created_at''")
  case True
  then have "ef_time f" "\<not> ef_uuid f" using ok(1) by (auto simp: base_field_ok_def)
  then show ?thesis
    using iso(1) unfolding field_from_def task_payload_field[OF r v ok]
    by (simp add: True reparse_def delivered_value_def)
next
  case False
  then show ?thesis
    using reparse_fits[OF ok(2,3) iso(2)]
    by (auto simp: field_from_def task_payload_field[OF r v ok] delivered_value_def)
qed

text \<open>
  C10.  A reaction reads the event the handler emitted.  An event whose values fit its class, written to
  the journal whatever the request around it, turned into a task and rebuilt by the wrapper, is the
  same event: same class, same fields in the same order, every identifier, instant, text and JSON
  value as emitted, and the instant of the fact where the emitter left it open.
\<close>

theorem event_round_trip:
  assumes "emitted_ok e"
    and "r = event_to_record ctx e user_name org_name i now"
    and "fromiso (isoformat now) = Some now"
    and "\<And>t. FTime t \<in> snd ` set (ev_fields e) \<Longrightarrow> fromiso (isoformat t) = Some t"
  shows "from_payload fromiso (ev_class e) (task_payload r)
    = Some (e\<lparr>ev_fields := map (\<lambda>(name, v). (name, if name = ''created_at'' then FTime now else v)) (ev_fields e)\<rparr>)"
proof -
  let ?fs = "ec_fields (ev_class e)"
  let ?out = "\<lambda>(name, v). (name, delivered_value now name v)"
  have names: "map fst (ev_fields e) = map ef_name ?fs" and dist: "distinct (map fst (ev_fields e))"
    and fits: "list_all2 (\<lambda>f (name, v). value_fits f v \<and> base_field_ok (ev_class e) f v \<and> \<not> is_secret_field_name (ef_name f))
        ?fs (ev_fields e)"
    using assms(1) by (auto simp: emitted_ok_def)
  have len: "length ?fs = length (ev_fields e)" using names by (metis length_map)
  have "map (field_from fromiso (task_payload r)) ?fs = map (\<lambda>p. Some (?out p)) (ev_fields e)"
  proof (rule nth_equalityI)
    fix k assume "k < length (map (field_from fromiso (task_payload r)) ?fs)"
    then have k: "k < length ?fs" "k < length (ev_fields e)" using len by simp_all
    obtain name v where p: "ev_fields e ! k = (name, v)" by force
    have name: "ef_name (?fs ! k) = name" using arg_cong[OF names, of "\<lambda>xs. xs ! k"] k p by simp
    have "(name, v) \<in> set (ev_fields e)" using k(2) p by (metis nth_mem)
    then have v: "map_of (ev_fields e) (ef_name (?fs ! k)) = Some v" and inset: "v \<in> snd ` set (ev_fields e)"
      using dist name by (force simp: map_of_eq_Some_iff)+
    have ok: "base_field_ok (ev_class e) (?fs ! k) v" "value_fits (?fs ! k) v" "\<not> is_secret_field_name (ef_name (?fs ! k))"
      using list_all2_nthD[OF fits k(1)] p by auto
    have "field_from fromiso (task_payload r) (?fs ! k) = Some (name, delivered_value now name v)"
    proof -
      have "fromiso (isoformat t) = Some t" if vt: "v = FTime t" for t
        by (rule assms(4)) (use inset in \<open>simp only: vt\<close>)
      from field_delivered[where f = "?fs ! k", OF assms(2) v ok assms(3) this] show ?thesis by (simp add: name)
    qed
    then show "map (field_from fromiso (task_payload r)) ?fs ! k = map (\<lambda>p. Some (?out p)) (ev_fields e) ! k"
      using k p by simp
  qed (simp add: len)
  moreover have "List.map_filter id (map (\<lambda>p. Some (?out p)) xs) = map ?out xs" for xs
    by (induction xs) (simp_all add: List.map_filter_simps)
  ultimately show ?thesis
    by (simp add: from_payload_def Let_def delivered_value_def image_iff)
qed

definition welcome_class :: event_class where
  "welcome_class = \<lparr>ec_serial = 3, ec_module = ''todo'', ec_qualname = ''TodoCreated'', ec_app_name = ''todo'',
     ec_verb = ''created'', ec_kind = ''todo.created'', ec_icon = ''circle'', ec_mro = [3], ec_annotations = [],
     ec_fields = [\<lparr>ef_name = ''user_id'', ef_default = Some FNone, ef_uuid = True, ef_time = False\<rparr>,
       \<lparr>ef_name = ''created_at'', ef_default = Some FNone, ef_uuid = False, ef_time = True\<rparr>,
       \<lparr>ef_name = ''title'', ef_default = None, ef_uuid = False, ef_time = False\<rparr>], ec_org_scoped = False\<rparr>"

definition welcome_event :: event where
  "welcome_event = \<lparr>ev_class = welcome_class, ev_fields = [(''user_id'', FUuid 7), (''created_at'', FNone), (''title'', FJson (JStr ''x''))]\<rparr>"

lemma event_round_trip_witness:
  "from_payload (\<lambda>s. if s = isoformat 0 then Some 0 else None) welcome_class
     (task_payload (event_to_record \<lparr>cx_request_id = None, cx_request_name = None, cx_ip = None\<rparr> welcome_event None None 5 0))
   = Some \<lparr>ev_class = welcome_class, ev_fields = [(''user_id'', FUuid 7), (''created_at'', FTime 0), (''title'', FJson (JStr ''x''))]\<rparr>"
proof -
  have "\<not> is_secret_field_name ''user_id''" "\<not> is_secret_field_name ''created_at''" "\<not> is_secret_field_name ''title''"
    by code_simp+
  then have ok: "emitted_ok welcome_event"
    by (simp add: emitted_ok_def welcome_event_def welcome_class_def value_fits_def base_field_ok_def)
  show ?thesis
    using event_round_trip[OF ok refl, where fromiso = "\<lambda>s. if s = isoformat 0 then Some 0 else None" and now = 0]
    by (simp add: welcome_event_def)
qed

end
