(* ===== verification/Request_Log.thy ===== *)
theory Request_Log
  imports Loop_Health
begin

text \<open>
  \<open>apps/shared/logs/request.py\<close> and \<open>apps/shared/persistence/sql_stats.py\<close>: the request middleware.  It decides
  which exchange earns a log line, which counts as load, offers the latter to its observers, and keeps
  a tally of the statements the exchange ran, whose five slowest a heavy request reports.

  Durations are kept in the unit the code rounds them to: tenths of a millisecond for an exchange,
  hundredths for a statement.  What the application below does with an exchange is a record: the
  response starts it sent, the exception it raised, the statements it ran, the rejection it noted.
\<close>

section \<open>The tally of statements\<close>

definition max_statement :: nat where "max_statement = 300"
definition kept_statements :: nat where "kept_statements = 5"
definition default_heavy_queries :: nat where "default_heavy_queries = 30"
definition default_heavy_ms :: int where "default_heavy_ms = 500"

record heavy_request =
  hv_queries :: nat
  hv_ms :: int

definition heavy_default :: heavy_request where
  "heavy_default = \<lparr>hv_queries = default_heavy_queries, hv_ms = default_heavy_ms\<rparr>"

definition apply_heavy_request_thresholds :: "nat \<Rightarrow> int \<Rightarrow> heavy_request \<Rightarrow> heavy_request" where
  "apply_heavy_request_thresholds queries ms h = h\<lparr>hv_queries := queries, hv_ms := ms\<rparr>"

record query_stats =
  qs_count :: nat
  qs_total :: int
  qs_slowest :: "(int \<times> string) list"

definition start_request_stats :: query_stats where
  "start_request_stats = \<lparr>qs_count = 0, qs_total = 0, qs_slowest = []\<rparr>"

definition remember :: "string \<Rightarrow> int \<Rightarrow> query_stats \<Rightarrow> query_stats" where
  "remember statement ms s =
     (let l = qs_slowest s @ [(ms, statement)] in
      s\<lparr>qs_count := qs_count s + 1, qs_total := qs_total s + ms,
        qs_slowest := (if length l > kept_statements then remove1 (Min (set l)) l else l)\<rparr>)"

text \<open>The thresholds are whole milliseconds, the total hundredths.\<close>

definition is_heavy :: "heavy_request \<Rightarrow> query_stats \<Rightarrow> bool" where
  "is_heavy h s \<longleftrightarrow> qs_count s \<ge> hv_queries h \<or> qs_total s \<ge> 100 * hv_ms h"

fun words_of :: "string \<Rightarrow> string \<Rightarrow> string list" where
  "words_of acc [] = (if acc = [] then [] else [acc])" |
  "words_of acc (c # s) =
     (if is_space c then (if acc = [] then words_of [] s else acc # words_of [] s)
      else words_of (acc @ [c]) s)"

definition squash :: "string \<Rightarrow> string" where
  "squash statement = take max_statement (join_with '' '' (words_of [] statement))"

section \<open>Lines\<close>

datatype request_level = ReqInfo | ReqWarning | ReqError

datatype request_line =
    HeavyRequestLine nat int "(int \<times> string) list"
  | ObserverFailedLine nat py_exc
  | RequestFinishedLine request_level string string int int "string option" nat int "string option"

definition report_heavy_request :: "heavy_request \<Rightarrow> query_stats option \<Rightarrow> request_line list" where
  "report_heavy_request h stats =
     (case stats of
        None \<Rightarrow> []
      | Some s \<Rightarrow>
          if is_heavy h s
          then [HeavyRequestLine (qs_count s) (qs_total s)
                  (map (\<lambda>(ms, st). (ms, squash st)) (rev (sort (qs_slowest s))))]
          else [])"

section \<open>What an exchange is worth\<close>

text \<open>The request as the middleware reads it; the referer comes with the host the URL parser finds in it.\<close>

record http_request =
  hr_http :: bool
  hr_method :: string
  hr_path :: string
  hr_host :: "string option"
  hr_route :: "string option"
  hr_referer :: "string option"
  hr_referer_host :: "string option"

definition health_probe_paths :: "string list" where
  "health_probe_paths = [''/health/live'', ''/health/ready'']"

definition infra_probe_prefixes :: "string list" where
  "infra_probe_prefixes = [''/.well-known/'']"

definition asset_suffixes :: "string list" where
  "asset_suffixes = [''.ico'', ''.png'', ''.jpg'', ''.jpeg'', ''.gif'', ''.svg'', ''.webp'', ''.css'', ''.js'',
     ''.map'', ''.woff'', ''.woff2'', ''.ttf'']"

definition is_asset :: "string \<Rightarrow> bool" where
  "is_asset path \<longleftrightarrow> path = ''/favicon.ico'' \<or> startswith path ''/static/''
     \<or> list_ex (endswith path) asset_suffixes"

definition is_infra_probe :: "string \<Rightarrow> bool" where
  "is_infra_probe path \<longleftrightarrow> list_ex (startswith path) infra_probe_prefixes"

definition is_health_probe :: "string \<Rightarrow> bool" where
  "is_health_probe path \<longleftrightarrow> path \<in> set health_probe_paths"

definition is_internal_referer :: "http_request \<Rightarrow> bool" where
  "is_internal_referer r \<longleftrightarrow> (case hr_referer r of None \<Rightarrow> False | Some ref \<Rightarrow> ref \<noteq> [])
     \<and> hr_referer_host r = hr_host r"

definition is_internal_dead_link :: "http_request \<Rightarrow> int \<Rightarrow> bool" where
  "is_internal_dead_link r status \<longleftrightarrow> 400 \<le> status \<and> status < 500 \<and> is_internal_referer r
     \<and> \<not> is_asset (hr_path r) \<and> \<not> is_infra_probe (hr_path r)"

definition is_traced :: "http_request \<Rightarrow> int \<Rightarrow> bool" where
  "is_traced r status \<longleftrightarrow>
     (if is_health_probe (hr_path r) then status \<ge> 400
      else status \<ge> 500 \<or> \<not> (is_asset (hr_path r) \<or> is_infra_probe (hr_path r)))"

definition feeds_load_metrics :: "http_request \<Rightarrow> int \<Rightarrow> bool" where
  "feeds_load_metrics r status \<longleftrightarrow>
     \<not> is_health_probe (hr_path r) \<and> (status < 400 \<or> status \<ge> 500 \<or> is_internal_dead_link r status)"

definition refused_deliberately :: "int \<Rightarrow> bool" where
  "refused_deliberately status \<longleftrightarrow> 400 \<le> status \<and> status < 500 \<and> status \<noteq> 404"

section \<open>The middleware\<close>

text \<open>An observer may raise after having changed its state; the state is whatever it left.\<close>

type_synonym 's observer = "string \<Rightarrow> string \<Rightarrow> int \<Rightarrow> int \<Rightarrow> bool \<Rightarrow> 's \<Rightarrow> 's \<times> py_exc option"

record app_run =
  ar_starts :: "int list"
  ar_raised :: "py_exc option"
  ar_duration :: int
  ar_statements :: "(string \<times> int) list"
  ar_rejection :: "string option"

definition run_status :: "app_run \<Rightarrow> int" where
  "run_status run = (if ar_starts run = [] then 500 else last (ar_starts run))"

fun offer :: "nat \<Rightarrow> 's observer list \<Rightarrow> string \<Rightarrow> string \<Rightarrow> int \<Rightarrow> int \<Rightarrow> bool \<Rightarrow> 's \<Rightarrow> 's \<times> request_line list" where
  "offer i [] meth label status dur unmatched s = (s, [])" |
  "offer i (ob # obs) meth label status dur unmatched s =
     (case ob meth label status dur unmatched s of (s1, err) \<Rightarrow>
      (case offer (i + 1) obs meth label status dur unmatched s1 of (s2, ls) \<Rightarrow>
        (s2, (case err of None \<Rightarrow> ls | Some e \<Rightarrow> ObserverFailedLine i e # ls))))"

definition observe_exchange :: "'s observer list \<Rightarrow> http_request \<Rightarrow> int \<Rightarrow> int \<Rightarrow> 's \<Rightarrow> 's \<times> request_line list" where
  "observe_exchange obs r status dur s =
     (if \<not> feeds_load_metrics r status then (s, [])
      else (case hr_route r of
              Some route \<Rightarrow> offer 0 obs (hr_method r) route status dur False s
            | None \<Rightarrow> offer 0 obs (hr_method r) (hr_path r) status dur True s))"

definition log_finished :: "http_request \<Rightarrow> int \<Rightarrow> int \<Rightarrow> query_stats option \<Rightarrow> string option \<Rightarrow> request_line list" where
  "log_finished r status dur stats detail =
     (if \<not> is_traced r status then []
      else (let level = (if refused_deliberately status \<or> is_internal_dead_link r status then ReqWarning
                         else if status \<ge> 500 then ReqError else ReqInfo) in
        [RequestFinishedLine level (hr_method r) (hr_path r) status dur (hr_referer r)
           (case stats of None \<Rightarrow> 0 | Some s \<Rightarrow> qs_count s)
           (case stats of None \<Rightarrow> 0 | Some s \<Rightarrow> qs_total s) detail]))"

definition finish :: "'s observer list \<Rightarrow> heavy_request \<Rightarrow> http_request \<Rightarrow> int \<Rightarrow> int \<Rightarrow> query_stats option
    \<Rightarrow> string option \<Rightarrow> 's \<Rightarrow> 's \<times> request_line list" where
  "finish obs h r status dur stats detail s =
     (case observe_exchange obs r status dur s of (s1, ls) \<Rightarrow>
        (s1, ls @ report_heavy_request h stats @ log_finished r status dur stats detail))"

text \<open>
  One exchange: a probe gets no tally of its own (it counts into the ambient one, if any); the
  exception the application raised is raised again, the line being written in either case.
\<close>

definition request_call :: "'s observer list \<Rightarrow> heavy_request \<Rightarrow> query_stats option \<Rightarrow> http_request \<Rightarrow> app_run
    \<Rightarrow> 's \<Rightarrow> 's \<times> request_line list \<times> py_exc option" where
  "request_call obs h ambient r run s =
     (if \<not> hr_http r then (s, [], ar_raised run)
      else
        (let stats0 = (if is_health_probe (hr_path r) then ambient else Some start_request_stats);
             stats = map_option (fold (\<lambda>(st, ms). remember st ms) (ar_statements run)) stats0 in
         case finish obs h r (run_status run) (ar_duration run) stats (ar_rejection run) s of (s1, ls) \<Rightarrow>
           (s1, ls, ar_raised run)))"

section \<open>The five slowest\<close>

lemma insort_split:
  "sorted (xs @ ys) \<Longrightarrow> xs \<noteq> [] \<Longrightarrow>
   insort x (xs @ ys) = (if x \<le> last xs then insort x xs @ ys else xs @ insort x ys)"
proof (induction xs)
  case (Cons a xs)
  then show ?case by (cases "xs = []") (auto simp: insort_is_Cons sorted_append dest: order_trans)
qed simp

lemma sort_remove_least: "l \<noteq> [] \<Longrightarrow> sort (remove1 (Min (set l)) l) = tl (sort l)"
proof -
  assume "l \<noteq> []"
  then have ne: "sort l \<noteq> []" by (metis length_0_conv length_sort)
  then have "hd (sort l) = Min (set (sort l))"
    using sorted_sort[of l] by (cases "sort l") (auto intro: Min_eqI[symmetric])
  then have "Min (set l) = hd (sort l)" by simp
  then have "remove1 (Min (set l)) (sort l) = tl (sort l)" using ne by (cases "sort l") simp_all
  moreover have "sort (remove1 a l) = remove1 a (sort l)" for a
    by (rule properties_for_sort) (simp_all add: sorted_remove1)
  ultimately show ?thesis by simp
qed

lemma tl_insort_drop:
  assumes "sorted xs" "k < length xs"
  shows "tl (insort x (drop k xs)) = drop (k + 1) (insort x xs)"
proof (cases "k = 0")
  case False
  have split: "insort x (take k xs @ drop k xs)
      = (if x \<le> last (take k xs) then insort x (take k xs) @ drop k xs else take k xs @ insort x (drop k xs))"
    using assms False by (intro insort_split) auto
  show ?thesis
  proof (cases "x \<le> last (take k xs)")
    case True
    have "last (take k xs) \<le> y" if "y \<in> set (drop k xs)" for y
    proof -
      have "sorted (take k xs @ drop k xs)" using assms(1) by simp
      moreover have "last (take k xs) \<in> set (take k xs)" using False assms(2) by (intro last_in_set) auto
      ultimately show ?thesis using that unfolding sorted_append by blast
    qed
    then have "insort x (drop k xs) = x # drop k xs"
      using True by (intro insort_is_Cons) (auto dest: order_trans)
    then show ?thesis using split True assms(2) by simp
  next
    case False
    then show ?thesis using split assms(2) by (simp add: drop_Suc drop_tl tl_append2 Suc_diff_le)
  qed
qed (simp add: drop_Suc)

lemma remember_slowest:
  assumes "sort (qs_slowest s) = drop (length all - 5) (sort all)"
  shows "sort (qs_slowest (remember st ms s)) = drop (length (all @ [(ms, st)]) - 5) (sort (all @ [(ms, st)]))"
proof -
  have app: "sort (l @ [x]) = insort x (sort l)" for l :: "(int \<times> string) list" and x
    by (rule properties_for_sort) (simp_all add: sorted_insort)
  have len: "length (qs_slowest s) = length all - (length all - 5)"
    using arg_cong[OF assms, of length] by simp
  show ?thesis
  proof (cases "length all < 5")
    case True
    then show ?thesis using assms len by (simp add: remember_def Let_def kept_statements_def app)
  next
    case False
    let ?l = "qs_slowest s @ [(ms, st)]"
    have "sort (remove1 (Min (set ?l)) ?l) = tl (insort (ms, st) (sort (qs_slowest s)))"
      unfolding app[symmetric] by (rule sort_remove_least) simp
    also have "\<dots> = drop (length all - 5 + 1) (insort (ms, st) (sort all))"
      unfolding assms using False by (intro tl_insort_drop) auto
    also have "\<dots> = drop (length (all @ [(ms, st)]) - 5) (sort (all @ [(ms, st)]))"
    proof -
      have "length all - 5 + 1 = length (all @ [(ms, st)]) - 5" using False by simp
      then show ?thesis unfolding app by (rule arg_cong)
    qed
    finally show ?thesis using len False by (simp add: remember_def Let_def kept_statements_def)
  qed
qed

lemma tally_of:
  "let s = fold (\<lambda>(st, ms). remember st ms) sts start_request_stats; all = map (\<lambda>(st, ms). (ms, st)) sts in
   qs_count s = length sts \<and> qs_total s = sum_list (map snd sts)
   \<and> sort (qs_slowest s) = drop (length all - 5) (sort all)"
proof (induction sts rule: rev_induct)
  case (snoc x sts)
  obtain st ms where x: "x = (st, ms)" by force
  let ?s = "fold (\<lambda>(st, ms). remember st ms) sts start_request_stats"
  have IH: "qs_count ?s = length sts" "qs_total ?s = sum_list (map snd sts)"
    "sort (qs_slowest ?s) = drop (length (map (\<lambda>(st, ms). (ms, st)) sts) - 5) (sort (map (\<lambda>(st, ms). (ms, st)) sts))"
    using snoc by (simp_all add: Let_def)
  have "qs_count (remember st ms ?s) = Suc (length sts)" "qs_total (remember st ms ?s) = sum_list (map snd sts) + ms"
    by (simp_all add: remember_def Let_def IH)
  then show ?case using remember_slowest[OF IH(3), of st ms] by (simp add: x Let_def)
qed (simp add: start_request_stats_def)

lemma rev_drop: "rev (drop (length xs - n) xs) = take n (rev xs)"
  by (simp add: take_rev)

text \<open>
  A request writes the line on its database work exactly when its statements reach one of the
  two thresholds, and the line names the five slowest of all the statements it ran (all of them when
  it ran fewer), slowest first, although the tally never keeps more than five.
\<close>

theorem heavy_request_names_slowest:
  "report_heavy_request h (Some (fold (\<lambda>(st, ms). remember st ms) sts start_request_stats))
   = (let total = sum_list (map snd sts) in
      if length sts \<ge> hv_queries h \<or> total \<ge> 100 * hv_ms h
      then [HeavyRequestLine (length sts) total
              (map (\<lambda>(ms, st). (ms, squash st)) (take 5 (rev (sort (map (\<lambda>(st, ms). (ms, st)) sts)))))]
      else [])"
proof -
  have "rev (sort (qs_slowest (fold (\<lambda>(st, ms). remember st ms) sts start_request_stats)))
      = take 5 (rev (sort (map (\<lambda>(st, ms). (ms, st)) sts)))"
    using tally_of[of sts] by (simp add: Let_def take_rev)
  then show ?thesis
    using tally_of[of sts] by (simp add: report_heavy_request_def is_heavy_def Let_def)
qed

section \<open>The exchange\<close>

text \<open>No observer keeps the others, the line or the exception from their turn.\<close>

lemma offer_append:
  "offer i (obs1 @ obs2) meth label status dur un s =
     (case offer i obs1 meth label status dur un s of (s1, l1) \<Rightarrow>
      (case offer (i + length obs1) obs2 meth label status dur un s1 of (s2, l2) \<Rightarrow> (s2, l1 @ l2)))"
  by (induction i obs1 meth label status dur un s rule: offer.induct)
    (auto split: prod.splits option.splits)

lemma request_call_raises: "snd (snd (request_call obs h amb r run s)) = ar_raised run"
  by (simp add: request_call_def Let_def split: prod.splits)

lemma request_call_state:
  "hr_http r \<Longrightarrow> fst (request_call obs h amb r run s)
     = fst (observe_exchange obs r (run_status run) (ar_duration run) s)"
  by (simp add: request_call_def finish_def Let_def split: prod.splits)

lemma request_call_line:
  assumes "hr_http r"
  shows "(\<exists>lv dur ref n ms d. RequestFinishedLine lv (hr_method r) (hr_path r) (run_status run) dur ref n ms d
            \<in> set (fst (snd (request_call obs h amb r run s)))) \<longleftrightarrow> is_traced r (run_status run)"
proof -
  have "RequestFinishedLine lv m p st du rf n ms d \<notin> set (snd (offer i obs meth label status dur un s))"
    for lv m p st du rf n ms d i meth label status dur un s
    by (induction i obs meth label status dur un s rule: offer.induct) (auto split: prod.splits option.splits)
  then have "RequestFinishedLine lv m p st du rf n ms d \<notin> set (snd (observe_exchange obs r status dur s))"
    for lv m p st du rf n ms d status dur
    by (simp add: observe_exchange_def split: option.splits)
  moreover have "RequestFinishedLine lv m p st du rf n ms d \<notin> set (report_heavy_request h stats)"
    for lv m p st du rf n ms d stats
    by (auto simp: report_heavy_request_def split: option.splits)
  ultimately show ?thesis using assms
    by (simp add: request_call_def finish_def log_finished_def Let_def split_def del: fold_simps)
qed

lemma probes_never_load: "is_health_probe (hr_path r) \<Longrightarrow> observe_exchange obs r status dur s = (s, [])"
  by (simp add: observe_exchange_def feeds_load_metrics_def)

end
