(* ===== verification/Metrics.thy ===== *)
theory Metrics
  imports Request_Log
begin

text \<open>
  \<open>apps/metrics\<close>, the writing half: the process's counters (\<open>domain/accumulator.py\<close>), the flusher that
  stores their deltas (\<open>infra/flusher.py\<close>), the rows and the daily rollup (\<open>infra/repository.py\<close>,
  \<open>contract/integration.py\<close>), and a server of several processes over one table.

  Durations are whole tenths of a millisecond, as the request middleware rounds them; their sums are
  kept exactly, where the code adds floating point numbers.  A database transaction either commits or
  rolls back; which one is an argument of the step.
\<close>

section \<open>The accumulator\<close>

definition bucket_bounds :: "int list" where
  "bucket_bounds = [50, 100, 250, 500, 1000, 2500, 5000, 10000, 25000, 50000, 100000]"

definition unmatched_route :: string where "unmatched_route = ''unmatched''"
definition unmatched_label_cap :: nat where "unmatched_label_cap = 25"
definition known_methods :: "string list" where
  "known_methods = [''GET'', ''HEAD'', ''POST'', ''PUT'', ''PATCH'', ''DELETE'', ''OPTIONS'']"
definition other_method :: string where "other_method = ''OTHER''"

definition empty_buckets :: "int list" where
  "empty_buckets = replicate (length bucket_bounds + 1) 0"

record route_stats =
  rs_by_status :: "(string, int) dict"
  rs_buckets :: "int list"
  rs_duration_sum :: int

definition new_stats :: route_stats where
  "new_stats = \<lparr>rs_by_status = [], rs_buckets = empty_buckets, rs_duration_sum = 0\<rparr>"

definition stats_requests :: "route_stats \<Rightarrow> int" where
  "stats_requests s = sum_list (map snd (rs_by_status s))"

definition stats_errors :: "route_stats \<Rightarrow> int" where
  "stats_errors s = dict_get (rs_by_status s) ''5xx'' 0"

type_synonym route_key = "string \<times> string"
type_synonym metrics_snapshot = "(route_key, route_stats) dict"

record accumulator =
  ac_stats :: metrics_snapshot
  ac_unmatched :: "string list"

definition new_accumulator :: accumulator where
  "new_accumulator = \<lparr>ac_stats = [], ac_unmatched = []\<rparr>"

definition bucket_index :: "int \<Rightarrow> nat" where
  "bucket_index d = length (takeWhile (\<lambda>bound. \<not> d \<le> bound) bucket_bounds)"

definition bounded_unmatched_label :: "string \<Rightarrow> accumulator \<Rightarrow> accumulator \<times> string" where
  "bounded_unmatched_label path acc =
     (if path \<in> set (ac_unmatched acc) then (acc, path)
      else if length (ac_unmatched acc) \<ge> unmatched_label_cap then (acc, unmatched_route)
      else (acc\<lparr>ac_unmatched := path # ac_unmatched acc\<rparr>, path))"

definition status_class :: "int \<Rightarrow> string" where
  "status_class status = str_int (status div 100) @ ''xx''"

definition count_into :: "int \<Rightarrow> int \<Rightarrow> route_stats \<Rightarrow> route_stats" where
  "count_into status d s =
     \<lparr>rs_by_status = AList.update (status_class status)
        (dict_get (rs_by_status s) (status_class status) 0 + 1) (rs_by_status s),
      rs_buckets = (rs_buckets s)[bucket_index d := rs_buckets s ! bucket_index d + 1],
      rs_duration_sum = rs_duration_sum s + d\<rparr>"

definition counted_method :: "string \<Rightarrow> string" where
  "counted_method meth = (if meth \<in> set known_methods then meth else other_method)"

definition observe :: "string \<Rightarrow> string \<Rightarrow> int \<Rightarrow> int \<Rightarrow> bool \<Rightarrow> accumulator \<Rightarrow> accumulator" where
  "observe meth route status d unmatched acc =
     (case (if unmatched then bounded_unmatched_label route acc else (acc, route)) of (acc1, route1) \<Rightarrow>
        (let key = (counted_method meth, route1); s = dict_get (ac_stats acc1) key new_stats in
         acc1\<lparr>ac_stats := AList.update key (count_into status d s) (ac_stats acc1)\<rparr>))"

definition snapshot :: "accumulator \<Rightarrow> metrics_snapshot" where
  "snapshot acc = ac_stats acc"

definition reset_accumulator :: "accumulator \<Rightarrow> accumulator" where
  "reset_accumulator acc = acc\<lparr>ac_stats := [], ac_unmatched := []\<rparr>"

text \<open>What the flusher has not stored yet, route by route; a route without a new request is left out.\<close>

definition status_deltas :: "route_stats \<Rightarrow> route_stats \<Rightarrow> (string, int) dict" where
  "status_deltas prev s =
     map (\<lambda>(st, n). (st, n - dict_get (rs_by_status prev) st 0))
       (filter (\<lambda>(st, n). n - dict_get (rs_by_status prev) st 0 \<noteq> 0) (rs_by_status s))"

definition stats_delta :: "route_stats \<Rightarrow> route_stats \<Rightarrow> route_stats" where
  "stats_delta prev s =
     \<lparr>rs_by_status = status_deltas prev s, rs_buckets = map2 (-) (rs_buckets s) (rs_buckets prev),
      rs_duration_sum = rs_duration_sum s - rs_duration_sum prev\<rparr>"

definition snapshot_deltas :: "metrics_snapshot \<Rightarrow> metrics_snapshot \<Rightarrow> metrics_snapshot" where
  "snapshot_deltas previous current =
     map (\<lambda>(key, s). (key, stats_delta (dict_get previous key new_stats) s))
       (filter (\<lambda>(key, s). status_deltas (dict_get previous key new_stats) s \<noteq> []) current)"

text \<open>The exposition, one line as one value.\<close>

datatype prom_line =
    PromType string string
  | PromTotal string string string int
  | PromBucket string string "int option" int
  | PromCount string string int
  | PromSum string string int

fun cumulate :: "int \<Rightarrow> int list \<Rightarrow> int list" where
  "cumulate c [] = []" |
  "cumulate c (n # ns) = (c + n) # cumulate (c + n) ns"

definition render_prometheus :: "accumulator \<Rightarrow> prom_line list" where
  "render_prometheus acc =
     (let items = sort_key fst (ac_stats acc) in
      PromType ''http_requests_total'' ''counter''
      # concat (map (\<lambda>((m, r), s). map (\<lambda>st. PromTotal m r st (dict_get (rs_by_status s) st 0))
          (sort (map fst (rs_by_status s)))) items)
      @ PromType ''http_request_duration_seconds'' ''histogram''
      # concat (map (\<lambda>((m, r), s).
          map (\<lambda>(bound, c). PromBucket m r bound c)
            (zip (map Some bucket_bounds @ [None]) (cumulate 0 (rs_buckets s)))
          @ [PromCount m r (stats_requests s), PromSum m r (rs_duration_sum s)]) items))"

section \<open>The rows\<close>

datatype metric_resolution = MinuteRow | HourRow

record request_metric =
  mt_bucket_start :: instant
  mt_resolution :: metric_resolution
  mt_instance :: string
  mt_method :: string
  mt_route :: string
  mt_requests :: int
  mt_errors :: int
  mt_duration_sum :: int
  mt_buckets :: "int list"

definition metric_key :: "request_metric \<Rightarrow> instant \<times> metric_resolution \<times> string \<times> string \<times> string" where
  "metric_key r = (mt_bucket_start r, mt_resolution r, mt_instance r, mt_method r, mt_route r)"

text \<open>Read the row of the key, then insert or add.\<close>

fun merge_row :: "request_metric \<Rightarrow> request_metric list \<Rightarrow> request_metric list" where
  "merge_row new [] = [new]" |
  "merge_row new (r # rows) =
     (if metric_key r = metric_key new
      then r\<lparr>mt_requests := mt_requests r + mt_requests new, mt_errors := mt_errors r + mt_errors new,
             mt_duration_sum := mt_duration_sum r + mt_duration_sum new,
             mt_buckets := map2 (+) (mt_buckets r) (mt_buckets new)\<rparr> # rows
      else r # merge_row new rows)"

definition delta_row :: "string \<Rightarrow> instant \<Rightarrow> route_key \<times> route_stats \<Rightarrow> request_metric" where
  "delta_row instance' minute d = (case d of ((meth, route), s) \<Rightarrow>
     \<lparr>mt_bucket_start = minute, mt_resolution = MinuteRow, mt_instance = instance', mt_method = meth,
      mt_route = route, mt_requests = stats_requests s, mt_errors = stats_errors s,
      mt_duration_sum = rs_duration_sum s, mt_buckets = rs_buckets s\<rparr>)"

definition add_deltas :: "string \<Rightarrow> instant \<Rightarrow> metrics_snapshot \<Rightarrow> request_metric list \<Rightarrow> request_metric list" where
  "add_deltas instance' minute deltas rows = fold (\<lambda>d. merge_row (delta_row instance' minute d)) deltas rows"

definition window_rows :: "instant \<Rightarrow> instant option \<Rightarrow> request_metric list \<Rightarrow> request_metric list" where
  "window_rows since until rows =
     filter (\<lambda>r. mt_bucket_start r \<ge> since \<and> (case until of None \<Rightarrow> True | Some u \<Rightarrow> mt_bucket_start r \<le> u)) rows"

definition total_requests :: "instant \<Rightarrow> request_metric list \<Rightarrow> int" where
  "total_requests since rows = sum_list (map mt_requests (filter (\<lambda>r. mt_bucket_start r \<ge> since) rows))"

definition floor_minute :: "instant \<Rightarrow> instant" where
  "floor_minute t = t - t mod seconds 60"

definition floor_hour :: "instant \<Rightarrow> instant" where
  "floor_hour t = t - t mod seconds 3600"

type_synonym hour_key = "instant \<times> string \<times> string"

definition hour_key :: "request_metric \<Rightarrow> hour_key" where
  "hour_key r = (floor_hour (mt_bucket_start r), mt_method r, mt_route r)"

definition is_stale :: "instant \<Rightarrow> request_metric \<Rightarrow> bool" where
  "is_stale cutoff r \<longleftrightarrow> mt_resolution r = MinuteRow \<and> mt_bucket_start r < cutoff"

definition rollup_groups :: "request_metric list \<Rightarrow> (hour_key \<times> request_metric list) list" where
  "rollup_groups stale =
     map (\<lambda>k. (k, filter (\<lambda>r. hour_key r = k) stale)) (first_occurrences [] (map hour_key stale))"

definition hour_row :: "hour_key \<times> request_metric list \<Rightarrow> request_metric" where
  "hour_row g = (case g of ((hour, meth, route), rows) \<Rightarrow>
     \<lparr>mt_bucket_start = hour, mt_resolution = HourRow, mt_instance = ''*'', mt_method = meth, mt_route = route,
      mt_requests = sum_list (map mt_requests rows), mt_errors = sum_list (map mt_errors rows),
      mt_duration_sum = sum_list (map mt_duration_sum rows),
      mt_buckets = fold (\<lambda>r acc. map2 (+) acc (mt_buckets r)) rows
        (replicate (length (mt_buckets (hd rows))) 0)\<rparr>)"

definition rollup :: "instant \<Rightarrow> int \<Rightarrow> request_metric list \<Rightarrow> request_metric list \<times> nat \<times> nat" where
  "rollup now minute_retention_days rows =
     (let cutoff = now - days minute_retention_days; stale = filter (is_stale cutoff) rows;
          merged = rollup_groups stale in
      (delete_where (is_stale cutoff) (fold (\<lambda>g. merge_row (hour_row g)) merged rows),
       length stale, length merged))"

definition is_expired :: "instant \<Rightarrow> request_metric \<Rightarrow> bool" where
  "is_expired cutoff r \<longleftrightarrow> mt_resolution r = HourRow \<and> mt_bucket_start r < cutoff"

definition purge :: "instant \<Rightarrow> int \<Rightarrow> request_metric list \<Rightarrow> request_metric list \<times> nat" where
  "purge now retention_days rows =
     (let cutoff = now - days retention_days in
      (delete_where (is_expired cutoff) rows, count_where (is_expired cutoff) rows))"

definition minute_retention_days :: int where "minute_retention_days = 7"

text \<open>The daily task: \<open>contract/integration.py\<close>, \<open>_rollup\<close>.\<close>

definition rollup_task :: "instant \<Rightarrow> int \<Rightarrow> request_metric list \<Rightarrow> request_metric list" where
  "rollup_task now retention_days rows = fst (purge now retention_days (fst (rollup now minute_retention_days rows)))"

section \<open>The flusher\<close>

record flusher =
  fl_instance :: string
  fl_previous :: metrics_snapshot
  fl_health :: loop_health

definition new_flusher :: "string \<Rightarrow> flusher" where
  "new_flusher instance' =
     \<lparr>fl_instance = instance', fl_previous = [], fl_health = loop_health_init ''metrics.flush''\<rparr>"

text \<open>
  How the transaction of a flush ends: committed; rolled back with an exception; or committed by the
  server while the process saw an exception instead of the answer.
\<close>

datatype flush_write = WriteCommitted | WriteRefused py_exc | WriteUnheard py_exc

definition flush_tick :: "instant \<Rightarrow> flush_write \<Rightarrow> accumulator \<Rightarrow> flusher \<Rightarrow> request_metric list
    \<Rightarrow> request_metric list \<times> (py_exc + flusher)" where
  "flush_tick now db acc fl rows =
     (let current = snapshot acc; deltas = snapshot_deltas (fl_previous fl) current;
          fl' = fl\<lparr>fl_previous := current\<rparr> in
      if deltas = [] then (rows, Inr fl')
      else (let rows' = add_deltas (fl_instance fl) (floor_minute now) deltas rows in
            case db of
              WriteCommitted \<Rightarrow> (rows', Inr fl')
            | WriteRefused exc \<Rightarrow> (rows, Inl exc)
            | WriteUnheard exc \<Rightarrow> (rows', Inl exc)))"

definition flush_guarded_tick :: "instant \<Rightarrow> flush_write \<Rightarrow> accumulator \<Rightarrow> flusher \<Rightarrow> request_metric list
    \<Rightarrow> request_metric list \<times> flusher \<times> loop_line list" where
  "flush_guarded_tick now db acc fl rows =
     (case flush_tick now db acc fl rows of
        (rows', Inl exc) \<Rightarrow> (case tick_failed exc (fl_health fl) of (h, ls) \<Rightarrow> (rows', fl\<lparr>fl_health := h\<rparr>, ls))
      | (rows', Inr fl') \<Rightarrow> (case tick_succeeded (fl_health fl') of (h, ls) \<Rightarrow> (rows', fl'\<lparr>fl_health := h\<rparr>, ls)))"

text \<open>
  Stopping flushes once more; a failure is a warning and the interval is lost.  Before that it cancels
  the tick in flight, whose transaction may have landed (\<open>CutTick\<close> below): nothing else of it remains.
\<close>

definition flush_stop :: "instant \<Rightarrow> flush_write \<Rightarrow> accumulator \<Rightarrow> flusher \<Rightarrow> request_metric list
    \<Rightarrow> request_metric list \<times> loop_line list" where
  "flush_stop now db acc fl rows =
     (case flush_tick now db acc fl rows of
        (rows', Inl exc) \<Rightarrow> (rows', [LoopWarning ''metrics.flush_failed'' exc 0])
      | (rows', Inr fl') \<Rightarrow> (rows', []))"

section \<open>A server\<close>

record load_process =
  lp_acc :: accumulator
  lp_flusher :: flusher

record load_world =
  lw_procs :: "load_process option list"
  lw_rows :: "request_metric list"

datatype load_op =
    BootProcess string
  | ServeRequest nat http_request app_run
  | FlushTick nat instant flush_write
  | CutTick nat instant bool
  | StopProcess nat instant flush_write
  | DailyRollup instant int

text \<open>The accumulator is the one observer of the request middleware.\<close>

definition metrics_observer :: "accumulator observer" where
  "metrics_observer meth label status d unmatched acc = (observe meth label status d unmatched acc, None)"

definition live_process :: "load_world \<Rightarrow> nat \<Rightarrow> load_process option" where
  "live_process w i = (if i < length (lw_procs w) then lw_procs w ! i else None)"

definition put_process :: "nat \<Rightarrow> load_process option \<Rightarrow> load_world \<Rightarrow> load_world" where
  "put_process i p w = w\<lparr>lw_procs := (lw_procs w)[i := p]\<rparr>"

fun load_step :: "load_op \<Rightarrow> load_world \<Rightarrow> load_world" where
  "load_step (BootProcess instance') w =
     w\<lparr>lw_procs := lw_procs w @ [Some \<lparr>lp_acc = new_accumulator, lp_flusher = new_flusher instance'\<rparr>]\<rparr>" |
  "load_step (ServeRequest i r run) w =
     (case live_process w i of
        None \<Rightarrow> w
      | Some p \<Rightarrow> put_process i (Some (p\<lparr>lp_acc :=
          fst (request_call [metrics_observer] heavy_default None r run (lp_acc p))\<rparr>)) w)" |
  "load_step (FlushTick i now db) w =
     (case live_process w i of
        None \<Rightarrow> w
      | Some p \<Rightarrow> (case flush_guarded_tick now db (lp_acc p) (lp_flusher p) (lw_rows w) of
          (rows, fl, _) \<Rightarrow> put_process i (Some (p\<lparr>lp_flusher := fl\<rparr>)) (w\<lparr>lw_rows := rows\<rparr>)))" |
  "load_step (CutTick i now landed) w =
     (case live_process w i of
        None \<Rightarrow> w
      | Some p \<Rightarrow> if landed then w\<lparr>lw_rows := fst (flush_tick now WriteCommitted (lp_acc p) (lp_flusher p) (lw_rows w))\<rparr> else w)" |
  "load_step (StopProcess i now db) w =
     (case live_process w i of
        None \<Rightarrow> w
      | Some p \<Rightarrow> put_process i None
          (w\<lparr>lw_rows := fst (flush_stop now db (lp_acc p) (lp_flusher p) (lw_rows w))\<rparr>))" |
  "load_step (DailyRollup now retention) w = w\<lparr>lw_rows := rollup_task now retention (lw_rows w)\<rparr>"

definition load_run :: "load_op list \<Rightarrow> load_world \<Rightarrow> load_world" where
  "load_run ops w = fold load_step ops w"

definition load_init :: load_world where
  "load_init = \<lparr>lw_procs = [], lw_rows = []\<rparr>"

end
