(* ===== verification/Metrics_Conservation.thy ===== *)
theory Metrics_Conservation
  imports Metrics
begin

text \<open>
  What the rows and the processes' pending deltas hold, for any method and any of the counters, against
  what the middleware offered, through flushes that fail, processes that come and go, and rollups: no more
  unless a flush landed unheard, no less unless the last flush of a process failed or the retention passed.
  Each operation has one lemma on the measure it moves.
\<close>

section \<open>Gauges\<close>

text \<open>One of the counters: requests, answers of class 5xx, or a slot of the histogram.\<close>

datatype gauge = Requests | Errors | Slot nat

definition slot :: "nat \<Rightarrow> int list \<Rightarrow> int" where
  "slot i bs = (if i < length bs then bs ! i else 0)"

fun stats_gauge :: "gauge \<Rightarrow> route_stats \<Rightarrow> int" where
  "stats_gauge Requests s = stats_requests s" |
  "stats_gauge Errors s = stats_errors s" |
  "stats_gauge (Slot i) s = slot i (rs_buckets s)"

fun row_gauge :: "gauge \<Rightarrow> request_metric \<Rightarrow> int" where
  "row_gauge Requests r = mt_requests r" |
  "row_gauge Errors r = mt_errors r" |
  "row_gauge (Slot i) r = slot i (mt_buckets r)"

fun exchange_gauge :: "gauge \<Rightarrow> int \<Rightarrow> int \<Rightarrow> int" where
  "exchange_gauge Requests status d = 1" |
  "exchange_gauge Errors status d = (if status div 100 = 5 then 1 else 0)" |
  "exchange_gauge (Slot i) status d = (if bucket_index d = i then 1 else 0)"

definition snapshot_gauge :: "gauge \<Rightarrow> string \<Rightarrow> metrics_snapshot \<Rightarrow> int" where
  "snapshot_gauge g m snap = sum_list (map (\<lambda>(k, s). if fst k = m then stats_gauge g s else 0) snap)"

definition table_gauge :: "gauge \<Rightarrow> string \<Rightarrow> request_metric list \<Rightarrow> int" where
  "table_gauge g m rows = sum_list (map (\<lambda>r. if mt_method r = m then row_gauge g r else 0) rows)"

definition pending_gauge :: "gauge \<Rightarrow> string \<Rightarrow> load_process \<Rightarrow> int" where
  "pending_gauge g m p = snapshot_gauge g m (ac_stats (lp_acc p)) - snapshot_gauge g m (fl_previous (lp_flusher p))"

definition world_pending :: "gauge \<Rightarrow> string \<Rightarrow> load_world \<Rightarrow> int" where
  "world_pending g m w = sum_list (map (\<lambda>p. case p of None \<Rightarrow> 0 | Some p \<Rightarrow> pending_gauge g m p) (lw_procs w))"

section \<open>The counters of a route\<close>

definition stats_ok :: "route_stats \<Rightarrow> bool" where
  "stats_ok s \<longleftrightarrow> distinct (map fst (rs_by_status s)) \<and> (\<forall>n \<in> snd ` set (rs_by_status s). n \<ge> 0)
     \<and> length (rs_buckets s) = length bucket_bounds + 1 \<and> (\<forall>n \<in> set (rs_buckets s). n \<ge> 0)
     \<and> sum_list (rs_buckets s) = stats_requests s"

definition stats_le :: "route_stats \<Rightarrow> route_stats \<Rightarrow> bool" where
  "stats_le a b \<longleftrightarrow> fst ` set (rs_by_status a) \<subseteq> fst ` set (rs_by_status b)
     \<and> (\<forall>st. dict_get (rs_by_status a) st 0 \<le> dict_get (rs_by_status b) st 0)
     \<and> list_all2 (\<le>) (rs_buckets a) (rs_buckets b)"

lemma length_empty_buckets [simp]: "length empty_buckets = length bucket_bounds + 1"
  by (simp add: empty_buckets_def)

lemma nth_empty_buckets [simp]: "i < length empty_buckets \<Longrightarrow> empty_buckets ! i = 0"
  unfolding empty_buckets_def by (rule nth_replicate) simp

lemma new_stats_sel [simp]:
  "rs_by_status new_stats = []" "rs_buckets new_stats = empty_buckets" "rs_duration_sum new_stats = 0"
  by (simp_all add: new_stats_def)

lemma new_stats_ok [simp, intro]: "stats_ok new_stats"
  by (auto simp: stats_ok_def stats_requests_def empty_buckets_def sum_list_replicate)

lemma stats_le_refl [simp, intro]: "stats_le s s"
  by (simp add: stats_le_def list_all2_refl)

lemma list_all2_le_trans: "list_all2 (\<le>) xs ys \<Longrightarrow> list_all2 (\<le>) ys zs \<Longrightarrow> list_all2 (\<le>) xs (zs :: int list)"
  by (erule (1) list_all2_trans[rotated]) (rule order_trans)

lemma stats_le_trans: "stats_le a b \<Longrightarrow> stats_le b c \<Longrightarrow> stats_le a c"
  unfolding stats_le_def
  by (elim conjE, intro conjI allI, erule (1) subset_trans, (drule spec)+, erule (1) order_trans, erule (1) list_all2_le_trans)

lemma dict_get_Nil [simp]: "dict_get [] k x = x"
  by (simp add: dict_get_def)

lemma dict_get_nonneg: "\<forall>n \<in> snd ` set d. n \<ge> (0 :: int) \<Longrightarrow> dict_get d k 0 \<ge> 0"
  by (force simp: dict_get_def split: option.splits dest!: map_of_SomeD)

lemma new_stats_le: "stats_ok s \<Longrightarrow> stats_le new_stats s"
  by (simp add: stats_le_def stats_ok_def dict_get_nonneg list_all2_conv_all_nth)

lemma slot_nonneg: "\<forall>n \<in> set bs. n \<ge> 0 \<Longrightarrow> slot i bs \<ge> 0"
  by (simp add: slot_def)

lemma stats_gauge_nonneg: "stats_ok s \<Longrightarrow> stats_gauge g s \<ge> 0"
  by (cases g) (simp_all add: stats_ok_def stats_requests_def stats_errors_def dict_get_nonneg slot_nonneg,
      auto intro!: sum_list_nonneg)

lemma stats_gauge_new [simp]: "stats_gauge g new_stats = 0"
  by (cases g) (simp_all add: stats_requests_def stats_errors_def slot_def)

lemma bucket_index_bound: "bucket_index d < length bucket_bounds + 1"
  unfolding bucket_index_def using length_takeWhile_le[of _ bucket_bounds] by (simp add: less_Suc_eq_le)

lemma sum_list_snd_update:
  "distinct (map fst d) \<Longrightarrow> sum_list (map snd (AList.update k v d)) = sum_list (map snd d) + v - dict_get d k (0 :: int)"
proof (induction d)
  case (Cons e d)
  have "dict_get d k 0 = (0 :: int)" if "k = fst e"
    using Cons.prems that by (simp add: dict_get_def map_of_eq_None_iff[THEN iffD2])
  then show ?case using Cons by (cases e) (auto simp: dict_get_def)
qed simp

lemma snd_update_subset: "snd ` set (AList.update k v d) \<subseteq> insert v (snd ` set d)"
  by (induction d) auto

lemma status_class_5xx: "status_class status = ''5xx'' \<longleftrightarrow> status div 100 = 5"
proof -
  have "''5xx'' = str_int 5 @ ''xx''" by code_simp
  then show ?thesis by (metis append_same_eq status_class_def str_int_inj)
qed

lemma slot_bump: "i < length bs \<Longrightarrow> slot j (bs[i := bs ! i + 1]) = slot j bs + (if i = j then 1 else 0)"
  by (auto simp: slot_def)

lemma sum_list_bump: "i < length bs \<Longrightarrow> sum_list (bs[i := bs ! i + (1 :: int)]) = sum_list bs + 1"
  by (induction bs arbitrary: i) (auto split: nat.splits)

lemma count_into_gauge:
  assumes "stats_ok s"
  shows "stats_gauge g (count_into status d s) = stats_gauge g s + exchange_gauge g status d"
proof (cases g)
  case Requests
  then show ?thesis using assms
    by (simp add: count_into_def stats_requests_def sum_list_snd_update stats_ok_def)
next
  case Errors
  then show ?thesis using status_class_5xx[of status]
    by (auto simp: count_into_def stats_errors_def dict_get_update)
next
  case (Slot i)
  then show ?thesis using assms bucket_index_bound[of d]
    by (simp add: count_into_def slot_bump stats_ok_def)
qed

lemma count_into_ok: "stats_ok s \<Longrightarrow> stats_ok (count_into status d s)"
proof -
  assume ok: "stats_ok s"
  let ?c = "count_into status d s"
  have "dict_get (rs_by_status s) (status_class status) 0 \<ge> 0"
    using ok by (simp add: stats_ok_def dict_get_nonneg)
  then have "\<forall>n \<in> snd ` set (rs_by_status ?c). n \<ge> 0"
    using ok snd_update_subset[of "status_class status" "dict_get (rs_by_status s) (status_class status) 0 + 1" "rs_by_status s"]
    by (force simp: count_into_def stats_ok_def)
  moreover have i: "bucket_index d < length (rs_buckets s)" using ok bucket_index_bound by (simp add: stats_ok_def)
  then have "\<forall>n \<in> set (rs_buckets ?c). n \<ge> 0"
    using ok set_update_subset_insert[of "rs_buckets s" "bucket_index d" "rs_buckets s ! bucket_index d + 1"]
    by (force simp: count_into_def stats_ok_def)
  moreover have "sum_list (rs_buckets ?c) = stats_requests ?c"
    using count_into_gauge[OF ok, of Requests status d] sum_list_bump[OF i] ok
    by (simp add: stats_ok_def) (simp add: count_into_def)
  ultimately show ?thesis using ok
    by (simp add: stats_ok_def) (simp add: count_into_def distinct_keys_update)
qed

lemma count_into_le: "stats_ok s \<Longrightarrow> stats_le s (count_into status d s)"
  unfolding stats_le_def
proof (intro conjI)
  show "fst ` set (rs_by_status s) \<subseteq> fst ` set (rs_by_status (count_into status d s))"
    by (auto simp: count_into_def dom_update)
  show "\<forall>st. dict_get (rs_by_status s) st 0 \<le> dict_get (rs_by_status (count_into status d s)) st 0"
    by (simp add: count_into_def dict_get_update)
  show "list_all2 (\<le>) (rs_buckets s) (rs_buckets (count_into status d s))"
    unfolding count_into_def list_all2_conv_all_nth
    by (simp, intro allI impI, case_tac "i = bucket_index d") simp_all
qed

section \<open>Snapshots\<close>

definition snapshot_ok :: "metrics_snapshot \<Rightarrow> bool" where
  "snapshot_ok snap \<longleftrightarrow> distinct (map fst snap) \<and> (\<forall>s \<in> snd ` set snap. stats_ok s)"

definition snapshot_le :: "metrics_snapshot \<Rightarrow> metrics_snapshot \<Rightarrow> bool" where
  "snapshot_le prev cur \<longleftrightarrow> fst ` set prev \<subseteq> fst ` set cur
     \<and> (\<forall>k. stats_le (dict_get prev k new_stats) (dict_get cur k new_stats))"

lemma snapshot_ok_get: "snapshot_ok snap \<Longrightarrow> stats_ok (dict_get snap k new_stats)"
  by (force simp: snapshot_ok_def dict_get_def split: option.splits dest!: map_of_SomeD)

lemma snapshot_le_refl [simp]: "snapshot_le snap snap"
  by (simp add: snapshot_le_def)

lemma snapshot_le_trans: "snapshot_le a b \<Longrightarrow> snapshot_le b c \<Longrightarrow> snapshot_le a c"
  unfolding snapshot_le_def by (meson stats_le_trans subset_trans)

lemma snapshot_update:
  assumes "snapshot_ok snap" "stats_ok s" "stats_le (dict_get snap k new_stats) s"
  shows "snapshot_ok (AList.update k s snap)" "snapshot_le snap (AList.update k s snap)"
    "snapshot_gauge g m (AList.update k s snap) = snapshot_gauge g m snap
       + (if fst k = m then stats_gauge g s - stats_gauge g (dict_get snap k new_stats) else 0)"
proof -
  show "snapshot_ok (AList.update k s snap)"
    using assms snd_update_subset[of k s snap] by (force simp: snapshot_ok_def distinct_keys_update)
  show "snapshot_le snap (AList.update k s snap)"
    using assms by (auto simp: snapshot_le_def dom_update dict_get_update)
  show "snapshot_gauge g m (AList.update k s snap) = snapshot_gauge g m snap
       + (if fst k = m then stats_gauge g s - stats_gauge g (dict_get snap k new_stats) else 0)"
    using assms(1) sum_list_update_dict[of snap "\<lambda>k s. if fst k = m then stats_gauge g s else 0" k s]
    by (cases "map_of snap k") (simp_all add: snapshot_gauge_def snapshot_ok_def dict_get_def)
qed

lemma snapshot_gauge_nonneg: "snapshot_ok snap \<Longrightarrow> snapshot_gauge g m snap \<ge> 0"
  unfolding snapshot_gauge_def by (intro sum_list_nonneg) (force simp: snapshot_ok_def stats_gauge_nonneg)

lemma observe_snapshot:
  assumes "snapshot_ok (ac_stats acc)"
  shows "snapshot_ok (ac_stats (observe meth route status d un acc))"
    "snapshot_le (ac_stats acc) (ac_stats (observe meth route status d un acc))"
    "snapshot_gauge g m (ac_stats (observe meth route status d un acc)) = snapshot_gauge g m (ac_stats acc)
       + (if counted_method meth = m then exchange_gauge g status d else 0)"
proof -
  obtain acc1 r1 where lab: "(if un then bounded_unmatched_label route acc else (acc, route)) = (acc1, r1)" by force
  have same: "ac_stats acc1 = ac_stats acc"
    using lab by (auto simp: bounded_unmatched_label_def split: if_splits)
  let ?k = "(counted_method meth, r1)"
  let ?s = "dict_get (ac_stats acc) ?k new_stats"
  have run: "ac_stats (observe meth route status d un acc) = AList.update ?k (count_into status d ?s) (ac_stats acc)"
    unfolding observe_def lab by (simp add: Let_def same)
  have ok: "stats_ok ?s" using assms by (rule snapshot_ok_get)
  note up = snapshot_update[OF assms count_into_ok[OF ok] count_into_le[OF ok]]
  show "snapshot_ok (ac_stats (observe meth route status d un acc))"
    "snapshot_le (ac_stats acc) (ac_stats (observe meth route status d un acc))"
    "snapshot_gauge g m (ac_stats (observe meth route status d un acc)) = snapshot_gauge g m (ac_stats acc)
       + (if counted_method meth = m then exchange_gauge g status d else 0)"
    unfolding run up(3) count_into_gauge[OF ok] using up(1,2) by simp_all
qed

section \<open>Deltas\<close>

lemma slot_minus:
  "length bs = length cs \<Longrightarrow> slot i (map2 (-) bs cs) = slot i bs - slot i cs"
  by (simp add: slot_def)

lemma slot_plus: "length bs = length cs \<Longrightarrow> slot i (map2 (+) bs cs) = slot i bs + slot i cs"
  by (simp add: slot_def)

lemma sum_list_pos_filter: "sum_list (map f (filter (\<lambda>x. f x \<noteq> 0) xs)) = sum_list (map f xs)"
  for f :: "'a \<Rightarrow> int"
  by (induction xs) auto

lemma delta_requests:
  assumes "stats_ok p" "stats_ok s" "stats_le p s"
  shows "sum_list (map snd (status_deltas p s)) = stats_requests s - stats_requests p"
proof -
  let ?d = "\<lambda>(st, n). n - dict_get (rs_by_status p) st 0"
  have "sum_list (map snd (status_deltas p s)) = sum_list (map ?d (filter (\<lambda>x. ?d x \<noteq> 0) (rs_by_status s)))"
    by (simp add: status_deltas_def split_def comp_def)
  also have "\<dots> = sum_list (map ?d (rs_by_status s))" by (rule sum_list_pos_filter)
  also have "\<dots> = stats_requests s - sum_list (map (\<lambda>(st, _). dict_get (rs_by_status p) st 0) (rs_by_status s))"
    by (simp add: stats_requests_def split_def sum_list_subtractf)
  also have "sum_list (map (\<lambda>(st, _). dict_get (rs_by_status p) st 0) (rs_by_status s)) = stats_requests p"
  proof -
    have "sum_list (map (\<lambda>(st, _). case map_of (rs_by_status p) st of None \<Rightarrow> 0 | Some v \<Rightarrow> v) (rs_by_status s))
        = sum_list (map (\<lambda>(_, v). v) (rs_by_status p))"
      using assms by (intro sum_dict_lookup) (simp_all add: stats_ok_def stats_le_def)
    then show ?thesis by (simp add: stats_requests_def dict_get_def split_def)
  qed
  finally show ?thesis .
qed

lemma delta_status:
  assumes "distinct (map fst (rs_by_status s))" "fst ` set (rs_by_status p) \<subseteq> fst ` set (rs_by_status s)"
  shows "dict_get (status_deltas p s) st 0 = dict_get (rs_by_status s) st 0 - dict_get (rs_by_status p) st 0"
proof -
  have "dict_get (map (\<lambda>(st, n). (st, n - h st)) (filter (\<lambda>(st, n). n - h st \<noteq> 0) d)) st 0
      = (case map_of d st of None \<Rightarrow> 0 | Some n \<Rightarrow> n - h st)"
    if "distinct (map fst d)" for d :: "(string, int) dict" and h
    using that
  proof (induction d)
    case (Cons e d)
    have "map_of (map (\<lambda>(st, n). (st, n - h st)) (filter (\<lambda>(st, n). n - h st \<noteq> 0) d)) st = None" if "fst e = st"
      using Cons.prems that by (auto simp: map_of_eq_None_iff image_iff)
    then show ?case using Cons by (cases e) (auto simp: dict_get_def split: option.splits)
  qed simp
  moreover have "map_of (rs_by_status p) st = None" if "map_of (rs_by_status s) st = None"
    using that assms(2) by (auto simp: map_of_eq_None_iff)
  ultimately show ?thesis using assms(1)
    unfolding status_deltas_def by (auto simp: dict_get_def split: option.splits)
qed

lemma list_all2_le_sum_eq:
  "list_all2 (\<le>) xs ys \<Longrightarrow> sum_list xs = sum_list (ys :: int list) \<Longrightarrow> xs = ys"
proof (induction rule: list_all2_induct)
  case (Cons x xs y ys)
  have "sum_list xs \<le> sum_list ys" using Cons.hyps(2) by (induction rule: list_all2_induct) auto
  then have "x = y \<and> sum_list xs = sum_list ys" using Cons.hyps(1) Cons.prems by auto
  then show ?case using Cons.IH by simp
qed simp

lemma delta_gauge:
  assumes "stats_ok p" "stats_ok s" "stats_le p s"
  shows "stats_gauge g (stats_delta p s) = stats_gauge g s - stats_gauge g p"
    and "status_deltas p s = [] \<Longrightarrow> stats_gauge g s = stats_gauge g p"
proof -
  show gauge: "stats_gauge g (stats_delta p s) = stats_gauge g s - stats_gauge g p" for g
  proof (cases g)
    case Requests
    then show ?thesis using delta_requests[OF assms] by (simp add: stats_requests_def stats_delta_def)
  next
    case Errors
    then show ?thesis using delta_status[of s p "''5xx''"] assms
      by (simp add: stats_errors_def stats_delta_def stats_ok_def stats_le_def)
  next
    case (Slot i)
    then show ?thesis using assms by (simp add: stats_delta_def slot_minus stats_ok_def)
  qed
  show "stats_gauge g s = stats_gauge g p" if "status_deltas p s = []"
  proof (cases g)
    case (Slot i)
    have "stats_requests s = stats_requests p" using delta_requests[OF assms] that by simp
    then have "rs_buckets p = rs_buckets s"
      using assms by (intro list_all2_le_sum_eq) (simp_all add: stats_ok_def stats_le_def)
    then show ?thesis by (simp add: Slot)
  qed (use gauge[of g] that in \<open>simp_all add: stats_delta_def stats_requests_def stats_errors_def\<close>)
qed

lemma deltas_gauge:
  assumes "snapshot_ok prev" "snapshot_ok cur" "snapshot_le prev cur"
  shows "snapshot_gauge g m (snapshot_deltas prev cur) = snapshot_gauge g m cur - snapshot_gauge g m prev"
proof -
  let ?p = "\<lambda>k. dict_get prev k new_stats"
  let ?f = "\<lambda>(k, s). if fst k = m then stats_gauge g s - stats_gauge g (?p k) else 0"
  have each: "stats_ok (?p k)" "stats_ok s" "stats_le (?p k) s" if "(k, s) \<in> set cur" for k s
  proof -
    have "dict_get cur k new_stats = s" using assms(2) that by (simp add: snapshot_ok_def dict_get_def)
    then show "stats_ok (?p k)" "stats_ok s" "stats_le (?p k) s"
      using assms snapshot_ok_get[of _ k] unfolding snapshot_le_def by metis+
  qed
  have drop: "sum_list (map f (filter P xs)) = sum_list (map f xs)" if "\<And>x. x \<in> set xs \<Longrightarrow> \<not> P x \<Longrightarrow> f x = (0 :: int)"
    for f P and xs :: "(route_key \<times> route_stats) list"
    using that by (induction xs) auto
  have "snapshot_gauge g m (snapshot_deltas prev cur)
      = sum_list (map ?f (filter (\<lambda>(k, s). status_deltas (?p k) s \<noteq> []) cur))"
    unfolding snapshot_gauge_def snapshot_deltas_def map_map comp_def split_def
    using delta_gauge(1)[OF each] by (intro arg_cong[of _ _ sum_list] map_cong) auto
  also have "\<dots> = sum_list (map ?f cur)"
  proof (rule drop)
    fix x assume x: "x \<in> set cur" "\<not> (case x of (k, s) \<Rightarrow> status_deltas (?p k) s \<noteq> [])"
    obtain k s where ks: "x = (k, s)" by (cases x)
    then have "(k, s) \<in> set cur" using x by simp
    note e = each[OF this]
    show "?f x = 0" using delta_gauge(2)[OF e] x(2) by (simp add: ks)
  qed
  also have "\<dots> = snapshot_gauge g m cur - sum_list (map (\<lambda>(k, _). if fst k = m then stats_gauge g (?p k) else 0) cur)"
    unfolding snapshot_gauge_def sum_list_subtractf[symmetric] by (intro arg_cong[of _ _ sum_list] map_cong) auto
  also have "sum_list (map (\<lambda>(k, _). if fst k = m then stats_gauge g (?p k) else 0) cur) = snapshot_gauge g m prev"
  proof -
    have "(if fst k = m then stats_gauge g (?p k) else 0)
        = (case map_of prev k of None \<Rightarrow> 0 | Some v \<Rightarrow> if fst k = m then stats_gauge g v else 0)" for k
      by (simp add: dict_get_def split: option.splits)
    then show ?thesis
      using sum_dict_lookup[of cur prev "\<lambda>k s. if fst k = m then stats_gauge g s else 0"] assms
      unfolding snapshot_gauge_def by (simp add: snapshot_ok_def snapshot_le_def split_def)
  qed
  finally show ?thesis .
qed

section \<open>The table\<close>

definition row_ok :: "request_metric \<Rightarrow> bool" where
  "row_ok r \<longleftrightarrow> length (mt_buckets r) = length bucket_bounds + 1 \<and> mt_requests r \<ge> 0 \<and> mt_errors r \<ge> 0
     \<and> (\<forall>n \<in> set (mt_buckets r). n \<ge> 0)"

definition table_ok :: "request_metric list \<Rightarrow> bool" where
  "table_ok rows \<longleftrightarrow> distinct (map metric_key rows) \<and> (\<forall>r \<in> set rows. row_ok r)"

lemma table_gauge_simps [simp]:
  "table_gauge g m [] = 0"
  "table_gauge g m (r # rows) = (if mt_method r = m then row_gauge g r else 0) + table_gauge g m rows"
  by (simp_all add: table_gauge_def)

lemma row_gauge_nonneg: "row_ok r \<Longrightarrow> row_gauge g r \<ge> 0"
  by (cases g) (simp_all add: row_ok_def slot_nonneg)

lemma table_gauge_nonneg: "table_ok rows \<Longrightarrow> table_gauge g m rows \<ge> 0"
  unfolding table_gauge_def by (intro sum_list_nonneg) (auto simp: table_ok_def row_gauge_nonneg)

lemma sum_lists_nonneg: "length bs = length cs \<Longrightarrow> \<forall>n \<in> set bs. n \<ge> 0 \<Longrightarrow> \<forall>n \<in> set cs. n \<ge> 0
    \<Longrightarrow> \<forall>n \<in> set (map2 (+) bs cs). n \<ge> (0 :: int)"
  by (auto simp: in_set_zip)

lemma merge_keys:
  "metric_key ` set (merge_row new rows) = insert (metric_key new) (metric_key ` set rows)"
  by (induction rows) (auto simp: metric_key_def)

lemma merge_row_ok: "table_ok rows \<Longrightarrow> row_ok new \<Longrightarrow> table_ok (merge_row new rows)"
proof (induction rows)
  case (Cons r rows)
  then have "table_ok (merge_row new rows)" by (simp add: table_ok_def)
  moreover have "metric_key r \<notin> metric_key ` set (merge_row new rows)" if "metric_key r \<noteq> metric_key new"
    using Cons.prems that by (auto simp: table_ok_def merge_keys)
  ultimately show ?case using Cons.prems sum_lists_nonneg[of "mt_buckets r" "mt_buckets new"]
    by (auto simp: table_ok_def row_ok_def metric_key_def)
qed (simp add: table_ok_def)

lemma merge_row_gauge:
  "table_ok rows \<Longrightarrow> row_ok new \<Longrightarrow>
   table_gauge g m (merge_row new rows) = table_gauge g m rows + (if mt_method new = m then row_gauge g new else 0)"
proof (induction rows)
  case (Cons r rows)
  have "length (mt_buckets r) = length (mt_buckets new)" using Cons.prems by (simp add: table_ok_def row_ok_def)
  then show ?case using Cons
    by (cases g) (auto simp: table_ok_def metric_key_def slot_plus)
qed simp

lemma fold_merge:
  assumes "table_ok rows" "\<forall>d \<in> set ds. row_ok (h d)"
  shows "table_ok (fold (\<lambda>d. merge_row (h d)) ds rows)
    \<and> table_gauge g m (fold (\<lambda>d. merge_row (h d)) ds rows)
      = table_gauge g m rows + sum_list (map (\<lambda>d. if mt_method (h d) = m then row_gauge g (h d) else 0) ds)"
  using assms by (induction ds arbitrary: rows) (simp_all add: merge_row_ok merge_row_gauge)

lemma delta_row_ok:
  assumes "snapshot_ok prev" "snapshot_ok cur" "snapshot_le prev cur" "d \<in> set (snapshot_deltas prev cur)"
  shows "row_ok (delta_row i t d)"
proof -
  obtain k s where ks: "(k, s) \<in> set cur" "d = (k, stats_delta (dict_get prev k new_stats) s)"
    using assms(4) by (auto simp: snapshot_deltas_def)
  let ?p = "dict_get prev k new_stats"
  have "dict_get cur k new_stats = s" using assms(2) ks(1) by (simp add: snapshot_ok_def dict_get_def)
  then have e: "stats_ok ?p" "stats_ok s" "stats_le ?p s"
    using assms snapshot_ok_get[of _ k] unfolding snapshot_le_def by metis+
  have "stats_requests ?p \<le> stats_requests s"
  proof -
    have "sum_list (rs_buckets ?p) \<le> sum_list (rs_buckets s)"
      using e(3) unfolding stats_le_def by (elim conjE) (erule list_all2_induct, simp_all)
    then show ?thesis using e by (simp add: stats_ok_def)
  qed
  moreover have "stats_errors ?p \<le> stats_errors s" using e(3) by (simp add: stats_le_def stats_errors_def)
  moreover have "\<forall>n \<in> set (map2 (-) (rs_buckets s) (rs_buckets ?p)). n \<ge> 0"
    using e(3) by (auto simp: stats_le_def list_all2_conv_all_nth set_zip)
  ultimately show ?thesis
    using delta_gauge(1)[OF e, of Requests] delta_gauge(1)[OF e, of Errors] e
    by (cases k) (simp add: ks(2) delta_row_def row_ok_def stats_ok_def, simp add: stats_delta_def)
qed

lemma add_deltas_gauge:
  assumes "table_ok rows" "snapshot_ok prev" "snapshot_ok cur" "snapshot_le prev cur"
  shows "table_ok (add_deltas i t (snapshot_deltas prev cur) rows)
    \<and> table_gauge g m (add_deltas i t (snapshot_deltas prev cur) rows)
      = table_gauge g m rows + (snapshot_gauge g m cur - snapshot_gauge g m prev)"
proof -
  have "row_gauge g (delta_row i t (k, s)) = stats_gauge g s" "mt_method (delta_row i t (k, s)) = fst k" for k s
    by (cases k; cases g; simp add: delta_row_def)+
  then have "sum_list (map (\<lambda>d. if mt_method (delta_row i t d) = m then row_gauge g (delta_row i t d) else 0)
      (snapshot_deltas prev cur)) = snapshot_gauge g m (snapshot_deltas prev cur)"
    unfolding snapshot_gauge_def by (intro arg_cong[of _ _ sum_list] map_cong) auto
  then show ?thesis
    using fold_merge[OF assms(1), of "snapshot_deltas prev cur" "delta_row i t" g m] delta_row_ok[OF assms(2-4)]
    unfolding add_deltas_def deltas_gauge[OF assms(2-4), symmetric] by simp
qed

section \<open>Rollup and purge\<close>

lemma fold_buckets:
  assumes "\<forall>r \<in> set rows. row_ok r" "length acc = length bucket_bounds + 1" "\<forall>n \<in> set acc. n \<ge> 0"
  shows "length (fold (\<lambda>r a. map2 (+) a (mt_buckets r)) rows acc) = length bucket_bounds + 1
    \<and> (\<forall>n \<in> set (fold (\<lambda>r a. map2 (+) a (mt_buckets r)) rows acc). n \<ge> 0)
    \<and> slot i (fold (\<lambda>r a. map2 (+) a (mt_buckets r)) rows acc)
      = slot i acc + sum_list (map (\<lambda>r. slot i (mt_buckets r)) rows)"
  using assms
proof (induction rows arbitrary: acc)
  case (Cons r rows)
  let ?a = "map2 (+) acc (mt_buckets r)"
  have len: "length acc = length (mt_buckets r)" using Cons.prems by (simp add: row_ok_def)
  have r: "row_ok r" "\<forall>r \<in> set rows. row_ok r" using Cons.prems(1) by simp_all
  have nn: "\<forall>n \<in> set ?a. n \<ge> 0"
    by (rule sum_lists_nonneg[OF len Cons.prems(3)]) (insert r(1), unfold row_ok_def, blast)
  have "length ?a = length bucket_bounds + 1" using Cons.prems(2) len by simp
  note IH = Cons.IH[OF r(2) this nn]
  show ?case unfolding fold_simps(2) comp_apply using IH unfolding slot_plus[OF len] list.map sum_list.Cons add.assoc by blast
qed simp

lemma hour_row_gauge:
  assumes "rows \<noteq> []" "\<forall>r \<in> set rows. row_ok r"
  shows "row_ok (hour_row (k, rows))" "row_gauge g (hour_row (k, rows)) = sum_list (map (row_gauge g) rows)"
proof -
  define zero where "zero = replicate (length bucket_bounds + 1) (0 :: int)"
  have z: "length zero = length bucket_bounds + 1" "\<forall>n \<in> set zero. n \<ge> 0" "slot i zero = 0" for i
    by (simp_all add: zero_def slot_def del: replicate_Suc)
  note fb = fold_buckets[OF assms(2) z(1,2)]
  have "length (mt_buckets (hd rows)) = length bucket_bounds + 1" using assms by (simp add: row_ok_def)
  then have buckets: "mt_buckets (hour_row (k, rows)) = fold (\<lambda>r a. map2 (+) a (mt_buckets r)) rows zero"
    by (cases k) (simp add: hour_row_def zero_def)
  have sums: "mt_requests (hour_row (k, rows)) = sum_list (map mt_requests rows)"
    "mt_errors (hour_row (k, rows)) = sum_list (map mt_errors rows)"
    by (cases k; simp add: hour_row_def)+
  have "sum_list (map mt_requests rows) \<ge> 0" "sum_list (map mt_errors rows) \<ge> 0"
    using assms(2) by (auto intro!: sum_list_nonneg simp: row_ok_def)
  then show "row_ok (hour_row (k, rows))" unfolding row_ok_def buckets sums using fb by simp
  show "row_gauge g (hour_row (k, rows)) = sum_list (map (row_gauge g) rows)"
  proof (cases g)
    case (Slot i)
    moreover have "row_gauge (Slot i) = (\<lambda>r. slot i (mt_buckets r))" by (rule ext) simp
    ultimately show ?thesis using fb z(3) by (simp add: buckets)
  next
    case Requests
    moreover have "row_gauge Requests = mt_requests" by (rule ext) simp
    ultimately show ?thesis by (simp add: sums)
  next
    case Errors
    moreover have "row_gauge Errors = mt_errors" by (rule ext) simp
    ultimately show ?thesis by (simp add: sums)
  qed
qed

lemma rollup_gauge:
  assumes "table_ok rows"
  shows "table_ok (fst (rollup now d rows)) \<and> table_gauge g m (fst (rollup now d rows)) = table_gauge g m rows"
proof -
  define cutoff where "cutoff = now - days d"
  define stale where "stale = filter (is_stale cutoff) rows"
  define ks where "ks = first_occurrences [] (map hour_key stale)"
  have ks: "distinct ks" "set ks = hour_key ` set stale"
    using first_occurrences_props[of "[]" "map hour_key stale"] by (simp_all add: ks_def)
  have groups: "rollup_groups stale = map (\<lambda>k. (k, filter (\<lambda>r. hour_key r = k) stale)) ks"
    by (simp add: rollup_groups_def ks_def)
  have ok: "\<forall>r \<in> set stale. row_ok r" using assms by (simp add: stale_def table_ok_def)
  have group: "row_ok (hour_row (k, filter (\<lambda>r. hour_key r = k) stale))"
    "(if mt_method (hour_row (k, filter (\<lambda>r. hour_key r = k) stale)) = m
       then row_gauge g (hour_row (k, filter (\<lambda>r. hour_key r = k) stale)) else 0)
     = sum_list (map (\<lambda>r. if mt_method r = m then row_gauge g r else 0) (filter (\<lambda>r. hour_key r = k) stale))"
    if "k \<in> set ks" for k
  proof -
    let ?rows = "filter (\<lambda>r. hour_key r = k) stale"
    have ne: "?rows \<noteq> []" "\<forall>r \<in> set ?rows. row_ok r" using that ks(2) ok by (auto simp: filter_empty_conv)
    show "row_ok (hour_row (k, ?rows))" by (rule hour_row_gauge(1)[OF ne])
    have m: "mt_method (hour_row (k, ?rows)) = fst (snd k)" by (cases k) (simp add: hour_row_def)
    have "mt_method r = fst (snd k)" if "r \<in> set ?rows" for r using that by (auto simp: hour_key_def)
    then have "sum_list (map (\<lambda>r. if mt_method r = m then row_gauge g r else 0) ?rows)
        = sum_list (map (\<lambda>r. if fst (snd k) = m then row_gauge g r else 0) ?rows)"
      by (intro arg_cong[of _ _ sum_list] map_cong) simp_all
    then show "(if mt_method (hour_row (k, ?rows)) = m then row_gauge g (hour_row (k, ?rows)) else 0)
       = sum_list (map (\<lambda>r. if mt_method r = m then row_gauge g r else 0) ?rows)"
      unfolding m hour_row_gauge(2)[OF ne] by (simp add: sum_list_0)
  qed
  define merged where "merged = fold (\<lambda>g. merge_row (hour_row g)) (rollup_groups stale) rows"
  have gok: "\<forall>g \<in> set (rollup_groups stale). row_ok (hour_row g)" using group(1) by (auto simp: groups)
  have "sum_list (map (\<lambda>g'. if mt_method (hour_row g') = m then row_gauge g (hour_row g') else 0) (rollup_groups stale))
      = sum_list (map (\<lambda>k. sum_list (map (\<lambda>r. if mt_method r = m then row_gauge g r else 0)
          (filter (\<lambda>r. hour_key r = k) stale))) ks)"
    unfolding groups map_map comp_def using group(2) by (intro arg_cong[of _ _ sum_list] map_cong refl)
  also have "\<dots> = table_gauge g m stale"
    unfolding table_gauge_def using ks by (intro sum_groups) simp_all
  finally have merged: "table_ok merged" "table_gauge g m merged = table_gauge g m rows + table_gauge g m stale"
    using fold_merge[OF assms gok, of g m] by (simp_all add: merged_def)
  have stale_rows: "filter (is_stale cutoff) (merge_row (hour_row g') xs) = filter (is_stale cutoff) xs" for g' xs
    by (induction xs) (auto simp: is_stale_def hour_row_def metric_key_def split: prod.splits)
  then have "filter (is_stale cutoff) (fold (\<lambda>g'. merge_row (hour_row g')) gs xs) = filter (is_stale cutoff) xs" for gs xs
    by (induction gs arbitrary: xs) simp_all
  then have stale': "filter (is_stale cutoff) merged = stale" by (simp add: merged_def stale_def)
  have part: "table_gauge g m xs = table_gauge g m (filter P xs) + table_gauge g m (delete_where P xs)" for P xs
    by (induction xs) simp_all
  have run: "fst (rollup now d rows) = delete_where (is_stale cutoff) merged"
    by (simp add: rollup_def Let_def merged_def stale_def cutoff_def)
  have "table_ok (delete_where P xs)" if "table_ok xs" for P xs
    using that by (simp add: table_ok_def distinct_map_delete_where in_delete_where)
  then show ?thesis
    unfolding run using part[of merged "is_stale cutoff"] merged stale' by simp
qed

lemma purge_gauge:
  assumes "table_ok rows"
  shows "table_ok (fst (purge now d rows)) \<and> table_gauge g m (fst (purge now d rows)) \<le> table_gauge g m rows
    \<and> (snd (purge now d rows) = 0 \<longrightarrow> fst (purge now d rows) = rows)"
proof -
  have "table_gauge g m (delete_where P rows) \<le> table_gauge g m rows" for P
    using assms by (induction rows) (auto simp: table_ok_def dest: row_gauge_nonneg[of _ g])
  moreover have "delete_where P rows = rows" if "count_where P rows = 0" for P
    using that by (auto simp: count_where_0_iff delete_where_def intro!: filter_True)
  ultimately show ?thesis using assms
    by (simp add: purge_def Let_def table_ok_def distinct_map_delete_where in_delete_where)
qed

section \<open>The server\<close>

definition process_ok :: "load_process \<Rightarrow> bool" where
  "process_ok p \<longleftrightarrow> snapshot_ok (ac_stats (lp_acc p)) \<and> snapshot_ok (fl_previous (lp_flusher p))
     \<and> snapshot_le (fl_previous (lp_flusher p)) (ac_stats (lp_acc p))"

definition load_world_ok :: "load_world \<Rightarrow> bool" where
  "load_world_ok w \<longleftrightarrow> table_ok (lw_rows w) \<and> (\<forall>p. Some p \<in> set (lw_procs w) \<longrightarrow> process_ok p)"

definition total_load :: "gauge \<Rightarrow> string \<Rightarrow> load_world \<Rightarrow> int" where
  "total_load g m w = table_gauge g m (lw_rows w) + world_pending g m w"

text \<open>
  What the middleware offered at a step, whether the step may lose counts (the last flush of a process is
  rolled back, rows past the retention are purged), and whether it may count twice (a flush landed and the
  process does not know, so the next one writes the same deltas again).
\<close>

fun offered_at :: "gauge \<Rightarrow> string \<Rightarrow> load_op \<Rightarrow> load_world \<Rightarrow> int" where
  "offered_at g m (ServeRequest i r run) w =
     (if live_process w i \<noteq> None \<and> hr_http r \<and> feeds_load_metrics r (run_status run)
         \<and> counted_method (hr_method r) = m
      then exchange_gauge g (run_status run) (ar_duration run) else 0)" |
  "offered_at g m op w = 0"

fun may_lose :: "load_op \<Rightarrow> load_world \<Rightarrow> bool" where
  "may_lose (StopProcess i now db) w = (case db of WriteRefused e \<Rightarrow> True | _ \<Rightarrow> False)" |
  "may_lose (DailyRollup now retention) w =
     (snd (purge now retention (fst (rollup now minute_retention_days (lw_rows w)))) \<noteq> 0)" |
  "may_lose op w = False"

fun may_double :: "load_op \<Rightarrow> bool" where
  "may_double (FlushTick i now db) = (case db of WriteUnheard e \<Rightarrow> True | _ \<Rightarrow> False)" |
  "may_double (CutTick i now landed) = landed" |
  "may_double op = False"

fun offered :: "gauge \<Rightarrow> string \<Rightarrow> load_op list \<Rightarrow> load_world \<Rightarrow> int" where
  "offered g m [] w = 0" |
  "offered g m (op # ops) w = offered_at g m op w + offered g m ops (load_step op w)"

fun lossless :: "load_op list \<Rightarrow> load_world \<Rightarrow> bool" where
  "lossless [] w = True" |
  "lossless (op # ops) w = (\<not> may_lose op w \<and> lossless ops (load_step op w))"

lemma pending_nonneg:
  assumes "process_ok p" shows "pending_gauge g m p \<ge> 0"
proof -
  have ok: "table_ok []" by (simp add: table_ok_def)
  have s: "snapshot_ok (fl_previous (lp_flusher p))" "snapshot_ok (ac_stats (lp_acc p))"
    "snapshot_le (fl_previous (lp_flusher p)) (ac_stats (lp_acc p))" using assms by (simp_all add: process_ok_def)
  note ad = add_deltas_gauge[OF ok s, of undefined 0 g m]
  have "pending_gauge g m p = table_gauge g m
      (add_deltas undefined 0 (snapshot_deltas (fl_previous (lp_flusher p)) (ac_stats (lp_acc p))) [])"
    using ad by (simp add: pending_gauge_def)
  then show ?thesis using table_gauge_nonneg[of _ g m] ad by metis
qed

lemma live_processD: "live_process w i = Some p \<Longrightarrow> i < length (lw_procs w) \<and> lw_procs w ! i = Some p"
  by (simp add: live_process_def split: if_splits)

lemma live_process_ok: "load_world_ok w \<Longrightarrow> live_process w i = Some p \<Longrightarrow> process_ok p"
  unfolding load_world_ok_def by (metis live_processD nth_mem)

lemma pending_put:
  assumes "live_process w i = Some p"
  shows "world_pending g m (put_process i q w)
    = world_pending g m w - pending_gauge g m p + (case q of None \<Rightarrow> 0 | Some q \<Rightarrow> pending_gauge g m q)"
proof -
  have upd: "i < length xs \<Longrightarrow> sum_list (map f (xs[i := y])) = sum_list (map f xs) - f (xs ! i) + (f y :: int)"
    for f and xs :: "load_process option list" and y
    by (induction xs arbitrary: i) (auto split: nat.splits)
  show ?thesis using live_processD[OF assms] by (simp add: world_pending_def put_process_def upd)
qed

lemma world_put_ok:
  assumes "load_world_ok w" "table_ok rows" "\<And>p. q = Some p \<Longrightarrow> process_ok p"
  shows "load_world_ok (put_process i q (w\<lparr>lw_rows := rows\<rparr>))"
  using assms set_update_subset_insert[of "lw_procs w" i q]
  by (auto simp: load_world_ok_def put_process_def)

lemma flush_tick_gauge:
  assumes "table_ok rows" "process_ok p"
  shows "table_ok (fst (flush_tick now db (lp_acc p) (lp_flusher p) rows))"
    and "snd (flush_tick now db (lp_acc p) (lp_flusher p) rows) = Inl e \<Longrightarrow>
      (db = WriteRefused e \<and> table_gauge g m (fst (flush_tick now db (lp_acc p) (lp_flusher p) rows)) = table_gauge g m rows)
      \<or> (db = WriteUnheard e
          \<and> table_gauge g m (fst (flush_tick now db (lp_acc p) (lp_flusher p) rows)) = table_gauge g m rows + pending_gauge g m p)"
    and "snd (flush_tick now db (lp_acc p) (lp_flusher p) rows) = Inr fl \<Longrightarrow>
      fl = (lp_flusher p)\<lparr>fl_previous := ac_stats (lp_acc p)\<rparr>
      \<and> table_gauge g m (fst (flush_tick now db (lp_acc p) (lp_flusher p) rows)) = table_gauge g m rows + pending_gauge g m p"
proof -
  have s: "snapshot_ok (fl_previous (lp_flusher p))" "snapshot_ok (ac_stats (lp_acc p))"
    "snapshot_le (fl_previous (lp_flusher p)) (ac_stats (lp_acc p))" using assms(2) by (simp_all add: process_ok_def)
  note ad = add_deltas_gauge[OF assms(1) s]
  have none: "pending_gauge g m p = 0" if "snapshot_deltas (fl_previous (lp_flusher p)) (ac_stats (lp_acc p)) = []"
    using deltas_gauge[OF s, of g m] that by (simp add: pending_gauge_def snapshot_gauge_def)
  show "table_ok (fst (flush_tick now db (lp_acc p) (lp_flusher p) rows))"
    using ad assms(1) by (simp add: flush_tick_def snapshot_def Let_def split: flush_write.splits)
  show "snd (flush_tick now db (lp_acc p) (lp_flusher p) rows) = Inl e \<Longrightarrow>
      (db = WriteRefused e \<and> table_gauge g m (fst (flush_tick now db (lp_acc p) (lp_flusher p) rows)) = table_gauge g m rows)
      \<or> (db = WriteUnheard e
          \<and> table_gauge g m (fst (flush_tick now db (lp_acc p) (lp_flusher p) rows)) = table_gauge g m rows + pending_gauge g m p)"
    using ad by (auto simp: flush_tick_def snapshot_def Let_def pending_gauge_def split: flush_write.splits if_splits)
  show "snd (flush_tick now db (lp_acc p) (lp_flusher p) rows) = Inr fl \<Longrightarrow>
      fl = (lp_flusher p)\<lparr>fl_previous := ac_stats (lp_acc p)\<rparr>
      \<and> table_gauge g m (fst (flush_tick now db (lp_acc p) (lp_flusher p) rows)) = table_gauge g m rows + pending_gauge g m p"
    using ad none by (auto simp: flush_tick_def snapshot_def Let_def pending_gauge_def split: flush_write.splits if_splits)
qed

text \<open>The total after a flush that keeps the process: as before, or the pending deltas twice.\<close>

definition flush_moves :: "bool \<Rightarrow> int \<Rightarrow> int \<Rightarrow> bool" where
  "flush_moves double before after \<longleftrightarrow> before \<le> after \<and> (\<not> double \<longrightarrow> after = before)"

lemma guarded_tick_gauge:
  assumes "table_ok rows" "process_ok p" "flush_guarded_tick now db (lp_acc p) (lp_flusher p) rows = (rows', fl, ls)"
  shows "table_ok rows' \<and> process_ok (p\<lparr>lp_flusher := fl\<rparr>)
    \<and> flush_moves (case db of WriteUnheard e \<Rightarrow> True | _ \<Rightarrow> False) (table_gauge g m rows + pending_gauge g m p)
        (table_gauge g m rows' + pending_gauge g m (p\<lparr>lp_flusher := fl\<rparr>))"
proof -
  note ft = flush_tick_gauge[OF assms(1,2), of now db]
  have keep: "process_ok (p\<lparr>lp_flusher := fl\<rparr>) \<and> pending_gauge g m (p\<lparr>lp_flusher := fl\<rparr>) = pending_gauge g m p"
    if "fl_previous fl = fl_previous (lp_flusher p)" for fl
    using that assms(2) by (simp add: process_ok_def pending_gauge_def)
  have flushed: "process_ok (p\<lparr>lp_flusher := fl\<rparr>) \<and> pending_gauge g m (p\<lparr>lp_flusher := fl\<rparr>) = 0"
    if "fl_previous fl = ac_stats (lp_acc p)" for fl
    using that assms(2) by (simp add: process_ok_def pending_gauge_def)
  show ?thesis
  proof (cases "snd (flush_tick now db (lp_acc p) (lp_flusher p) rows)")
    case (Inl e)
    then have rows': "rows' = fst (flush_tick now db (lp_acc p) (lp_flusher p) rows)" and fl: "fl_previous fl = fl_previous (lp_flusher p)"
      using assms(3) by (auto simp: flush_guarded_tick_def split: prod.splits sum.splits)
    show ?thesis using ft(2)[OF Inl, of g m] ft(1) keep[OF fl] pending_nonneg[OF assms(2), of g m]
      unfolding rows' flush_moves_def by auto
  next
    case (Inr fl')
    then have "rows' = fst (flush_tick now db (lp_acc p) (lp_flusher p) rows)" "fl_previous fl = fl_previous fl'"
      using assms(3) by (auto simp: flush_guarded_tick_def split: prod.splits sum.splits)
    then show ?thesis using flushed[of fl] ft(1) ft(3)[OF Inr, of g m] by (simp add: flush_moves_def)
  qed
qed

lemma served_accumulator:
  "fst (request_call [metrics_observer] h amb r run acc) =
     (if hr_http r \<and> feeds_load_metrics r (run_status run)
      then (case hr_route r of
              Some route \<Rightarrow> observe (hr_method r) route (run_status run) (ar_duration run) False acc
            | None \<Rightarrow> observe (hr_method r) (hr_path r) (run_status run) (ar_duration run) True acc)
      else acc)"
proof (cases "hr_http r")
  case True
  then show ?thesis
    by (simp add: request_call_state observe_exchange_def metrics_observer_def split: option.splits)
qed (simp add: request_call_def)

lemma serve_step:
  assumes w: "load_world_ok w" and live: "live_process w i = Some p"
  shows "load_world_ok (load_step (ServeRequest i r run) w)
    \<and> total_load g m (load_step (ServeRequest i r run) w) = total_load g m w + offered_at g m (ServeRequest i r run) w"
proof -
  let ?acc = "fst (request_call [metrics_observer] heavy_default None r run (lp_acc p))"
  have ok: "process_ok p" using w live by (rule live_process_ok)
  have ob: "snapshot_ok (ac_stats ?acc) \<and> snapshot_le (ac_stats (lp_acc p)) (ac_stats ?acc)
    \<and> snapshot_gauge g m (ac_stats ?acc) = snapshot_gauge g m (ac_stats (lp_acc p)) + offered_at g m (ServeRequest i r run) w"
    using ok observe_snapshot[of "lp_acc p"] live
    by (simp add: served_accumulator process_ok_def split: option.splits)
  then have ok': "process_ok (p\<lparr>lp_acc := ?acc\<rparr>)"
    using ok snapshot_le_trans by (simp add: process_ok_def) blast
  have "load_world_ok (put_process i (Some (p\<lparr>lp_acc := ?acc\<rparr>)) (w\<lparr>lw_rows := lw_rows w\<rparr>))"
    using w ok' by (intro world_put_ok) (auto simp: load_world_ok_def)
  moreover have "pending_gauge g m (p\<lparr>lp_acc := ?acc\<rparr>) = pending_gauge g m p + offered_at g m (ServeRequest i r run) w"
    using ob by (simp add: pending_gauge_def)
  moreover have "load_step (ServeRequest i r run) w = put_process i (Some (p\<lparr>lp_acc := ?acc\<rparr>)) w" by (simp add: live)
  moreover have "lw_rows (put_process i q w) = lw_rows w" for q by (simp add: put_process_def)
  ultimately show ?thesis using pending_put[OF live] by (simp add: total_load_def)
qed

lemma flush_step:
  assumes w: "load_world_ok w" and live: "live_process w i = Some p"
  shows "load_world_ok (load_step (FlushTick i now db) w)
    \<and> flush_moves (may_double (FlushTick i now db)) (total_load g m w) (total_load g m (load_step (FlushTick i now db) w))"
proof -
  have ok: "process_ok p" using w live by (rule live_process_ok)
  obtain rows fl ls where run: "flush_guarded_tick now db (lp_acc p) (lp_flusher p) (lw_rows w) = (rows, fl, ls)"
    by (metis prod_cases3)
  have tk: "table_ok (lw_rows w)" using w by (simp add: load_world_ok_def)
  note gt = guarded_tick_gauge[OF tk ok run, of g m]
  have step: "load_step (FlushTick i now db) w = put_process i (Some (p\<lparr>lp_flusher := fl\<rparr>)) (w\<lparr>lw_rows := rows\<rparr>)"
    by (simp add: live run)
  have live': "live_process (w\<lparr>lw_rows := rows\<rparr>) i = Some p" using live by (simp add: live_process_def split: if_splits)
  have "world_pending g m (w\<lparr>lw_rows := rows\<rparr>) = world_pending g m w" by (simp add: world_pending_def)
  then show ?thesis
    using gt pending_put[OF live', of g m "Some (p\<lparr>lp_flusher := fl\<rparr>)"] world_put_ok[OF w, of rows "Some (p\<lparr>lp_flusher := fl\<rparr>)" i]
    unfolding step total_load_def flush_moves_def by (auto simp: put_process_def)
qed

lemma cut_step:
  assumes w: "load_world_ok w" and live: "live_process w i = Some p"
  shows "load_world_ok (load_step (CutTick i now landed) w)
    \<and> flush_moves landed (total_load g m w) (total_load g m (load_step (CutTick i now landed) w))"
proof (cases landed)
  case True
  have ok: "process_ok p" using w live by (rule live_process_ok)
  have tk: "table_ok (lw_rows w)" using w by (simp add: load_world_ok_def)
  let ?tick = "flush_tick now WriteCommitted (lp_acc p) (lp_flusher p) (lw_rows w)"
  note ft = flush_tick_gauge[OF tk ok, of now WriteCommitted]
  obtain fl where "snd ?tick = Inr fl" by (cases "snd ?tick") (use ft(2) in auto)
  then have rows: "table_gauge g m (fst ?tick) = table_gauge g m (lw_rows w) + pending_gauge g m p" using ft(3) by blast
  have "world_pending g m (w\<lparr>lw_rows := fst ?tick\<rparr>) = world_pending g m w" by (simp add: world_pending_def)
  then show ?thesis using w rows ft(1) pending_nonneg[OF ok, of g m] live True
    by (simp add: load_world_ok_def total_load_def flush_moves_def)
qed (use w live in \<open>simp add: flush_moves_def\<close>)

lemma stop_step:
  assumes w: "load_world_ok w" and live: "live_process w i = Some p"
  shows "load_world_ok (load_step (StopProcess i now db) w)
    \<and> total_load g m (load_step (StopProcess i now db) w) \<le> total_load g m w
    \<and> (\<not> may_lose (StopProcess i now db) w \<longrightarrow> total_load g m (load_step (StopProcess i now db) w) = total_load g m w)"
proof -
  have ok: "process_ok p" using w live by (rule live_process_ok)
  have tk: "table_ok (lw_rows w)" using w by (simp add: load_world_ok_def)
  define tick where "tick = flush_tick now db (lp_acc p) (lp_flusher p) (lw_rows w)"
  note ft = flush_tick_gauge[OF tk ok, of now db, folded tick_def]
  have "fst (flush_stop now db (lp_acc p) (lp_flusher p) (lw_rows w)) = fst tick"
    by (simp add: flush_stop_def tick_def split: prod.splits sum.splits)
  then have step: "load_step (StopProcess i now db) w = put_process i None (w\<lparr>lw_rows := fst tick\<rparr>)" by (simp add: live)
  have live': "live_process (w\<lparr>lw_rows := fst tick\<rparr>) i = Some p" using live by (simp add: live_process_def split: if_splits)
  have pend: "world_pending g m (w\<lparr>lw_rows := fst tick\<rparr>) = world_pending g m w" by (simp add: world_pending_def)
  have total: "total_load g m (load_step (StopProcess i now db) w)
      = table_gauge g m (fst tick) + world_pending g m w - pending_gauge g m p"
    using pending_put[OF live', of g m None] pend unfolding step total_load_def by (simp add: put_process_def)
  have "load_world_ok (load_step (StopProcess i now db) w)"
    unfolding step using ft(1) by (intro world_put_ok[OF w]) simp_all
  moreover have "table_gauge g m (fst tick) \<le> table_gauge g m (lw_rows w) + pending_gauge g m p
    \<and> (\<not> may_lose (StopProcess i now db) w \<longrightarrow> table_gauge g m (fst tick) = table_gauge g m (lw_rows w) + pending_gauge g m p)"
  proof (cases "snd tick")
    case (Inl e)
    then show ?thesis using ft(2)[OF Inl, of g m] pending_nonneg[OF ok, of g m] by auto
  next
    case (Inr fl)
    then show ?thesis using ft(3)[OF Inr, of g m] by simp
  qed
  moreover have "total_load g m w = table_gauge g m (lw_rows w) + world_pending g m w" by (rule total_load_def)
  ultimately show ?thesis unfolding total by (intro conjI impI) linarith+
qed

lemma load_step_gauge:
  assumes "load_world_ok w"
  shows "load_world_ok (load_step op w)
    \<and> (\<not> may_double op \<longrightarrow> total_load g m (load_step op w) \<le> total_load g m w + offered_at g m op w)
    \<and> (\<not> may_lose op w \<longrightarrow> total_load g m w + offered_at g m op w \<le> total_load g m (load_step op w))"
proof (cases op)
  case (BootProcess i)
  then show ?thesis using assms
    by (auto simp: load_world_ok_def total_load_def world_pending_def pending_gauge_def snapshot_gauge_def
        process_ok_def snapshot_ok_def new_accumulator_def new_flusher_def)
next
  case (ServeRequest i r run)
  then show ?thesis using assms serve_step[OF assms, of i _ r run g m] by (cases "live_process w i") simp_all
next
  case (FlushTick i now db)
  then show ?thesis using assms flush_step[OF assms, of i _ now db g m]
    by (cases "live_process w i") (simp_all add: flush_moves_def)
next
  case (CutTick i now landed)
  then show ?thesis using assms cut_step[OF assms, of i _ now landed g m]
    by (cases "live_process w i") (simp_all add: flush_moves_def)
next
  case (StopProcess i now db)
  then show ?thesis using assms stop_step[OF assms, of i _ now db g m] by (cases "live_process w i") simp_all
next
  case (DailyRollup now ret)
  have tk: "table_ok (lw_rows w)" using assms by (simp add: load_world_ok_def)
  note ro = rollup_gauge[OF tk, of now minute_retention_days g m]
  then show ?thesis using purge_gauge[of "fst (rollup now minute_retention_days (lw_rows w))" now ret g m] assms
    by (simp add: DailyRollup rollup_task_def load_world_ok_def total_load_def world_pending_def)
qed

lemma load_run_gauge:
  assumes "load_world_ok w"
  shows "load_world_ok (load_run ops w)
    \<and> (\<not> list_ex may_double ops \<longrightarrow> total_load g m (load_run ops w) \<le> total_load g m w + offered g m ops w)
    \<and> (lossless ops w \<longrightarrow> total_load g m w + offered g m ops w \<le> total_load g m (load_run ops w))"
  using assms
proof (induction ops arbitrary: w)
  case (Cons op ops)
  note step = load_step_gauge[OF Cons.prems, of op g m]
  then have "load_world_ok (load_step op w)" by blast
  from Cons.IH[OF this] step show ?case by (simp add: load_run_def) linarith
qed (simp add: load_run_def)

lemma load_init_ok: "load_world_ok load_init" "total_load g m load_init = 0"
  by (simp_all add: load_init_def load_world_ok_def table_ok_def total_load_def world_pending_def)

text \<open>
  C23.  What the Load screen counts.  Whatever requests the processes of a server answer, however their
  flushes end and are tried again, and through every daily rollup, for each method the requests, the errors
  and each slot of the histogram that the table holds and the live processes still owe: never exceed what
  the middleware offered, unless a flush committed without its process hearing of it (a lost answer, a tick
  cancelled by the stop); never fall short of it, unless the last flush of a stopping process was rolled back
  or an hour row passed retention.  A flush that is rolled back and tried again, and a rollup, keep it exact.
  The table keeps one row per key.
\<close>

theorem load_is_conserved:
  "(\<not> list_ex may_double ops \<longrightarrow> total_load g m (load_run ops load_init) \<le> offered g m ops load_init)
   \<and> (lossless ops load_init \<longrightarrow> offered g m ops load_init \<le> total_load g m (load_run ops load_init))
   \<and> distinct (map metric_key (lw_rows (load_run ops load_init)))"
  using load_run_gauge[OF load_init_ok(1), of ops g m] load_init_ok(2)[of g m]
  by (simp add: load_world_ok_def table_ok_def)

definition demo_request :: http_request where
  "demo_request = \<lparr>hr_http = True, hr_method = ''GET'', hr_path = ''/x'', hr_host = None, hr_route = Some ''/x'',
     hr_referer = None, hr_referer_host = None\<rparr>"

definition demo_run :: "int \<Rightarrow> app_run" where
  "demo_run status = \<lparr>ar_starts = [status], ar_raised = None, ar_duration = 60, ar_statements = [], ar_rejection = None\<rparr>"

definition demo_load :: "load_op list" where
  "demo_load = [BootProcess ''a'', ServeRequest 0 demo_request (demo_run 200),
     FlushTick 0 0 (WriteRefused \<lparr>exc_qualname = ''E'', exc_frames = [], exc_repr = ''E''\<rparr>),
     ServeRequest 0 demo_request (demo_run 500), FlushTick 0 1000000 WriteCommitted, DailyRollup 0 30]"

lemma demo_load_lossless: "lossless demo_load load_init" "\<not> list_ex may_double demo_load" "offered Requests ''GET'' demo_load load_init = 2"
  by code_simp+

theorem load_is_conserved_witness:
  "total_load Requests ''GET'' (load_run demo_load load_init) = 2"
  using load_is_conserved[of demo_load Requests "''GET''"] demo_load_lossless by linarith

end
