(* ===== verification/Metrics_Screen.thy ===== *)
theory Metrics_Screen
  imports Metrics_Conservation Complex_Main Py_Datetime
begin

text \<open>
  \<open>apps/metrics\<close>, the reading half: percentiles, loads per route, totals and the time series
  (\<open>domain/service.py\<close>), the window a caller brushes and the Load screen (\<open>infra/router.py\<close>), and the
  console card (\<open>contract/integration.py\<close>).  Averages and percentiles are exact rationals, in tenths of
  a millisecond; the error rate is shown unrounded.
\<close>

section \<open>Percentiles\<close>

fun percentile_from :: "rat \<Rightarrow> int \<Rightarrow> rat \<Rightarrow> (int \<times> int) list \<Rightarrow> rat option" where
  "percentile_from rank cumulative lo [] = None" |
  "percentile_from rank cumulative lo ((bound, n) # rest) =
     (if of_int (cumulative + n) \<ge> rank
      then Some (lo + (of_int bound - lo) * (rank - of_int cumulative) / of_int n)
      else percentile_from rank (cumulative + n) (of_int bound) rest)"

definition percentile_ms :: "int list \<Rightarrow> rat \<Rightarrow> rat option" where
  "percentile_ms counts quantile =
     (if sum_list counts = 0 then None
      else percentile_from (quantile * of_int (sum_list counts)) 0 0 (zip bucket_bounds counts))"

definition p95 :: rat where "p95 = 95 / 100"

definition error_rate :: "int \<Rightarrow> int \<Rightarrow> rat" where
  "error_rate errors requests = (if requests \<noteq> 0 then 100 * of_int errors / of_int requests else 0)"

definition mean_ms :: "int \<Rightarrow> int \<Rightarrow> rat option" where
  "mean_ms duration_sum requests = (if requests \<noteq> 0 then Some (of_int duration_sum / of_int requests) else None)"

definition merged_buckets :: "request_metric list \<Rightarrow> int list" where
  "merged_buckets rows = fold (\<lambda>r acc. map2 (+) acc (mt_buckets r)) rows empty_buckets"

section \<open>Loads\<close>

record route_load =
  ld_method :: string
  ld_route :: string
  ld_label :: string
  ld_requests :: int
  ld_errors :: int
  ld_error_rate :: rat
  ld_avg :: "rat option"
  ld_p95 :: "rat option"

record load_totals =
  lt_requests :: int
  lt_error_rate :: rat
  lt_avg :: "rat option"
  lt_p95 :: "rat option"

record load_point =
  pt_start :: instant
  pt_requests :: int
  pt_errors :: int

definition route_of :: "request_metric \<Rightarrow> route_key" where
  "route_of r = (mt_method r, mt_route r)"

definition load_of_route :: "route_key \<Rightarrow> request_metric list \<Rightarrow> route_load" where
  "load_of_route k rows =
     (let requests = sum_list (map mt_requests rows); errors = sum_list (map mt_errors rows) in
      \<lparr>ld_method = fst k, ld_route = snd k, ld_label = fst k @ '' '' @ snd k, ld_requests = requests,
       ld_errors = errors, ld_error_rate = error_rate errors requests,
       ld_avg = mean_ms (sum_list (map mt_duration_sum rows)) requests,
       ld_p95 = percentile_ms (merged_buckets rows) p95\<rparr>)"

definition aggregate :: "request_metric list \<Rightarrow> route_load list \<times> load_totals" where
  "aggregate rows =
     (let by_route = map (\<lambda>k. (k, filter (\<lambda>r. route_of r = k) rows)) (first_occurrences [] (map route_of rows));
          loads = sort_key (\<lambda>l. - ld_requests l) (map (\<lambda>(k, rs). load_of_route k rs) by_route);
          requests = sum_list (map ld_requests loads); errors = sum_list (map ld_errors loads) in
      (loads, \<lparr>lt_requests = requests, lt_error_rate = error_rate errors requests,
               lt_avg = mean_ms (sum_list (map mt_duration_sum rows)) requests,
               lt_p95 = percentile_ms (merged_buckets rows) p95\<rparr>))"

definition add_point :: "request_metric \<Rightarrow> (instant, load_point) dict \<Rightarrow> (instant, load_point) dict" where
  "add_point r d =
     (case map_of d (mt_bucket_start r) of
        None \<Rightarrow> AList.update (mt_bucket_start r)
          \<lparr>pt_start = mt_bucket_start r, pt_requests = mt_requests r, pt_errors = mt_errors r\<rparr> d
      | Some p \<Rightarrow> AList.update (mt_bucket_start r)
          (p\<lparr>pt_requests := pt_requests p + mt_requests r, pt_errors := pt_errors p + mt_errors r\<rparr>) d)"

definition timeseries :: "request_metric list \<Rightarrow> load_point list" where
  "timeseries rows = map snd (sort_key fst (fold add_point rows []))"

section \<open>The screen\<close>

definition window_hours :: int where "window_hours = 24"

text \<open>\<open>float(str)\<close>, truncated by \<open>int\<close>: a sign, \<open>inf\<close>, \<open>infinity\<close>, \<open>nan\<close>, or digits with a fraction and an exponent.\<close>

datatype float_reading = NoFloat | FloatNan | FloatInf | FloatTrunc int

definition largest_float :: int where "largest_float = 2 ^ 1024 - 2 ^ 970"

definition scale10 :: "int \<Rightarrow> int \<Rightarrow> int" where
  "scale10 m e = (if e \<ge> 0 then m * 10 ^ nat e else m div 10 ^ nat (- e))"

definition digits_or_none :: "string \<Rightarrow> nat option" where
  "digits_or_none s = (if s = [] then Some 0 else parse_nat s)"

definition signed_rest :: "string \<Rightarrow> int \<times> string" where
  "signed_rest s = (case s of [] \<Rightarrow> (1, [])
     | c # cs \<Rightarrow> if c = CHR ''-'' then (- 1, cs) else if c = CHR ''+'' then (1, cs) else (1, s))"

definition decimal_reading :: "int \<Rightarrow> string \<Rightarrow> int \<Rightarrow> float_reading" where
  "decimal_reading sign mant e =
     (let whole = takeWhile (\<lambda>c. c \<noteq> CHR ''.'') mant; rest = drop (length whole + 1) mant;
          places = int (length (filter is_digit rest)) in
      if whole = [] \<and> rest = [] then NoFloat
      else (case (digits_or_none whole, digits_or_none rest) of
              (Some w, Some f) \<Rightarrow>
                (let n = scale10 (int w * 10 ^ nat places + int f) (e - places) in
                 if n \<ge> largest_float then FloatInf else FloatTrunc (sign * n))
            | _ \<Rightarrow> NoFloat))"

definition py_float :: "string \<Rightarrow> float_reading" where
  "py_float raw =
     (case signed_rest (lower (strip raw)) of (sign, s) \<Rightarrow>
        if s = ''inf'' \<or> s = ''infinity'' then FloatInf
        else if s = ''nan'' then FloatNan
        else (let mant = takeWhile (\<lambda>c. c \<noteq> CHR ''e'') s in
          if mant = s then decimal_reading sign s 0
          else (case signed_rest (drop (length mant + 1) s) of (es, ed) \<Rightarrow>
            (case parse_nat ed of None \<Rightarrow> NoFloat | Some e \<Rightarrow> decimal_reading sign mant (es * int e)))))"

text \<open>
  \<open>datetime.fromtimestamp\<close> in UTC: a year outside 1 to 9999 is a \<open>ValueError\<close>, which the code catches; seconds
  beyond 64 bits, or whose year the C library cannot represent, raise other classes, which it does not.
\<close>

datatype timestamp_error = OverflowError | OSError

definition first_second :: int where "first_second = - 62135596800"
definition last_second :: int where "last_second = 253402300799"
definition c_year_second :: int where "c_year_second = 67768036191676799"

definition from_ms :: "string option \<Rightarrow> timestamp_error + instant option" where
  "from_ms raw =
     (case raw of None \<Rightarrow> Inr None
      | Some s \<Rightarrow>
          if s = [] then Inr None
          else (case py_float s of
                  NoFloat \<Rightarrow> Inr None
                | FloatNan \<Rightarrow> Inr None
                | FloatInf \<Rightarrow> Inl OverflowError
                | FloatTrunc ms \<Rightarrow>
                    (let secs = ms div 1000 in
                     if secs \<ge> 2 ^ 63 \<or> secs < - (2 ^ 63) then Inl OverflowError
                     else if \<bar>secs\<bar> > c_year_second then Inl OSError
                     else if secs < first_second \<or> secs > last_second then Inr None
                     else Inr (Some (ms * 1000)))))"

definition detail_window :: "string option \<Rightarrow> string option \<Rightarrow> instant
    \<Rightarrow> timestamp_error + (instant \<times> instant option \<times> bool)" where
  "detail_window from_param to_param full_since =
     bind_err (from_ms from_param) (\<lambda>f. bind_err (from_ms to_param) (\<lambda>until.
       Inr ((case f of None \<Rightarrow> full_since | Some s \<Rightarrow> s), until, f \<noteq> None \<or> until \<noteq> None)))"

record load_page =
  lg_totals :: load_totals
  lg_routes :: "route_load list"
  lg_series :: "load_point list"
  lg_windowed :: bool

definition load_screen :: "instant \<Rightarrow> string option \<Rightarrow> string option \<Rightarrow> request_metric list
    \<Rightarrow> timestamp_error + load_page" where
  "load_screen now from_param to_param rows =
     (let full_since = now - window_hours * seconds 3600 in
      bind_err (detail_window from_param to_param full_since) (\<lambda>(since, until, windowed).
        (case aggregate (window_rows since until rows) of (routes, totals) \<Rightarrow>
          Inr \<lparr>lg_totals = totals, lg_routes = routes,
               lg_series = timeseries (window_rows full_since None rows), lg_windowed = windowed\<rparr>)))"

definition load_card :: "instant \<Rightarrow> request_metric list \<Rightarrow> string" where
  "load_card now rows =
     (let total = total_requests (now - window_hours * seconds 3600) rows in
      if total \<noteq> 0 then str_int total @ '' requests (24h)'' else ''No traffic yet'')"

section \<open>Facts\<close>

lemma percentile_from_bucket:
  assumes "percentile_from rank c lo bs = Some v" "of_int c < rank" "\<forall>(b, n) \<in> set bs. n \<ge> 0"
    "lo \<le> of_int (fst (hd bs))" "sorted (map fst bs)"
  shows "\<exists>pre b n post. bs = pre @ (b, n) # post
     \<and> of_int (c + sum_list (map snd pre)) < rank \<and> rank \<le> of_int (c + sum_list (map snd pre) + n)
     \<and> (if pre = [] then lo else of_int (fst (last pre))) \<le> v \<and> v \<le> of_int b"
  using assms
proof (induction rank c lo bs rule: percentile_from.induct)
  case (2 rank c lo bound n rest)
  show ?case
  proof (cases "of_int (c + n) \<ge> rank")
    case True
    then have n: "of_int n > (0 :: rat)" using "2.prems"(2) by simp
    then have q: "0 \<le> (rank - of_int c) / of_int n" "(rank - of_int c) / of_int n \<le> 1"
      using "2.prems"(2) True by simp_all
    have v: "v = lo + (of_int bound - lo) * ((rank - of_int c) / of_int n)"
      using "2.prems"(1) True by simp
    have d: "0 \<le> of_int bound - lo" using "2.prems"(4) by simp
    have "lo \<le> v" "v \<le> of_int bound"
      using mult_nonneg_nonneg[OF d q(1)] mult_left_mono[OF q(2) d] unfolding v by simp_all
    then show ?thesis using True "2.prems"(2) by (intro exI[of _ "[]"]) auto
  next
    case False
    have "rest \<noteq> []" using "2.prems"(1) False by auto
    then have h: "(of_int bound :: rat) \<le> of_int (fst (hd rest))"
      using "2.prems"(5) by (cases rest) auto
    obtain pre b m post where *: "rest = pre @ (b, m) # post"
      "of_int (c + n + sum_list (map snd pre)) < rank" "rank \<le> of_int (c + n + sum_list (map snd pre) + m)"
      "(if pre = [] then of_int bound else of_int (fst (last pre))) \<le> v" "v \<le> of_int b"
      using "2.IH"[OF False] "2.prems" False h by auto
    then show ?thesis
      by (rule_tac exI[of _ "(bound, n) # pre"], rule_tac exI[of _ b], rule_tac exI[of _ m], rule_tac exI[of _ post])
        (simp add: add.assoc split: if_splits)
  qed
qed simp

lemma sum_points:
  "distinct (map fst d) \<Longrightarrow> distinct (map fst (fold add_point rows d))
   \<and> sum_list (map (pt_requests \<circ> snd) (fold add_point rows d))
     = sum_list (map (pt_requests \<circ> snd) d) + sum_list (map mt_requests rows)
   \<and> sum_list (map (pt_errors \<circ> snd) (fold add_point rows d))
     = sum_list (map (pt_errors \<circ> snd) d) + sum_list (map mt_errors rows)"
proof (induction rows arbitrary: d)
  case (Cons r rows)
  have "distinct (map fst (add_point r d))"
    using Cons.prems by (simp add: add_point_def distinct_keys_update split: option.splits)
  moreover have "sum_list (map (pt_requests \<circ> snd) (add_point r d)) = sum_list (map (pt_requests \<circ> snd) d) + mt_requests r"
    using sum_list_update_dict[OF Cons.prems, of "\<lambda>_. pt_requests"]
    by (auto simp: add_point_def comp_def split_def split: option.splits)
  moreover have "sum_list (map (pt_errors \<circ> snd) (add_point r d)) = sum_list (map (pt_errors \<circ> snd) d) + mt_errors r"
    using sum_list_update_dict[OF Cons.prems, of "\<lambda>_. pt_errors"]
    by (auto simp: add_point_def comp_def split_def split: option.splits)
  ultimately show ?case using Cons.IH[of "add_point r d"] by (simp add: comp_def)
qed simp

lemma sum_sort_key: "sum_list (map f (sort_key g xs)) = sum_list (map (f :: _ \<Rightarrow> int) xs)"
proof -
  have "mset (map f (sort_key g xs)) = mset (map f xs)" by simp
  then show ?thesis by (metis sum_mset_sum_list)
qed

lemma timeseries_sum:
  "sum_list (map pt_requests (timeseries rows)) = sum_list (map mt_requests rows)"
  "sum_list (map pt_errors (timeseries rows)) = sum_list (map mt_errors rows)"
  using sum_points[of "[]" rows] by (simp_all add: timeseries_def sum_sort_key comp_def)

lemma aggregate_sum:
  "sum_list (map ld_requests (fst (aggregate rows))) = sum_list (map mt_requests rows)"
  "sum_list (map ld_errors (fst (aggregate rows))) = sum_list (map mt_errors rows)"
  "lt_requests (snd (aggregate rows)) = sum_list (map mt_requests rows)"
proof -
  have ks: "distinct (first_occurrences [] (map route_of rows))"
    "set (map route_of rows) \<subseteq> set (first_occurrences [] (map route_of rows))"
    using first_occurrences_props[of "[]" "map route_of rows"] by simp_all
  have "ld_requests (load_of_route k rs) = sum_list (map mt_requests rs)"
    "ld_errors (load_of_route k rs) = sum_list (map mt_errors rs)" for k rs
    by (simp_all add: load_of_route_def Let_def)
  then show *: "sum_list (map ld_requests (fst (aggregate rows))) = sum_list (map mt_requests rows)"
    and "sum_list (map ld_errors (fst (aggregate rows))) = sum_list (map mt_errors rows)"
    using sum_groups[OF ks, of mt_requests] sum_groups[OF ks, of mt_errors]
    by (simp_all add: aggregate_def Let_def sum_sort_key comp_def)
  have "lt_requests (snd (aggregate rows)) = sum_list (map ld_requests (fst (aggregate rows)))"
    by (simp add: aggregate_def Let_def)
  then show "lt_requests (snd (aggregate rows)) = sum_list (map mt_requests rows)" using * by simp
qed

text \<open>
  The four readings of one day's load agree on any table: the number on the console card, the
  totals of the Load screen, the sum of its routes and the sum of its time series; the routes come
  busiest first and the points in order of time.
\<close>

theorem load_readings_agree:
  "(case load_screen now None None rows of
      Inl _ \<Rightarrow> False
    | Inr page \<Rightarrow>
        lt_requests (lg_totals page) = total_requests (now - window_hours * seconds 3600) rows
        \<and> sum_list (map ld_requests (lg_routes page)) = lt_requests (lg_totals page)
        \<and> sum_list (map pt_requests (lg_series page)) = lt_requests (lg_totals page)
        \<and> sum_list (map ld_errors (lg_routes page)) = sum_list (map pt_errors (lg_series page))
        \<and> sorted (map (\<lambda>l. - ld_requests l) (lg_routes page))
        \<and> \<not> lg_windowed page)"
proof -
  let ?rows = "window_rows (now - window_hours * seconds 3600) None rows"
  have total: "total_requests (now - window_hours * seconds 3600) rows = sum_list (map mt_requests ?rows)"
    by (simp add: total_requests_def window_rows_def)
  have "sorted (map (\<lambda>l. - ld_requests l) (fst (aggregate ?rows)))"
    by (simp add: aggregate_def Let_def)
  then show ?thesis
    unfolding load_screen_def detail_window_def from_ms_def Let_def total
    by (simp add: aggregate_sum timeseries_sum split_def)
qed

text \<open>
  The window of the Load screen never fails, says its documentation; but a bound that is
  infinite, or beyond what the platform's clock represents, raises an error the handler does not
  catch, on any table.  Text that is no number, \<open>nan\<close>, and dates outside the calendar are ignored.
\<close>

theorem load_window_can_fail:
  "load_screen now (Some ''inf'') None rows = Inl OverflowError
   \<and> load_screen now None (Some ''1e300'') rows = Inl OverflowError
   \<and> load_screen now (Some ''nan'') (Some ''soon'') rows = load_screen now None None rows
   \<and> load_screen now (Some ''1e15'') None rows = load_screen now None None rows"
proof -
  have "from_ms (Some ''inf'') = Inl OverflowError" "from_ms (Some ''1e300'') = Inl OverflowError"
    "from_ms (Some ''nan'') = Inr None" "from_ms (Some ''soon'') = Inr None" "from_ms (Some ''1e15'') = Inr None"
    by code_simp+
  then show ?thesis by (simp add: load_screen_def detail_window_def Let_def from_ms_def[of None])
qed

end
