(* ===== verification/Calendar.thy ===== *)
theory Calendar
  imports Py_Datetime
begin

text \<open>
  \<open>apps/calendar\<close>: an organisation's events.  The parser of dates and times (\<open>strptime\<close> with the two
  formats the router tries), the handlers of \<open>infra/router.py\<close>, the agenda and the month grid, the
  repository and the welcome event.

  A time zone is a parameter, since its rules come from the time zone database: the offset in force
  at an instant, and the offset a wall clock reading is taken with.  A wall clock reading is a number
  of microseconds like an instant.  A browser form that is refused is answered normally, and so
  commits what the handler changed before; a refused JSON request raises, and rolls back.
\<close>

section \<open>Time zones and parsing\<close>

record zone =
  zn_offset :: "instant \<Rightarrow> int"
  zn_wall_offset :: "int \<Rightarrow> int"

definition utc_zone :: zone where
  "utc_zone = \<lparr>zn_offset = (\<lambda>_. 0), zn_wall_offset = (\<lambda>_. 0)\<rparr>"

definition wall_of :: "zone \<Rightarrow> instant \<Rightarrow> int" where
  "wall_of z t = t + zn_offset z t"

text \<open>\<open>astimezone\<close>: it raises an \<open>OverflowError\<close> where the wall clock leaves the years 1 to 9999.\<close>

definition as_local :: "zone \<Rightarrow> instant \<Rightarrow> datetime_error + int" where
  "as_local z t = (if in_datetime_range (wall_of z t) then Inr (wall_of z t) else Inl OutOfRange)"

definition to_utc :: "zone \<Rightarrow> int \<Rightarrow> datetime_error + instant" where
  "to_utc z wall = (let t = wall - zn_wall_offset z wall in
     if in_datetime_range t then Inr t else Inl OutOfRange)"

definition split_at :: "char \<Rightarrow> string \<Rightarrow> (string \<times> string) option" where
  "split_at c s = (if c \<in> set s then Some (takeWhile (\<lambda>x. x \<noteq> c) s, tl (dropWhile (\<lambda>x. x \<noteq> c) s)) else None)"

definition number_token :: "int \<Rightarrow> int \<Rightarrow> string \<Rightarrow> int option" where
  "number_token lo hi s =
     (if 1 \<le> length s \<and> length s \<le> 2 \<and> list_all is_digit s
      then (case parse_nat s of None \<Rightarrow> None
            | Some n \<Rightarrow> if lo \<le> int n \<and> int n \<le> hi then Some (int n) else None)
      else None)"

definition year_token :: "string \<Rightarrow> int option" where
  "year_token s = (if length s = 4 \<and> list_all is_digit s then map_option int (parse_nat s) else None)"

definition valid_date :: "int \<Rightarrow> int \<Rightarrow> int \<Rightarrow> date option" where
  "valid_date y m d =
     (if 1 \<le> y \<and> 1 \<le> m \<and> m \<le> 12 \<and> 1 \<le> d \<and> d \<le> days_in_month (is_leap y) (nat m)
      then Some (ymd2ord (y, nat m, d)) else None)"

text \<open>\<open>%Y-%m-%d\<close>; the day may be a blank and one digit.\<close>

definition day_token :: "string \<Rightarrow> (int \<times> string) option" where
  "day_token s =
     (let blank = (case s of c # _ \<Rightarrow> c = CHR '' '' | [] \<Rightarrow> False); s' = (if blank then tl s else s);
          tok = takeWhile (\<lambda>c. \<not> is_space c) s' in
      if blank \<and> length tok \<noteq> 1 then None
      else map_option (\<lambda>d. (d, dropWhile (\<lambda>c. \<not> is_space c) s')) (number_token 1 31 tok))"

definition date_prefix :: "string \<Rightarrow> (date \<times> string) option" where
  "date_prefix s =
     (case split_at CHR ''-'' s of None \<Rightarrow> None
      | Some (y, s1) \<Rightarrow>
     (case split_at CHR ''-'' s1 of None \<Rightarrow> None
      | Some (m, s2) \<Rightarrow>
     (case (year_token y, number_token 1 12 m, day_token s2) of
        (Some y, Some m, Some (d, s3)) \<Rightarrow> map_option (\<lambda>o'. (o', s3)) (valid_date y m d)
      | _ \<Rightarrow> None)))"

definition clock_time :: "bool \<Rightarrow> string \<Rightarrow> int option" where
  "clock_time with_seconds s =
     (case split_at CHR '':'' s of None \<Rightarrow> None
      | Some (h, s1) \<Rightarrow>
     (case (if with_seconds then split_at CHR '':'' s1 else Some (s1, ''0'')) of None \<Rightarrow> None
      | Some (mi, se) \<Rightarrow>
     (case (number_token 0 23 h, number_token 0 59 mi, number_token 0 59 se) of
        (Some h, Some mi, Some se) \<Rightarrow> Some (h * seconds 3600 + mi * seconds 60 + seconds se)
      | _ \<Rightarrow> None)))"

definition strptime :: "bool \<Rightarrow> string \<Rightarrow> int option" where
  "strptime with_seconds s =
     (case date_prefix s of None \<Rightarrow> None
      | Some (o', rest) \<Rightarrow>
          if rest = [] then None
          else map_option (\<lambda>t. start_of_day o' + t) (clock_time with_seconds (dropWhile is_space rest)))"

definition parse_dt :: "string \<Rightarrow> zone \<Rightarrow> datetime_error + instant option" where
  "parse_dt raw z =
     (let s = map (\<lambda>c. if c = CHR ''T'' then CHR '' '' else c) (strip raw) in
      case strptime False s of
        Some wall \<Rightarrow> map_sum id Some (to_utc z wall)
      | None \<Rightarrow> (case strptime True s of
          Some wall \<Rightarrow> map_sum id Some (to_utc z wall)
        | None \<Rightarrow> Inr None))"

type_synonym form = "(string, string) dict"

definition combine :: "form \<Rightarrow> string \<Rightarrow> string" where
  "combine body prefix =
     (case dict_get body prefix [] of
        [] \<Rightarrow> strip (strip (dict_get body (prefix @ ''_date'') []) @ '' ''
                @ strip (dict_get body (prefix @ ''_time'') []))
      | c # cs \<Rightarrow> strip (c # cs))"

datatype calendar_failure = Invalid string | CalendarCrash

definition require_times :: "string \<Rightarrow> string \<Rightarrow> zone \<Rightarrow> calendar_failure + instant \<times> instant" where
  "require_times start_raw end_raw z =
     (case (parse_dt start_raw z, parse_dt end_raw z) of
        (Inr start, Inr end') \<Rightarrow>
          (case (start, end') of
             (Some s, Some e) \<Rightarrow>
               if e \<le> s then Inl (Invalid ''The end time must be after the start time'') else Inr (s, e)
           | _ \<Rightarrow> Inl (Invalid ''A valid start and end are required''))
      | _ \<Rightarrow> Inl CalendarCrash)"

section \<open>Events\<close>

record cal_event =
  ev_id :: uuid
  ev_org :: uuid
  ev_user :: uuid
  ev_title :: string
  ev_starts :: instant
  ev_ends :: instant
  ev_location :: string
  ev_description :: string

text \<open>The two wall clock readings of an event, or the error the first conversion out of range raises.\<close>

definition local_times :: "zone \<Rightarrow> cal_event \<Rightarrow> datetime_error + int \<times> int" where
  "local_times z e = bind_err (as_local z (ev_starts e)) (\<lambda>s.
     bind_err (as_local z (ev_ends e)) (\<lambda>f. Inr (s, f)))"

definition shows_locally :: "zone \<Rightarrow> cal_event \<Rightarrow> bool" where
  "shows_locally z e = (case local_times z e of Inr _ \<Rightarrow> True | Inl _ \<Rightarrow> False)"

datatype cal_fact =
    CalendarCreated uuid uuid string
  | CalendarUpdated uuid uuid string
  | CalendarDeleted uuid uuid string

datatype cal_answer =
    EventRead cal_event
  | EventRedirect uuid
  | EventRefused nat string
  | EventForm string form "cal_event option" string
  | EventGone
  | EventCrash

type_synonym cal_result = "cal_event list \<times> cal_fact list \<times> cal_answer"

definition event_get :: "uuid \<Rightarrow> uuid \<Rightarrow> cal_event list \<Rightarrow> cal_event option" where
  "event_get o' pk rows = List.find (\<lambda>r. ev_id r = pk \<and> ev_org r = o') rows"

definition event_all :: "uuid \<Rightarrow> cal_event list \<Rightarrow> cal_event list" where
  "event_all o' rows = sort_key ev_starts (filter (\<lambda>r. ev_org r = o') rows)"

definition upcoming :: "uuid \<Rightarrow> instant \<Rightarrow> nat \<Rightarrow> cal_event list \<Rightarrow> cal_event list" where
  "upcoming o' now limit rows =
     take limit (sort_key (\<lambda>r. (ev_starts r, ev_id r)) (filter (\<lambda>r. ev_org r = o' \<and> ev_starts r \<ge> now) rows))"

definition event_save :: "cal_event \<Rightarrow> cal_event list \<Rightarrow> cal_event list" where
  "event_save e rows = update_where (\<lambda>r. ev_id r = ev_id e) (\<lambda>_. e) rows"

definition cal_reject :: "bool \<Rightarrow> form \<Rightarrow> cal_event option \<Rightarrow> string \<Rightarrow> string \<Rightarrow> cal_answer" where
  "cal_reject json body event action error =
     (if json then EventRefused 422 error else EventForm action body event error)"

definition create_event :: "bool \<Rightarrow> zone \<Rightarrow> uuid \<Rightarrow> uuid \<Rightarrow> uuid \<Rightarrow> form \<Rightarrow> cal_event list \<Rightarrow> cal_result" where
  "create_event json z o' user new_id body rows =
     (let title = strip (dict_get body ''title'' []) in
      if title = [] then (rows, [], cal_reject json body None ''calendar'' ''A title is required'')
      else (case require_times (combine body ''start'') (combine body ''end'') z of
              Inl CalendarCrash \<Rightarrow> (rows, [], EventCrash)
            | Inl (Invalid error) \<Rightarrow> (rows, [], cal_reject json body None ''calendar'' error)
            | Inr (s, e) \<Rightarrow>
                (let ev = \<lparr>ev_id = new_id, ev_org = o', ev_user = user, ev_title = title, ev_starts = s,
                       ev_ends = e, ev_location = dict_get body ''location'' [],
                       ev_description = dict_get body ''description'' []\<rparr> in
                 (rows @ [ev], [CalendarCreated o' new_id title],
                  if json then EventRead ev else EventRedirect new_id))))"

definition view_event :: "uuid \<Rightarrow> uuid \<Rightarrow> cal_event list \<Rightarrow> cal_result" where
  "view_event o' event_id rows =
     (case event_get o' event_id rows of
        None \<Rightarrow> (rows, [], EventRefused 404 ''Not Found'')
      | Some e \<Rightarrow> (rows, [], EventRead e))"

text \<open>The patch, part by part: the title, the times, the other fields.\<close>

definition patch_title :: "form \<Rightarrow> cal_event \<Rightarrow> cal_event" where
  "patch_title body e =
     (case map_of body ''title'' of None \<Rightarrow> e
      | Some t \<Rightarrow> if strip t = [] then e else e\<lparr>ev_title := strip t\<rparr>)"

definition patch_times :: "form \<Rightarrow> zone \<Rightarrow> cal_event \<Rightarrow> calendar_failure + cal_event" where
  "patch_times body z e =
     (let s = combine body ''start''; f = combine body ''end'' in
      if s = [] \<and> f = [] then Inr e
      else (case require_times s f z of
              Inl x \<Rightarrow> Inl x
            | Inr (s, f) \<Rightarrow> Inr (e\<lparr>ev_starts := s, ev_ends := f\<rparr>)))"

definition patch_texts :: "form \<Rightarrow> cal_event \<Rightarrow> cal_event" where
  "patch_texts body e =
     (let e1 = (case map_of body ''location'' of None \<Rightarrow> e | Some l \<Rightarrow> e\<lparr>ev_location := l\<rparr>) in
      case map_of body ''description'' of None \<Rightarrow> e1 | Some d \<Rightarrow> e1\<lparr>ev_description := d\<rparr>)"

definition update_event :: "bool \<Rightarrow> zone \<Rightarrow> uuid \<Rightarrow> uuid \<Rightarrow> form \<Rightarrow> cal_event list \<Rightarrow> cal_result" where
  "update_event json z o' event_id body rows =
     (case event_get o' event_id rows of
        None \<Rightarrow> (rows, [], EventRefused 404 ''Not Found'')
      | Some e \<Rightarrow>
          (let e1 = patch_title body e in
           case patch_times body z e1 of
             Inl CalendarCrash \<Rightarrow> (rows, [], EventCrash)
           | Inl (Invalid error) \<Rightarrow>
               (if json then rows else event_save e1 rows, [],
                cal_reject json body (Some e1) (''calendar/'' @ uuid_str event_id) error)
           | Inr e2 \<Rightarrow>
               (let e3 = patch_texts body e2 in
                (event_save e3 rows, [CalendarUpdated o' event_id (ev_title e3)],
                 if json then EventRead e3 else EventRedirect event_id))))"

definition delete_event :: "uuid \<Rightarrow> uuid \<Rightarrow> cal_event list \<Rightarrow> cal_result" where
  "delete_event o' event_id rows =
     (case event_get o' event_id rows of
        None \<Rightarrow> (rows, [], EventGone)
      | Some e \<Rightarrow> (delete_where (\<lambda>r. ev_id r = ev_id e) rows, [CalendarDeleted o' event_id (ev_title e)], EventGone))"

definition welcome_title :: string where "welcome_title = ''Welcome to your team calendar''"

definition seed_welcome_event :: "uuid \<Rightarrow> uuid \<Rightarrow> uuid \<Rightarrow> instant \<Rightarrow> cal_event list \<Rightarrow> cal_event list" where
  "seed_welcome_event o' owner new_id now rows =
     (let start = start_of_day (date_of now) + 9 * seconds 3600 in
      rows @ [\<lparr>ev_id = new_id, ev_org = o', ev_user = owner, ev_title = welcome_title, ev_starts = start,
         ev_ends = start + seconds 3600, ev_location = [],
         ev_description = ''Edit or delete this sample event to get started.''\<rparr>])"

definition calendar_card :: "uuid \<Rightarrow> instant \<Rightarrow> nat \<Rightarrow> cal_event list \<Rightarrow> string \<times> string list" where
  "calendar_card o' now recent_items rows =
     (let n = count_where (\<lambda>r. ev_org r = o' \<and> ev_starts r \<ge> now) rows in
      (if n \<noteq> 0 then str_int (int n) @ '' upcoming'' else ''No upcoming events'',
       if n \<noteq> 0 then map ev_title (upcoming o' now recent_items rows) else []))"

section \<open>Text\<close>

definition month_names :: "string list" where
  "month_names = [''January'', ''February'', ''March'', ''April'', ''May'', ''June'', ''July'', ''August'',
     ''September'', ''October'', ''November'', ''December'']"

definition day_names :: "string list" where
  "day_names = [''Monday'', ''Tuesday'', ''Wednesday'', ''Thursday'', ''Friday'', ''Saturday'', ''Sunday'']"

definition format_day :: "int \<Rightarrow> string" where
  "format_day wall = (case ord2ymd (date_of wall) of (y, m, d) \<Rightarrow>
     str_int d @ '' '' @ month_names ! (m - 1) @ '' '' @ str_int y)"

text \<open>The dash between the times is no ASCII character; it is kept apart.\<close>

datatype time_label = SameDay string string string | AcrossDays string string string string

definition format_event_time :: "int \<Rightarrow> int \<Rightarrow> time_label" where
  "format_event_time s e =
     (if date_of s = date_of e then SameDay (format_day s) (format_hm s) (format_hm e)
      else AcrossDays (format_day s) (format_hm s) (format_day e) (format_hm e))"

definition edit_event_form :: "zone \<Rightarrow> cal_event \<Rightarrow> datetime_error + form" where
  "edit_event_form z e = bind_err (local_times z e) (\<lambda>(s, f).
      Inr [(''title'', ev_title e),
       (''start_date'', date_isoformat (date_of s)), (''start_time'', format_hm s),
       (''end_date'', date_isoformat (date_of f)), (''end_time'', format_hm f),
       (''location'', ev_location e), (''description'', ev_description e)])"

text \<open>The page of an event: the event and the line that says when it is.\<close>

definition event_page :: "uuid \<Rightarrow> zone \<Rightarrow> uuid \<Rightarrow> cal_event list \<Rightarrow> datetime_error + (cal_event \<times> time_label) option" where
  "event_page o' z event_id rows =
     (case event_get o' event_id rows of
        None \<Rightarrow> Inr None
      | Some e \<Rightarrow> bind_err (local_times z e) (\<lambda>(s, f). Inr (Some (e, format_event_time s f))))"

section \<open>Agenda and month\<close>

text \<open>Both convert every event first; below, \<open>wall_of\<close> reads a clock that has been converted.\<close>

record agenda_entry =
  ae_id :: uuid
  ae_title :: string
  ae_time :: "string \<times> string"
  ae_location :: string

definition agenda_label :: "int \<Rightarrow> string" where
  "agenda_label wall = day_names ! nat (weekday (date_of wall)) @ '', '' @ format_day wall"

definition agenda_entry :: "zone \<Rightarrow> cal_event \<Rightarrow> agenda_entry" where
  "agenda_entry z e = \<lparr>ae_id = ev_id e, ae_title = ev_title e,
     ae_time = (format_hm (wall_of z (ev_starts e)), format_hm (wall_of z (ev_ends e))),
     ae_location = ev_location e\<rparr>"

definition agenda_add :: "zone \<Rightarrow> (string \<times> agenda_entry list) list \<Rightarrow> cal_event \<Rightarrow> (string \<times> agenda_entry list) list" where
  "agenda_add z groups e =
     (let label = agenda_label (wall_of z (ev_starts e));
          groups' = (if groups = [] \<or> fst (last groups) \<noteq> label then groups @ [(label, [])] else groups) in
      butlast groups' @ [(fst (last groups'), snd (last groups') @ [agenda_entry z e])])"

definition agenda :: "cal_event list \<Rightarrow> zone \<Rightarrow> datetime_error + (string \<times> agenda_entry list) list" where
  "agenda events z =
     (if list_all (shows_locally z) events then Inr (foldl (agenda_add z) [] events) else Inl OutOfRange)"

record cell_event =
  ce_id :: uuid
  ce_title :: string
  ce_time :: string
  ce_is_start :: bool
  ce_is_end :: bool
  ce_multi_day :: bool

record month_cell =
  mc_day :: int
  mc_in_month :: bool
  mc_is_today :: bool
  mc_events :: "cell_event list"

definition local_span :: "zone \<Rightarrow> cal_event \<Rightarrow> date \<times> date" where
  "local_span z e = (date_of (wall_of z (ev_starts e)), date_of (wall_of z (ev_ends e)))"

definition day_add :: "cal_event \<Rightarrow> date \<Rightarrow> (date, cal_event list) dict \<Rightarrow> (date, cal_event list) dict" where
  "day_add e d by_day = AList.update d (dict_get by_day d [] @ [e]) by_day"

definition days_of :: "zone \<Rightarrow> cal_event \<Rightarrow> date list" where
  "days_of z e = (case local_span z e of (s, f) \<Rightarrow> map (\<lambda>i. s + int i) [0..<nat (f - s + 1)])"

definition events_by_day :: "cal_event list \<Rightarrow> zone \<Rightarrow> (date, cal_event list) dict" where
  "events_by_day events z = fold (\<lambda>e. fold (day_add e) (days_of z e)) events []"

definition cell_event :: "zone \<Rightarrow> date \<Rightarrow> cal_event \<Rightarrow> cell_event" where
  "cell_event z d e = (case local_span z e of (s, f) \<Rightarrow>
     \<lparr>ce_id = ev_id e, ce_title = ev_title e,
      ce_time = (if s = d then format_hm (wall_of z (ev_starts e)) else []),
      ce_is_start = (s = d), ce_is_end = (f = d), ce_multi_day = (f > s)\<rparr>)"

text \<open>
  \<open>calendar.Calendar(0).monthdatescalendar\<close>: whole weeks, Monday first, that cover the month; it raises
  when they leave the calendar, that is in the last month of the year 9999.
\<close>

definition month_days :: "int \<Rightarrow> nat \<Rightarrow> date list" where
  "month_days y m =
     (let first = ymd2ord (y, m, 1); final = first + days_in_month (is_leap y) m - 1 in
      [first - weekday first .. final + (6 - weekday final)])"

fun weeks_of :: "'a list \<Rightarrow> 'a list list" where
  "weeks_of [] = []" |
  "weeks_of ds = take 7 ds # weeks_of (drop 7 ds)"

definition month_dates_calendar :: "int \<Rightarrow> nat \<Rightarrow> datetime_error + date list list" where
  "month_dates_calendar y m =
     (if list_ex (\<lambda>d. d > last_ordinal \<or> d < 1) (month_days y m) then Inl OutOfRange
      else Inr (weeks_of (month_days y m)))"

definition month_cell :: "cal_event list \<Rightarrow> nat \<Rightarrow> date \<Rightarrow> zone \<Rightarrow> date \<Rightarrow> month_cell" where
  "month_cell events ref_month today z d = (case ord2ymd d of (_, m, day) \<Rightarrow>
     \<lparr>mc_day = day, mc_in_month = (m = ref_month), mc_is_today = (d = today),
      mc_events = map (cell_event z d) (sort_key ev_starts (dict_get (events_by_day events z) d []))\<rparr>)"

definition month_grid :: "cal_event list \<Rightarrow> date \<Rightarrow> date \<Rightarrow> zone \<Rightarrow> datetime_error + month_cell list list" where
  "month_grid events ref today z =
     (if list_all (shows_locally z) events
      then (case ord2ymd ref of (y, m, _) \<Rightarrow>
              map_sum id (map (map (month_cell events m today z))) (month_dates_calendar y m))
      else Inl OutOfRange)"

definition ref_month :: "string option \<Rightarrow> instant \<Rightarrow> datetime_error + date" where
  "ref_month raw now =
     (let s = (case raw of None \<Rightarrow> [] | Some s \<Rightarrow> s) in
      if s = [] then Inr (date_of now)
      else map_sum id (\<lambda>t. case t of Some t \<Rightarrow> date_of t | None \<Rightarrow> date_of now)
        (parse_dt (s @ ''-01 00:00'') utc_zone))"

definition shift_month :: "date \<Rightarrow> int \<Rightarrow> string" where
  "shift_month ref months = (case ord2ymd ref of (y, m, _) \<Rightarrow>
     (let total = y * 12 + (int m - 1) + months in
      zero_pad 4 (total div 12) @ ''-'' @ zero_pad 2 (total mod 12 + 1)))"

record calendar_page =
  cp_agenda :: "(string \<times> agenda_entry list) list"
  cp_has_events :: bool
  cp_weeks :: "month_cell list list"
  cp_month_label :: string
  cp_prev :: string
  cp_next :: string

definition list_events :: "uuid \<Rightarrow> zone \<Rightarrow> string option \<Rightarrow> instant \<Rightarrow> cal_event list
    \<Rightarrow> datetime_error + calendar_page" where
  "list_events o' z month now rows =
     (let events = event_all o' rows in
      bind_err (ref_month month now) (\<lambda>ref.
        bind_err (as_local z now) (\<lambda>today.
        bind_err (agenda events z) (\<lambda>days.
        bind_err (month_grid events ref (date_of today) z) (\<lambda>weeks.
          case ord2ymd ref of (y, m, _) \<Rightarrow>
          Inr \<lparr>cp_agenda = days, cp_has_events = (events \<noteq> []), cp_weeks = weeks,
               cp_month_label = month_names ! (m - 1) @ '' '' @ str_int y,
               cp_prev = shift_month ref (- 1), cp_next = shift_month ref 1\<rparr>)))))"

end
