(* ===== verification/Calendar_Requests.thy ===== *)
theory Calendar_Requests
  imports Calendar
begin

text \<open>
  What holds of the calendar's requests: the events stay sound through any of them, and what a request
  changes and what it records.
\<close>

section \<open>Requests\<close>

datatype cal_request =
    CreateEvent uuid form
  | ViewEvent uuid
  | UpdateEvent uuid form
  | DeleteEvent uuid

fun cal_handle :: "bool \<Rightarrow> zone \<Rightarrow> uuid \<Rightarrow> uuid \<Rightarrow> cal_request \<Rightarrow> cal_event list \<Rightarrow> cal_result" where
  "cal_handle json z o' user (CreateEvent new_id body) rows = create_event json z o' user new_id body rows" |
  "cal_handle json z o' user (ViewEvent i) rows = view_event o' i rows" |
  "cal_handle json z o' user (UpdateEvent i body) rows = update_event json z o' i body rows" |
  "cal_handle json z o' user (DeleteEvent i) rows = delete_event o' i rows"

definition event_ok :: "cal_event \<Rightarrow> bool" where
  "event_ok e \<longleftrightarrow> ev_starts e < ev_ends e \<and> ev_title e \<noteq> [] \<and> strip (ev_title e) = ev_title e"

definition calendar_ok :: "cal_event list \<Rightarrow> bool" where
  "calendar_ok rows \<longleftrightarrow> distinct (map ev_id rows) \<and> (\<forall>e \<in> set rows. event_ok e)"

fun fresh_for :: "cal_request \<Rightarrow> cal_event list \<Rightarrow> bool" where
  "fresh_for (CreateEvent new_id _) rows = (new_id \<notin> ev_id ` set rows)" |
  "fresh_for _ rows = True"

lemma lstrip_head: "lstrip s = c # t \<Longrightarrow> \<not> is_space c"
  unfolding lstrip_def by (metis dropWhile_eq_Cons_conv)

lemma lstrip_idem [simp]: "lstrip (lstrip s) = lstrip s"
  by (simp add: lstrip_def)

lemma lstrip_rstrip:
  assumes s: "lstrip s = s"
  shows "lstrip (rev (lstrip (rev s))) = rev (lstrip (rev s))"
proof (cases "rev (lstrip (rev s))")
  case (Cons c t)
  obtain u where "rev s = u @ lstrip (rev s)" unfolding lstrip_def by (metis takeWhile_dropWhile_id)
  then have "s = rev (lstrip (rev s)) @ rev u" by (metis rev_append rev_rev_ident)
  then have "s = c # t @ rev u" by (simp add: Cons)
  then have "\<not> is_space c" using s lstrip_head by metis
  then have "lstrip (c # t) = c # t" by (simp add: lstrip_def)
  then show ?thesis unfolding Cons .
next
  case Nil
  then show ?thesis by (simp only: Nil) (simp add: lstrip_def)
qed

lemma strip_idem [simp]: "strip (strip s) = strip s"
  unfolding strip_def by (simp add: lstrip_rstrip)

lemma event_getD: "event_get o' i rows = Some e \<Longrightarrow> e \<in> set rows \<and> ev_id e = i \<and> ev_org e = o'"
  by (auto simp: event_get_def dest: find_SomeD)

lemma patch_title_keeps [simp]:
  "ev_id (patch_title body e) = ev_id e" "ev_org (patch_title body e) = ev_org e"
  "ev_starts (patch_title body e) = ev_starts e" "ev_ends (patch_title body e) = ev_ends e"
  by (simp_all add: patch_title_def split: option.splits)

lemma patch_title_ok: "event_ok e \<Longrightarrow> event_ok (patch_title body e)"
  by (simp add: patch_title_def event_ok_def split: option.splits)

lemma require_times_ordered: "require_times s f z = Inr (a, b) \<Longrightarrow> a < b"
  by (auto simp: require_times_def split: sum.splits option.splits if_splits)

lemma patch_times_ok:
  "event_ok e \<Longrightarrow> patch_times body z e = Inr e' \<Longrightarrow>
   event_ok e' \<and> ev_id e' = ev_id e \<and> ev_org e' = ev_org e \<and> ev_title e' = ev_title e"
  by (auto simp: patch_times_def Let_def event_ok_def split: sum.splits if_splits dest!: require_times_ordered)

lemma patch_texts_ok:
  "event_ok (patch_texts body e) = event_ok e" "ev_id (patch_texts body e) = ev_id e"
  "ev_org (patch_texts body e) = ev_org e" "ev_title (patch_texts body e) = ev_title e"
  by (simp_all add: patch_texts_def event_ok_def Let_def split: option.splits)

lemma event_save_ok:
  assumes "calendar_ok rows" "e \<in> set rows" "event_ok e'" "ev_id e' = ev_id e" "ev_org e' = ev_org e" "ev_org e = o'"
  shows "calendar_ok (event_save e' rows)" "filter (\<lambda>r. ev_org r \<noteq> o') (event_save e' rows) = filter (\<lambda>r. ev_org r \<noteq> o') rows"
proof -
  show "calendar_ok (event_save e' rows)"
    using assms map_update_where_key[of "\<lambda>r. ev_id r = ev_id e'" ev_id "\<lambda>_. e'" rows]
    by (auto simp: calendar_ok_def event_save_def in_update_where)
  have "r = e" if "r \<in> set rows" "ev_id r = ev_id e" for r
    using assms(1,2) that by (auto simp: calendar_ok_def distinct_map dest: inj_onD)
  then have org: "r \<in> set rows \<Longrightarrow> ev_id r = ev_id e' \<Longrightarrow> ev_org r = ev_org e'" for r using assms(4,5) by metis
  have "filter (\<lambda>r. ev_org r \<noteq> o') (event_save e' rows)
      = update_where (\<lambda>r. ev_id r = ev_id e') (\<lambda>_. e') (filter (\<lambda>r. ev_org r \<noteq> o') rows)"
    unfolding event_save_def by (rule filter_update_where_same) (simp add: org)
  also have "\<dots> = filter (\<lambda>r. ev_org r \<noteq> o') rows"
    by (rule update_where_id) (use org assms(5,6) in auto)
  finally show "filter (\<lambda>r. ev_org r \<noteq> o') (event_save e' rows) = filter (\<lambda>r. ev_org r \<noteq> o') rows" .
qed

lemma create_sound:
  assumes "calendar_ok rows" "new_id \<notin> ev_id ` set rows"
  shows "calendar_ok (fst (create_event json z o' user new_id body rows))
    \<and> filter (\<lambda>r. ev_org r \<noteq> o') (fst (create_event json z o' user new_id body rows)) = filter (\<lambda>r. ev_org r \<noteq> o') rows"
  using assms require_times_ordered
  by (auto simp: create_event_def Let_def calendar_ok_def event_ok_def split: sum.splits calendar_failure.splits)

lemma update_sound:
  assumes ok: "calendar_ok rows"
  shows "calendar_ok (fst (update_event json z o' i body rows))
    \<and> filter (\<lambda>r. ev_org r \<noteq> o') (fst (update_event json z o' i body rows)) = filter (\<lambda>r. ev_org r \<noteq> o') rows"
proof (cases "event_get o' i rows")
  case (Some e)
  note e = event_getD[OF Some]
  have ev: "event_ok e" using ok e by (simp add: calendar_ok_def)
  have 1: "event_ok (patch_title body e)" by (rule patch_title_ok[OF ev])
  show ?thesis
  proof (cases "patch_times body z (patch_title body e)")
    case (Inl x)
    then show ?thesis
      using ok event_save_ok[OF ok, of e "patch_title body e" o'] 1 e
      by (cases x) (simp_all add: update_event_def Some Let_def)
  next
    case (Inr e2)
    note e2 = patch_times_ok[OF 1 Inr]
    then show ?thesis
      using event_save_ok[OF ok, of e "patch_texts body e2" o'] e
      by (simp add: update_event_def Some Inr Let_def patch_texts_ok)
  qed
qed (use ok in \<open>simp add: update_event_def\<close>)

lemma delete_sound:
  assumes ok: "calendar_ok rows"
  shows "calendar_ok (fst (delete_event o' i rows))
    \<and> filter (\<lambda>r. ev_org r \<noteq> o') (fst (delete_event o' i rows)) = filter (\<lambda>r. ev_org r \<noteq> o') rows"
proof (cases "event_get o' i rows")
  case (Some e)
  have "r = e" if "r \<in> set rows" "ev_id r = ev_id e" for r
    using ok event_getD[OF Some] that by (auto simp: calendar_ok_def distinct_map dest: inj_onD)
  then have "filter (\<lambda>r. ev_org r \<noteq> o') (delete_where (\<lambda>r. ev_id r = ev_id e) rows) = filter (\<lambda>r. ev_org r \<noteq> o') rows"
    using event_getD[OF Some] unfolding delete_where_def filter_filter by (intro filter_cong) auto
  then show ?thesis using ok
    by (simp add: delete_event_def Some calendar_ok_def distinct_map_delete_where in_delete_where)
qed (use ok in \<open>simp add: delete_event_def\<close>)

lemma request_sound:
  assumes "calendar_ok rows" "fresh_for req rows"
  shows "calendar_ok (fst (cal_handle json z o' user req rows))"
    "filter (\<lambda>r. ev_org r \<noteq> o') (fst (cal_handle json z o' user req rows)) = filter (\<lambda>r. ev_org r \<noteq> o') rows"
  using assms create_sound update_sound delete_sound
  by (cases req; simp add: view_event_def split: option.splits)+

text \<open>A history: each request with its format, its organisation's zone, its organisation and its member.\<close>

type_synonym cal_step = "bool \<times> zone \<times> uuid \<times> uuid \<times> cal_request"

fun cal_run :: "cal_step list \<Rightarrow> cal_event list \<Rightarrow> cal_event list" where
  "cal_run [] rows = rows" |
  "cal_run ((json, z, o', user, req) # steps) rows = cal_run steps (fst (cal_handle json z o' user req rows))"

fun steps_fresh :: "cal_step list \<Rightarrow> cal_event list \<Rightarrow> bool" where
  "steps_fresh [] rows = True" |
  "steps_fresh ((json, z, o', user, req) # steps) rows =
     (fresh_for req rows \<and> steps_fresh steps (fst (cal_handle json z o' user req rows)))"

text \<open>
  Whatever members send to the calendar, in any format and any time zone, every stored event
  ends after it starts and has a trimmed title that is not blank, identifiers stay distinct, and the
  requests of some organisations leave the events of the others exactly as they were.
\<close>

theorem calendar_events_sound:
  assumes "calendar_ok rows" "steps_fresh steps rows"
  shows "calendar_ok (cal_run steps rows)
    \<and> (o' \<notin> (\<lambda>(_, _, o', _, _). o') ` set steps \<longrightarrow>
         filter (\<lambda>r. ev_org r = o') (cal_run steps rows) = filter (\<lambda>r. ev_org r = o') rows)"
  using assms
proof (induction steps rows rule: cal_run.induct)
  case (2 json z p user req steps rows)
  let ?rows = "fst (cal_handle json z p user req rows)"
  have ok: "calendar_ok ?rows" using 2 request_sound(1) by simp
  have "filter (\<lambda>r. ev_org r = o') ?rows = filter (\<lambda>r. ev_org r = o') rows" if "o' \<noteq> p"
  proof -
    have "filter (\<lambda>r. ev_org r = o') (filter (\<lambda>r. ev_org r \<noteq> p) ?rows)
        = filter (\<lambda>r. ev_org r = o') (filter (\<lambda>r. ev_org r \<noteq> p) rows)"
      using 2 request_sound(2)[where rows = rows and req = req and json = json and z = z and o' = p and user = user] by simp
    moreover have "(\<lambda>r :: cal_event. ev_org r \<noteq> p \<and> ev_org r = o') = (\<lambda>r. ev_org r = o')" using that by auto
    ultimately show ?thesis unfolding filter_filter by (simp only:)
  qed
  then show ?case using 2 ok by auto
qed simp

definition demo_steps :: "cal_step list" where
  "demo_steps = [(True, utc_zone, 1, 7, CreateEvent 5 [(''title'', '' Launch ''), (''start'', ''2026-07-01T14:00''),
     (''end'', ''2026-07-01 15:00'')])]"

theorem calendar_events_sound_witness:
  "cal_run demo_steps [] \<noteq> [] \<and> calendar_ok (cal_run demo_steps [])"
proof -
  have "calendar_ok []" "steps_fresh demo_steps []" "cal_run demo_steps [] \<noteq> []"
    by (simp add: calendar_ok_def, code_simp, code_simp)
  then show ?thesis using calendar_events_sound[of "[]" demo_steps 1] by simp
qed

section \<open>A refused form\<close>

text \<open>
  C24.  A request changes the events without recording a fact in exactly one case: a browser's edit
  form, refused with status 422 for its times, whose new title is not blank and differs.  The event is
  renamed although the member is told that the form was refused; the same body sent as JSON is
  refused and changes nothing.
\<close>

theorem refused_form_renames:
  assumes "calendar_ok rows" "fresh_for req rows"
  shows "(case cal_handle json z o' user req rows of (rows', facts, _) \<Rightarrow>
      (facts = [] \<and> rows' \<noteq> rows) =
        (\<exists>i body e. req = UpdateEvent i body \<and> \<not> json \<and> event_get o' i rows = Some e
           \<and> (\<exists>msg. patch_times body z (patch_title body e) = Inl (Invalid msg))
           \<and> patch_title body e \<noteq> e))"
proof (cases req)
  case (UpdateEvent i body)
  show ?thesis
  proof (cases "event_get o' i rows")
    case (Some e)
    note e = event_getD[OF Some]
    have same: "event_save e' rows = rows \<longleftrightarrow> e' = e" if "ev_id e' = ev_id e" for e'
    proof
      assume "event_save e' rows = rows"
      then have "\<forall>r \<in> set rows. ev_id r = ev_id e \<longrightarrow> r = e'"
        using that by (induction rows) (auto simp: event_save_def)
      then show "e' = e" using e by blast
    next
      assume "e' = e"
      moreover have "r = e" if "r \<in> set rows" "ev_id r = ev_id e" for r
        using assms(1) e that by (auto simp: calendar_ok_def distinct_map dest: inj_onD)
      ultimately show "event_save e' rows = rows"
        unfolding event_save_def update_where_def by (intro map_idI) auto
    qed
    show ?thesis
    proof (cases "patch_times body z (patch_title body e)")
      case (Inl x)
      then show ?thesis by (cases x) (auto simp: UpdateEvent update_event_def Some Let_def same)
    next
      case (Inr e2)
      then show ?thesis by (simp add: UpdateEvent update_event_def Some Let_def)
    qed
  qed (simp add: UpdateEvent update_event_def)
qed (auto simp: create_event_def view_event_def delete_event_def Let_def
    split: option.splits sum.splits calendar_failure.splits)

definition demo_event :: cal_event where
  "demo_event = \<lparr>ev_id = 5, ev_org = 1, ev_user = 7, ev_title = ''Launch'', ev_starts = 0, ev_ends = 60000000,
     ev_location = [], ev_description = []\<rparr>"

definition demo_form :: form where
  "demo_form = [(''title'', ''Party''), (''start_date'', ''2026-07-01''), (''start_time'', ''15:00''),
     (''end_date'', ''2026-07-01''), (''end_time'', ''14:00'')]"

theorem refused_form_renames_witness:
  "fst (cal_handle False utc_zone 1 7 (UpdateEvent 5 demo_form) [demo_event]) \<noteq> [demo_event]
   \<and> fst (snd (cal_handle False utc_zone 1 7 (UpdateEvent 5 demo_form) [demo_event])) = []"
proof -
  have ok: "calendar_ok [demo_event]" by (simp add: calendar_ok_def event_ok_def demo_event_def) code_simp
  have "event_get 1 5 [demo_event] = Some demo_event" by code_simp
  moreover have "patch_times demo_form utc_zone (patch_title demo_form demo_event)
      = Inl (Invalid ''The end time must be after the start time'')" by code_simp
  moreover have "ev_title (patch_title demo_form demo_event) = ''Party''" "ev_title demo_event = ''Launch''"
    by code_simp+
  then have "patch_title demo_form demo_event \<noteq> demo_event" by force
  ultimately show ?thesis
    using refused_form_renames[OF ok, where req = "UpdateEvent 5 demo_form" and json = False and z = utc_zone and o' = 1 and user = 7]
    by (auto split: prod.splits)
qed

end
