(* ===== verification/Calendar_Views.thy ===== *)
theory Calendar_Views
  imports Calendar_Requests
begin

text \<open>
  The calendar's two views against what they should show: the month grid against a direct reading of
  the events, and the edit form, which sent back unchanged stores the minutes it showed.
\<close>

section \<open>The month grid\<close>

definition spans :: "zone \<Rightarrow> date \<Rightarrow> cal_event \<Rightarrow> bool" where
  "spans z d e \<longleftrightarrow> fst (local_span z e) \<le> d \<and> d \<le> snd (local_span z e)"

definition cell_spec :: "cal_event list \<Rightarrow> nat \<Rightarrow> date \<Rightarrow> zone \<Rightarrow> date \<Rightarrow> month_cell" where
  "cell_spec events m today z d =
     \<lparr>mc_day = snd (snd (ord2ymd d)), mc_in_month = (fst (snd (ord2ymd d)) = m), mc_is_today = (d = today),
      mc_events = map (cell_event z d) (sort_key ev_starts (filter (spans z d) events))\<rparr>"

lemma fold_days:
  "distinct ds \<Longrightarrow> dict_get (fold (day_add e) ds by_day) d []
     = dict_get by_day d [] @ (if d \<in> set ds then [e] else [])"
  by (induction ds arbitrary: by_day) (auto simp: day_add_def dict_get_def map_of_AList_update)

lemma days_of: "distinct (days_of z e)" "d \<in> set (days_of z e) \<longleftrightarrow> spans z d e"
proof -
  obtain s f where sf: "local_span z e = (s, f)" by force
  show "distinct (days_of z e)" by (simp add: days_of_def sf distinct_map inj_on_def)
  have "d \<in> set (days_of z e) \<longleftrightarrow> (\<exists>i < nat (f - s + 1). d = s + int i)"
    by (auto simp: days_of_def sf)
  also have "\<dots> \<longleftrightarrow> s \<le> d \<and> d \<le> f"
  proof
    assume "s \<le> d \<and> d \<le> f"
    then show "\<exists>i < nat (f - s + 1). d = s + int i" by (intro exI[of _ "nat (d - s)"]) auto
  qed auto
  finally show "d \<in> set (days_of z e) \<longleftrightarrow> spans z d e" by (simp add: spans_def sf)
qed

lemma events_by_day: "dict_get (events_by_day events z) d [] = filter (spans z d) events"
proof -
  have "dict_get (fold (\<lambda>e. fold (day_add e) (days_of z e)) events by_day) d []
      = dict_get by_day d [] @ filter (spans z d) events" for by_day
    by (induction events arbitrary: by_day) (simp_all add: fold_days[OF days_of(1)] days_of(2))
  from this[of "[]"] show ?thesis by (simp add: events_by_day_def dict_get_def)
qed

lemma month_cell_spec: "month_cell events m today z d = cell_spec events m today z d"
  by (simp add: month_cell_def cell_spec_def events_by_day split: prod.splits)

lemma weeks_of_concat: "concat (weeks_of ds) = ds"
  by (induction ds rule: weeks_of.induct) simp_all

lemma weeks_of_length: "7 dvd length ds \<Longrightarrow> w \<in> set (weeks_of ds) \<Longrightarrow> length w = 7"
proof (induction ds rule: weeks_of.induct)
  case (2 d ds)
  have "7 \<le> length (d # ds)" using 2(2) by (intro dvd_imp_le) auto
  moreover from this have "7 dvd length (drop 7 (d # ds))"
    unfolding length_drop using 2(2) by (simp only: dvd_minus_self) simp
  ultimately show ?case using 2 by auto
qed simp

lemma map_weeks_of: "map (map f) (weeks_of ds) = weeks_of (map f ds)"
  by (induction ds rule: weeks_of.induct) (simp_all add: take_map drop_map)

lemma monday: "weekday (d - weekday d) = 0" "weekday (d + (6 - weekday d)) = 6"
  unfolding weekday_def by presburger+

lemma month_days_props:
  assumes "1 \<le> m" "m \<le> 12"
  shows "7 dvd length (month_days y m)" "month_days y m \<noteq> []" "weekday (hd (month_days y m)) = 0"
    "{ymd2ord (y, m, 1) .. ymd2ord (y, m, days_in_month (is_leap y) m)} \<subseteq> set (month_days y m)"
proof -
  define f where "f = ymd2ord (y, m, 1)"
  define l where "l = f + days_in_month (is_leap y) m - 1"
  have "m \<in> set [1..<13]" using assms by simp
  moreover have "list_all (\<lambda>m. 28 \<le> days_in_month b m) [1..<13]" for b
    by (cases b) (simp_all only:, code_simp+)
  ultimately have "28 \<le> days_in_month (is_leap y) m" by (metis list_all_iff)
  then have fl: "f \<le> l" by (simp add: l_def)
  have run: "month_days y m = [f - weekday f .. l + (6 - weekday l)]"
    by (simp add: month_days_def f_def l_def Let_def)
  have "(l + (6 - weekday l) - (f - weekday f) + 1) mod 7 = 0"
    unfolding weekday_def by presburger
  moreover have "0 \<le> l + (6 - weekday l) - (f - weekday f) + 1"
    using fl weekday_range[of l] weekday_range[of f] by linarith
  ultimately show "7 dvd length (month_days y m)"
    unfolding run length_upto by (metis dvd_eq_mod_eq_0 int_dvd_int_iff int_nat_eq of_nat_numeral add.commute)
  have ne: "f - weekday f \<le> l + (6 - weekday l)"
    using fl weekday_range[of l] weekday_range[of f] by linarith
  then show "month_days y m \<noteq> []" by (simp add: run)
  show "weekday (hd (month_days y m)) = 0" using ne monday(1) by (simp add: run upto.simps)
  have "ymd2ord (y, m, days_in_month (is_leap y) m) = l" by (simp add: ymd2ord_def l_def f_def)
  then show "{ymd2ord (y, m, 1) .. ymd2ord (y, m, days_in_month (is_leap y) m)} \<subseteq> set (month_days y m)"
    using weekday_range[of l] weekday_range[of f] unfolding run f_def[symmetric] by auto
qed

text \<open>
  C25.  The month grid is the table it should be: whole weeks of seven days, Monday first, in order and
  without a gap, that cover the month; each cell says whether its day is in the month and is today, and
  shows exactly the events whose first and last local days enclose it, in order of their start.  It
  raises exactly when an event's local time or a day of the weeks leaves the calendar, which ends with
  the year 9999.
\<close>

theorem month_grid_shows_spans:
  "(case ord2ymd ref of (y, m, _) \<Rightarrow>
      let days = month_days y m in
      month_grid events ref today z
        = (if list_all (shows_locally z) events \<and> list_all (\<lambda>d. 1 \<le> d \<and> d \<le> last_ordinal) days
           then Inr (weeks_of (map (cell_spec events m today z) days)) else Inl OutOfRange)
      \<and> weekday (hd days) = 0 \<and> (ref \<in> set days)
      \<and> list_all (\<lambda>w. length w = 7) (weeks_of (map (cell_spec events m today z) days))
      \<and> concat (weeks_of (map (cell_spec events m today z) days)) = map (cell_spec events m today z) days)"
proof -
  obtain y m dd where ref: "ord2ymd ref = (y, m, dd)" by (metis prod_cases3)
  note v = ord2ymd_valid[OF ref]
  note days = month_days_props[OF v(1,2), of y]
  have "ymd2ord (y, m, dd) = ref" using ymd2ord_ord2ymd[of ref] by (simp add: ref)
  then have "ref \<in> {ymd2ord (y, m, 1) .. ymd2ord (y, m, days_in_month (is_leap y) m)}"
    using v(3,4) by (auto simp: ymd2ord_def)
  then have shown: "ref \<in> set (month_days y m)" using days(4) by blast
  have cells: "month_cell events m today z = cell_spec events m today z" by (rule ext) (rule month_cell_spec)
  have raises: "list_ex (\<lambda>d. d > last_ordinal \<or> d < 1) ds \<longleftrightarrow> \<not> list_all (\<lambda>d. 1 \<le> d \<and> d \<le> last_ordinal) ds" for ds
    by (induction ds) auto
  have "month_grid events ref today z
        = (if list_all (shows_locally z) events \<and> list_all (\<lambda>d. 1 \<le> d \<and> d \<le> last_ordinal) (month_days y m)
           then Inr (weeks_of (map (cell_spec events m today z) (month_days y m))) else Inl OutOfRange)"
    by (simp add: cells raises month_grid_def ref month_dates_calendar_def map_weeks_of)
  moreover have "7 dvd length (map (cell_spec events m today z) (month_days y m))" using days(1) by simp
  ultimately show ?thesis
    using shown days(3) weeks_of_length[of "map (cell_spec events m today z) (month_days y m)"]
    unfolding ref prod.case Let_def weeks_of_concat list_all_iff by blast
qed

section \<open>The edit form\<close>

lemma takeWhile_stop: "c \<notin> set a \<Longrightarrow> takeWhile (\<lambda>x. x \<noteq> c) (a @ c # b) = a"
  "c \<notin> set a \<Longrightarrow> dropWhile (\<lambda>x. x \<noteq> c) (a @ c # b) = c # b"
  by (induction a) auto

lemma split_at_mid: "c \<notin> set a \<Longrightarrow> split_at c (a @ c # b) = Some (a, b)"
  by (simp add: split_at_def takeWhile_stop)

lemma digits_from_zeros: "digits_from 0 (replicate k CHR ''0'' @ s) = digits_from 0 s"
  by (induction k) (simp_all add: is_digit_def digit_value_def)

lemma zero_pad_digits: "0 \<le> n \<Longrightarrow> c \<in> set (zero_pad w n) \<Longrightarrow> is_digit c"
  by (auto simp: zero_pad_def Let_def str_int_def is_digit_def[of "CHR ''0''"] dest: str_nat_digits split: if_splits)

lemma zero_pad_nonempty: "0 \<le> n \<Longrightarrow> zero_pad w n \<noteq> []"
  by (simp add: zero_pad_def Let_def str_int_def)

lemma parse_zero_pad: "0 \<le> n \<Longrightarrow> parse_nat (zero_pad w n) = Some (nat n)"
proof -
  assume n: "0 \<le> n"
  obtain c s where cs: "zero_pad w n = c # s" using zero_pad_nonempty[OF n] by (cases "zero_pad w n") auto
  have "is_digit c" using zero_pad_digits[OF n, of c w] cs by simp
  moreover have "digits_from 0 (zero_pad w n) = Some (nat n)"
    using n by (simp add: zero_pad_def Let_def str_int_def digits_from_zeros digits_from_str_nat)
  ultimately show ?thesis using cs by (simp add: parse_nat_def)
qed

lemma str_nat_length: "n < 10 \<Longrightarrow> length (str_nat n) = 1" "10 \<le> n \<Longrightarrow> length (str_nat n) = Suc (length (str_nat (n div 10)))"
  by (subst str_nat.simps, simp)+

lemma zero_pad_2: "0 \<le> n \<Longrightarrow> n < 100 \<Longrightarrow> length (zero_pad 2 n) = 2"
proof -
  assume n: "0 \<le> n" "n < 100"
  then have "length (str_nat (nat n)) = (if nat n < 10 then 1 else 2)"
    using str_nat_length(1)[of "nat n"] str_nat_length(2)[of "nat n"] str_nat_length(1)[of "nat n div 10"] by auto
  then show ?thesis using n by (simp add: zero_pad_def Let_def str_int_def)
qed

lemma zero_pad_4: "0 \<le> n \<Longrightarrow> n < 10000 \<Longrightarrow> length (zero_pad 4 n) = 4"
proof -
  assume n: "0 \<le> n" "n < 10000"
  define k where "k = nat n"
  have k: "k < 10000" using n by (simp add: k_def)
  have "length (str_nat k) \<le> 4"
  proof (cases "k < 10")
    case False
    then have a: "length (str_nat k) = Suc (length (str_nat (k div 10)))" by (simp add: str_nat_length(2))
    show ?thesis
    proof (cases "k div 10 < 10")
      case False
      then have b: "length (str_nat (k div 10)) = Suc (length (str_nat (k div 10 div 10)))"
        by (intro str_nat_length(2)) simp
      show ?thesis
        using a b k str_nat_length(1)[of "k div 10 div 10"] str_nat_length(2)[of "k div 10 div 10"]
          str_nat_length(1)[of "k div 10 div 10 div 10"] by (cases "k div 10 div 10 < 10") auto
    qed (simp add: a str_nat_length(1))
  qed (simp add: str_nat_length(1))
  then show ?thesis using n by (simp add: zero_pad_def Let_def str_int_def k_def)
qed

lemma number_token_pad: "0 \<le> n \<Longrightarrow> n < 100 \<Longrightarrow> lo \<le> n \<Longrightarrow> n \<le> hi \<Longrightarrow> number_token lo hi (zero_pad 2 n) = Some n"
  using zero_pad_digits[of n _ 2] by (auto simp: number_token_def zero_pad_2 parse_zero_pad list_all_iff)

lemma year_token_pad: "0 \<le> n \<Longrightarrow> n < 10000 \<Longrightarrow> year_token (zero_pad 4 n) = Some n"
  using zero_pad_digits[of n _ 4] by (auto simp: year_token_def zero_pad_4 parse_zero_pad list_all_iff)

lemma pad_no: "0 \<le> n \<Longrightarrow> \<not> is_digit c \<Longrightarrow> c \<notin> set (zero_pad w n)"
  using zero_pad_digits by blast

lemma date_prefix_iso:
  assumes "ord2ymd o' = (y, m, d)" "1 \<le> y" "y < 10000" "s \<noteq> []" "is_space (hd s)"
  shows "date_prefix (date_isoformat o' @ s) = Some (o', s)"
proof -
  note v = ord2ymd_valid[OF assms(1)]
  have d: "d \<le> 31" using v days_in_month_le[of m "is_leap y"] by linarith
  have dash: "\<not> is_digit CHR ''-''" by code_simp
  have tok: "takeWhile (\<lambda>c. \<not> is_space c) (zero_pad 2 d @ s) = zero_pad 2 d"
    "dropWhile (\<lambda>c. \<not> is_space c) (zero_pad 2 d @ s) = s"
    using assms(4,5) zero_pad_digits[of d _ 2] v(3) digit_not_space by (cases s; auto simp: takeWhile_append dropWhile_append)+
  have hd: "hd (zero_pad 2 d @ s) \<noteq> CHR '' ''"
    using zero_pad_digits[of d "hd (zero_pad 2 d)" 2] zero_pad_nonempty[of d 2] v(3) by (auto simp: is_digit_def)
  obtain c u where cu: "zero_pad 2 d @ s = c # u" using zero_pad_nonempty[of d 2] v(3) by (cases "zero_pad 2 d @ s") auto
  have day: "day_token (zero_pad 2 d @ s) = Some (d, s)"
    using hd tok v(3) d number_token_pad[of d 1 31] unfolding day_token_def cu by (simp add: Let_def)
  have "valid_date y (int m) d = Some o'"
    using v assms(1,2) ymd2ord_ord2ymd[of o'] by (simp add: valid_date_def)
  moreover have "split_at CHR ''-'' (date_isoformat o' @ s) = Some (zero_pad 4 y, zero_pad 2 (int m) @ ''-'' @ zero_pad 2 d @ s)"
    using split_at_mid[of "CHR ''-''" "zero_pad 4 y"] assms(1,2) pad_no[OF _ dash] by (simp add: date_isoformat_def)
  moreover have "split_at CHR ''-'' (zero_pad 2 (int m) @ ''-'' @ zero_pad 2 d @ s) = Some (zero_pad 2 (int m), zero_pad 2 d @ s)"
    using split_at_mid[of "CHR ''-''" "zero_pad 2 (int m)"] pad_no[OF _ dash] by simp
  ultimately show ?thesis
    using assms(2,3) v(1,2) day by (simp add: date_prefix_def year_token_pad number_token_pad)
qed

text \<open>The minute a wall clock shows.\<close>

definition to_minute :: "int \<Rightarrow> int" where
  "to_minute wall = wall - wall mod seconds 60"

lemma to_minute_whole:
  "to_minute wall mod seconds 60 = 0" "date_of (to_minute wall) = date_of wall" "format_hm (to_minute wall) = format_hm wall"
proof -
  define q where "q = wall div 60000000"
  define r where "r = wall mod 60000000"
  have r: "0 \<le> r" "r < 60000000" by (simp_all add: r_def)
  have day: "(86400000000 :: int) = 60000000 * 1440" by simp
  have m: "to_minute wall = 60000000 * q" by (simp add: to_minute_def q_def minus_mod_eq_mult_div)
  show "to_minute wall mod seconds 60 = 0" by (simp add: m)
  have "60000000 * q div 86400000000 = wall div 86400000000"
    unfolding day by (simp add: zdiv_zmult2_eq q_def)
  then show "date_of (to_minute wall) = date_of wall" by (simp add: date_of_def m)
  define k where "k = q mod 1440"
  have v: "wall mod 86400000000 = 60000000 * k + r" "60000000 * q mod 86400000000 = 60000000 * k"
    using zmod_zmult2_eq[of 1440 wall 60000000] zmod_zmult2_eq[of 1440 "60000000 * q" 60000000]
    by (simp_all add: k_def r_def q_def)
  define t where "t = r div 1000000"
  have t: "0 \<le> t" "t < 60" using r by (simp_all add: t_def)
  have sec: "(60000000 * k + r) div 1000000 = 60 * k + t" "60000000 * k div 1000000 = 60 * k"
    unfolding t_def by simp_all
  have min: "(60 * k + t) div 60 = k" using t by simp
  have hour: "(60 * k + t) div 3600 = k div 60" "60 * k div 3600 = k div 60"
    using zdiv_zmult2_eq[of 60 "60 * k + t" 60] zdiv_zmult2_eq[of 60 "60 * k" 60] min by simp_all
  show "format_hm (to_minute wall) = format_hm wall"
    by (simp add: format_hm_def Let_def m v sec min hour)
qed

lemma clock_time_hm_minute:
  assumes "wall mod seconds 60 = 0"
  shows "clock_time False (format_hm wall) = Some (wall mod days 1)"
proof -
  define s where "s = wall mod days 1 div 1000000"
  define q where "q = wall mod days 1 div seconds 60"
  have "(wall mod days 1) mod seconds 60 = 0" using assms by (simp add: mod_mod_cancel)
  then have t: "wall mod days 1 = q * seconds 60" unfolding q_def using div_mult_mod_eq[of "wall mod days 1" "seconds 60"] by simp
  have "0 \<le> wall mod days 1" "wall mod days 1 < days 1" by simp_all
  then have q: "0 \<le> q" "q < 1440" unfolding t by simp_all
  have s1: "s = q * 60" unfolding s_def t by simp
  have s: "s = q * 60" "s div 60 = q" "s div 3600 = q div 60" unfolding s1 by simp_all
  have h: "0 \<le> s div 3600" "s div 3600 \<le> 23" "0 \<le> s div 60 mod 60" "s div 60 mod 60 \<le> 59"
    unfolding s(2,3) using q by auto
  have "(q div 60 * 60 + q mod 60) * seconds 60 = q * seconds 60" by simp
  then have total: "s div 3600 * seconds 3600 + s div 60 mod 60 * seconds 60 = wall mod days 1"
    unfolding s(2,3) t distrib_right by simp
  have colon: "\<not> is_digit CHR '':''" by code_simp
  have halves: "split_at CHR '':'' (format_hm wall) = Some (zero_pad 2 (s div 3600), zero_pad 2 (s div 60 mod 60))"
    using split_at_mid[of "CHR '':''" "zero_pad 2 (s div 3600)"] pad_no[OF h(1) colon]
    by (simp add: format_hm_def s_def Let_def)
  have tokens: "number_token 0 23 (zero_pad 2 (s div 3600)) = Some (s div 3600)"
    "number_token 0 59 (zero_pad 2 (s div 60 mod 60)) = Some (s div 60 mod 60)"
    by (rule number_token_pad; use h in linarith)+
  have zero: "number_token 0 59 ''0'' = Some 0" by code_simp
  show ?thesis
    unfolding clock_time_def halves option.case prod.case if_False tokens zero total[symmetric] by simp
qed

lemma clock_time_hm: "clock_time False (format_hm wall) = Some (to_minute wall mod days 1)"
  using clock_time_hm_minute[OF to_minute_whole(1), of wall] by (simp add: to_minute_whole(3))

lemma strip_digits:
  assumes "s \<noteq> []" "\<not> is_space (hd s)" "\<not> is_space (last s)"
  shows "strip s = s"
  using assms unfolding strip_def
  by (cases s, simp) (simp add: lstrip_def hd_rev[symmetric], cases "rev s"; simp add: hd_rev[symmetric])

lemma pad_edges: "0 \<le> n \<Longrightarrow> \<not> is_space (hd (zero_pad w n))" "0 \<le> n \<Longrightarrow> \<not> is_space (last (zero_pad w n))"
  using zero_pad_digits[of n _ w] zero_pad_nonempty[of n w] digit_not_space by (auto intro!: last_in_set hd_in_set)

lemma days_before_year_mono: "x \<le> y \<Longrightarrow> days_before_year x \<le> days_before_year y"
proof -
  assume le: "x \<le> y"
  have "(y - 1) div 100 \<le> (x - 1 + (y - x) * 100) div 100" using le by (intro zdiv_mono1) auto
  also have "\<dots> = (x - 1) div 100 + (y - x)"
    using div_mult_self1[of "100 :: int" "x - 1" "y - x"] by (simp only: simp_thms zero_neq_numeral)
  finally have "(y - 1) div 100 \<le> (x - 1) div 100 + (y - x)" .
  moreover have "(x - 1) div 4 \<le> (y - 1) div 4" "(x - 1) div 400 \<le> (y - 1) div 400"
    using le by (auto intro: zdiv_mono1)
  moreover have "a + b - c + d \<le> a' + b' - c' + d'"
    if "a + (y - x) \<le> a'" "b \<le> b'" "c' \<le> c + (y - x)" "d \<le> d'" for a b c d a' b' c' d'
    using that by linarith
  moreover have "(x - 1) * 365 + (y - x) \<le> (y - 1) * 365" using le by simp
  ultimately show ?thesis unfolding days_before_year_def Let_def by blast
qed

lemma year_in_range:
  assumes "in_datetime_range wall" "ord2ymd (date_of wall) = (y, m, d)"
  shows "1 \<le> y" "y < 10000"
proof -
  have n: "1 \<le> date_of wall" "date_of wall \<le> 3652059"
    using assms(1) zdiv_mono1[of "- 62135596800000000" wall 86400000000]
      zdiv_mono1[of wall "253402300799999999" 86400000000]
    by (simp_all add: in_datetime_range_def start_of_day_def date_of_def epoch_day_def last_ordinal_def)
  note v = ord2ymd_valid[OF assms(2)]
  have o': "date_of wall = days_before_year y + days_before_month (is_leap y) m + d"
    using ymd2ord_ord2ymd[of "date_of wall"] by (simp add: assms(2) ymd2ord_def)
  have "m \<in> set [1..<13]" using v by simp
  moreover have "list_all (\<lambda>m. 0 \<le> days_before_month b m \<and> days_before_month b m + days_in_month b m \<le> 366) [1..<13]" for b
    by (cases b) (simp_all only:, code_simp+)
  ultimately have b: "0 \<le> days_before_month (is_leap y) m"
    "days_before_month (is_leap y) m + days_in_month (is_leap y) m \<le> 366" by (auto simp: list_all_iff)
  show "1 \<le> y"
  proof (rule ccontr)
    assume "\<not> 1 \<le> y"
    then have "days_before_year y \<le> days_before_year 0" by (intro days_before_year_mono) simp
    also have "days_before_year 0 = - 366" by code_simp
    finally show False using o' n(1) b v(4) by linarith
  qed
  show "y < 10000"
  proof (rule ccontr)
    assume "\<not> y < 10000"
    then have "days_before_year 10000 \<le> days_before_year y" by (intro days_before_year_mono) simp
    moreover have "days_before_year 10000 = 3652059" by code_simp
    ultimately show False using o' n(2) b v(3) by linarith
  qed
qed

lemma format_hm_props:
  "format_hm wall \<noteq> []" "\<not> is_space (hd (format_hm wall))" "\<not> is_space (last (format_hm wall))"
  "CHR ''T'' \<notin> set (format_hm wall)"
proof -
  let ?s = "wall mod days 1 div 1000000"
  have n: "0 \<le> ?s div 3600" "0 \<le> ?s div 60 mod 60" by (simp_all add: pos_imp_zdiv_nonneg_iff)
  have run: "format_hm wall = zero_pad 2 (?s div 3600) @ '':'' @ zero_pad 2 (?s div 60 mod 60)"
    by (simp add: format_hm_def Let_def)
  note ne = zero_pad_nonempty[OF n(1), of 2] zero_pad_nonempty[OF n(2), of 2]
  show "format_hm wall \<noteq> []" unfolding run by simp
  show "\<not> is_space (hd (format_hm wall))" unfolding run using ne pad_edges(1)[OF n(1), of 2] by simp
  show "\<not> is_space (last (format_hm wall))" unfolding run using ne pad_edges(2)[OF n(2), of 2] by simp
  have "\<not> is_digit CHR ''T''" by code_simp
  then show "CHR ''T'' \<notin> set (format_hm wall)" unfolding run using pad_no[OF n(1)] pad_no[OF n(2)] by simp
qed

lemma date_isoformat_props:
  assumes "0 \<le> fst (ord2ymd o')"
  shows "date_isoformat o' \<noteq> []" "\<not> is_space (hd (date_isoformat o'))" "\<not> is_space (last (date_isoformat o'))"
    "CHR ''T'' \<notin> set (date_isoformat o')"
proof -
  obtain y m d where o': "ord2ymd o' = (y, m, d)" by (metis prod_cases3)
  have n: "0 \<le> y" "0 \<le> int m" "0 \<le> d" using assms ord2ymd_valid[OF o'] by (simp_all add: o')
  have run: "date_isoformat o' = zero_pad 4 y @ ''-'' @ zero_pad 2 (int m) @ ''-'' @ zero_pad 2 d"
    by (simp add: date_isoformat_def o')
  note ne = zero_pad_nonempty[OF n(1), of 4] zero_pad_nonempty[OF n(3), of 2]
  show "date_isoformat o' \<noteq> []" unfolding run by simp
  show "\<not> is_space (hd (date_isoformat o'))" unfolding run using ne pad_edges(1)[OF n(1), of 4] by simp
  show "\<not> is_space (last (date_isoformat o'))" unfolding run using ne pad_edges(2)[OF n(3), of 2] by simp
  have "\<not> is_digit CHR ''T''" by code_simp
  then show "CHR ''T'' \<notin> set (date_isoformat o')"
    unfolding run using pad_no[OF n(1)] pad_no[OF n(2)] pad_no[OF n(3)] by simp
qed

text \<open>What the form shows is read back, to the minute.\<close>

lemma parse_form_time:
  assumes "in_datetime_range wall"
  shows "parse_dt (strip (strip (date_isoformat (date_of wall)) @ '' '' @ strip (format_hm wall))) z
    = map_sum id Some (to_utc z (to_minute wall))"
proof -
  obtain y m d where o': "ord2ymd (date_of wall) = (y, m, d)" by (metis prod_cases3)
  note y = year_in_range[OF assms o']
  let ?d = "date_isoformat (date_of wall)" and ?t = "format_hm wall"
  have dp: "?d \<noteq> []" "\<not> is_space (hd ?d)" "\<not> is_space (last ?d)" "CHR ''T'' \<notin> set ?d"
    using y(1) by (auto intro!: date_isoformat_props simp: o' simp del: One_nat_def)
  note tp = format_hm_props[of wall]
  have whole: "strip (?d @ '' '' @ ?t) = ?d @ '' '' @ ?t"
    using dp tp by (intro strip_digits) simp_all
  have "strip ?d = ?d" "strip ?t = ?t" by (rule strip_digits[OF dp(1-3)], rule strip_digits[OF tp(1-3)])
  then have raw: "strip (strip (strip ?d @ '' '' @ strip ?t)) = ?d @ '' '' @ ?t"
    by (simp only: whole strip_idem)
  have noT: "map (\<lambda>c. if c = CHR ''T'' then CHR '' '' else c) (?d @ '' '' @ ?t) = ?d @ '' '' @ ?t"
    using dp(4) tp(4) by (intro map_idI) auto
  have "date_prefix (?d @ '' '' @ ?t) = Some (date_of wall, '' '' @ ?t)"
    by (rule date_prefix_iso[OF o' y]) (simp_all add: is_space_def)
  moreover have "dropWhile is_space ('' '' @ ?t) = ?t"
    using tp(1,2) by (cases ?t) (simp_all add: is_space_def)
  ultimately have "strptime False (?d @ '' '' @ ?t) = Some (to_minute wall)"
    using clock_time_hm[of wall] start_of_day_split[of "to_minute wall"]
    by (simp add: strptime_def to_minute_whole)
  then show ?thesis unfolding parse_dt_def raw noT Let_def by simp
qed

text \<open>A time the form gives back exactly: a whole minute, at a wall clock reading the zone reads as that instant.\<close>

definition gives_back :: "zone \<Rightarrow> instant \<Rightarrow> bool" where
  "gives_back z t \<longleftrightarrow> wall_of z t mod seconds 60 = 0 \<and> to_utc z (wall_of z t) = Inr t"

text \<open>
  C26.  The edit form, sent back as it was shown, in any time zone and as a form or as JSON: each time
  of the event becomes the instant the zone reads its displayed minute as, every other field of the
  event and every other event stay as they were, and one update is recorded.  When the end so read is
  not after the start (both fall in one minute, say) the form is refused without a change, and when a
  reading leaves the calendar the request fails without one.  So an event whose times are whole minutes that the zone reads back as the same
  instants is stored exactly as it was; the form can be shown at all only where both local times exist.
\<close>

theorem edit_form_round_trip:
  assumes "calendar_ok rows" "event_get o' i rows = Some e" "edit_event_form z e = Inr body"
  shows "update_event json z o' i body rows =
      (case (to_utc z (to_minute (wall_of z (ev_starts e))), to_utc z (to_minute (wall_of z (ev_ends e)))) of
         (Inr s, Inr f) \<Rightarrow>
           if s < f
           then (update_where (\<lambda>r. r = e) (\<lambda>r. r\<lparr>ev_starts := s, ev_ends := f\<rparr>) rows,
                 [CalendarUpdated o' i (ev_title e)],
                 if json then EventRead (e\<lparr>ev_starts := s, ev_ends := f\<rparr>) else EventRedirect i)
           else (rows, [], cal_reject json body (Some e) (''calendar/'' @ uuid_str i)
                   ''The end time must be after the start time'')
       | _ \<Rightarrow> (rows, [], EventCrash))
    \<and> (gives_back z (ev_starts e) \<and> gives_back z (ev_ends e) \<longrightarrow>
         update_event json z o' i body rows
           = (rows, [CalendarUpdated o' i (ev_title e)], if json then EventRead e else EventRedirect i))"
proof -
  note e = event_getD[OF assms(2)]
  have ok: "event_ok e" using assms(1) e by (simp add: calendar_ok_def)
  let ?s = "wall_of z (ev_starts e)" and ?f = "wall_of z (ev_ends e)"
  have range: "in_datetime_range ?s" "in_datetime_range ?f" and
    body: "body = [(''title'', ev_title e),
       (''start_date'', date_isoformat (date_of ?s)), (''start_time'', format_hm ?s),
       (''end_date'', date_isoformat (date_of ?f)), (''end_time'', format_hm ?f),
       (''location'', ev_location e), (''description'', ev_description e)]"
    using assms(3) by (auto simp: edit_event_form_def local_times_def as_local_def bind_err_Inr_iff split: if_splits)
  have get: "dict_get body ''start'' [] = []" "dict_get body ''end'' [] = []"
    "dict_get body ''start_date'' [] = date_isoformat (date_of ?s)" "dict_get body ''start_time'' [] = format_hm ?s"
    "dict_get body ''end_date'' [] = date_isoformat (date_of ?f)" "dict_get body ''end_time'' [] = format_hm ?f"
    "map_of body ''title'' = Some (ev_title e)" "map_of body ''location'' = Some (ev_location e)"
    "map_of body ''description'' = Some (ev_description e)"
    by (simp_all add: body dict_get_def)
  have title: "patch_title body e = e" using ok by (simp add: patch_title_def get event_ok_def)
  have parse: "parse_dt (combine body ''start'') z = map_sum id Some (to_utc z (to_minute ?s))"
    "parse_dt (combine body ''end'') z = map_sum id Some (to_utc z (to_minute ?f))"
    unfolding parse_form_time[OF range(1), symmetric] parse_form_time[OF range(2), symmetric]
    using get by (simp_all add: combine_def)
  have "parse_dt [] z = Inr None" by (simp add: parse_dt_def strptime_def date_prefix_def split_at_def strip_def lstrip_def)
  then have "combine body ''start'' \<noteq> []" using parse(1) by (cases "to_utc z (to_minute ?s)") auto
  then have times: "patch_times body z e =
      (case (to_utc z (to_minute ?s), to_utc z (to_minute ?f)) of
         (Inr s, Inr f) \<Rightarrow> if s < f then Inr (e\<lparr>ev_starts := s, ev_ends := f\<rparr>)
                            else Inl (Invalid ''The end time must be after the start time'')
       | _ \<Rightarrow> Inl CalendarCrash)"
    by (auto simp: patch_times_def require_times_def Let_def parse split: sum.splits)
  have texts: "patch_texts body (e\<lparr>ev_starts := s, ev_ends := f\<rparr>) = e\<lparr>ev_starts := s, ev_ends := f\<rparr>" for s f
    by (cases e) (simp add: patch_texts_def get Let_def body)
  have "r = e" if "r \<in> set rows" "ev_id r = ev_id e" for r
    using assms(1) e that by (auto simp: calendar_ok_def distinct_map dest: inj_onD)
  then have save: "event_save (e\<lparr>ev_starts := s, ev_ends := f\<rparr>) rows
      = update_where (\<lambda>r. r = e) (\<lambda>r. r\<lparr>ev_starts := s, ev_ends := f\<rparr>) rows" for s f
    unfolding event_save_def update_where_def by (intro map_cong) auto
  have same: "update_where (\<lambda>r. r = e) (\<lambda>r. r\<lparr>ev_starts := ev_starts e, ev_ends := ev_ends e\<rparr>) rows = rows"
    unfolding update_where_def by (intro map_idI) simp
  have keep: "event_save e rows = rows" using save[where s = "ev_starts e" and f = "ev_ends e"] unfolding same by simp
  have 1: "update_event json z o' i body rows =
      (case (to_utc z (to_minute ?s), to_utc z (to_minute ?f)) of
         (Inr s, Inr f) \<Rightarrow>
           if s < f
           then (update_where (\<lambda>r. r = e) (\<lambda>r. r\<lparr>ev_starts := s, ev_ends := f\<rparr>) rows,
                 [CalendarUpdated o' i (ev_title e)],
                 if json then EventRead (e\<lparr>ev_starts := s, ev_ends := f\<rparr>) else EventRedirect i)
           else (rows, [], cal_reject json body (Some e) (''calendar/'' @ uuid_str i)
                   ''The end time must be after the start time'')
       | _ \<Rightarrow> (rows, [], EventCrash))"
    by (simp add: update_event_def assms(2) title times texts save keep Let_def split: sum.splits)
  moreover have "update_event json z o' i body rows
           = (rows, [CalendarUpdated o' i (ev_title e)], if json then EventRead e else EventRedirect i)"
    if "gives_back z (ev_starts e)" "gives_back z (ev_ends e)"
    using that ok same unfolding 1 by (simp add: gives_back_def to_minute_def event_ok_def)
  ultimately show ?thesis by blast
qed

definition paris_event :: cal_event where
  "paris_event = \<lparr>ev_id = 5, ev_org = 1, ev_user = 7, ev_title = ''Launch'', ev_starts = 1782907200000000,
     ev_ends = 1782910800000000, ev_location = [], ev_description = []\<rparr>"

definition summer_zone :: zone where
  "summer_zone = \<lparr>zn_offset = (\<lambda>_. 2 * seconds 3600), zn_wall_offset = (\<lambda>_. 2 * seconds 3600)\<rparr>"

text \<open>The edit form of that event.\<close>

definition paris_form :: form where
  "paris_form = [(''title'', ''Launch''), (''start_date'', ''2026-07-01''), (''start_time'', ''14:00''),
     (''end_date'', ''2026-07-01''), (''end_time'', ''15:00''), (''location'', []), (''description'', [])]"

theorem edit_form_round_trip_witness:
  "edit_event_form summer_zone paris_event = Inr paris_form
   \<and> fst (update_event False summer_zone 1 5 paris_form [paris_event]) = [paris_event]"
proof -
  have 1: "calendar_ok [paris_event]" by (simp add: calendar_ok_def event_ok_def paris_event_def) code_simp
  have 2: "event_get 1 5 [paris_event] = Some paris_event" by code_simp
  have 3: "edit_event_form summer_zone paris_event = Inr paris_form" by code_simp
  have "gives_back summer_zone (ev_starts paris_event) \<and> gives_back summer_zone (ev_ends paris_event)" by code_simp
  from mp[OF conjunct2[OF edit_form_round_trip[OF 1 2 3, where json = False]] this]
  show ?thesis using 3 by simp
qed

text \<open>
  In the hour a clock that is put back shows twice, the second reading is taken for the first: sending
  the form back unchanged moves the event an hour earlier.
\<close>

definition autumn_zone :: zone where
  "autumn_zone = \<lparr>zn_offset = (\<lambda>t. if t < 1792890000000000 then 2 * seconds 3600 else seconds 3600),
     zn_wall_offset = (\<lambda>w. if w < 1792890000000000 + 2 * seconds 3600 then 2 * seconds 3600 else seconds 3600)\<rparr>"

definition night_event :: cal_event where
  "night_event = paris_event\<lparr>ev_starts := 1792890600000000, ev_ends := 1792892400000000\<rparr>"

lemma second_reading_moves_event:
  "(case edit_event_form autumn_zone night_event of
      Inl _ \<Rightarrow> False
    | Inr body \<Rightarrow> map ev_starts (fst (update_event False autumn_zone 1 5 body [night_event])) = [1792890600000000 - seconds 3600])"
  by code_simp

end
