(* ===== verification/Activity.thy ===== *)
theory Activity
  imports Py_Datetime
begin

text \<open>
  \<open>apps/shared/events/activity.py\<close>: journal records made readable for a member.  The feed and its day
  sections, the headline statistics over the counts per day, and the contribution calendar.  The
  statistics' longest streak is shown to be the longest run of consecutive active days, and the grid
  to be whole weeks that end with today.
\<close>

section \<open>The feed\<close>

record activity_record =
  av_app :: string
  av_icon :: string
  av_verb :: string
  av_who :: "string option"
  av_name :: "string option"
  av_created :: instant

record activity_entry =
  en_who :: "string option"
  en_label :: string
  en_detail :: "string option"
  en_app :: string
  en_icon :: string
  en_ts :: instant
  en_href :: "string option"

definition upper_char :: "char \<Rightarrow> char" where
  "upper_char c = (if is_lower c then char_of ((of_char c :: nat) - 32) else c)"

definition capitalize :: "string \<Rightarrow> string" where
  "capitalize s = (case s of [] \<Rightarrow> [] | c # cs \<Rightarrow> upper_char c # lower cs)"

definition activity_label :: "string \<Rightarrow> string" where
  "activity_label verb = capitalize (map (\<lambda>c. if c = CHR ''_'' then CHR '' '' else c) verb)"

definition activity_entries :: "activity_record list \<Rightarrow> bool \<Rightarrow> (activity_record \<Rightarrow> string option) option
    \<Rightarrow> activity_entry list" where
  "activity_entries records show_actor link =
     map (\<lambda>r. \<lparr>en_who = (if show_actor then av_who r else None), en_label = activity_label (av_verb r),
        en_detail = av_name r, en_app = av_app r, en_icon = av_icon r, en_ts = av_created r,
        en_href = (case link of None \<Rightarrow> None | Some f \<Rightarrow> f r)\<rparr>) records"

definition day_abbrevs :: "string list" where
  "day_abbrevs = [''Mon'', ''Tue'', ''Wed'', ''Thu'', ''Fri'', ''Sat'', ''Sun'']"

definition month_day :: "date \<Rightarrow> string" where
  "month_day d = (case ord2ymd d of (_, _, n) \<Rightarrow> month_abbrev d @ '' '' @ str_int n)"

definition day_label :: "date \<Rightarrow> date \<Rightarrow> string" where
  "day_label d today =
     (if d = today then ''Today''
      else if d = today - 1 then ''Yesterday''
      else day_abbrevs ! nat (weekday d) @ '', '' @ month_day d)"

record day_section =
  ds_date :: date
  ds_label :: string
  ds_entries :: "activity_entry list"

definition section_add :: "date \<Rightarrow> day_section list \<Rightarrow> activity_entry \<Rightarrow> day_section list" where
  "section_add today sections e =
     (let d = date_of (en_ts e);
          opened = (if sections = [] \<or> ds_date (last sections) \<noteq> d
                    then sections @ [\<lparr>ds_date = d, ds_label = day_label d today, ds_entries = []\<rparr>] else sections) in
      butlast opened @ [(last opened)\<lparr>ds_entries := ds_entries (last opened) @ [e]\<rparr>])"

definition group_activity_by_day :: "activity_entry list \<Rightarrow> instant \<Rightarrow> day_section list" where
  "group_activity_by_day entries now = foldl (section_add (date_of now)) [] entries"

section \<open>Statistics\<close>

record activity_stats =
  as_total :: int
  as_active_days :: nat
  as_longest_streak :: nat
  as_this_week :: int
  as_week_delta :: int

text \<open>One step of the walk over the sorted active days: the longest streak, the current one, the day before.\<close>

definition streak_step :: "date \<Rightarrow> nat \<times> nat \<times> date option \<Rightarrow> nat \<times> nat \<times> date option" where
  "streak_step d st = (case st of (longest, streak, prev) \<Rightarrow>
     (let s = (case prev of Some p \<Rightarrow> if d - p = 1 then streak + 1 else 1 | None \<Rightarrow> 1) in
      (max longest s, s, Some d)))"

definition longest_streak :: "date list \<Rightarrow> nat" where
  "longest_streak active = fst (fold streak_step active (0, 0, None))"

definition days_total :: "(date, int) dict \<Rightarrow> date \<Rightarrow> nat \<Rightarrow> nat \<Rightarrow> int" where
  "days_total counts today a b = sum_list (map (\<lambda>i. dict_get counts (today - int i) 0) [a..<b])"

definition activity_stats_of :: "(date, int) dict \<Rightarrow> instant \<Rightarrow> activity_stats" where
  "activity_stats_of counts now =
     (let today = date_of now; active = sort (map fst (filter (\<lambda>(d, n). n \<noteq> 0) counts));
          this_week = days_total counts today 0 7 in
      \<lparr>as_total = sum_list (map snd counts),
       as_active_days = length (filter (\<lambda>n. n \<noteq> 0) (map snd counts)),
       as_longest_streak = longest_streak active, as_this_week = this_week,
       as_week_delta = this_week - days_total counts today 7 14\<rparr>)"

section \<open>The contribution calendar\<close>

datatype heatmap_cell = EmptyDay | HeatDay nat string

record month_header =
  mh_label :: string
  mh_span :: nat

record heatmap =
  hm_weeks :: "heatmap_cell list list"
  hm_weekday_labels :: "string list"
  hm_month_headers :: "month_header list"
  hm_range_label :: string

definition calendar_window :: "date \<Rightarrow> date option \<Rightarrow> int \<Rightarrow> int \<Rightarrow> date list \<times> string" where
  "calendar_window today since min_weeks max_weeks =
     (let end_monday = today - weekday today;
          needed = (case since of
              Some s \<Rightarrow> (end_monday - (s - weekday s)) div 7 + 1
            | None \<Rightarrow> max_weeks);
          weeks = max min_weeks (min max_weeks needed);
          label = (case since of
              None \<Rightarrow> ''Last 12 months''
            | Some s \<Rightarrow> if needed > max_weeks then ''Last 12 months''
                else ''Since '' @ month_abbrev s @ '' '' @ str_int (fst (month_of s)));
          start = end_monday - 7 * (weeks - 1) in
      (map (\<lambda>w. start + 7 * int w) [0..<nat weeks], label))"

definition intensity :: "(date, int) dict \<Rightarrow> int \<Rightarrow> nat" where
  "intensity counts n =
     (let nonzero = sort (filter (\<lambda>n. n \<noteq> 0) (map snd counts)); l = length nonzero;
          t = (\<lambda>k. nonzero ! min (l - 1) (l * k div 4)) in
      if n \<le> 0 then 0
      else if nonzero = [] then 1
      else if n \<le> t 1 then 1 else if n \<le> t 2 then 2 else if n \<le> t 3 then 3 else 4)"

definition heatmap_day :: "date \<Rightarrow> (date, int) dict \<Rightarrow> date \<Rightarrow> heatmap_cell" where
  "heatmap_day today counts d =
     (if d > today then EmptyDay
      else (let n = dict_get counts d 0;
                moment = month_day d @ '', '' @ str_int (fst (month_of d));
                title = (if n \<noteq> 0
                  then str_int n @ '' action'' @ (if n \<noteq> 1 then ''s'' else []) @ '' on '' @ moment
                  else ''No activity on '' @ moment) in
            HeatDay (intensity counts n) title))"

definition week_column :: "date \<Rightarrow> (date, int) dict \<Rightarrow> date \<Rightarrow> heatmap_cell list" where
  "week_column today counts week_start = map (\<lambda>i. heatmap_day today counts (week_start + int i)) [0..<7]"

text \<open>\<open>itertools.groupby\<close>: the runs of neighbours with equal keys.\<close>

fun runs_by :: "('a \<Rightarrow> 'k) \<Rightarrow> 'a list \<Rightarrow> 'a list list" where
  "runs_by key [] = []" |
  "runs_by key (x # xs) =
     (case runs_by key xs of
        [] \<Rightarrow> [[x]]
      | r # rs \<Rightarrow> if key (hd r) = key x then (x # r) # rs else [x] # r # rs)"

definition month_headers :: "date list \<Rightarrow> month_header list" where
  "month_headers week_starts =
     map (\<lambda>run. \<lparr>mh_label = (if length run \<ge> 3 then month_abbrev (hd run) else []), mh_span = length run\<rparr>)
       (runs_by month_of week_starts)"

definition heatmap_calendar :: "(date, int) dict \<Rightarrow> instant \<Rightarrow> date option \<Rightarrow> int \<Rightarrow> int \<Rightarrow> heatmap" where
  "heatmap_calendar counts now since min_weeks max_weeks =
     (case calendar_window (date_of now) since min_weeks max_weeks of (week_starts, range_label) \<Rightarrow>
       \<lparr>hm_weeks = map (week_column (date_of now) counts) week_starts,
        hm_weekday_labels = day_abbrevs,
        hm_month_headers = month_headers week_starts, hm_range_label = range_label\<rparr>)"

section \<open>The sections of the feed\<close>

lemma group_append:
  "group_activity_by_day (entries @ [e]) now = section_add (date_of now) (group_activity_by_day entries now) e"
  by (simp add: group_activity_by_day_def)

text \<open>Every entry stands once, in the order given, in a section of its own day; no section is empty.\<close>

lemma group_activity_props:
  "concat (map ds_entries (group_activity_by_day entries now)) = entries
   \<and> (\<forall>s \<in> set (group_activity_by_day entries now). ds_entries s \<noteq> []
        \<and> ds_label s = day_label (ds_date s) (date_of now) \<and> (\<forall>e \<in> set (ds_entries s). date_of (en_ts e) = ds_date s))"
proof (induction entries rule: rev_induct)
  case (snoc e entries)
  define g where "g = group_activity_by_day entries now"
  have IH: "concat (map ds_entries g) = entries"
    "\<And>s. s \<in> set g \<Longrightarrow> ds_entries s \<noteq> [] \<and> ds_label s = day_label (ds_date s) (date_of now)
        \<and> (\<forall>e \<in> set (ds_entries s). date_of (en_ts e) = ds_date s)"
    using snoc by (simp_all add: g_def)
  show ?case
  proof (cases "g = [] \<or> ds_date (last g) \<noteq> date_of (en_ts e)")
    case True
    then have "section_add (date_of now) g e = g @ [\<lparr>ds_date = date_of (en_ts e),
        ds_label = day_label (date_of (en_ts e)) (date_of now), ds_entries = [e]\<rparr>]"
      by (simp add: section_add_def Let_def)
    then show ?thesis unfolding group_append g_def[symmetric] using IH by simp
  next
    case False
    then obtain gs s where gs: "g = gs @ [s]" by (metis rev_exhaust)
    have "section_add (date_of now) g e = gs @ [s\<lparr>ds_entries := ds_entries s @ [e]\<rparr>]"
      using False by (simp add: section_add_def gs)
    moreover have "ds_date s = date_of (en_ts e)" using False by (simp add: gs)
    moreover have "concat (map ds_entries gs) @ ds_entries s = entries" using IH(1) by (simp add: gs)
    moreover note IH(2)[unfolded gs, of s]
    moreover have "\<And>t. t \<in> set gs \<Longrightarrow> ds_entries t \<noteq> [] \<and> ds_label t = day_label (ds_date t) (date_of now)
        \<and> (\<forall>e \<in> set (ds_entries t). date_of (en_ts e) = ds_date t)" using IH(2) by (simp add: gs)
    ultimately show ?thesis unfolding group_append g_def[symmetric] by simp
  qed
qed (simp add: group_activity_by_day_def)

section \<open>The longest streak\<close>

definition active_run :: "date set \<Rightarrow> date \<Rightarrow> nat \<Rightarrow> bool" where
  "active_run A d n \<longleftrightarrow> (\<forall>i < n. d + int i \<in> A)"

lemma streak_walk:
  assumes "sorted xs" "distinct xs" "fold streak_step xs (0, 0, None) = (longest, streak, prev)"
  shows "(\<exists>d. active_run (set xs) d longest) \<and> (\<forall>d n. active_run (set xs) d n \<longrightarrow> n \<le> longest)
    \<and> (xs = [] \<longrightarrow> prev = None)
    \<and> (xs \<noteq> [] \<longrightarrow> prev = Some (last xs) \<and> 1 \<le> streak \<and> streak \<le> longest
         \<and> active_run (set xs) (last xs - int streak + 1) streak \<and> last xs - int streak \<notin> set xs)"
  using assms
proof (induction xs arbitrary: longest streak prev rule: rev_induct)
  case Nil
  then show ?case by (auto simp: active_run_def)
next
  case (snoc x xs)
  obtain l s p where fold: "fold streak_step xs (0, 0, None) = (l, s, p)" by (metis prod_cases3)
  have xs: "sorted xs" "distinct xs" "\<And>y. y \<in> set xs \<Longrightarrow> y < x"
    using snoc.prems(1,2) by (auto simp: sorted_append order_less_le)
  note IH = snoc.IH[OF xs(1,2) fold]
  define s' where "s' = (case p of Some q \<Rightarrow> if x - q = 1 then s + 1 else 1 | None \<Rightarrow> (1 :: nat))"
  have now: "longest = max l s'" "streak = s'" "prev = Some x"
  proof -
    have "streak_step x (l, s, p) = (longest, streak, prev)" using snoc.prems(3) fold by simp
    then show "longest = max l s'" "streak = s'" "prev = Some x"
      by (auto simp: streak_step_def s'_def Let_def)
  qed
  have ends: "1 \<le> s' \<and> active_run (set (xs @ [x])) (x - int s' + 1) s' \<and> x - int s' \<notin> set (xs @ [x])"
  proof (cases "xs \<noteq> [] \<and> x - last xs = 1")
    case True
    then have p: "p = Some (last xs)" "active_run (set xs) (last xs - int s + 1) s" "last xs - int s \<notin> set xs"
      using IH by blast+
    have s': "s' = s + 1" using True p(1) by (simp add: s'_def)
    have "active_run (set (xs @ [x])) (x - int s' + 1) s'"
      unfolding active_run_def
    proof (intro allI impI)
      fix i assume "i < s'"
      then show "x - int s' + 1 + int i \<in> set (xs @ [x])"
        using p(2) True unfolding s' active_run_def by (cases "i = s") (auto simp: algebra_simps less_Suc_eq)
    qed
    moreover have "x - int s' = last xs - int s" "1 \<le> s'" using True by (simp_all add: s')
    moreover have "last xs - int s \<noteq> x" using True by simp
    ultimately show ?thesis using p(3) by simp
  next
    case False
    have s': "s' = 1"
    proof (cases "xs = []")
      case True
      then show ?thesis using IH by (simp add: s'_def)
    next
      case ne: False
      then have "p = Some (last xs)" using IH by blast
      then show ?thesis using False ne by (simp add: s'_def)
    qed
    have "x - 1 \<notin> set xs"
    proof
      assume a: "x - 1 \<in> set xs"
      then have "xs \<noteq> []" by auto
      moreover have "x - 1 \<le> last xs"
      proof -
        have "sorted (butlast xs @ [last xs])" using xs(1) \<open>xs \<noteq> []\<close> by simp
        moreover have "x - 1 \<in> set (butlast xs) \<or> x - 1 = last xs"
          using a \<open>xs \<noteq> []\<close> by (metis in_set_butlast_appendI append_butlast_last_id set_ConsD set_append Un_iff list.set(1) empty_iff)
        ultimately show ?thesis by (auto simp: sorted_append)
      qed
      moreover have "last xs < x" using xs(3) \<open>xs \<noteq> []\<close> by simp
      ultimately show False using False by auto
    qed
    then show ?thesis by (simp add: s' active_run_def)
  qed
  have bound: "n \<le> longest" if run: "active_run (set (xs @ [x])) d n" for d n
  proof (cases "\<exists>i < n. d + int i = x")
    case False
    then have "active_run (set xs) d n" using run by (auto simp: active_run_def)
    then show ?thesis using IH now by fastforce
  next
    case True
    then obtain i where i: "i < n" "d + int i = x" by blast
    have "i = n - 1"
    proof (rule ccontr)
      assume "i \<noteq> n - 1"
      then have "i + 1 < n" using i by simp
      then have "d + int (i + 1) \<in> set (xs @ [x])" using run unfolding active_run_def by blast
      then have "x + 1 \<in> set (xs @ [x])" using i(2) by (simp add: algebra_simps)
      then show False using xs(3)[of "x + 1"] by auto
    qed
    have "n \<le> s'"
    proof (rule ccontr)
      assume "\<not> n \<le> s'"
      then have j: "n - 1 - s' < n" "int (n - 1 - s') = int i - int s'" using \<open>i = n - 1\<close> i(1) by auto
      have "d + int (n - 1 - s') \<in> set (xs @ [x])" using run j(1) unfolding active_run_def by blast
      moreover have "d + int (n - 1 - s') = x - int s'" using j(2) i(2) by simp
      ultimately show False using ends by simp
    qed
    then show ?thesis using now by simp
  qed
  have "\<exists>d. active_run (set (xs @ [x])) d longest"
  proof (cases "l \<le> s'")
    case True
    then show ?thesis using ends now by (metis max_absorb2)
  next
    case False
    obtain d where "active_run (set xs) d l" using IH by blast
    then have "active_run (set (xs @ [x])) d l" by (auto simp: active_run_def)
    then show ?thesis using False now by (metis max_absorb1 nle_le)
  qed
  then show ?case using bound ends now by simp
qed

text \<open>
  C27.  The statistics of a member say what they name: the total and the active days count the given
  days, the longest streak is the length of the longest run of consecutive active days (there is one
  that long and none longer), and the two weeks compared are the seven days ending today and the
  seven before.
\<close>

theorem longest_streak_exact:
  assumes "distinct (map fst counts)"
  defines "acts \<equiv> {d. dict_get counts d 0 \<noteq> 0}"
  shows "(\<exists>d. active_run acts d (as_longest_streak (activity_stats_of counts now)))
    \<and> (\<forall>d n. active_run acts d n \<longrightarrow> n \<le> as_longest_streak (activity_stats_of counts now))
    \<and> as_active_days (activity_stats_of counts now) = card acts
    \<and> as_total (activity_stats_of counts now) = (\<Sum>d \<in> acts. dict_get counts d 0)"
proof -
  let ?active = "map fst (filter (\<lambda>(d, n). n \<noteq> 0) counts)"
  have get: "dict_get counts d 0 = n" if "(d, n) \<in> set counts" for d n
    using assms(1) that by (simp add: dict_get_def)
  have acts: "set ?active = acts"
  proof
    show "acts \<subseteq> set ?active"
      by (force simp: acts_def dict_get_def split: option.splits dest!: map_of_SomeD)
  qed (auto simp: acts_def get)
  have dist: "distinct ?active" using assms(1) by (rule distinct_map_filter)
  obtain l s p where walk: "fold streak_step (sort ?active) (0, 0, None) = (l, s, p)" by (metis prod_cases3)
  have st: "as_longest_streak (activity_stats_of counts now) = l"
    by (simp add: activity_stats_of_def Let_def longest_streak_def walk)
  have "as_active_days (activity_stats_of counts now) = length ?active"
    by (simp add: activity_stats_of_def Let_def filter_map comp_def split_def)
  moreover have "card acts = length ?active" unfolding acts[symmetric] using dist by (rule distinct_card)
  moreover have "as_total (activity_stats_of counts now) = sum_list (map (\<lambda>d. dict_get counts d 0) ?active)"
  proof -
    have "sum_list (map snd cs) = sum_list (map snd (filter (\<lambda>(d, n). n \<noteq> 0) cs))" for cs :: "(date, int) dict"
      by (induction cs) auto
    moreover have "map snd (filter (\<lambda>(d, n). n \<noteq> 0) counts) = map (\<lambda>d. dict_get counts d 0) ?active"
      using get by (auto simp: comp_def)
    ultimately have "sum_list (map snd counts) = sum_list (map (\<lambda>d. dict_get counts d 0) ?active)" by metis
    then show ?thesis by (simp add: activity_stats_of_def Let_def)
  qed
  moreover have "(\<Sum>d \<in> acts. dict_get counts d 0) = sum_list (map (\<lambda>d. dict_get counts d 0) ?active)"
    unfolding acts[symmetric] using dist by (rule sum_list_distinct_conv_sum_set[symmetric])
  moreover have "distinct (sort ?active)" using dist by simp
  note streak_walk[OF sorted_sort this walk, unfolded set_sort acts]
  ultimately show ?thesis unfolding st by (elim conjE, intro conjI) (assumption | simp only:)+
qed

theorem longest_streak_exact_witness:
  "as_longest_streak (activity_stats_of [(3, 1), (9, 2), (4, 5), (8, 0), (5, 1)] 0) = 3
   \<and> as_active_days (activity_stats_of [(3, 1), (9, 2), (4, 5), (8, 0), (5, 1)] 0)
     = card {d. dict_get [(3, 1), (9, 2), (4, 5), (8, 0 :: int), (5, 1)] (d :: date) 0 \<noteq> 0}"
proof -
  let ?c = "[(3, 1), (9, 2), (4, 5), (8, 0), (5, 1)] :: (date, int) dict"
  have "as_longest_streak (activity_stats_of ?c 0) = 3" by code_simp
  moreover have "distinct (map fst ?c)" by simp
  ultimately show ?thesis using longest_streak_exact[of ?c 0] by simp
qed

section \<open>The grid\<close>

lemma intensity_bounds: "intensity counts n \<le> 4" "intensity counts n = 0 \<longleftrightarrow> n \<le> 0"
  by (simp_all add: intensity_def Let_def)

lemma intensity_mono: "m \<le> n \<Longrightarrow> intensity counts m \<le> intensity counts n"
  by (auto simp: intensity_def Let_def)

lemma concat_runs: "concat (runs_by key xs) = xs"
  by (induction xs) (auto split: list.splits)

lemma header_spans: "sum_list (map mh_span (month_headers ws)) = length ws"
proof -
  have "sum_list (map length (runs_by month_of ws)) = length (concat (runs_by month_of ws))"
    by (simp add: length_concat)
  then show ?thesis by (simp add: month_headers_def comp_def concat_runs)
qed

text \<open>
  The contribution calendar is a grid of at least the smallest and at most the largest number of
  weeks, each a column of seven cells; the columns start on consecutive Mondays and the last is the
  week of today; a cell is empty exactly past today and otherwise shows its day's level; the month
  headers span exactly the columns.  The levels grow with the count, from 0 for no activity to 4.
\<close>

theorem heatmap_is_whole_weeks:
  fixes now :: instant and since :: "date option" and counts :: "(date, int) dict"
  assumes "1 \<le> min_weeks" "min_weeks \<le> max_weeks"
  defines "starts \<equiv> fst (calendar_window (date_of now) since min_weeks max_weeks)"
    and "grid \<equiv> heatmap_calendar counts now since min_weeks max_weeks"
  shows "min_weeks \<le> int (length (hm_weeks grid)) \<and> int (length (hm_weeks grid)) \<le> max_weeks
    \<and> length starts = length (hm_weeks grid)
    \<and> last starts = date_of now - weekday (date_of now)
    \<and> (\<forall>w < length starts. weekday (starts ! w) = 0
         \<and> starts ! w = last starts - 7 * int (length starts - 1 - w)
         \<and> length (hm_weeks grid ! w) = 7
         \<and> (\<forall>i < 7. hm_weeks grid ! w ! i = (let d = starts ! w + int i in
              if d > date_of now then EmptyDay else heatmap_day (date_of now) counts d)))
    \<and> sum_list (map mh_span (hm_month_headers grid)) = length (hm_weeks grid)"
proof -
  define today where "today = date_of now"
  define weeks where "weeks = max min_weeks (min max_weeks (case since of
      Some s \<Rightarrow> (today - weekday today - (s - weekday s)) div 7 + 1 | None \<Rightarrow> max_weeks))"
  have w: "min_weeks \<le> weeks" "weeks \<le> max_weeks" "1 \<le> weeks"
    using assms(1,2) by (auto simp: weeks_def)
  have starts: "starts = map (\<lambda>w. today - weekday today - 7 * (weeks - 1) + 7 * int w) [0..<nat weeks]"
    by (simp only: starts_def calendar_window_def Let_def today_def weeks_def fst_conv)
  have weeks': "hm_weeks grid = map (week_column today counts) starts"
    "hm_month_headers grid = month_headers starts"
    by (simp_all add: grid_def heatmap_calendar_def starts_def today_def split_def)
  have len: "length starts = nat weeks" by (simp add: starts)
  have nth: "starts ! i = today - weekday today - 7 * (weeks - 1) + 7 * int i" if "i < nat weeks" for i
    using that by (simp add: starts)
  have ne: "starts \<noteq> []" using w by (simp add: starts)
  then have last: "last starts = today - weekday today"
    unfolding last_conv_nth[OF ne] len using nth[of "nat weeks - 1"] w by (simp add: of_nat_diff)
  have col: "weekday (starts ! i) = 0 \<and> starts ! i = last starts - 7 * int (length starts - 1 - i)"
    if "i < length starts" for i
  proof -
    have "starts ! i = last starts - 7 * int (length starts - 1 - i)"
      using that w unfolding last nth[OF that[unfolded len]] len by (simp add: of_nat_diff)
    moreover have "weekday (today - weekday today - 7 * k) = 0" for k
      unfolding weekday_def by presburger
    ultimately show ?thesis unfolding last by simp
  qed
  have cell: "week_column today counts s ! i = (let d = s + int i in if d > today then EmptyDay else heatmap_day today counts d)"
    if "i < 7" for s i
    using that by (simp add: week_column_def heatmap_day_def Let_def)
  have week_length: "length (week_column today counts d) = 7" for d by (simp add: week_column_def)
  have each: "weekday (starts ! w) = 0 \<and> starts ! w = last starts - 7 * int (length starts - 1 - w)
      \<and> length (map (week_column today counts) starts ! w) = 7
      \<and> (\<forall>i < 7. map (week_column today counts) starts ! w ! i = (let d = starts ! w + int i in
           if d > today then EmptyDay else heatmap_day today counts d))"
    if "w < length starts" for w
    using col[OF that] cell unfolding nth_map[OF that] week_length by blast
  have "min_weeks \<le> int (length starts)" "int (length starts) \<le> max_weeks" using w len by simp_all
  then show ?thesis
    using each last header_spans[of starts] unfolding weeks' today_def[symmetric] length_map by blast
qed

theorem heatmap_is_whole_weeks_witness:
  "last (fst (calendar_window (date_of 0) (Some 719000) 5 53)) = 719160
   \<and> sum_list (map mh_span (hm_month_headers (heatmap_calendar [(719163, 2)] 0 (Some 719000) 5 53)))
     = length (hm_weeks (heatmap_calendar [(719163, 2)] 0 (Some 719000) 5 53))"
proof -
  have b: "(1 :: int) \<le> 5" "(5 :: int) \<le> 53" by simp_all
  have "date_of 0 - weekday (date_of 0) = 719160" by code_simp
  moreover note heatmap_is_whole_weeks[OF b, where now = 0 and since = "Some 719000" and counts = "[(719163, 2)]"]
  ultimately show ?thesis by (elim conjE, intro conjI) (erule (1) trans, assumption)
qed

end
