(* ===== verification/Task_Strip.thy ===== *)
theory Task_Strip
  imports Complex_Main Task_Queue Py_Datetime
begin

text \<open>
  \<open>apps/tasks\<close>: the history of the queue as a film strip.  \<open>domain/strip.py\<close> lays the runs of a window out
  in slots and bands, \<open>infra/router.py\<close> builds the lanes from the queue's buckets and the failed tries.
  Percentages are exact rationals, before the rounding to three decimals that the page shows; a
  caption and a tally are kept as their parts, since the separator is no ASCII character.
\<close>

section \<open>Words\<close>

definition min_width :: rat where "min_width = 2 / 5"
definition max_ticks :: int where "max_ticks = 8"
definition max_buckets :: int where "max_buckets = 400"
definition min_share :: rat where "min_share = 6"

definition strip_steps :: "int list" where
  "strip_steps = [60, 120, 300, 600, 900, 1800, 3600, 7200, 10800, 21600, 43200, 86400, 172800, 604800]"

definition reaction_parts :: "string \<Rightarrow> (string \<times> string) option" where
  "reaction_parts topic =
     (case split_on CHR '':'' topic of
        [e, kind, consumer] \<Rightarrow> if e = ''evt'' then Some (kind, consumer) else None
      | _ \<Rightarrow> None)"

record topic_lines =
  tl_name :: string
  tl_kind :: string

definition topic_label :: "string \<Rightarrow> topic_lines" where
  "topic_label topic =
     (case reaction_parts topic of
        Some (kind, consumer) \<Rightarrow> \<lparr>tl_name = consumer, tl_kind = kind\<rparr>
      | None \<Rightarrow> \<lparr>tl_name = topic, tl_kind = []\<rparr>)"

definition duration_units :: "(string \<times> int) list" where
  "duration_units = [(''day'', 86400), (''hour'', 3600), (''min'', 60)]"

definition whole_unit :: "int \<Rightarrow> int \<times> string" where
  "whole_unit secs =
     (case List.find (\<lambda>(unit, sz). secs \<ge> sz \<and> secs mod sz = 0) duration_units of
        Some (unit, sz) \<Rightarrow> (secs div sz, unit)
      | None \<Rightarrow> (secs, ''second''))"

definition spell_duration :: "int \<Rightarrow> string" where
  "spell_duration secs = (case whole_unit secs of (n, unit) \<Rightarrow>
     str_int n @ '' '' @ unit @ (if n = 1 then [] else ''s''))"

text \<open>The cadence, and the clock time of the next run shown after it.\<close>

definition spell_cadence :: "int option \<Rightarrow> instant option \<Rightarrow> string \<times> string option" where
  "spell_cadence secs next_run =
     (case secs of
        None \<Rightarrow> ([], None)
      | Some s \<Rightarrow>
          if s = 0 then ([], None)
          else (case whole_unit s of (n, unit) \<Rightarrow>
            (if n = 1 then ''every '' @ unit else ''every '' @ str_int n @ '' '' @ unit @ ''s'',
             map_option format_hm next_run)))"

definition strip_bands :: "(string \<times> string) list" where
  "strip_bands = [(''parked'', ''parked''), (''attempt'', ''failed tries''), (''retrying'', ''retrying''),
     (''pending'', ''pending''), (''done'', ''done'')]"

definition band_order :: "string list" where
  "band_order = map fst strip_bands"

definition spell_tally :: "(string, nat) dict \<Rightarrow> string list" where
  "spell_tally counts =
     map (\<lambda>(kind, word). str_int (int (dict_get counts kind 0)) @ '' '' @ word)
       (filter (\<lambda>(kind, _). dict_get counts kind 0 \<noteq> 0) strip_bands)"

definition present_bands :: "(string, nat) dict \<Rightarrow> string list" where
  "present_bands counts = filter (\<lambda>kind. dict_get counts kind 0 \<noteq> 0) band_order"

definition floored_share :: "(string, nat) dict \<Rightarrow> string \<Rightarrow> rat" where
  "floored_share counts kind =
     (let total = sum_list (map (\<lambda>k. dict_get counts k 0) (present_bands counts)) in
      max (of_nat (dict_get counts kind 0) / of_nat total * 100) min_share)"

definition tally_bar :: "(string, nat) dict \<Rightarrow> (string \<times> rat) list" where
  "tally_bar counts =
     (let present = present_bands counts;
          scale = 100 / sum_list (map (floored_share counts) present) in
      map (\<lambda>kind. (kind, floored_share counts kind * scale)) present)"

section \<open>The axis\<close>

record axis_tick =
  ax_left :: rat
  ax_label :: string

definition span_seconds :: "instant \<Rightarrow> instant \<Rightarrow> rat" where
  "span_seconds a b = of_int (b - a) / 1000000"

definition first_step :: "int \<Rightarrow> instant \<Rightarrow> instant \<Rightarrow> int" where
  "first_step limit a b =
     (case List.find (\<lambda>s. b - a \<le> limit * seconds s) strip_steps of Some s \<Rightarrow> s | None \<Rightarrow> last strip_steps)"

definition bucket_seconds :: "instant \<Rightarrow> instant \<Rightarrow> int" where
  "bucket_seconds a b = first_step max_buckets a b"

definition ceil_to :: "instant \<Rightarrow> int \<Rightarrow> instant" where
  "ceil_to moment step = moment + (- moment) mod seconds step"

text \<open>The loop of \<open>axis_ticks\<close>; the steps are positive.\<close>

function tick_instants :: "int \<Rightarrow> instant \<Rightarrow> instant \<Rightarrow> instant list" where
  "tick_instants step t0 b = (if step \<le> 0 \<or> t0 > b then [] else t0 # tick_instants step (t0 + seconds step) b)"
  by auto
termination
  by (relation "measure (\<lambda>(step, t0, b). nat (b + 1 - t0))") auto

declare tick_instants.simps [simp del]

definition tick_label :: "bool \<Rightarrow> instant \<Rightarrow> string" where
  "tick_label with_day t0 =
     (if with_day
      then (case ord2ymd (date_of t0) of (_, _, d) \<Rightarrow>
        zero_pad 2 d @ '' '' @ month_abbrev (date_of t0) @ '' '' @ format_hm t0)
      else format_hm t0)"

definition axis_ticks :: "instant \<Rightarrow> instant \<Rightarrow> axis_tick list" where
  "axis_ticks a b =
     (if b - a \<le> 0 then []
      else (let step = first_step max_ticks a b; with_day = (b - a > seconds 86400) in
        map (\<lambda>t0. \<lparr>ax_left = span_seconds a t0 / span_seconds a b * 100, ax_label = tick_label with_day t0\<rparr>)
          (tick_instants step (ceil_to a step) b)))"

section \<open>Blocks and lanes\<close>

record slot_link =
  tk_query :: string
  tk_from :: instant
  tk_to :: instant

record strip_segment =
  sg_kind :: string
  sg_left :: rat
  sg_width :: rat
  sg_top :: rat
  sg_height :: rat
  sg_starts :: instant
  sg_ends :: instant
  sg_href :: slot_link
  sg_caption :: "string \<times> nat \<times> string"

definition timeline_link :: "string \<Rightarrow> instant \<Rightarrow> instant \<Rightarrow> slot_link" where
  "timeline_link topic a b =
     \<lparr>tk_query = (case reaction_parts topic of Some (kind, _) \<Rightarrow> kind | None \<Rightarrow> topic), tk_from = a, tk_to = b\<rparr>"

definition held_counts :: "(string, nat) dict \<Rightarrow> nat \<Rightarrow> (string, nat) dict" where
  "held_counts counts attempts =
     (let held = filter (\<lambda>(k, v). v \<noteq> 0) counts in
      if attempts \<noteq> 0 then AList.update ''attempt'' attempts held else held)"

definition bucket_blocks :: "instant \<Rightarrow> instant \<Rightarrow> string \<Rightarrow> (string, nat) dict \<Rightarrow> nat \<Rightarrow> instant \<Rightarrow> instant
    \<Rightarrow> strip_segment list" where
  "bucket_blocks slot_start slot_end topic counts attempts a b =
     (let held = held_counts counts attempts; present = present_bands held;
          share = 100 / of_nat (length present) in
      map (\<lambda>(index, state). \<lparr>sg_kind = state,
             sg_left = span_seconds a slot_start / span_seconds a b * 100,
             sg_width = max (span_seconds slot_start slot_end / span_seconds a b * 100) min_width,
             sg_top = of_nat index * share, sg_height = share, sg_starts = slot_start, sg_ends = slot_end,
             sg_href = timeline_link topic slot_start slot_end,
             sg_caption = (format_hm slot_start, dict_get held state 0, dict_get strip_bands state [])\<rparr>)
        (zip [0..<length present] present))"

record strip_lane =
  ln_topic :: string
  ln_label :: topic_lines
  ln_cadence :: "string \<times> string option"
  ln_state :: string
  ln_counts :: "(string, nat) dict"
  ln_segments :: "strip_segment list"

type_synonym slot_counts = "(instant, (string, nat) dict) dict"
type_synonym film = "(string, slot_counts) dict"

definition add_bucket :: "task_bucket \<Rightarrow> film \<Rightarrow> film" where
  "add_bucket one film =
     (let slots = dict_get film (tb_topic one) []; counts = dict_get slots (tb_slot one) [] in
      AList.update (tb_topic one)
        (AList.update (tb_slot one) (AList.update (tb_state one) (tb_runs one) counts) slots) film)"

definition add_slot :: "string \<times> instant \<Rightarrow> film \<Rightarrow> film" where
  "add_slot k film = (case k of (topic, slot) \<Rightarrow>
     (let slots = dict_get film topic [] in
      AList.update topic (AList.update slot (dict_get slots slot []) slots) film))"

type_synonym failed_tries = "(string \<times> instant, nat) dict"

definition film_of :: "task_bucket list \<Rightarrow> failed_tries \<Rightarrow> film" where
  "film_of counted attempts = fold add_slot (map fst attempts) (fold add_bucket counted [])"

definition tally_add :: "string \<times> nat \<Rightarrow> (string, nat) dict \<Rightarrow> (string, nat) dict" where
  "tally_add e tally = (case e of (state, n) \<Rightarrow> AList.update state (dict_get tally state 0 + n) tally)"

definition lane_of :: "failed_tries \<Rightarrow> int \<Rightarrow> instant \<Rightarrow> instant \<Rightarrow> string \<times> slot_counts \<Rightarrow> strip_lane" where
  "lane_of attempts bucket a b entry = (case entry of (topic, slots) \<Rightarrow>
     (let tally = fold (fold tally_add) (map snd slots) [];
          failed = sum_list (map (\<lambda>slot. dict_get attempts (topic, slot) 0) (map fst slots)) in
      \<lparr>ln_topic = topic, ln_label = topic_label topic, ln_cadence = ([], None),
       ln_state = (if list_ex (\<lambda>c. ''parked'' \<in> fst ` set c) (map snd slots) then ''parked'' else ''done''),
       ln_counts = (if failed \<noteq> 0 then AList.update ''attempt'' failed tally else tally),
       ln_segments = concat (map (\<lambda>(slot, counts).
           bucket_blocks slot (slot + seconds bucket) topic counts (dict_get attempts (topic, slot) 0) a b)
         (sort_key fst slots))\<rparr>))"

definition lanes :: "task_bucket list \<Rightarrow> failed_tries \<Rightarrow> int \<Rightarrow> instant \<Rightarrow> instant \<Rightarrow> strip_lane list" where
  "lanes counted attempts bucket a b =
     map (lane_of attempts bucket a b) (sort_key fst (film_of counted attempts))"

section \<open>The screen\<close>

definition history_hours :: int where "history_hours = 6"

text \<open>A bound as \<open>fromisoformat\<close> reads it (its parser is a parameter), its offset replaced by UTC.\<close>

definition window_bound :: "(string \<Rightarrow> int option) \<Rightarrow> string \<Rightarrow> instant option" where
  "window_bound parse_iso value = (if value = [] then None else parse_iso value)"

definition history_window :: "(string \<Rightarrow> int option) \<Rightarrow> string \<Rightarrow> string \<Rightarrow> instant
    \<Rightarrow> datetime_error + instant \<times> instant" where
  "history_window parse_iso from_dt to_dt now =
     (let b = (case window_bound parse_iso to_dt of Some t \<Rightarrow> t | None \<Rightarrow> now);
          back = b - history_hours * seconds 3600 in
      case window_bound parse_iso from_dt of
        Some a \<Rightarrow> if a < b then Inr (a, b)
                  else if in_datetime_range back then Inr (back, b) else Inl OutOfRange
      | None \<Rightarrow> if in_datetime_range back then Inr (back, b) else Inl OutOfRange)"

definition clock_of :: "(int \<times> instant) option \<Rightarrow> string \<times> string option" where
  "clock_of topic = (case topic of None \<Rightarrow> ([], None) | Some (every, next_run) \<Rightarrow> spell_cadence (Some every) (Some next_run))"

definition empty_lane :: "string \<times> int \<times> instant \<Rightarrow> strip_lane" where
  "empty_lane c = \<lparr>ln_topic = fst c, ln_label = topic_label (fst c), ln_cadence = clock_of (Some (snd c)),
     ln_state = ''done'', ln_counts = [], ln_segments = []\<rparr>"

record history_page =
  th_start :: instant
  th_end :: instant
  th_bucket :: int
  th_bucket_spelled :: string
  th_ahead :: bool
  th_has_runs :: bool
  th_axis :: "axis_tick list"
  th_recurring :: "strip_lane list"
  th_oneshot :: "strip_lane list"

definition task_history :: "(string \<Rightarrow> int option) \<Rightarrow> (instant \<Rightarrow> instant \<Rightarrow> int \<Rightarrow> failed_tries)
    \<Rightarrow> task_store \<Rightarrow> string \<Rightarrow> string \<Rightarrow> instant \<Rightarrow> datetime_error + history_page" where
  "task_history parse_iso counted_tries st from_dt to_dt now =
     bind_err (history_window parse_iso from_dt to_dt now) (\<lambda>(a, b).
       let bucket = bucket_seconds a b; cadences = live_recurring_topics st;
           attempts = counted_tries a b bucket;
           known = (\<lambda>(k, _). map_of cadences (fst k) \<noteq> None);
           drawn = map (\<lambda>lane. lane\<lparr>ln_cadence := clock_of (map_of cadences (ln_topic lane))\<rparr>)
             (lanes (bucketed_runs a b bucket True st) (filter known attempts) bucket a b);
           recurring = drawn @ map empty_lane
             (filter (\<lambda>(t, _). t \<notin> ln_topic ` set drawn) cadences);
           oneshot = lanes (bucketed_runs a b bucket False st) (filter (\<lambda>e. \<not> known e) attempts) bucket a b in
       Inr \<lparr>th_start = a, th_end = b, th_bucket = bucket, th_bucket_spelled = spell_duration bucket,
            th_ahead = (a > now),
            th_has_runs = list_ex (\<lambda>l. ln_segments l \<noteq> []) (recurring @ oneshot),
            th_axis = axis_ticks a b, th_recurring = sort_key ln_topic recurring, th_oneshot = oneshot\<rparr>)"

definition backlog_limit :: nat where "backlog_limit = 200"

datatype tasks_answer = TasksPage "task_row list" "(string, nat) dict" "datetime_error + history_page"
  | TasksBacklog "task_row list" | TasksFilm "datetime_error + history_page" | TasksRefused nat string

definition get_tasks :: "(string \<Rightarrow> int option) \<Rightarrow> (instant \<Rightarrow> instant \<Rightarrow> int \<Rightarrow> failed_tries)
    \<Rightarrow> bool \<Rightarrow> bool \<Rightarrow> string \<Rightarrow> string \<Rightarrow> string \<Rightarrow> string \<Rightarrow> string \<Rightarrow> instant \<Rightarrow> task_store \<Rightarrow> tasks_answer" where
  "get_tasks parse_iso counted_tries json full_page state topic from_dt to_dt panel now st =
     (if state \<noteq> [] \<and> state \<notin> set task_states then TasksRefused 400 ''Unknown state''
      else (let tasks = list_unfinished_tasks state topic backlog_limit st;
                history = task_history parse_iso counted_tries st from_dt to_dt now in
            if \<not> json \<and> \<not> full_page
            then (if panel = ''history'' then TasksFilm history else TasksBacklog tasks)
            else TasksPage tasks (count_unfinished_tasks st) history))"

end
