(* ===== verification/Object_Store.thy ===== *)
theory Object_Store
  imports Dependency
begin

text \<open>
  Supabase Storage as its clients use it (\<open>apps/shared/persistence/storage.py\<close>): one bucket of objects by
  path, each with its media type and bytes.  The service is not under \<open>src\<close>: what the code relies on is that
  an upload is refused where an object is (unless it may overwrite), a move where its source is missing
  or its target is taken, and a download or a signed link where there is no object.  Any call can also
  fail, a parameter of the operations; it then leaves the bucket as it was.  The other case, a call that
  took effect but whose answer was lost, is the case of a request whose transaction does not commit (the
  route raises, the tables stay, the bucket keeps the change), which the histories of the files have as
  a step of its own.
\<close>

section \<open>The interface\<close>

locale object_store =
  fixes get :: "string \<Rightarrow> 's \<Rightarrow> 'o option"
    and put :: "string \<Rightarrow> 'o \<Rightarrow> 's \<Rightarrow> 's"
    and del :: "string \<Rightarrow> 's \<Rightarrow> 's"
  assumes get_put: "get q (put p x s) = (if q = p then Some x else get q s)"
    and get_del: "get q (del p s) = (if q = p then None else get q s)"
begin

lemma put_elsewhere:
  assumes "\<forall>r \<in> R. get (path r) s = Some (ob r)" "p \<notin> path ` R"
  shows "\<forall>r \<in> R. get (path r) (put p x s) = Some (ob r)"
  using assms by (auto simp: get_put)

lemma del_elsewhere:
  assumes "\<forall>r \<in> R. get (path r) s = Some (ob r)" "p \<notin> path ` R"
  shows "\<forall>r \<in> R. get (path r) (del p s) = Some (ob r)"
  using assms by (auto simp: get_del)

lemma relocate_keeps:
  assumes "\<forall>r \<in> R. get (path r) s = Some (ob r)" "p \<notin> path ` R" "q \<notin> path ` R"
  shows "\<forall>r \<in> R. get (path r) (put q x (del p s)) = Some (ob r)"
  by (intro put_elsewhere del_elsewhere assms)

end

section \<open>The bucket\<close>

type_synonym stored_object = "string \<times> string"
type_synonym bucket = "(string, stored_object) dict"

definition bucket_get :: "string \<Rightarrow> bucket \<Rightarrow> stored_object option" where
  "bucket_get p b = map_of b p"

definition bucket_put :: "string \<Rightarrow> stored_object \<Rightarrow> bucket \<Rightarrow> bucket" where
  "bucket_put p x b = AList.update p x b"

definition bucket_del :: "string \<Rightarrow> bucket \<Rightarrow> bucket" where
  "bucket_del p b = AList.delete p b"

lemma bucket_get_put: "bucket_get q (bucket_put p x b) = (if q = p then Some x else bucket_get q b)"
  by (simp add: bucket_get_def bucket_put_def map_of_AList_update)

lemma bucket_get_del: "bucket_get q (bucket_del p b) = (if q = p then None else bucket_get q b)"
  by (simp add: bucket_get_def bucket_del_def AList.delete_conv)

interpretation objects: object_store bucket_get bucket_put bucket_del
  by unfold_locales (simp_all add: bucket_get_put bucket_get_del)

section \<open>The calls\<close>

text \<open>What goes wrong outside: by call and path.\<close>

type_synonym storage_trouble = "string \<Rightarrow> string \<Rightarrow> dependency_failure option"

definition storage_call :: "storage_trouble \<Rightarrow> string \<Rightarrow> string \<Rightarrow> dependency_failure + 'a \<Rightarrow> dependency_failure + 'a" where
  "storage_call trouble call p answer = (case trouble call p of Some e \<Rightarrow> Inl e | None \<Rightarrow> answer)"

definition storage_upload :: "storage_trouble \<Rightarrow> bool \<Rightarrow> string \<Rightarrow> stored_object \<Rightarrow> bucket \<Rightarrow> dependency_failure + bucket" where
  "storage_upload trouble upsert p x b = storage_call trouble ''upload'' p
     (if \<not> upsert \<and> bucket_get p b \<noteq> None then Inl (answered 409) else Inr (bucket_put p x b))"

definition storage_remove :: "storage_trouble \<Rightarrow> string \<Rightarrow> bucket \<Rightarrow> dependency_failure + bucket" where
  "storage_remove trouble p b = storage_call trouble ''remove'' p (Inr (bucket_del p b))"

definition storage_move :: "storage_trouble \<Rightarrow> string \<Rightarrow> string \<Rightarrow> bucket \<Rightarrow> dependency_failure + bucket" where
  "storage_move trouble p q b = storage_call trouble ''move'' p
     (case bucket_get p b of
        None \<Rightarrow> Inl (answered 404)
      | Some x \<Rightarrow> if bucket_get q b \<noteq> None then Inl (answered 409) else Inr (bucket_put q x (bucket_del p b)))"

definition storage_sign :: "storage_trouble \<Rightarrow> string \<Rightarrow> bucket \<Rightarrow> dependency_failure + string" where
  "storage_sign trouble p b = storage_call trouble ''sign'' p
     (if bucket_get p b = None then Inl (answered 404) else Inr p)"

definition storage_download :: "storage_trouble \<Rightarrow> string \<Rightarrow> bucket \<Rightarrow> dependency_failure + stored_object" where
  "storage_download trouble p b = storage_call trouble ''download'' p
     (case bucket_get p b of None \<Rightarrow> Inl (answered 404) | Some x \<Rightarrow> Inr x)"

lemmas storage_defs = storage_call_def storage_upload_def storage_remove_def storage_move_def
  storage_sign_def storage_download_def

end
