(* ===== verification/Files.thy ===== *)
theory Files
  imports Organizations Object_Store
begin

text \<open>
  \<open>apps/files\<close>: an organisation's files, their rows in the database and their bytes in Storage, with the
  share links that let an anonymous visitor download one.  Every route is a function of the world and
  its parameters; a route that raises leaves the tables as they were, while what Storage did stays done.
  Unicode normalisation of a file name is a parameter (its tables are not written out), and the signed
  address is kept as the path it signs.
\<close>

section \<open>Rows\<close>

record org_file =
  fl_id :: uuid
  fl_org :: uuid
  fl_uploaded_by :: uuid
  fl_uploader_email :: string
  fl_filename :: string
  fl_path :: string
  fl_type :: string
  fl_size :: int
  fl_created_at :: instant

record share_token =
  sh_token :: uuid
  sh_file :: uuid
  sh_expires :: instant

record file_world =
  fw_files :: "org_file list"
  fw_tokens :: "share_token list"
  fw_objects :: bucket

record files_settings =
  fs_max_upload_mb :: int
  fs_uploads_enabled :: bool
  fs_signed_url_ttl :: int
  fs_share_link_ttl_days :: int
  fs_quota_mb :: int

datatype file_fact =
    FileUploaded uuid uuid uuid string
  | FileDeleted uuid uuid uuid string
  | FileRenamed uuid uuid uuid string string
  | FileShareLinkCreated uuid uuid uuid
  | FileShareDownloaded uuid uuid

datatype file_reply =
    FileRefused int string
  | FileCrashed
  | FileStored uuid string string
  | FileGone
  | FileSkipped
  | FileList "org_file list"
  | ShareUrl uuid
  | SignedRedirect string int

section \<open>The repository\<close>

definition file_get :: "uuid \<Rightarrow> uuid \<Rightarrow> file_world \<Rightarrow> org_file option" where
  "file_get o' pk w = List.find (\<lambda>f. fl_id f = pk \<and> fl_org f = o') (fw_files w)"

definition file_all :: "uuid \<Rightarrow> file_world \<Rightarrow> org_file list" where
  "file_all o' w = sort_key (\<lambda>f. - fl_created_at f) (filter (\<lambda>f. fl_org f = o') (fw_files w))"

definition total_size :: "uuid \<Rightarrow> file_world \<Rightarrow> int" where
  "total_size o' w = sum_list (map fl_size (filter (\<lambda>f. fl_org f = o') (fw_files w)))"

definition storage_path :: "uuid \<Rightarrow> uuid \<Rightarrow> string \<Rightarrow> string" where
  "storage_path o' pk filename = uuid_str o' @ ''/'' @ uuid_str pk @ ''_'' @ filename"

text \<open>\<open>None\<close> is an integrity error: the identifier is taken.\<close>

definition file_add :: "org_file \<Rightarrow> file_world \<Rightarrow> file_world option" where
  "file_add f w = (if fl_id f \<in> fl_id ` set (fw_files w) then None else Some (w\<lparr>fw_files := fw_files w @ [f]\<rparr>))"

definition file_rename :: "uuid \<Rightarrow> string \<Rightarrow> string \<Rightarrow> file_world \<Rightarrow> file_world" where
  "file_rename pk filename path w = w\<lparr>fw_files :=
     update_where (\<lambda>f. fl_id f = pk) (\<lambda>f. f\<lparr>fl_filename := filename, fl_path := path\<rparr>) (fw_files w)\<rparr>"

text \<open>Deleting a file cascades to its share tokens.\<close>

definition file_drop :: "uuid \<Rightarrow> file_world \<Rightarrow> file_world" where
  "file_drop pk w = w\<lparr>fw_files := delete_where (\<lambda>f. fl_id f = pk) (fw_files w),
     fw_tokens := delete_where (\<lambda>t. sh_file t = pk) (fw_tokens w)\<rparr>"

definition add_share_token :: "files_settings \<Rightarrow> uuid \<Rightarrow> instant \<Rightarrow> uuid \<Rightarrow> file_world \<Rightarrow> file_world" where
  "add_share_token st token now pk w = w\<lparr>fw_tokens := fw_tokens w @
     [\<lparr>sh_token = token, sh_file = pk, sh_expires = now + days (fs_share_link_ttl_days st)\<rparr>]\<rparr>"

definition get_share_token :: "uuid \<Rightarrow> file_world \<Rightarrow> share_token option" where
  "get_share_token token w = row_by sh_token token (fw_tokens w)"

definition count_and_size :: "file_world \<Rightarrow> nat \<times> int" where
  "count_and_size w = (length (fw_files w), sum_list (map fl_size (fw_files w)))"

section \<open>Names and failures\<close>

definition safe_char :: "char \<Rightarrow> bool" where
  "safe_char c \<longleftrightarrow> is_upper c \<or> is_lower c \<or> is_digit c \<or> c \<in> set ''._-''"

definition backslash :: char where "backslash = CHR 0x5C"

definition sanitize_filename :: "(string \<Rightarrow> string) \<Rightarrow> string \<Rightarrow> string option" where
  "sanitize_filename nfkd raw =
     (let name = strip raw in
      if name = [] \<or> contains (hd (split_on CHR ''/'' name)) ''..'' \<or> CHR ''/'' \<in> set name \<or> backslash \<in> set name then None
      else (let cleaned = map (\<lambda>c. if safe_char c then c else CHR ''_'') (nfkd name) in
        if cleaned = [] \<or> dropWhile (\<lambda>c. c = CHR ''.'') cleaned = [] then None else Some cleaned))"

definition storage_failure :: "dependency_failure \<Rightarrow> file_reply" where
  "storage_failure exc = (if is_refusal exc then FileRefused 400 ''refused'' else FileRefused 500 ''Storage is unavailable'')"

definition can_modify :: "uuid \<Rightarrow> membership \<Rightarrow> bool" where
  "can_modify uploaded_by m \<longleftrightarrow> uploaded_by = mb_user m \<or> mb_role m = Owner"

section \<open>The policies of the database and of the bucket\<close>

definition file_row_policy :: "org_db \<Rightarrow> uuid \<Rightarrow> org_file \<Rightarrow> bool" where
  "file_row_policy db caller f \<longleftrightarrow> (\<exists>m. get_membership (fl_org f) caller db = Some m
     \<and> (fl_uploaded_by f = caller \<or> mb_role m = Owner))"

text \<open>
  An object's organisation is the first segment of its path, when that has the shape of an identifier:
  groups of 8, 4, 4, 4 and 12 hexadecimal digits.
\<close>

definition uuid_shaped :: "string \<Rightarrow> bool" where
  "uuid_shaped s \<longleftrightarrow> map length (split_on CHR ''-'' s) = [8, 4, 4, 4, 12]
     \<and> list_all (\<lambda>c. hex_value c \<noteq> None) (concat (split_on CHR ''-'' s))"

definition storage_path_org_id :: "string \<Rightarrow> uuid option" where
  "storage_path_org_id p = (case split_on CHR ''/'' p of
       folder # _ # _ \<Rightarrow> if uuid_shaped folder then uuid_parse folder else None
     | _ \<Rightarrow> None)"

definition object_policy :: "org_db \<Rightarrow> uuid \<Rightarrow> string \<Rightarrow> bool" where
  "object_policy db caller p \<longleftrightarrow> (case storage_path_org_id p of None \<Rightarrow> False | Some o' \<Rightarrow> get_membership o' caller db \<noteq> None)"

section \<open>Routes\<close>

text \<open>What a request carries: who asks, as which member, of which organisation, and the outside world.\<close>

record file_caller =
  fc_org :: uuid
  fc_email :: string
  fc_member :: membership

record file_env =
  fe_normalize :: "string \<Rightarrow> string"
  fe_trouble :: storage_trouble
  fe_settings :: files_settings
  fe_now :: instant

record upload =
  up_name :: string
  up_type :: string
  up_content :: string

type_synonym file_result = "file_world \<times> file_fact list \<times> file_reply"

definition megabytes :: "int \<Rightarrow> int" where "megabytes n = n * 1024 * 1024"

definition upload_file :: "file_env \<Rightarrow> file_caller \<Rightarrow> uuid \<Rightarrow> upload \<Rightarrow> file_world \<Rightarrow> file_result" where
  "upload_file env c new_id up w =
     (let st = fe_settings env; n = int (length (up_content up)) in
      if \<not> fs_uploads_enabled st then (w, [], FileRefused 403 ''Uploads are disabled'')
      else if megabytes (fs_max_upload_mb st) < n then (w, [], FileRefused 413 ''File too large'')
      else if 0 \<le> fs_quota_mb st \<and> megabytes (fs_quota_mb st) < total_size (fc_org c) w + n
        then (w, [], FileRefused 413 ''Organisation storage quota exceeded'')
      else (case sanitize_filename (fe_normalize env) (if up_name up = [] then ''upload'' else up_name up) of
          None \<Rightarrow> (w, [], FileRefused 400 ''Invalid filename'')
        | Some name \<Rightarrow>
            (let path = storage_path (fc_org c) new_id name;
                 media = (if up_type up = [] then ''application/octet-stream'' else up_type up) in
             case storage_upload (fe_trouble env) False path (media, up_content up) (fw_objects w) of
               Inl e \<Rightarrow> (w, [], storage_failure e)
             | Inr objs \<Rightarrow>
                 (case file_add \<lparr>fl_id = new_id, fl_org = fc_org c, fl_uploaded_by = mb_user (fc_member c),
                      fl_uploader_email = fc_email c, fl_filename = name, fl_path = path, fl_type = media,
                      fl_size = n, fl_created_at = fe_now env\<rparr> (w\<lparr>fw_objects := objs\<rparr>) of
                    None \<Rightarrow> (w\<lparr>fw_objects := objs\<rparr>, [], FileCrashed)
                  | Some w' \<Rightarrow> (w', [FileUploaded (mb_user (fc_member c)) (fc_org c) new_id name],
                                FileStored new_id name media)))))"

definition file_list :: "file_caller \<Rightarrow> file_world \<Rightarrow> file_result" where
  "file_list c w = (w, [], FileList (file_all (fc_org c) w))"

definition download_file :: "file_env \<Rightarrow> file_caller \<Rightarrow> uuid \<Rightarrow> file_world \<Rightarrow> file_result" where
  "download_file env c pk w = (case file_get (fc_org c) pk w of
       None \<Rightarrow> (w, [], FileRefused 404 ''Not found'')
     | Some f \<Rightarrow> (case storage_sign (fe_trouble env) (fl_path f) (fw_objects w) of
           Inl e \<Rightarrow> (w, [], FileCrashed)
         | Inr p \<Rightarrow> (w, [], SignedRedirect p (fs_signed_url_ttl (fe_settings env)))))"

definition delete_file :: "file_env \<Rightarrow> file_caller \<Rightarrow> uuid \<Rightarrow> file_world \<Rightarrow> file_result" where
  "delete_file env c pk w = (case file_get (fc_org c) pk w of
       None \<Rightarrow> (w, [], FileRefused 404 ''Not found'')
     | Some f \<Rightarrow>
         if \<not> can_modify (fl_uploaded_by f) (fc_member c) then (w, [], FileRefused 403 ''Forbidden'')
         else (case storage_remove (fe_trouble env) (fl_path f) (fw_objects w) of
             Inl e \<Rightarrow> (w, [], FileCrashed)
           | Inr objs \<Rightarrow> (file_drop pk (w\<lparr>fw_objects := objs\<rparr>),
               [FileDeleted (mb_user (fc_member c)) (fc_org c) pk (fl_filename f)], FileGone)))"

definition rename_file :: "file_env \<Rightarrow> file_caller \<Rightarrow> uuid \<Rightarrow> string \<Rightarrow> file_world \<Rightarrow> file_result" where
  "rename_file env c pk filename w = (case sanitize_filename (fe_normalize env) filename of
       None \<Rightarrow> (w, [], FileRefused 400 ''Invalid filename'')
     | Some name \<Rightarrow> (case file_get (fc_org c) pk w of
         None \<Rightarrow> (w, [], FileRefused 404 ''Not found'')
       | Some f \<Rightarrow>
           if \<not> can_modify (fl_uploaded_by f) (fc_member c) then (w, [], FileRefused 403 ''Forbidden'')
           else (let path = storage_path (fc_org c) pk name in
             case storage_move (fe_trouble env) (fl_path f) path (fw_objects w) of
               Inl e \<Rightarrow> (w, [], storage_failure e)
             | Inr objs \<Rightarrow> (let w' = file_rename pk name path (w\<lparr>fw_objects := objs\<rparr>) in
                 (w', [FileRenamed (mb_user (fc_member c)) (fc_org c) pk name (fl_filename f)],
                  FileList (file_all (fc_org c) w'))))))"

definition generate_share_link :: "file_env \<Rightarrow> file_caller \<Rightarrow> uuid \<Rightarrow> uuid \<Rightarrow> file_world \<Rightarrow> file_result" where
  "generate_share_link env c token pk w = (case file_get (fc_org c) pk w of
       None \<Rightarrow> (w, [], FileRefused 404 ''Not found'')
     | Some f \<Rightarrow>
         if token \<in> sh_token ` set (fw_tokens w) then (w, [], FileCrashed)
         else (add_share_token (fe_settings env) token (fe_now env) pk w,
               [FileShareLinkCreated (mb_user (fc_member c)) (fc_org c) pk], ShareUrl token))"

text \<open>Anonymous, on the admin session; the settings are those of the file's organisation.\<close>

definition public_share_download :: "(uuid \<Rightarrow> files_settings) \<Rightarrow> file_env \<Rightarrow> uuid \<Rightarrow> file_world \<Rightarrow> file_result" where
  "public_share_download settings_of env token w = (case get_share_token token w of
       None \<Rightarrow> (w, [], FileRefused 404 ''Link not found'')
     | Some t \<Rightarrow>
         if sh_expires t < fe_now env then (w, [], FileRefused 410 ''Link expired'')
         else (case row_by fl_id (sh_file t) (fw_files w) of
             None \<Rightarrow> (w, [], FileRefused 404 ''File not found'')
           | Some f \<Rightarrow> (case storage_sign (fe_trouble env) (fl_path f) (fw_objects w) of
               Inl e \<Rightarrow> (w, [], FileCrashed)
             | Inr p \<Rightarrow> (w, [FileShareDownloaded (fl_org f) (fl_id f)],
                         SignedRedirect p (fs_signed_url_ttl (settings_of (fl_org f)))))))"

section \<open>The welcome file\<close>

definition welcome_filename :: string where "welcome_filename = ''welcome.txt''"

definition newline :: string where "newline = [CHR 0x0A]"

definition welcome_body :: string where
  "welcome_body = ''Welcome to your organisation!'' @ newline @ newline
     @ ''This is your shared file space. Upload documents here and share them with'' @ newline
     @ ''your teammates via expiring links.'' @ newline"

definition seed_welcome_file :: "file_env \<Rightarrow> bool \<Rightarrow> bool \<Rightarrow> uuid \<Rightarrow> uuid \<Rightarrow> uuid \<Rightarrow> file_world \<Rightarrow> file_result" where
  "seed_welcome_file env owner_lives org_lives o' owner new_id w =
     (if \<not> owner_lives \<or> \<not> org_lives then (w, [], FileSkipped)
      else (let path = storage_path o' new_id welcome_filename in
        case storage_upload (fe_trouble env) False path (''text/plain'', welcome_body) (fw_objects w) of
          Inl e \<Rightarrow> (w, [], FileCrashed)
        | Inr objs \<Rightarrow>
            (case file_add \<lparr>fl_id = new_id, fl_org = o', fl_uploaded_by = owner, fl_uploader_email = [],
                 fl_filename = welcome_filename, fl_path = path, fl_type = ''text/plain'',
                 fl_size = int (length welcome_body), fl_created_at = fe_now env\<rparr> (w\<lparr>fw_objects := objs\<rparr>) of
               None \<Rightarrow> (w\<lparr>fw_objects := objs\<rparr>, [], FileCrashed)
             | Some w' \<Rightarrow> (w', [], FileStored new_id welcome_filename ''text/plain''))))"

text \<open>
  The request's transaction: when its commit fails the tables are what they were, the facts are not
  recorded, and Storage keeps what was done to it.
\<close>

definition settle :: "bool \<Rightarrow> file_world \<Rightarrow> file_result \<Rightarrow> file_result" where
  "settle committed w r =
     (if committed then r else (w\<lparr>fw_objects := fw_objects (fst r)\<rparr>, [], FileCrashed))"

section \<open>A file is its own object\<close>

lemma length_uuid_str: "length (uuid_str u) = 36"
  by (simp add: uuid_str_def Let_def)

lemma hex_digits_values: "c \<in> set (hex_digits w n) \<Longrightarrow> hex_value c \<noteq> None"
  by (auto simp: hex_digits_def hex_value_hex_char)

lemma uuid_str_shaped: "uuid_shaped (uuid_str u)"
proof -
  let ?h = "hex_digits 32 u"
  define groups where "groups = [take 8 ?h, take 4 (drop 8 ?h), take 4 (drop 12 ?h), take 4 (drop 16 ?h), drop 20 ?h]"
  have "c \<in> set ?h" if "g \<in> set groups" "c \<in> set g" for g c
    using that by (auto simp: groups_def dest: in_set_takeD in_set_dropD)
  then have chars: "hex_value c \<noteq> None \<and> c \<noteq> CHR ''-''" if "g \<in> set groups" "c \<in> set g" for g c
    using that hex_digits_values[of c 32 u] hex_digits_plain[of c 32 u] by blast
  then have plain: "CHR ''-'' \<notin> set g" if "g \<in> set groups" for g using that by blast
  have "split_on CHR ''-'' (uuid_str u) = groups"
    using plain by (simp add: uuid_str_def Let_def groups_def split_on_append_sep split_on_no_sep)
  moreover have "map length groups = [8, 4, 4, 4, 12]" by (simp add: groups_def)
  ultimately show ?thesis using chars by (simp add: uuid_shaped_def list_all_iff)
qed

lemma storage_path_inj:
  assumes "storage_path p i n = storage_path q j m" "p < 2 ^ 128" "q < 2 ^ 128" "i < 2 ^ 128" "j < 2 ^ 128"
  shows "p = q \<and> i = j \<and> n = m"
proof -
  have split: "uuid_str a @ x = uuid_str b @ y \<longleftrightarrow> uuid_str a = uuid_str b \<and> x = y" for a b x y
    by (rule append_eq_append_conv) (simp add: length_uuid_str)
  have "uuid_str p = uuid_str q" "uuid_str i = uuid_str j" "n = m"
  proof -
    from assms(1) have "uuid_str p @ (''/'' @ uuid_str i @ ''_'' @ n) = uuid_str q @ (''/'' @ uuid_str j @ ''_'' @ m)"
      by (simp only: storage_path_def)
    then have 1: "uuid_str p = uuid_str q" "''/'' @ uuid_str i @ ''_'' @ n = ''/'' @ uuid_str j @ ''_'' @ m"
      unfolding split by (rule conjunct1, rule conjunct2)
    from 1(2) have "uuid_str i @ (''_'' @ n) = uuid_str j @ (''_'' @ m)" by (simp only: same_append_eq)
    then have 2: "uuid_str i = uuid_str j" "''_'' @ n = ''_'' @ m"
      unfolding split by (rule conjunct1, rule conjunct2)
    from 2(2) have "n = m" by (simp only: same_append_eq)
    then show "uuid_str p = uuid_str q" "uuid_str i = uuid_str j" "n = m" using 1(1) 2(1) by simp_all
  qed
  then show ?thesis using uuid_str_inj[OF assms(2,3)] uuid_str_inj[OF assms(4,5)] by simp
qed

text \<open>A sanitised name is one safe path segment, with something else than dots in it.\<close>

lemma sanitize_filename_safe:
  assumes "sanitize_filename nfkd raw = Some name"
  shows "(\<forall>c \<in> set name. safe_char c) \<and> name \<noteq> [] \<and> (\<exists>c \<in> set name. c \<noteq> CHR ''.'')"
proof -
  define cleaned where "cleaned = map (\<lambda>c. if safe_char c then c else CHR ''_'') (nfkd (strip raw))"
  have name: "name = cleaned" "cleaned \<noteq> []" "dropWhile (\<lambda>c. c = CHR ''.'') cleaned \<noteq> []"
    using assms unfolding sanitize_filename_def Let_def cleaned_def[symmetric]
    by (simp_all only: split: if_splits) simp_all
  have under: "safe_char CHR ''_''" by (simp add: safe_char_def)
  have "\<forall>c \<in> set cleaned. safe_char c" unfolding cleaned_def set_map by (rule ballI, erule imageE) (simp add: under)
  moreover have "\<exists>c \<in> set cleaned. c \<noteq> CHR ''.''" using name(3) by (simp add: dropWhile_eq_Nil_conv)
  ultimately show ?thesis using name(1,2) by simp
qed

end
