(* ===== verification/Files_History.thy ===== *)
theory Files_History
  imports Files
begin

text \<open>
  The files of every organisation under any history of requests: rows and objects agree as long as the
  transactions commit, what a failed commit leaves behind, who can change a file, the quota, and the life
  of a share link.
\<close>

section \<open>Requests\<close>

datatype file_request =
    ListFiles
  | UploadFile uuid upload
  | DownloadFile uuid
  | DeleteFile uuid
  | RenameFile uuid string
  | ShareFile uuid uuid
  | PublicShare uuid
  | SeedFile bool bool uuid uuid uuid

fun file_act :: "(uuid \<Rightarrow> files_settings) \<Rightarrow> file_env \<Rightarrow> file_caller \<Rightarrow> file_request \<Rightarrow> file_world \<Rightarrow> file_result" where
  "file_act so env c ListFiles w = file_list c w" |
  "file_act so env c (UploadFile new_id up) w = upload_file env c new_id up w" |
  "file_act so env c (DownloadFile pk) w = download_file env c pk w" |
  "file_act so env c (DeleteFile pk) w = delete_file env c pk w" |
  "file_act so env c (RenameFile pk name) w = rename_file env c pk name w" |
  "file_act so env c (ShareFile token pk) w = generate_share_link env c token pk w" |
  "file_act so env c (PublicShare token) w = public_share_download so env token w" |
  "file_act so env c (SeedFile owner_lives org_lives o' owner new_id) w =
     seed_welcome_file env owner_lives org_lives o' owner new_id w"

text \<open>A step: whether its transaction commits, its environment, its caller and its request.\<close>

type_synonym file_step = "bool \<times> file_env \<times> file_caller \<times> file_request"

definition file_step :: "(uuid \<Rightarrow> files_settings) \<Rightarrow> file_step \<Rightarrow> file_world \<Rightarrow> file_world" where
  "file_step so s w = (case s of (committed, env, c, rq) \<Rightarrow> fst (settle committed w (file_act so env c rq w)))"

definition file_run :: "(uuid \<Rightarrow> files_settings) \<Rightarrow> file_step list \<Rightarrow> file_world \<Rightarrow> file_world" where
  "file_run so steps w = fold (file_step so) steps w"

lemma file_run_Nil [simp]: "file_run so [] w = w"
  and file_run_Cons [simp]: "file_run so (s # steps) w = file_run so steps (file_step so s w)"
  by (simp_all add: file_run_def)

text \<open>Identifiers are 128 bits wide.\<close>

fun request_ids_ok :: "file_request \<Rightarrow> bool" where
  "request_ids_ok (UploadFile new_id up) \<longleftrightarrow> new_id < 2 ^ 128" |
  "request_ids_ok (SeedFile owner_lives org_lives o' owner new_id) \<longleftrightarrow> o' < 2 ^ 128 \<and> new_id < 2 ^ 128" |
  "request_ids_ok _ \<longleftrightarrow> True"

definition step_ids_ok :: "file_step \<Rightarrow> bool" where
  "step_ids_ok s \<longleftrightarrow> fc_org (fst (snd (snd s))) < 2 ^ 128 \<and> request_ids_ok (snd (snd (snd s)))"

section \<open>Rows and objects\<close>

definition row_named :: "org_file \<Rightarrow> bool" where
  "row_named f \<longleftrightarrow> fl_id f < 2 ^ 128 \<and> fl_org f < 2 ^ 128 \<and> fl_path f = storage_path (fl_org f) (fl_id f) (fl_filename f)"

definition row_stored :: "bucket \<Rightarrow> org_file \<Rightarrow> bool" where
  "row_stored b f \<longleftrightarrow> (\<exists>content. bucket_get (fl_path f) b = Some (fl_type f, content) \<and> fl_size f = int (length content))"

definition rows_ok :: "file_world \<Rightarrow> bool" where
  "rows_ok w \<longleftrightarrow> distinct (map fl_id (fw_files w)) \<and> (\<forall>f \<in> set (fw_files w). row_named f \<and> 0 \<le> fl_size f)
     \<and> (\<forall>t \<in> set (fw_tokens w). sh_file t \<in> fl_id ` set (fw_files w))"

definition file_ok :: "file_world \<Rightarrow> bool" where
  "file_ok w \<longleftrightarrow> rows_ok w \<and> (\<forall>f \<in> set (fw_files w). row_stored (fw_objects w) f)"

lemma file_get_SomeD: "file_get o' pk w = Some f \<Longrightarrow> f \<in> set (fw_files w) \<and> fl_id f = pk \<and> fl_org f = o'"
  by (auto simp: file_get_def find_Some_iff)

lemma rows_same_id: "rows_ok w \<Longrightarrow> f \<in> set (fw_files w) \<Longrightarrow> g \<in> set (fw_files w) \<Longrightarrow> fl_id f = fl_id g \<Longrightarrow> f = g"
  unfolding rows_ok_def by (metis distinct_map inj_onD)

lemma rows_named: "rows_ok w \<Longrightarrow> f \<in> set (fw_files w) \<Longrightarrow> row_named f"
  by (simp add: rows_ok_def)

lemma named_paths:
  assumes "row_named f" "row_named g" "fl_path f = fl_path g"
  shows "fl_id f = fl_id g"
proof -
  have "storage_path (fl_org f) (fl_id f) (fl_filename f) = storage_path (fl_org g) (fl_id g) (fl_filename g)"
    using assms by (simp add: row_named_def)
  then show ?thesis using storage_path_inj assms(1,2) unfolding row_named_def by blast
qed

lemma rows_paths:
  "rows_ok w \<Longrightarrow> f \<in> set (fw_files w) \<Longrightarrow> g \<in> set (fw_files w) \<Longrightarrow> fl_path f = fl_path g \<Longrightarrow> f = g"
  by (rule rows_same_id) (auto intro: named_paths rows_named)

lemma file_getI:
  assumes "rows_ok w" "f \<in> set (fw_files w)"
  shows "file_get (fl_org f) (fl_id f) w = Some f"
proof -
  obtain g where g: "file_get (fl_org f) (fl_id f) w = Some g"
    using assms(2) by (cases "file_get (fl_org f) (fl_id f) w") (auto simp: file_get_def find_None_iff)
  then show ?thesis using file_get_SomeD[OF g] rows_same_id[OF assms(1) _ assms(2), of g] by simp
qed

text \<open>The four ways a request changes the world.\<close>

lemma put_row_stored: "row_stored b f \<Longrightarrow> bucket_get p b = None \<Longrightarrow> row_stored (bucket_put p x b) f"
  by (auto simp: row_stored_def objects.get_put)

lemma del_row_stored: "row_stored b f \<Longrightarrow> fl_path f \<noteq> p \<Longrightarrow> row_stored (bucket_del p b) f"
  by (auto simp: row_stored_def objects.get_del)

lemma uploadD:
  "storage_upload trouble False p x b = Inr b' \<Longrightarrow> bucket_get p b = None \<and> b' = bucket_put p x b"
  by (cases "bucket_get p b") (auto simp: storage_defs split: option.splits)

lemma moveD:
  "storage_move trouble p q b = Inr b' \<Longrightarrow> \<exists>x. bucket_get p b = Some x \<and> bucket_get q b = None \<and> b' = bucket_put q x (bucket_del p b)"
  by (cases "bucket_get q b") (auto simp: storage_defs split: option.splits)

lemma removeD: "storage_remove trouble p b = Inr b' \<Longrightarrow> b' = bucket_del p b"
  by (auto simp: storage_defs split: option.splits)

lemma signD: "storage_sign trouble p b = Inr q \<Longrightarrow> q = p"
  by (auto simp: storage_defs split: option.splits if_splits)

definition may_change :: "file_caller \<Rightarrow> org_file \<Rightarrow> bool" where
  "may_change c f \<longleftrightarrow> fl_org f = fc_org c \<and> can_modify (fl_uploaded_by f) (fc_member c)"

inductive file_move :: "file_caller \<Rightarrow> file_request \<Rightarrow> file_world \<Rightarrow> file_world \<Rightarrow> bool" for c rq where
  same: "file_move c rq w w"
| stray: "bucket_get p (fw_objects w) = None \<Longrightarrow> file_move c rq w (w\<lparr>fw_objects := bucket_put p x (fw_objects w)\<rparr>)"
| stored: "bucket_get (fl_path f) (fw_objects w) = None \<Longrightarrow> fl_id f \<notin> fl_id ` set (fw_files w) \<Longrightarrow> row_named f \<Longrightarrow>
    fl_size f = int (length content) \<Longrightarrow>
    file_move c rq w (w\<lparr>fw_objects := bucket_put (fl_path f) (fl_type f, content) (fw_objects w), fw_files := fw_files w @ [f]\<rparr>)"
| dropped: "f \<in> set (fw_files w) \<Longrightarrow> may_change c f \<Longrightarrow> rq = DeleteFile (fl_id f) \<Longrightarrow>
    file_move c rq w (file_drop (fl_id f) (w\<lparr>fw_objects := bucket_del (fl_path f) (fw_objects w)\<rparr>))"
| renamed: "f \<in> set (fw_files w) \<Longrightarrow> may_change c f \<Longrightarrow> bucket_get (fl_path f) (fw_objects w) = Some x \<Longrightarrow>
    bucket_get (storage_path (fl_org f) (fl_id f) name) (fw_objects w) = None \<Longrightarrow>
    file_move c rq w (file_rename (fl_id f) name (storage_path (fl_org f) (fl_id f) name)
      (w\<lparr>fw_objects := bucket_put (storage_path (fl_org f) (fl_id f) name) x (bucket_del (fl_path f) (fw_objects w))\<rparr>))"
| shared: "pk \<in> fl_id ` set (fw_files w) \<Longrightarrow> token \<notin> sh_token ` set (fw_tokens w) \<Longrightarrow>
    file_move c rq w (add_share_token st token now pk w)"

lemma upload_move:
  assumes "fc_org c < 2 ^ 128" "new_id < 2 ^ 128"
  shows "file_move c rq w (fst (upload_file env c new_id up w))"
proof -
  have "file_move c rq w (fst (case storage_upload (fe_trouble env) False (storage_path (fc_org c) new_id name) (media, up_content up) (fw_objects w) of
        Inl e \<Rightarrow> (w, [], storage_failure e)
      | Inr objs \<Rightarrow>
          (case file_add \<lparr>fl_id = new_id, fl_org = fc_org c, fl_uploaded_by = mb_user (fc_member c),
               fl_uploader_email = fc_email c, fl_filename = name, fl_path = storage_path (fc_org c) new_id name, fl_type = media,
               fl_size = int (length (up_content up)), fl_created_at = fe_now env\<rparr> (w\<lparr>fw_objects := objs\<rparr>) of
             None \<Rightarrow> (w\<lparr>fw_objects := objs\<rparr>, [], FileCrashed)
           | Some w' \<Rightarrow> (w', [FileUploaded (mb_user (fc_member c)) (fc_org c) new_id name],
                         FileStored new_id name media))))" for name media
  proof (cases "storage_upload (fe_trouble env) False (storage_path (fc_org c) new_id name) (media, up_content up) (fw_objects w)")
    case (Inr objs)
    let ?f = "\<lparr>fl_id = new_id, fl_org = fc_org c, fl_uploaded_by = mb_user (fc_member c),
       fl_uploader_email = fc_email c, fl_filename = name, fl_path = storage_path (fc_org c) new_id name, fl_type = media,
       fl_size = int (length (up_content up)), fl_created_at = fe_now env\<rparr>"
    note up' = uploadD[OF Inr]
    have "row_named ?f" using assms by (simp add: row_named_def)
    then show ?thesis using up' stray[where p = "storage_path (fc_org c) new_id name" and w = w and x = "(media, up_content up)"]
        stored[where f = ?f and w = w and content = "up_content up"]
      unfolding Inr sum.case by (auto simp: file_add_def)
  qed (simp add: same)
  then show ?thesis unfolding upload_file_def Let_def by (auto simp: same split: option.splits)
qed

lemma seed_move:
  assumes "o' < 2 ^ 128" "new_id < 2 ^ 128"
  shows "file_move c rq w (fst (seed_welcome_file env owner_lives org_lives o' owner new_id w))"
proof (cases "storage_upload (fe_trouble env) False (storage_path o' new_id welcome_filename) (''text/plain'', welcome_body) (fw_objects w)")
  case (Inr objs)
  let ?f = "\<lparr>fl_id = new_id, fl_org = o', fl_uploaded_by = owner, fl_uploader_email = [],
     fl_filename = welcome_filename, fl_path = storage_path o' new_id welcome_filename, fl_type = ''text/plain'',
     fl_size = int (length welcome_body), fl_created_at = fe_now env\<rparr>"
  note up' = uploadD[OF Inr]
  have "row_named ?f" using assms by (simp add: row_named_def)
  then show ?thesis using up' stray[where p = "storage_path o' new_id welcome_filename" and w = w and x = "(''text/plain'', welcome_body)"]
      stored[where f = ?f and w = w and content = welcome_body]
    unfolding seed_welcome_file_def Let_def Inr sum.case by (auto simp: file_add_def same)
qed (simp add: seed_welcome_file_def same)

lemma delete_move: "file_move c (DeleteFile pk) w (fst (delete_file env c pk w))"
proof (cases "file_get (fc_org c) pk w")
  case (Some f)
  then show ?thesis using dropped[of f w c "DeleteFile pk"] file_get_SomeD[OF Some]
    by (auto simp: delete_file_def same may_change_def dest!: removeD split: sum.splits)
qed (simp add: delete_file_def same)

lemma rename_move: "file_move c rq w (fst (rename_file env c pk name w))"
proof (cases "sanitize_filename (fe_normalize env) name")
  case (Some safe)
  then show ?thesis
  proof (cases "file_get (fc_org c) pk w")
    case f: (Some f)
    then show ?thesis using Some file_get_SomeD[OF f] renamed[of f w c _ safe]
      by (auto simp: rename_file_def Let_def same may_change_def dest!: moveD split: sum.splits)
  qed (simp add: rename_file_def same)
qed (simp add: rename_file_def same)

lemma share_move: "file_move c rq w (fst (generate_share_link env c token pk w))"
  by (auto simp: generate_share_link_def intro!: same shared dest!: file_get_SomeD split: option.splits)

lemma act_move:
  "fc_org c < 2 ^ 128 \<Longrightarrow> request_ids_ok rq \<Longrightarrow> file_move c rq w (fst (file_act so env c rq w))"
  by (cases rq) (auto simp: upload_move seed_move delete_move rename_move share_move file_list_def
      download_file_def public_share_download_def same split: option.splits sum.splits)

section \<open>Rows and objects agree\<close>

lemma ids_after_drop: "fl_id ` set (delete_where (\<lambda>g. fl_id g = k) fs) = fl_id ` set fs - {k}"
  by (auto simp: in_delete_where)

lemma dropped_ok:
  assumes "file_ok w" "f \<in> set (fw_files w)"
  shows "file_ok (file_drop (fl_id f) (w\<lparr>fw_objects := bucket_del (fl_path f) (fw_objects w)\<rparr>))"
proof -
  have rows: "rows_ok w" using assms(1) by (simp add: file_ok_def)
  have "row_stored (bucket_del (fl_path f) (fw_objects w)) g" if "g \<in> set (fw_files w)" "fl_id g \<noteq> fl_id f" for g
    using assms that rows_paths[OF rows that(1) assms(2)] by (intro del_row_stored) (auto simp: file_ok_def)
  then show ?thesis using rows
    by (auto simp: file_ok_def rows_ok_def file_drop_def ids_after_drop distinct_map_delete_where)
      (auto simp: in_delete_where)
qed

lemma renamed_ok:
  assumes "file_ok w" "f \<in> set (fw_files w)" "bucket_get (fl_path f) (fw_objects w) = Some x"
    and "bucket_get (storage_path (fl_org f) (fl_id f) name) (fw_objects w) = None"
  shows "file_ok (file_rename (fl_id f) name (storage_path (fl_org f) (fl_id f) name)
    (w\<lparr>fw_objects := bucket_put (storage_path (fl_org f) (fl_id f) name) x (bucket_del (fl_path f) (fw_objects w))\<rparr>))"
    (is "file_ok (file_rename _ _ ?q (w\<lparr>fw_objects := ?b\<rparr>))")
proof -
  let ?new = "\<lambda>g. g\<lparr>fl_filename := name, fl_path := ?q\<rparr>"
  have rows: "rows_ok w" and st: "\<forall>g \<in> set (fw_files w). row_stored (fw_objects w) g"
    using assms(1) by (simp_all add: file_ok_def)
  have f: "row_named f" "row_stored (fw_objects w) f" using rows st assms(2) by (simp_all add: rows_ok_def)
  have new: "row_named (?new f)" "row_stored ?b (?new f)"
    using f assms(3) by (auto simp: row_named_def row_stored_def objects.get_put)
  have old: "row_stored ?b g" if "g \<in> set (fw_files w)" "fl_id g \<noteq> fl_id f" for g
  proof (rule put_row_stored)
    show "row_stored (bucket_del (fl_path f) (fw_objects w)) g"
      using st that rows_paths[OF rows that(1) assms(2)] by (intro del_row_stored) auto
    show "bucket_get ?q (bucket_del (fl_path f) (fw_objects w)) = None"
      using assms(4) by (simp add: objects.get_del)
  qed
  let ?rows = "update_where (\<lambda>g. fl_id g = fl_id f) ?new (fw_files w)"
  have ids: "map fl_id ?rows = map fl_id (fw_files w)" by (rule map_update_where_key) simp
  then have idset: "fl_id ` set ?rows = fl_id ` set (fw_files w)" by (metis list.set_map)
  have "row_named g \<and> 0 \<le> fl_size g \<and> row_stored ?b g" if g: "g \<in> set ?rows" for g
  proof -
    obtain h where h: "h \<in> set (fw_files w)" "g = (if fl_id h = fl_id f then ?new h else h)"
      using g by (auto simp: in_update_where)
    show ?thesis
    proof (cases "fl_id h = fl_id f")
      case True
      then have "h = f" using rows_same_id[OF rows h(1) assms(2)] by simp
      then show ?thesis using new h rows assms(2) by (auto simp: rows_ok_def)
    next
      case False
      then show ?thesis using old[OF h(1)] h rows by (auto simp: rows_ok_def)
    qed
  qed
  then show ?thesis using rows ids idset
    by (auto simp: file_ok_def rows_ok_def file_rename_def)
qed

lemma file_move_ok: "file_move c rq w w' \<Longrightarrow> file_ok w \<Longrightarrow> file_ok w'"
proof (induction rule: file_move.induct)
  case (stored f w content)
  have "row_stored (bucket_put (fl_path f) (fl_type f, content) (fw_objects w)) f"
    using stored(4) by (simp add: row_stored_def objects.get_put)
  then show ?case using stored by (auto simp: file_ok_def rows_ok_def intro: put_row_stored)
next
  case (shared pk w token st now)
  then show ?case by (auto simp: file_ok_def rows_ok_def add_share_token_def)
next
  case (stray p w x)
  then show ?case by (auto simp: file_ok_def rows_ok_def intro: put_row_stored)
qed (simp_all add: dropped_ok renamed_ok)

lemma file_step_move:
  assumes "step_ids_ok s" "fst s"
  shows "file_move (fst (snd (snd s))) (snd (snd (snd s))) w (file_step so s w)"
proof -
  obtain committed env c rq where s: "s = (committed, env, c, rq)" by (cases s)
  show ?thesis using assms act_move by (simp add: s step_ids_ok_def file_step_def settle_def)
qed

lemma file_run_ok:
  "\<forall>s \<in> set steps. step_ids_ok s \<and> fst s \<Longrightarrow> file_ok w \<Longrightarrow> file_ok (file_run so steps w)"
  by (induction steps arbitrary: w) (auto intro: file_move_ok file_step_move)

text \<open>
  C30.  As long as transactions commit, rows and objects agree under any history of requests by anybody:
  every file row names an object of Storage under its own organisation and identifier, of the row's
  media type and size; no two rows share one; every share token names a row.
\<close>

theorem file_rows_have_objects:
  assumes "file_ok w" "\<forall>s \<in> set steps. step_ids_ok s \<and> fst s"
  shows "(\<forall>f \<in> set (fw_files (file_run so steps w)).
      fl_path f = storage_path (fl_org f) (fl_id f) (fl_filename f)
      \<and> (\<exists>content. bucket_get (fl_path f) (fw_objects (file_run so steps w)) = Some (fl_type f, content)
           \<and> fl_size f = int (length content)))
    \<and> distinct (map fl_path (fw_files (file_run so steps w)))
    \<and> (\<forall>t \<in> set (fw_tokens (file_run so steps w)). sh_file t \<in> fl_id ` set (fw_files (file_run so steps w)))"
proof -
  let ?w = "file_run so steps w"
  have ok: "file_ok ?w" by (rule file_run_ok[OF assms(2,1)])
  then have rows: "rows_ok ?w" by (simp add: file_ok_def)
  have "distinct (fw_files ?w)" using rows by (simp add: rows_ok_def distinct_map)
  then have "distinct (map fl_path (fw_files ?w))"
    using rows_paths[OF rows] by (auto simp: distinct_map inj_on_def)
  then show ?thesis using ok by (auto simp: file_ok_def rows_ok_def row_named_def row_stored_def)
qed

section \<open>What a failed commit leaves\<close>

text \<open>
  Storage is not part of the transaction.  When the commit of a rename or of a deletion fails, the
  row is as it was and its object is gone from where the row says it is: from then on a download of
  the file crashes, while after a rename the bytes still lie under the new name, which no row names.
\<close>

theorem failed_commit_loses_file:
  assumes "file_ok w" "f \<in> set (fw_files w)" "fl_org f = fc_org c" "can_modify (fl_uploaded_by f) (fc_member c)"
    and "fe_trouble env = (\<lambda>_ _. None)"
    and "sanitize_filename (fe_normalize env) raw = Some name"
    and "bucket_get (storage_path (fl_org f) (fl_id f) name) (fw_objects w) = None"
  shows "let r = fst (settle False w (rename_file env c (fl_id f) raw w)); d = fst (settle False w (delete_file env c (fl_id f) w)) in
    fw_files r = fw_files w \<and> fw_files d = fw_files w
    \<and> bucket_get (fl_path f) (fw_objects r) = None \<and> bucket_get (fl_path f) (fw_objects d) = None
    \<and> bucket_get (storage_path (fl_org f) (fl_id f) name) (fw_objects r) = bucket_get (fl_path f) (fw_objects w)
    \<and> storage_path (fl_org f) (fl_id f) name \<notin> fl_path ` set (fw_files r)
    \<and> download_file env c (fl_id f) r = (r, [], FileCrashed) \<and> download_file env c (fl_id f) d = (d, [], FileCrashed)"
proof -
  let ?q = "storage_path (fl_org f) (fl_id f) name"
  have rows: "rows_ok w" and st: "\<forall>g \<in> set (fw_files w). row_stored (fw_objects w) g"
    using assms(1) by (simp_all add: file_ok_def)
  have get: "file_get (fc_org c) (fl_id f) w = Some f" using file_getI[OF rows assms(2)] assms(3) by simp
  obtain x where x: "bucket_get (fl_path f) (fw_objects w) = Some x"
    using st assms(2) by (auto simp: row_stored_def)
  then have ne: "fl_path f \<noteq> ?q" using assms(7) by auto
  have none: "?q \<notin> fl_path ` set (fw_files w)" using st assms(7) by (auto simp: row_stored_def)
  have r: "fst (settle False w (rename_file env c (fl_id f) raw w))
      = w\<lparr>fw_objects := bucket_put ?q x (bucket_del (fl_path f) (fw_objects w))\<rparr>"
    using get x assms(3-7) by (simp add: settle_def rename_file_def storage_defs Let_def file_rename_def)
  have d: "fst (settle False w (delete_file env c (fl_id f) w)) = w\<lparr>fw_objects := bucket_del (fl_path f) (fw_objects w)\<rparr>"
    using get assms(4,5) by (simp add: settle_def delete_file_def storage_defs file_drop_def)
  have get': "file_get (fc_org c) (fl_id f) (w\<lparr>fw_objects := b\<rparr>) = Some f" for b
    using get by (simp add: file_get_def)
  show ?thesis unfolding Let_def r d using ne none x
    by (simp add: objects.get_put objects.get_del download_file_def get' storage_sign_def storage_call_def assms(5))
qed

section \<open>Who changes a file\<close>






text \<open>
  The policy of the bucket is wider than that of the rows: it lets every member of the organisation
  write and delete the object of any of its files.
\<close>

lemma split_path: "row_named f \<Longrightarrow> \<exists>rest. split_on CHR ''/'' (fl_path f) = uuid_str (fl_org f) # rest \<and> rest \<noteq> []"
proof -
  assume f: "row_named f"
  have "CHR ''/'' \<notin> set (hex_digits 32 (fl_org f))"
  proof
    assume "CHR ''/'' \<in> set (hex_digits 32 (fl_org f))"
    then obtain e where "CHR ''/'' = hex_char (e mod 16)" by (auto simp: hex_digits_def)
    then obtain d where d: "d < 16" "CHR ''/'' = hex_char d" by (metis mod_less_divisor zero_less_numeral)
    have "(of_char CHR ''/'' :: nat) = of_char (hex_char d)" using d(2) by simp
    then show False using d(1) by (simp add: of_hex_char split: if_splits)
  qed
  then have "CHR ''/'' \<notin> set (uuid_str (fl_org f))"
    by (auto simp: uuid_str_def Let_def dest: in_set_takeD in_set_dropD)
  then have "split_on CHR ''/'' (uuid_str (fl_org f) @ CHR ''/'' # t) = uuid_str (fl_org f) # split_on CHR ''/'' t" for t
    by (rule split_on_append_sep)
  moreover have "fl_path f = uuid_str (fl_org f) @ CHR ''/'' # (uuid_str (fl_id f) @ ''_'' @ fl_filename f)"
    using f by (simp add: row_named_def storage_path_def)
  ultimately show ?thesis by auto
qed

lemma object_policy_for_every_member:
  assumes "row_named f" "get_membership (fl_org f) u db \<noteq> None"
  shows "object_policy db u (fl_path f)"
proof -
  obtain rest where "split_on CHR ''/'' (fl_path f) = uuid_str (fl_org f) # rest" "rest \<noteq> []"
    using split_path[OF assms(1)] by blast
  then have "storage_path_org_id (fl_path f) = uuid_parse (uuid_str (fl_org f))"
    by (cases rest) (simp_all add: storage_path_org_id_def uuid_str_shaped)
  then show ?thesis using assms uuid_parse_uuid_str by (simp add: object_policy_def row_named_def)
qed

section \<open>The quota\<close>

lemma total_append: "total_size o' (w\<lparr>fw_files := fw_files w @ [f]\<rparr>) = total_size o' w + (if fl_org f = o' then fl_size f else 0)"
  by (simp add: total_size_def)

lemma total_objects [simp]: "total_size o' (w\<lparr>fw_objects := b\<rparr>) = total_size o' w"
  by (simp add: total_size_def)

lemma total_rename: "total_size o' (file_rename pk name p w) = total_size o' w"
proof -
  have "sum_list (map fl_size (filter (\<lambda>f. fl_org f = o') (update_where (\<lambda>f. fl_id f = pk)
      (\<lambda>f. f\<lparr>fl_filename := name, fl_path := p\<rparr>) fs))) = sum_list (map fl_size (filter (\<lambda>f. fl_org f = o') fs))" for fs
    by (induction fs) auto
  then show ?thesis by (simp add: total_size_def file_rename_def)
qed

lemma total_drop: "rows_ok w \<Longrightarrow> total_size o' (file_drop pk w) \<le> total_size o' w"
proof -
  have "sum_list (map fl_size (filter (\<lambda>f. fl_org f = o') (delete_where (\<lambda>f. fl_id f = pk) fs)))
      \<le> sum_list (map fl_size (filter (\<lambda>f. fl_org f = o') fs))" if "\<forall>f \<in> set fs. 0 \<le> fl_size f" for fs
    using that by (induction fs) auto
  note this[of "fw_files w"]
  then show "rows_ok w \<Longrightarrow> ?thesis" unfolding rows_ok_def total_size_def file_drop_def by simp
qed

definition uploads_within :: "int \<Rightarrow> file_step \<Rightarrow> bool" where
  "uploads_within quota s \<longleftrightarrow> 0 \<le> quota \<and> fs_quota_mb (fe_settings (fst (snd s))) = quota
     \<and> (case snd (snd (snd s)) of SeedFile _ _ _ _ _ \<Rightarrow> False | _ \<Rightarrow> True)"

lemma upload_quota:
  assumes "0 \<le> fs_quota_mb (fe_settings env)"
  shows "total_size o' (fst (upload_file env c new_id up w)) \<le> max (total_size o' w) (megabytes (fs_quota_mb (fe_settings env)))"
proof -
  let ?n = "int (length (up_content up))"
  have stored: "total_size o' (fst (case storage_upload (fe_trouble env) False (storage_path (fc_org c) new_id name) (media, up_content up) (fw_objects w) of
        Inl e \<Rightarrow> (w, [], storage_failure e)
      | Inr objs \<Rightarrow>
          (case file_add \<lparr>fl_id = new_id, fl_org = fc_org c, fl_uploaded_by = mb_user (fc_member c),
               fl_uploader_email = fc_email c, fl_filename = name, fl_path = storage_path (fc_org c) new_id name, fl_type = media,
               fl_size = ?n, fl_created_at = fe_now env\<rparr> (w\<lparr>fw_objects := objs\<rparr>) of
             None \<Rightarrow> (w\<lparr>fw_objects := objs\<rparr>, [], FileCrashed)
           | Some w' \<Rightarrow> (w', [FileUploaded (mb_user (fc_member c)) (fc_org c) new_id name],
                         FileStored new_id name media)))) \<le> total_size o' w + (if fc_org c = o' then ?n else 0)" for name media
    by (cases "storage_upload (fe_trouble env) False (storage_path (fc_org c) new_id name) (media, up_content up) (fw_objects w)")
      (simp_all add: file_add_def total_size_def)
  show ?thesis
  proof (cases "megabytes (fs_quota_mb (fe_settings env)) < total_size (fc_org c) w + ?n")
    case True
    then show ?thesis using assms by (simp add: upload_file_def Let_def)
  next
    case False
    then have fits: "total_size o' w + (if fc_org c = o' then ?n else 0) \<le> max (total_size o' w) (megabytes (fs_quota_mb (fe_settings env)))"
      by auto
    have "total_size o' w \<le> max (total_size o' w) (megabytes (fs_quota_mb (fe_settings env)))" by simp
    then show ?thesis unfolding upload_file_def Let_def
      by (simp split: option.split) (use order_trans[OF stored fits] in blast)
  qed
qed

lemma step_quota:
  assumes "file_ok w" "uploads_within quota s"
  shows "total_size o' (file_step so s w) \<le> max (total_size o' w) (megabytes quota)"
proof -
  obtain committed env c rq where s: "s = (committed, env, c, rq)" by (cases s)
  have "total_size o' (fst (file_act so env c rq w)) \<le> max (total_size o' w) (megabytes quota)"
  proof (cases rq)
    case (UploadFile new_id up)
    then show ?thesis using assms(2) upload_quota[of env o' c new_id up w] by (simp add: s uploads_within_def)
  next
    case (DeleteFile pk)
    have "rows_ok (w\<lparr>fw_objects := b\<rparr>)" for b using assms(1) by (simp add: file_ok_def rows_ok_def)
    from total_drop[OF this, of o' pk] show ?thesis
      unfolding DeleteFile by (auto simp: delete_file_def max_def split: option.splits sum.splits) (meson order_trans)
  next
    case (RenameFile pk name)
    then show ?thesis by (auto simp: rename_file_def Let_def total_rename split: option.splits sum.splits)
  next
    case (ShareFile token pk)
    then show ?thesis by (auto simp: generate_share_link_def add_share_token_def total_size_def split: option.splits)
  qed (use assms(2) in \<open>auto simp: s uploads_within_def file_list_def download_file_def public_share_download_def
       split: option.splits sum.splits\<close>)
  then show ?thesis by (simp add: s file_step_def settle_def)
qed

text \<open>Requests taken one after another never take an organisation past its quota; the welcome file is not asked.\<close>

lemma quota_holds:
  assumes "file_ok w" "\<forall>s \<in> set steps. step_ids_ok s \<and> fst s \<and> uploads_within quota s"
  shows "total_size o' (file_run so steps w) \<le> max (total_size o' w) (megabytes quota)"
  using assms
proof (induction steps arbitrary: w)
  case (Cons s steps)
  have "step_ids_ok s" "fst s" using Cons.prems(2) by simp_all
  then have "file_ok (file_step so s w)" using file_move_ok[OF file_step_move Cons.prems(1)] by blast
  then have "total_size o' (file_run so steps (file_step so s w)) \<le> max (total_size o' (file_step so s w)) (megabytes quota)"
    using Cons.IH Cons.prems(2) by simp
  then show ?case using step_quota[of w quota s o' so] Cons.prems by simp
qed simp

section \<open>The life of a share link\<close>

lemma row_by_survives: "row_by key k rows = Some t \<Longrightarrow> \<not> P t \<Longrightarrow> row_by key k (delete_where P rows) = Some t"
  by (induction rows) (auto simp: delete_where_def split: if_splits)

lemma move_keeps_token:
  assumes "file_move c rq w w'" "get_share_token token w = Some t" "sh_file t \<in> fl_id ` set (fw_files w)"
    and "rq \<noteq> DeleteFile (sh_file t)"
  shows "get_share_token token w' = Some t \<and> sh_file t \<in> fl_id ` set (fw_files w')"
  using assms(1)
proof (cases rule: file_move.cases)
  case (dropped g)
  then have "sh_file t \<noteq> fl_id g" using assms(4) by auto
  then show ?thesis using dropped assms(2,3)
    by (auto simp: get_share_token_def file_drop_def ids_after_drop intro!: row_by_survives)
next
  case (renamed g x name)
  let ?new = "\<lambda>f. f\<lparr>fl_filename := name, fl_path := storage_path (fl_org g) (fl_id g) name\<rparr>"
  have "map fl_id (update_where (\<lambda>f. fl_id f = fl_id g) ?new (fw_files w)) = map fl_id (fw_files w)"
    by (rule map_update_where_key) simp
  then have "fl_id ` set (update_where (\<lambda>f. fl_id f = fl_id g) ?new (fw_files w)) = fl_id ` set (fw_files w)"
    by (metis list.set_map)
  then show ?thesis using renamed assms(2,3) by (simp add: get_share_token_def file_rename_def)
qed (use assms(2,3) in \<open>auto simp: get_share_token_def add_share_token_def row_by_append\<close>)

lemma run_keeps_token:
  assumes "file_ok w" "\<forall>s \<in> set steps. step_ids_ok s \<and> fst s \<and> snd (snd (snd s)) \<noteq> DeleteFile (sh_file t)"
    and "get_share_token token w = Some t" "sh_file t \<in> fl_id ` set (fw_files w)"
  shows "get_share_token token (file_run so steps w) = Some t
    \<and> sh_file t \<in> fl_id ` set (fw_files (file_run so steps w)) \<and> file_ok (file_run so steps w)"
  using assms
proof (induction steps arbitrary: w)
  case (Cons s steps)
  have m: "file_move (fst (snd (snd s))) (snd (snd (snd s))) w (file_step so s w)"
    using Cons.prems(2) by (intro file_step_move) auto
  show ?case using Cons.IH[OF file_move_ok[OF m Cons.prems(1)]] move_keeps_token[OF m Cons.prems(3,4)] Cons.prems(2)
    by simp
qed simp

text \<open>
  C31.  A share link works as long as it was made for.  After any requests by anybody, renames of the
  file included, whose transactions commit and of which none deletes this file, and with Storage
  answering when the link is followed: up to and including the instant its days are over the link
  leads to the file's current object, and from then on the answer is 410; the answer that the file is
  missing is never given.
\<close>

theorem share_link_lives:
  assumes "file_ok w" "file_get (fc_org c) pk w \<noteq> None" "token \<notin> sh_token ` set (fw_tokens w)"
    and "\<forall>s \<in> set steps. step_ids_ok s \<and> fst s \<and> snd (snd (snd s)) \<noteq> DeleteFile pk"
    and "fe_trouble later = (\<lambda>_ _. None)"
    and "w' = file_run so steps (fst (generate_share_link env c token pk w))"
  shows "\<exists>f \<in> set (fw_files w'). fl_id f = pk \<and> snd (snd (public_share_download so later token w')) =
    (if fe_now later \<le> fe_now env + days (fs_share_link_ttl_days (fe_settings env))
     then SignedRedirect (fl_path f) (fs_signed_url_ttl (so (fl_org f))) else FileRefused 410 ''Link expired'')"
proof -
  let ?t = "\<lparr>sh_token = token, sh_file = pk, sh_expires = fe_now env + days (fs_share_link_ttl_days (fe_settings env))\<rparr>"
  let ?w = "fst (generate_share_link env c token pk w)"
  obtain f0 where f0: "file_get (fc_org c) pk w = Some f0" using assms(2) by auto
  have w: "?w = add_share_token (fe_settings env) token (fe_now env) pk w"
    using f0 assms(3) by (simp add: generate_share_link_def)
  have new: "row_by sh_token token (fw_tokens w) = None"
    using assms(3) by (auto simp: row_by_def find_None_iff)
  have tok: "get_share_token token ?w = Some ?t" "pk \<in> fl_id ` set (fw_files ?w)" "file_ok ?w"
    using file_get_SomeD[OF f0] assms(1) new unfolding w
    by (auto simp: get_share_token_def add_share_token_def row_by_append file_ok_def rows_ok_def)
  have run: "get_share_token token w' = Some ?t" "pk \<in> fl_id ` set (fw_files w')" "file_ok w'"
    using run_keeps_token[OF tok(3) _ tok(1), of steps so] tok(2) assms(4,6) by simp_all
  then obtain f where f: "row_by fl_id pk (fw_files w') = Some f"
    by (cases "row_by fl_id pk (fw_files w')") (auto simp: row_by_def find_None_iff)
  then have f': "f \<in> set (fw_files w')" "fl_id f = pk" using row_by_SomeD by fast+
  then obtain x where "bucket_get (fl_path f) (fw_objects w') = Some x"
    using run(3) by (auto simp: file_ok_def row_stored_def)
  then show ?thesis using f' run(1) f assms(5)
    by (intro bexI[of _ f]) (auto simp: public_share_download_def storage_sign_def storage_call_def)
qed

section \<open>At concrete inputs\<close>

definition demo_file_env :: file_env where
  "demo_file_env = \<lparr>fe_normalize = id, fe_trouble = (\<lambda>_ _. None),
     fe_settings = \<lparr>fs_max_upload_mb = 25, fs_uploads_enabled = True, fs_signed_url_ttl = 60, fs_share_link_ttl_days = 7,
       fs_quota_mb = -1\<rparr>, fe_now = 0\<rparr>"

definition demo_file_caller :: "uuid \<Rightarrow> org_role \<Rightarrow> file_caller" where
  "demo_file_caller u role = \<lparr>fc_org = 7, fc_email = ''ann@x'',
     fc_member = \<lparr>mb_org = 7, mb_user = u, mb_role = role, mb_created_at = 0\<rparr>\<rparr>"

definition demo_file :: org_file where
  "demo_file = \<lparr>fl_id = 8, fl_org = 7, fl_uploaded_by = 2, fl_uploader_email = ''ann@x'', fl_filename = ''a'',
     fl_path = storage_path 7 8 ''a'', fl_type = ''text/plain'', fl_size = 2, fl_created_at = 0\<rparr>"

definition demo_file_world :: file_world where
  "demo_file_world = \<lparr>fw_files = [demo_file], fw_tokens = [], fw_objects = [(storage_path 7 8 ''a'', (''text/plain'', ''hi''))]\<rparr>"

lemmas demo_file_defs = demo_file_world_def demo_file_def demo_file_env_def demo_file_caller_def

lemma demo_file_ok: "file_ok demo_file_world"
  by (simp add: file_ok_def rows_ok_def row_named_def row_stored_def bucket_get_def demo_file_defs)

lemma demo_rename: "sanitize_filename id ''b'' = Some ''b''"
  by code_simp

theorem file_rows_have_objects_witness:
  "let w = file_run (\<lambda>_. fe_settings demo_file_env) [(True, demo_file_env, demo_file_caller 2 Owner, SeedFile True True 7 2 9)] demo_file_world in
   length (fw_files w) = 2 \<and> distinct (map fl_path (fw_files w))"
proof -
  let ?so = "\<lambda>_. fe_settings demo_file_env"
  let ?s = "(True, demo_file_env, demo_file_caller 2 Owner, SeedFile True True 7 2 9)"
  have ne: "storage_path 7 8 ''a'' \<noteq> storage_path 7 9 welcome_filename"
  proof
    assume "storage_path 7 8 ''a'' = storage_path 7 9 welcome_filename"
    from storage_path_inj[OF this] show False by simp
  qed
  then have "length (fw_files (file_run ?so [?s] demo_file_world)) = 2"
    by (simp add: file_step_def settle_def seed_welcome_file_def Let_def storage_defs bucket_get_def file_add_def demo_file_defs)
  moreover have "\<forall>s \<in> set [?s]. step_ids_ok s \<and> fst s" by (simp add: step_ids_ok_def demo_file_caller_def)
  note conjunct1[OF conjunct2[OF file_rows_have_objects[OF demo_file_ok this, of ?so]]]
  ultimately show ?thesis by (simp add: Let_def)
qed

theorem failed_commit_loses_file_witness:
  "download_file demo_file_env (demo_file_caller 2 Member) 8
     (fst (settle False demo_file_world (rename_file demo_file_env (demo_file_caller 2 Member) 8 ''b'' demo_file_world)))
   = (fst (settle False demo_file_world (rename_file demo_file_env (demo_file_caller 2 Member) 8 ''b'' demo_file_world)), [], FileCrashed)"
proof -
  have "storage_path 7 8 ''b'' \<noteq> storage_path 7 8 ''a''" by (simp add: storage_path_def)
  then have "bucket_get (storage_path (fl_org demo_file) (fl_id demo_file) ''b'') (fw_objects demo_file_world) = None"
    by (simp add: bucket_get_def demo_file_defs)
  moreover have "demo_file \<in> set (fw_files demo_file_world)" "fl_org demo_file = fc_org (demo_file_caller 2 Member)"
    "can_modify (fl_uploaded_by demo_file) (fc_member (demo_file_caller 2 Member))" "fl_id demo_file = 8"
    "fe_trouble demo_file_env = (\<lambda>_ _. None)" "sanitize_filename (fe_normalize demo_file_env) ''b'' = Some ''b''"
    using demo_rename by (simp_all add: demo_file_defs can_modify_def)
  ultimately show ?thesis using failed_commit_loses_file[OF demo_file_ok, of demo_file "demo_file_caller 2 Member" demo_file_env "''b''" "''b''"]
    by (simp add: Let_def)
qed



theorem share_link_lives_witness:
  "\<exists>f :: org_file. snd (snd (public_share_download (\<lambda>_. fe_settings demo_file_env) (demo_file_env\<lparr>fe_now := days 7\<rparr>) 5
     (file_run (\<lambda>_. fe_settings demo_file_env) [(True, demo_file_env, demo_file_caller 2 Owner, RenameFile 8 ''b'')]
       (fst (generate_share_link demo_file_env (demo_file_caller 3 Member) 5 8 demo_file_world)))))
   = SignedRedirect (fl_path f) 60"
proof -
  let ?so = "\<lambda>_ :: uuid. fe_settings demo_file_env"
  let ?steps = "[(True, demo_file_env, demo_file_caller 2 Owner, RenameFile 8 ''b'')]"
  have "file_get (fc_org (demo_file_caller 3 Member)) 8 demo_file_world \<noteq> None"
    "5 \<notin> sh_token ` set (fw_tokens demo_file_world)"
    "\<forall>s \<in> set ?steps. step_ids_ok s \<and> fst s \<and> snd (snd (snd s)) \<noteq> DeleteFile 8"
    "fe_trouble (demo_file_env\<lparr>fe_now := days 7\<rparr>) = (\<lambda>_ _. None)"
    by (simp_all add: file_get_def step_ids_ok_def demo_file_defs)
  note life = share_link_lives[OF demo_file_ok this refl, of ?so demo_file_env]
  have now: "fe_now (demo_file_env\<lparr>fe_now := days 7\<rparr>)
      \<le> fe_now demo_file_env + days (fs_share_link_ttl_days (fe_settings demo_file_env))"
    and ttl: "fs_signed_url_ttl (fe_settings demo_file_env) = 60" by (simp_all add: demo_file_env_def)
  from life show ?thesis unfolding if_P[OF now] ttl by (elim bexE conjE) (rule exI)
qed

end
