(* ===== verification/Gotrue_Client.thy ===== *)
theory Gotrue_Client
  imports Auth_Signin
begin

text \<open>
  \<open>apps/auth/domain/service.py\<close>, the calls the application makes to GoTrue over HTTP, and the contracts
  \<open>passwords.py\<close> and \<open>email_change.py\<close> built on them.  The server is a parameter: a state and a function from a
  call to its next state and its answer, or to no answer when the connection fails.  A client function
  threads the state, so the order of its calls is part of the model.  An exception is a value of
  \<open>client_error\<close>; \<open>ClientBroke\<close> is one nobody expects: no answer, a body that is no JSON, a missing key.
\<close>

section \<open>Calls\<close>

record gotrue_call =
  gc_method :: string
  gc_path :: string
  gc_headers :: "(string, string) dict"
  gc_json :: "json option"

record http_answer =
  ha_status :: int
  ha_body :: "json option"
  ha_empty :: bool

type_synonym 's server = "gotrue_call \<Rightarrow> 's \<Rightarrow> 's \<times> http_answer option"

datatype client_error = OAuthError json | PasskeyError json | TotpError json | UserUpdateError json int | ClientBroke

type_synonym ('s, 'a) client = "'s \<Rightarrow> 's \<times> (client_error + 'a)"

definition and_then :: "('s, 'a) client \<Rightarrow> ('a \<Rightarrow> ('s, 'b) client) \<Rightarrow> ('s, 'b) client" where
  "and_then m f s = (case m s of (s', Inl e) \<Rightarrow> (s', Inl e) | (s', Inr a) \<Rightarrow> f a s')"

definition reading :: "(client_error + 'a) \<Rightarrow> ('s, 'a) client" where
  "reading r s = (s, r)"

definition send :: "'s server \<Rightarrow> gotrue_call \<Rightarrow> ('s, http_answer) client" where
  "send server call s = (case server call s of (s', None) \<Rightarrow> (s', Inl ClientBroke) | (s', Some res) \<Rightarrow> (s', Inr res))"

section \<open>Bodies\<close>

fun truthy :: "json \<Rightarrow> bool" where
  "truthy JNull \<longleftrightarrow> False" |
  "truthy (JBool b) \<longleftrightarrow> b" |
  "truthy (JNum n) \<longleftrightarrow> n \<noteq> 0" |
  "truthy (JStr s) \<longleftrightarrow> s \<noteq> []" |
  "truthy (JArr xs) \<longleftrightarrow> xs \<noteq> []" |
  "truthy (JObj o') \<longleftrightarrow> o' \<noteq> []"

text \<open>\<open>data["key"]\<close>, \<open>data.get("key")\<close>, and a string where one is used as such.\<close>

definition item :: "string \<Rightarrow> json \<Rightarrow> client_error + json" where
  "item key data = (case data of JObj o' \<Rightarrow> (case map_of o' key of Some v \<Rightarrow> Inr v | None \<Rightarrow> Inl ClientBroke)
     | _ \<Rightarrow> Inl ClientBroke)"

definition item_or_none :: "string \<Rightarrow> json \<Rightarrow> client_error + json" where
  "item_or_none key data = (case data of JObj o' \<Rightarrow> Inr (dict_get o' key JNull) | _ \<Rightarrow> Inl ClientBroke)"

definition text_of :: "json \<Rightarrow> client_error + string" where
  "text_of v = (case v of JStr s \<Rightarrow> Inr s | _ \<Rightarrow> Inl ClientBroke)"

definition body_of :: "http_answer \<Rightarrow> client_error + json" where
  "body_of res = (case ha_body res of Some data \<Rightarrow> Inr data | None \<Rightarrow> Inl ClientBroke)"

definition error_message :: "http_answer \<Rightarrow> string \<Rightarrow> client_error + json" where
  "error_message res fallback = (case ha_body res of
       None \<Rightarrow> Inr (JStr fallback)
     | Some (JObj o') \<Rightarrow> Inr (dict_get o' ''msg'' (JStr fallback))
     | Some _ \<Rightarrow> Inl ClientBroke)"

definition tokens_of :: "json \<Rightarrow> client_error + auth_tokens" where
  "tokens_of data = bind_err (bind_err (item ''access_token'' data) text_of) (\<lambda>access.
     bind_err (bind_err (item ''refresh_token'' data) text_of) (\<lambda>refresh.
       Inr \<lparr>at_access = access, at_refresh = refresh\<rparr>))"

definition auth_headers :: "string \<Rightarrow> string \<Rightarrow> (string, string) dict" where
  "auth_headers publishable token = [(''Authorization'', ''Bearer '' @ token), (''apikey'', publishable)]"

section \<open>First sign-in\<close>

text \<open>\<open>re.sub(r"(\.\d{6})\d+", r"\1", value)\<close>, then \<open>Z\<close> as an offset.\<close>

function cut_nanos :: "string \<Rightarrow> string" where
  "cut_nanos [] = []" |
  "cut_nanos (c # t) =
     (if c = CHR ''.'' \<and> 7 \<le> length (takeWhile is_digit t) then c # take 6 t @ cut_nanos (dropWhile is_digit t)
      else c # cut_nanos t)"
  by pat_completeness auto
termination
  by (relation "measure length") (auto simp: le_imp_less_Suc length_dropWhile_le)

definition parse_ts :: "(string \<Rightarrow> instant option) \<Rightarrow> string \<Rightarrow> client_error + instant" where
  "parse_ts parse_iso value =
     (case parse_iso (concat (map (\<lambda>c. if c = CHR ''Z'' then ''+00:00'' else [c]) (cut_nanos value))) of
        Some t \<Rightarrow> Inr t | None \<Rightarrow> Inl ClientBroke)"

definition is_first_sign_in :: "(string \<Rightarrow> instant option) \<Rightarrow> json \<Rightarrow> client_error + bool" where
  "is_first_sign_in parse_iso user =
     bind_err (item_or_none ''created_at'' user) (\<lambda>created.
     bind_err (item_or_none ''last_sign_in_at'' user) (\<lambda>last'.
       if \<not> truthy created then Inr False
       else if \<not> truthy last' then Inr True
       else bind_err (bind_err (text_of last') (parse_ts parse_iso)) (\<lambda>l.
         bind_err (bind_err (text_of created) (parse_ts parse_iso)) (\<lambda>c. Inr (\<bar>l - c\<bar> < seconds 5)))))"

section \<open>OAuth, passkeys and factors\<close>

definition exchange_oauth_code :: "'s server \<Rightarrow> string \<Rightarrow> (string \<Rightarrow> instant option) \<Rightarrow> string \<Rightarrow> string
    \<Rightarrow> ('s, auth_tokens \<times> bool) client" where
  "exchange_oauth_code server publishable parse_iso code verifier =
     and_then (send server \<lparr>gc_method = ''POST'', gc_path = ''/auth/v1/token?grant_type=pkce'',
         gc_headers = [(''apikey'', publishable)],
         gc_json = Some (JObj [(''auth_code'', JStr code), (''code_verifier'', JStr verifier)])\<rparr>) (\<lambda>res. reading
       (if 400 \<le> ha_status res then
          bind_err (case ha_body res of
              None \<Rightarrow> Inr (JStr [])
            | Some body \<Rightarrow> bind_err (item_or_none ''error_description'' body) (\<lambda>d.
                if truthy d then Inr d else bind_err (item_or_none ''msg'' body) (\<lambda>m. Inr (if truthy m then m else JStr []))))
            (\<lambda>message. Inl (OAuthError (if truthy message then message else JStr ''Sign-in with the provider failed.'')))
        else bind_err (body_of res) (\<lambda>data. bind_err (tokens_of data) (\<lambda>tokens.
          bind_err (item_or_none ''user'' data) (\<lambda>user.
            bind_err (is_first_sign_in parse_iso (if truthy user then user else JObj [])) (\<lambda>first.
              Inr (tokens, first)))))))"

definition passkey_request :: "'s server \<Rightarrow> string \<Rightarrow> string \<Rightarrow> string \<Rightarrow> json option \<Rightarrow> string option \<Rightarrow> ('s, json) client" where
  "passkey_request server publishable method path body token =
     and_then (send server \<lparr>gc_method = method, gc_path = ''/auth/v1/passkeys'' @ path,
         gc_headers = (''apikey'', publishable) #
           (case token of None \<Rightarrow> [] | Some t \<Rightarrow> if t = [] then [] else [(''Authorization'', ''Bearer '' @ t)]),
         gc_json = body\<rparr>) (\<lambda>res. reading
       (if 400 \<le> ha_status res
        then bind_err (error_message res ''Passkey operation failed.'') (\<lambda>m. Inl (PasskeyError m))
        else if ha_empty res then Inr JNull else body_of res))"

definition passkey_registration_options :: "'s server \<Rightarrow> string \<Rightarrow> string \<Rightarrow> ('s, json) client" where
  "passkey_registration_options server publishable token =
     passkey_request server publishable ''POST'' ''/registration/options'' (Some (JObj [])) (Some token)"

definition verify_passkey_registration :: "'s server \<Rightarrow> string \<Rightarrow> string \<Rightarrow> string \<Rightarrow> json \<Rightarrow> ('s, json) client" where
  "verify_passkey_registration server publishable token challenge credential =
     passkey_request server publishable ''POST'' ''/registration/verify''
       (Some (JObj [(''challenge_id'', JStr challenge), (''credential'', credential)])) (Some token)"

definition list_passkeys :: "'s server \<Rightarrow> string \<Rightarrow> string \<Rightarrow> ('s, json) client" where
  "list_passkeys server publishable token =
     and_then (passkey_request server publishable ''GET'' ''/'' None (Some token)) (\<lambda>data.
       reading (Inr (if truthy data then data else JArr [])))"

definition delete_passkey :: "'s server \<Rightarrow> string \<Rightarrow> string \<Rightarrow> uuid \<Rightarrow> ('s, unit) client" where
  "delete_passkey server publishable token passkey_id =
     and_then (passkey_request server publishable ''DELETE'' (''/'' @ uuid_str passkey_id) None (Some token)) (\<lambda>_.
       reading (Inr ()))"

definition passkey_authentication_options :: "'s server \<Rightarrow> string \<Rightarrow> ('s, json) client" where
  "passkey_authentication_options server publishable =
     passkey_request server publishable ''POST'' ''/authentication/options'' (Some (JObj [])) None"

definition verify_passkey_authentication :: "'s server \<Rightarrow> string \<Rightarrow> string \<Rightarrow> json \<Rightarrow> ('s, auth_tokens) client" where
  "verify_passkey_authentication server publishable challenge credential =
     and_then (passkey_request server publishable ''POST'' ''/authentication/verify''
         (Some (JObj [(''challenge_id'', JStr challenge), (''credential'', credential)])) None) (\<lambda>data. reading (tokens_of data))"

definition factors_request :: "'s server \<Rightarrow> string \<Rightarrow> string \<Rightarrow> string \<Rightarrow> string \<Rightarrow> json \<Rightarrow> ('s, json) client" where
  "factors_request server publishable method path token body =
     and_then (send server \<lparr>gc_method = method, gc_path = ''/auth/v1/factors'' @ path,
         gc_headers = auth_headers publishable token, gc_json = Some body\<rparr>) (\<lambda>res. reading
       (if 400 \<le> ha_status res
        then bind_err (error_message res ''Two-factor operation failed.'') (\<lambda>m. Inl (TotpError m))
        else body_of res))"

record totp_enrollment =
  te_factor :: string
  te_secret :: string
  te_uri :: string

definition enroll_totp :: "'s server \<Rightarrow> string \<Rightarrow> string \<Rightarrow> ('s, totp_enrollment) client" where
  "enroll_totp server publishable token =
     and_then (factors_request server publishable ''POST'' [] token
         (JObj [(''factor_type'', JStr ''totp''), (''friendly_name'', JStr ''authenticator'')])) (\<lambda>data. reading
       (bind_err (bind_err (item ''id'' data) text_of) (\<lambda>i.
        bind_err (item ''totp'' data) (\<lambda>t.
        bind_err (bind_err (item ''secret'' t) text_of) (\<lambda>s.
        bind_err (bind_err (item ''uri'' t) text_of) (\<lambda>u.
          Inr \<lparr>te_factor = i, te_secret = s, te_uri = u\<rparr>))))))"

definition totp_challenge :: "'s server \<Rightarrow> string \<Rightarrow> string \<Rightarrow> string \<Rightarrow> ('s, string) client" where
  "totp_challenge server publishable token factor =
     and_then (factors_request server publishable ''POST'' (''/'' @ factor @ ''/challenge'') token (JObj [])) (\<lambda>data.
       reading (bind_err (item ''id'' data) text_of))"

definition verify_totp :: "'s server \<Rightarrow> string \<Rightarrow> string \<Rightarrow> string \<Rightarrow> string \<Rightarrow> string \<Rightarrow> ('s, auth_tokens) client" where
  "verify_totp server publishable token factor challenge code =
     and_then (factors_request server publishable ''POST'' (''/'' @ factor @ ''/verify'') token
         (JObj [(''challenge_id'', JStr challenge), (''code'', JStr code)])) (\<lambda>data. reading (tokens_of data))"

section \<open>The account\<close>

definition update_user :: "'s server \<Rightarrow> string \<Rightarrow> string \<Rightarrow> json \<Rightarrow> string \<Rightarrow> ('s, unit) client" where
  "update_user server publishable token body fallback =
     and_then (send server \<lparr>gc_method = ''PUT'', gc_path = ''/auth/v1/user'',
         gc_headers = auth_headers publishable token, gc_json = Some body\<rparr>) (\<lambda>res. reading
       (if 400 \<le> ha_status res
        then bind_err (error_message res fallback) (\<lambda>m. Inl (UserUpdateError m (ha_status res)))
        else Inr ()))"

definition update_password :: "'s server \<Rightarrow> string \<Rightarrow> string \<Rightarrow> string \<Rightarrow> ('s, unit) client" where
  "update_password server publishable token new_password =
     update_user server publishable token (JObj [(''password'', JStr new_password)]) ''Password update failed.''"

definition request_email_change :: "'s server \<Rightarrow> string \<Rightarrow> string \<Rightarrow> string \<Rightarrow> ('s, unit) client" where
  "request_email_change server publishable token new_email =
     update_user server publishable token (JObj [(''email'', JStr new_email)]) ''Email change failed.''"

section \<open>Signing in with a password\<close>

text \<open>
  The SDK's call, a parameter: it raises an \<open>AuthApiError\<close> (any error status of GoTrue's), raises
  otherwise, or answers with a session or none.
\<close>

datatype sign_in_answer = SignInApiError int | SignInRaised | SignInNoSession | SignInSession auth_tokens

type_synonym 's sign_in = "string \<Rightarrow> string \<Rightarrow> 's \<Rightarrow> 's \<times> sign_in_answer"

datatype 'a ceremony = WrongPassword | UpdateRefused json int | CeremonyBroke | CeremonyDone 'a

definition verify_password :: "'s sign_in \<Rightarrow> string \<Rightarrow> string \<Rightarrow> 's \<Rightarrow> 's \<times> unit ceremony" where
  "verify_password sign_in email password s = (case sign_in email password s of (s', answer) \<Rightarrow>
     (s', case answer of SignInSession _ \<Rightarrow> CeremonyDone () | SignInApiError _ \<Rightarrow> WrongPassword
        | SignInNoSession \<Rightarrow> CeremonyBroke | SignInRaised \<Rightarrow> CeremonyBroke))"

text \<open>The check of the current password, then a change under the caller's session.\<close>

definition after_password :: "'s sign_in \<Rightarrow> string \<Rightarrow> string \<Rightarrow> ('s, unit) client \<Rightarrow> 's \<Rightarrow> 's \<times> unit ceremony" where
  "after_password sign_in email password change s = (case verify_password sign_in email password s of
       (s', CeremonyDone _) \<Rightarrow> (case change s' of
           (s'', Inr _) \<Rightarrow> (s'', CeremonyDone ())
         | (s'', Inl (UserUpdateError m status)) \<Rightarrow> (s'', UpdateRefused m status)
         | (s'', Inl _) \<Rightarrow> (s'', CeremonyBroke))
     | (s', refused) \<Rightarrow> (s', refused))"

definition change_password :: "'s server \<Rightarrow> 's sign_in \<Rightarrow> string \<Rightarrow> string \<Rightarrow> string \<Rightarrow> string \<Rightarrow> string \<Rightarrow> 's \<Rightarrow> 's \<times> unit ceremony" where
  "change_password server sign_in publishable email current new_password token =
     after_password sign_in email current (update_password server publishable token new_password)"

definition change_email :: "'s server \<Rightarrow> 's sign_in \<Rightarrow> string \<Rightarrow> string \<Rightarrow> string \<Rightarrow> string \<Rightarrow> string \<Rightarrow> 's \<Rightarrow> 's \<times> unit ceremony" where
  "change_email server sign_in publishable email current new_email token =
     after_password sign_in email current (request_email_change server publishable token new_email)"

lemma after_password_session:
  "sign_in email current s = (s1, SignInSession t) \<Longrightarrow> after_password sign_in email current change s =
    (case change s1 of (s', Inr _) \<Rightarrow> (s', CeremonyDone ())
       | (s', Inl (UserUpdateError m status)) \<Rightarrow> (s', UpdateRefused m status)
       | (s', Inl _) \<Rightarrow> (s', CeremonyBroke))"
  by (simp add: after_password_def verify_password_def)

text \<open>Without a session for the current password nothing more is sent.\<close>

lemma after_password_refused:
  "sign_in email current s = (s1, answer) \<Longrightarrow> (\<nexists>t. answer = SignInSession t) \<Longrightarrow>
    after_password sign_in email current change s
      = (s1, case answer of SignInApiError _ \<Rightarrow> WrongPassword | _ \<Rightarrow> CeremonyBroke)"
  by (cases answer) (auto simp: after_password_def verify_password_def)

end
