(* ===== verification/Profile.thy ===== *)
theory Profile
  imports Gotrue_Client Organizations Object_Store
begin

text \<open>
  \<open>apps/profile\<close>: the profile row of an account and the routes of its page, but for the activity feed
  (\<open>Activity\<close>) and the deletion of the account (\<open>Admin_Requests\<close>).  A request's session is under
  row-level security, so the handles it searches are those of the organisations and profiles its caller
  sees; the column is unique for all, and a clash with a row it does not see is an integrity error.  A
  route returns the world (the profiles, GoTrue's state, the bucket), its facts and its answer; one that
  crashes is rolled back, what it sent outside stays sent; a call to Storage that fails is taken to have
  had no effect.
\<close>

section \<open>Rows and settings\<close>

record profile =
  pf_id :: uuid
  pf_user :: uuid
  pf_email :: string
  pf_handle :: "string option"
  pf_avatar :: "string option"

record profile_settings =
  ps_email_change :: bool
  ps_account_deletion :: bool
  ps_avatar :: bool
  ps_handle :: bool

record 's profile_world =
  pw_profiles :: "profile list"
  pw_server :: 's
  pw_objects :: bucket

datatype profile_fact =
    PasswordChanged uuid
  | EmailChangeRequested uuid string
  | PasskeyAdded uuid
  | PasskeyRemoved uuid uuid
  | TwoFactorEnabled uuid
  | AvatarUpdated uuid
  | HandleChanged uuid string

text \<open>What the page shows beside the profile.\<close>

record page_view =
  pp_profile :: "profile option"
  pp_two_factor :: bool
  pp_twofa_active :: bool
  pp_passkeys_enabled :: bool
  pp_passkeys :: json

datatype profile_reply =
    PDetail int json
  | PMessage string
  | PJson json
  | PProfile "profile option"
  | PPage int "(string \<times> json) option" page_view
  | PRedirect string "cookie_change list"
  | PSession string auth_tokens
  | PEnrolled totp_enrollment
  | PImage string string
  | PCrashed

type_synonym 's profile_result = "'s profile_world \<times> profile_fact list \<times> profile_reply"

text \<open>A request: its caller and their tokens, the settings, and the outside world.\<close>

record 's profile_env =
  pe_user :: uuid
  pe_email :: string
  pe_token :: string
  pe_cookie_token :: string
  pe_json :: bool
  pe_settings :: profile_settings
  pe_users :: users_settings
  pe_config :: org_config
  pe_orgs :: org_db
  pe_server :: "'s server"
  pe_sign_in :: "'s sign_in"
  pe_publishable :: string
  pe_trouble :: storage_trouble
  pe_fresh :: uuid

section \<open>The repository\<close>

definition get_by_user_id :: "uuid option \<Rightarrow> org_db \<Rightarrow> uuid \<Rightarrow> profile list \<Rightarrow> profile option" where
  "get_by_user_id reader db user rows = List.find (\<lambda>p. pf_user p = user \<and> profile_visible reader db user) rows"

definition profile_handles :: "profile list \<Rightarrow> (string \<times> uuid \<times> uuid) list" where
  "profile_handles rows = List.map_filter (\<lambda>p. map_option (\<lambda>h. (h, pf_id p, pf_user p)) (pf_handle p)) rows"

text \<open>The namespace of handles as the request's session sees it.\<close>

definition with_handles :: "'s profile_env \<Rightarrow> profile list \<Rightarrow> org_config" where
  "with_handles env rows = (pe_config env)\<lparr>oc_profile_handles := profile_handles rows\<rparr>"

definition profile_registry :: "'s profile_env \<Rightarrow> profile list \<Rightarrow> slug_registry" where
  "profile_registry env rows = org_registry (with_handles env rows) (Some (pe_user env)) (pe_orgs env)"

definition profile_handle_free :: "'s profile_env \<Rightarrow> uuid \<Rightarrow> string \<Rightarrow> profile list \<Rightarrow> bool" where
  "profile_handle_free env pk handle rows = handle_is_available (profile_registry env rows) (Some ''profiles'') (Some pk) handle"

text \<open>Writing a handle: \<open>None\<close> when the unique index refuses it.\<close>

definition write_handle :: "uuid \<Rightarrow> string \<Rightarrow> profile list \<Rightarrow> profile list option" where
  "write_handle pk handle rows =
     (if \<exists>p \<in> set rows. pf_handle p = Some handle \<and> pf_id p \<noteq> pk then None
      else Some (update_where (\<lambda>p. pf_id p = pk) (\<lambda>p. p\<lparr>pf_handle := Some handle\<rparr>) rows))"

definition handle_seed :: "string \<Rightarrow> string" where
  "handle_seed email = (let base = slugify (hd (split_on CHR ''@'' email)) in if base = [] then ''user'' else base)"

definition auto_handle :: "'s profile_env \<Rightarrow> profile \<Rightarrow> string \<Rightarrow> profile list \<Rightarrow> profile list option" where
  "auto_handle env p email rows =
     (case unique_handle (Suc (namespace_size (with_handles env rows) (pe_orgs env))) (profile_registry env rows)
         (Some ''profiles'') (Some (pf_id p)) (handle_seed email) of
        None \<Rightarrow> None
      | Some handle \<Rightarrow> write_handle (pf_id p) handle rows)"

definition own_profile :: "'s profile_env \<Rightarrow> profile list \<Rightarrow> profile option" where
  "own_profile env rows = get_by_user_id (Some (pe_user env)) (pe_orgs env) (pe_user env) rows"

definition get_with_auto_handle :: "'s profile_env \<Rightarrow> profile list \<Rightarrow> (profile list \<times> profile option) option" where
  "get_with_auto_handle env rows = (case own_profile env rows of
       None \<Rightarrow> Some (rows, None)
     | Some p \<Rightarrow>
         if pf_handle p = None \<and> ps_handle (pe_settings env)
         then map_option (\<lambda>rows'. (rows', own_profile env rows')) (auto_handle env p (pe_email env) rows)
         else Some (rows, Some p))"

definition get_or_create :: "'s profile_env \<Rightarrow> profile list \<Rightarrow> (profile list \<times> profile) option" where
  "get_or_create env rows = (case own_profile env rows of
       Some p \<Rightarrow> Some (rows, p)
     | None \<Rightarrow>
         (let p = \<lparr>pf_id = pe_fresh env, pf_user = pe_user env, pf_email = pe_email env, pf_handle = None, pf_avatar = None\<rparr> in
          if pe_fresh env \<in> pf_id ` set rows then None else Some (rows @ [p], p)))"

definition set_avatar_path :: "uuid \<Rightarrow> string \<Rightarrow> profile list \<Rightarrow> profile list" where
  "set_avatar_path pk path rows = update_where (\<lambda>p. pf_id p = pk) (\<lambda>p. p\<lparr>pf_avatar := Some path\<rparr>) rows"

section \<open>The page\<close>

definition crashed :: "'s profile_world \<Rightarrow> 's profile_result" where
  "crashed w = (w, [], PCrashed)"

text \<open>
  The two lookups at GoTrue overlap with the database work in the code; they only read.  A failed
  lookup hides its section, except that an unexpected failure of the passkey lookup is not caught.
\<close>

definition profile_context :: "'s profile_env \<Rightarrow> (gotrue_failure + string option) \<Rightarrow> (client_error + json)
    \<Rightarrow> profile list \<Rightarrow> (profile list \<times> page_view) option" where
  "profile_context env factor keys rows =
     (case get_with_auto_handle env rows of
        None \<Rightarrow> None
      | Some (rows', p) \<Rightarrow>
          (let ask_factor = us_two_factor (pe_users env) \<and> pe_cookie_token env \<noteq> [];
               ask_keys = us_passkeys (pe_users env) \<and> pe_cookie_token env \<noteq> [];
               page = \<lparr>pp_profile = p,
                 pp_two_factor = (us_two_factor (pe_users env) \<and> \<not> (ask_factor \<and> (\<exists>e. factor = Inl e))),
                 pp_twofa_active = (ask_factor \<and> (case factor of Inr (Some i) \<Rightarrow> i \<noteq> [] | _ \<Rightarrow> False)),
                 pp_passkeys_enabled = (us_passkeys (pe_users env) \<and> \<not> (ask_keys \<and> (\<exists>m. keys = Inl (PasskeyError m)))),
                 pp_passkeys = (if ask_keys then (case keys of Inr l \<Rightarrow> l | Inl _ \<Rightarrow> JArr []) else JArr [])\<rparr> in
           if ask_keys \<and> (case keys of Inl (PasskeyError m) \<Rightarrow> False | Inl _ \<Rightarrow> True | Inr _ \<Rightarrow> False) then None
           else Some (rows', page)))"

text \<open>What the lookups answer, by the state of the server: parameters of the routes that draw the page.\<close>

type_synonym 's page_lookups = "'s \<Rightarrow> (gotrue_failure + string option) \<times> (client_error + json)"

definition draw_page :: "'s profile_env \<Rightarrow> 's page_lookups \<Rightarrow> int \<Rightarrow> (string \<times> json) option \<Rightarrow> 's profile_world
    \<Rightarrow> 's profile_world \<times> profile_reply" where
  "draw_page env look status note w = (case look (pw_server w) of (factor, keys) \<Rightarrow>
     (case profile_context env factor keys (pw_profiles w) of
        None \<Rightarrow> (w, PCrashed)
      | Some (rows, page) \<Rightarrow> (w\<lparr>pw_profiles := rows\<rparr>, PPage status note page)))"

definition profile_error :: "'s profile_env \<Rightarrow> 's page_lookups \<Rightarrow> string \<Rightarrow> json \<Rightarrow> int \<Rightarrow> 's profile_world \<Rightarrow> 's profile_result" where
  "profile_error env look key message status w =
     (if pe_json env then (w, [], PDetail status message)
      else (case draw_page env look status (Some (key, message)) w of (w', reply) \<Rightarrow> (w', [], reply)))"

text \<open>A crash rolls the tables back to what the request found.\<close>

definition rolled_back :: "'s profile_world \<Rightarrow> 's profile_result \<Rightarrow> 's profile_result" where
  "rolled_back w r = (case r of (w', facts, reply) \<Rightarrow>
     if reply = PCrashed then (w'\<lparr>pw_profiles := pw_profiles w\<rparr>, [], PCrashed) else r)"

definition profile_flashes :: "(string, string \<times> string) dict" where
  "profile_flashes = [(''password_changed'', (''password_info'', ''Password changed.'')),
     (''email_requested'', (''email_info'', ''A confirmation email is on its way to your new address.'')),
     (''avatar_updated'', (''avatar_info'', ''Avatar updated.'')),
     (''twofa_enabled'', (''twofa_info'', ''Two-factor enabled.''))]"

definition profile_redirect :: "string option \<Rightarrow> profile_reply" where
  "profile_redirect flash = PRedirect (case flash of None \<Rightarrow> ''/profile'' | Some f \<Rightarrow> ''/profile?flash='' @ f) []"

definition profile_page :: "'s profile_env \<Rightarrow> 's page_lookups \<Rightarrow> string option \<Rightarrow> 's profile_world \<Rightarrow> 's profile_result" where
  "profile_page env look flash w =
     (if pe_json env
      then (case get_with_auto_handle env (pw_profiles w) of
          None \<Rightarrow> crashed w
        | Some (rows, p) \<Rightarrow> (w\<lparr>pw_profiles := rows\<rparr>, [], PProfile p))
      else (case draw_page env look 200 (case flash of None \<Rightarrow> None
              | Some f \<Rightarrow> map_option (\<lambda>(key, message). (key, JStr message)) (map_of profile_flashes f)) w of
          (w', reply) \<Rightarrow> (w', [], reply)))"

section \<open>Password and address\<close>

definition ceremony_error :: "string \<Rightarrow> unit ceremony \<Rightarrow> json option" where
  "ceremony_error failed c = (case c of
       WrongPassword \<Rightarrow> Some (JStr ''Current password is incorrect.'')
     | UpdateRefused m status \<Rightarrow> Some (if is_refusal (answered status) then m else JStr failed)
     | _ \<Rightarrow> None)"

definition sensitive_change :: "'s profile_env \<Rightarrow> 's page_lookups \<Rightarrow> string \<Rightarrow> string \<Rightarrow> profile_fact \<Rightarrow> string \<Rightarrow> string
    \<Rightarrow> ('s \<Rightarrow> 's \<times> unit ceremony) \<Rightarrow> 's profile_world \<Rightarrow> 's profile_result" where
  "sensitive_change env look key failed what message flash ceremony w =
     (case ceremony (pw_server w) of (s, c) \<Rightarrow>
       (let w' = w\<lparr>pw_server := s\<rparr> in
        if c = CeremonyBroke then crashed w'
        else (case ceremony_error failed c of
            Some err \<Rightarrow> profile_error env look key err 400 w'
          | None \<Rightarrow> (w', [what], if pe_json env then PMessage message else profile_redirect (Some flash)))))"

definition password_change :: "'s profile_env \<Rightarrow> 's page_lookups \<Rightarrow> string \<Rightarrow> string \<Rightarrow> 's profile_world \<Rightarrow> 's profile_result" where
  "password_change env look current new_password w =
     (if current = [] \<or> new_password = []
      then profile_error env look ''password_error'' (JStr ''Current and new password are required.'') 400 w
      else sensitive_change env look ''password_error'' ''Password update failed. Please try again.''
        (PasswordChanged (pe_user env)) ''Password changed.'' ''password_changed''
        (change_password (pe_server env) (pe_sign_in env) (pe_publishable env) (pe_email env) current new_password
          (pe_cookie_token env)) w)"

definition email_change :: "'s profile_env \<Rightarrow> 's page_lookups \<Rightarrow> string \<Rightarrow> string \<Rightarrow> 's profile_world \<Rightarrow> 's profile_result" where
  "email_change env look body_email current w =
     (if \<not> ps_email_change (pe_settings env) then (w, [], PDetail 404 (JStr ''Not found''))
      else (let new_email = lower (strip body_email) in
        if new_email = [] \<or> current = []
        then profile_error env look ''email_error'' (JStr ''New email and current password are required.'') 400 w
        else sensitive_change env look ''email_error'' ''Email change failed. Please try again.''
          (EmailChangeRequested (pe_user env) new_email)
          (''A confirmation email is on its way to '' @ new_email @ ''.'') ''email_requested''
          (change_email (pe_server env) (pe_sign_in env) (pe_publishable env) (pe_email env) current new_email
            (pe_cookie_token env)) w))"

section \<open>Passkeys and the second factor\<close>

definition session_token :: "'s profile_env \<Rightarrow> string option" where
  "session_token env = (if pe_token env = [] then None else Some (pe_token env))"

definition ensure_passkeys :: "'s profile_env \<Rightarrow> string option" where
  "ensure_passkeys env = (if \<not> us_passkeys (pe_users env) then None else session_token env)"

definition ensure_two_factor :: "'s profile_env \<Rightarrow> string option" where
  "ensure_two_factor env = (if \<not> us_two_factor (pe_users env) then None else session_token env)"

definition profile_not_found :: profile_reply where "profile_not_found = PDetail 404 (JStr ''Not found'')"

definition passkey_options :: "'s profile_env \<Rightarrow> 's profile_world \<Rightarrow> 's profile_result" where
  "passkey_options env w = (case ensure_passkeys env of
       None \<Rightarrow> (w, [], profile_not_found)
     | Some token \<Rightarrow> (case passkey_registration_options (pe_server env) (pe_publishable env) token (pw_server w) of
           (s, Inr data) \<Rightarrow> (w\<lparr>pw_server := s\<rparr>, [], PJson data)
         | (s, Inl (PasskeyError m)) \<Rightarrow> (w\<lparr>pw_server := s\<rparr>, [], PDetail 400 m)
         | (s, Inl _) \<Rightarrow> crashed (w\<lparr>pw_server := s\<rparr>)))"

definition passkey_verify :: "'s profile_env \<Rightarrow> string \<Rightarrow> json \<Rightarrow> 's profile_world \<Rightarrow> 's profile_result" where
  "passkey_verify env challenge credential w = (case ensure_passkeys env of
       None \<Rightarrow> (w, [], profile_not_found)
     | Some token \<Rightarrow>
         if challenge = [] \<or> \<not> truthy credential
         then (w, [], PDetail 400 (JStr ''challenge_id and credential are required.''))
         else (case verify_passkey_registration (pe_server env) (pe_publishable env) token challenge credential (pw_server w) of
             (s, Inr created) \<Rightarrow> (w\<lparr>pw_server := s\<rparr>, [PasskeyAdded (pe_user env)], PJson created)
           | (s, Inl (PasskeyError m)) \<Rightarrow> (w\<lparr>pw_server := s\<rparr>, [], PDetail 400 m)
           | (s, Inl _) \<Rightarrow> crashed (w\<lparr>pw_server := s\<rparr>)))"

definition passkey_delete :: "'s profile_env \<Rightarrow> 's page_lookups \<Rightarrow> uuid \<Rightarrow> 's profile_world \<Rightarrow> 's profile_result" where
  "passkey_delete env look passkey_id w = (case ensure_passkeys env of
       None \<Rightarrow> (w, [], profile_not_found)
     | Some token \<Rightarrow> (case delete_passkey (pe_server env) (pe_publishable env) token passkey_id (pw_server w) of
           (s, Inr _) \<Rightarrow> (w\<lparr>pw_server := s\<rparr>, [PasskeyRemoved (pe_user env) passkey_id],
             if pe_json env then PMessage ''Passkey removed.'' else profile_redirect None)
         | (s, Inl (PasskeyError m)) \<Rightarrow> profile_error env look ''passkey_error'' m 400 (w\<lparr>pw_server := s\<rparr>)
         | (s, Inl _) \<Rightarrow> crashed (w\<lparr>pw_server := s\<rparr>)))"

definition enrollment_cookie :: string where "enrollment_cookie = ''twofa_enrollment''"
definition enrollment_max_seconds :: int where "enrollment_max_seconds = 300"

text \<open>The cookie's encoding is a parameter: base64 of the enrolment's JSON.\<close>

definition twofa_enroll :: "(totp_enrollment \<Rightarrow> string) \<Rightarrow> 's profile_env \<Rightarrow> 's page_lookups \<Rightarrow> 's profile_world \<Rightarrow> 's profile_result" where
  "twofa_enroll encode env look w = (case ensure_two_factor env of
       None \<Rightarrow> (w, [], profile_not_found)
     | Some token \<Rightarrow> (case enroll_totp (pe_server env) (pe_publishable env) token (pw_server w) of
           (s, Inr enrollment) \<Rightarrow> (w\<lparr>pw_server := s\<rparr>, [], if pe_json env then PEnrolled enrollment
             else PRedirect ''/profile'' [SetCookie enrollment_cookie (encode enrollment) enrollment_max_seconds])
         | (s, Inl (TotpError m)) \<Rightarrow> profile_error env look ''twofa_error'' m 400 (w\<lparr>pw_server := s\<rparr>)
         | (s, Inl _) \<Rightarrow> crashed (w\<lparr>pw_server := s\<rparr>)))"

definition twofa_verify :: "'s profile_env \<Rightarrow> 's page_lookups \<Rightarrow> string \<Rightarrow> string \<Rightarrow> 's profile_world \<Rightarrow> 's profile_result" where
  "twofa_verify env look factor body_code w = (case ensure_two_factor env of
       None \<Rightarrow> (w, [], profile_not_found)
     | Some token \<Rightarrow> (case and_then (totp_challenge (pe_server env) (pe_publishable env) token factor)
             (\<lambda>challenge. verify_totp (pe_server env) (pe_publishable env) token factor challenge (strip body_code)) (pw_server w) of
           (s, Inr tokens) \<Rightarrow> (w\<lparr>pw_server := s\<rparr>, [TwoFactorEnabled (pe_user env)], PSession ''Two-factor enabled.'' tokens)
         | (s, Inl (TotpError _)) \<Rightarrow> profile_error env look ''twofa_error''
             (JStr ''That code did not work. Try the next one from your app.'') 400 (w\<lparr>pw_server := s\<rparr>)
         | (s, Inl _) \<Rightarrow> crashed (w\<lparr>pw_server := s\<rparr>)))"

section \<open>The avatar\<close>

definition avatar_ext :: "(string, string) dict" where
  "avatar_ext = [(''image/png'', ''png''), (''image/jpeg'', ''jpg''), (''image/webp'', ''webp'')]"

definition avatar_media :: "(string, string) dict" where
  "avatar_media = [(''png'', ''image/png''), (''jpg'', ''image/jpeg''), (''webp'', ''image/webp'')]"

definition avatar_max_bytes :: nat where "avatar_max_bytes = 2 * 1024 * 1024"

definition avatar_path :: "uuid \<Rightarrow> string \<Rightarrow> string" where
  "avatar_path user ext = ''avatars/'' @ uuid_str user @ ''.'' @ ext"

definition avatar_upload :: "'s profile_env \<Rightarrow> 's page_lookups \<Rightarrow> string \<Rightarrow> string \<Rightarrow> 's profile_world \<Rightarrow> 's profile_result" where
  "avatar_upload env look media content w =
     (if \<not> ps_avatar (pe_settings env) then (w, [], profile_not_found)
      else (case map_of avatar_ext media of
          None \<Rightarrow> profile_error env look ''avatar_error'' (JStr ''Avatars must be a PNG, JPEG or WebP image (max 2 MB).'') 400 w
        | Some ext \<Rightarrow>
            if content = [] \<or> avatar_max_bytes < length content
            then profile_error env look ''avatar_error'' (JStr ''Avatars must be a PNG, JPEG or WebP image (max 2 MB).'') 400 w
            else (let path = avatar_path (pe_user env) ext in
              case storage_upload (pe_trouble env) True path (media, content) (pw_objects w) of
                Inl e \<Rightarrow> crashed w
              | Inr objs \<Rightarrow> (case get_or_create env (pw_profiles w) of
                    None \<Rightarrow> crashed (w\<lparr>pw_objects := objs\<rparr>)
                  | Some (rows, p) \<Rightarrow>
                      (w\<lparr>pw_objects := objs, pw_profiles := set_avatar_path (pf_id p) path rows\<rparr>,
                       [AvatarUpdated (pe_user env)],
                       if pe_json env then PMessage ''Avatar updated.'' else profile_redirect (Some ''avatar_updated''))))))"

definition last_segment :: "string \<Rightarrow> string" where
  "last_segment path = last (split_on CHR ''.'' path)"

definition avatar_image :: "'s profile_env \<Rightarrow> uuid \<Rightarrow> 's profile_world \<Rightarrow> 's profile_result" where
  "avatar_image env user w =
     (if \<not> ps_avatar (pe_settings env) then (w, [], profile_not_found)
      else (case get_by_user_id (Some (pe_user env)) (pe_orgs env) user (pw_profiles w) of
          None \<Rightarrow> (w, [], profile_not_found)
        | Some p \<Rightarrow> (case pf_avatar p of
            None \<Rightarrow> (w, [], profile_not_found)
          | Some path \<Rightarrow>
              if path = [] then (w, [], profile_not_found)
              else (case storage_download (pe_trouble env) path (pw_objects w) of
                  Inl e \<Rightarrow> crashed w
                | Inr (_, content) \<Rightarrow>
                    (w, [], PImage (dict_get avatar_media (last_segment path) ''image/png'') content)))))"

section \<open>The handle\<close>

definition profile_update :: "'s profile_env \<Rightarrow> 's page_lookups \<Rightarrow> string \<Rightarrow> 's profile_world \<Rightarrow> 's profile_result" where
  "profile_update env look body_handle w =
     (if \<not> ps_handle (pe_settings env) then (w, [], profile_not_found)
      else (case get_or_create env (pw_profiles w) of
          None \<Rightarrow> crashed w
        | Some (rows, p) \<Rightarrow>
            (let handle = lower (strip body_handle); w1 = w\<lparr>pw_profiles := rows\<rparr>;
                 err = (case validate_handle (profile_registry env rows) handle of
                     Some e \<Rightarrow> Some e
                   | None \<Rightarrow> if profile_handle_free env (pf_id p) handle rows then None
                       else Some (409, CHR 0x27 # handle @ CHR 0x27 # '' is already taken.'')) in
             case err of
               Some (status, message) \<Rightarrow> rolled_back w (profile_error env look ''error'' (JStr message) status w1)
             | None \<Rightarrow> (case write_handle (pf_id p) handle rows of
                   None \<Rightarrow> crashed w
                 | Some rows' \<Rightarrow>
                     (let w2 = w\<lparr>pw_profiles := rows'\<rparr>;
                          facts = (if pf_handle p = Some handle then [] else [HandleChanged (pe_user env) handle]) in
                      if pe_json env then (w2, facts, PProfile (Some (p\<lparr>pf_handle := Some handle\<rparr>)))
                      else (case draw_page env look 200 (Some (''success'', JStr ''Profile updated.'')) w2 of
                          (w3, reply) \<Rightarrow> rolled_back w (w3, facts, reply)))))))"

section \<open>The account's end\<close>

definition forget_profile :: "uuid \<Rightarrow> 's profile_world \<Rightarrow> 's profile_world" where
  "forget_profile user w = w\<lparr>pw_profiles := delete_where (\<lambda>p. pf_user p = user) (pw_profiles w)\<rparr>"

definition profiles_card :: "profile list \<Rightarrow> string list" where
  "profiles_card rows =
     (if rows = [] then [''No profiles yet'']
      else (let handles = count_where (\<lambda>p. pf_handle p \<noteq> None) rows in
        [str_nat handles @ '' with a handle'', str_nat (length rows - handles) @ '' without'']))"

section \<open>The activity feed\<close>

definition activity_page :: int where "activity_page = 25"
definition activity_max :: int where "activity_max = 250"

definition clamped_limit :: "int \<Rightarrow> int" where
  "clamped_limit limit = max activity_page (min limit activity_max)"

definition activity_has_more :: "nat \<Rightarrow> int \<Rightarrow> bool" where
  "activity_has_more found limit \<longleftrightarrow> limit \<le> int found \<and> limit < activity_max"

definition activity_next_limit :: "int \<Rightarrow> int" where
  "activity_next_limit limit = min (limit + activity_page) activity_max"

end
