(* ===== verification/Profile_History.thy ===== *)
theory Profile_History
  imports Profile
begin

text \<open>
  What the profile page guarantees: handles stay unique and unreserved under any history of requests, an
  avatar that was uploaded is the one shown, and neither the password nor the address changes without
  the current password.
\<close>

section \<open>Handles\<close>

definition profiles_ok :: "string set \<Rightarrow> profile list \<Rightarrow> bool" where
  "profiles_ok reserved rows \<longleftrightarrow> distinct (map pf_id rows) \<and> distinct (map pf_user rows)
     \<and> (\<forall>p \<in> set rows. \<forall>h. pf_handle p = Some h \<longrightarrow> h \<notin> reserved \<and> (\<forall>q \<in> set rows. pf_handle q = Some h \<longrightarrow> pf_id q = pf_id p))"

lemma profiles_same_id:
  "profiles_ok R rows \<Longrightarrow> p \<in> set rows \<Longrightarrow> q \<in> set rows \<Longrightarrow> pf_id p = pf_id q \<Longrightarrow> p = q"
  unfolding profiles_ok_def by (metis distinct_map inj_onD)

lemma profiles_same_user:
  "profiles_ok R rows \<Longrightarrow> p \<in> set rows \<Longrightarrow> q \<in> set rows \<Longrightarrow> pf_user p = pf_user q \<Longrightarrow> p = q"
  unfolding profiles_ok_def by (metis distinct_map inj_onD)

text \<open>An update of one row that keeps its identity; its handle, when it has one, is free elsewhere.\<close>

lemma profiles_handle:
  assumes "profiles_ok R rows" "p \<in> set rows" "pf_handle p = Some h"
  shows "h \<notin> R" "\<And>q. q \<in> set rows \<Longrightarrow> pf_handle q = Some h \<Longrightarrow> pf_id q = pf_id p"
  using assms unfolding profiles_ok_def by blast+

lemma profiles_okI:
  assumes "distinct (map pf_id rows)" "distinct (map pf_user rows)"
    and "\<And>p h. p \<in> set rows \<Longrightarrow> pf_handle p = Some h \<Longrightarrow>
      h \<notin> R \<and> (\<forall>q \<in> set rows. pf_handle q = Some h \<longrightarrow> pf_id q = pf_id p)"
  shows "profiles_ok R rows"
  unfolding profiles_ok_def by (intro conjI ballI allI impI assms(1) assms(2) assms(3)[THEN conjunct1]
      assms(3)[THEN conjunct2, rule_format])

lemma profiles_distinct:
  assumes "profiles_ok R rows"
  shows "distinct (map pf_id rows)" "distinct (map pf_user rows)"
proof -
  show "distinct (map pf_id rows)" using assms[unfolded profiles_ok_def] by (rule conjunct1)
  show "distinct (map pf_user rows)" using assms[unfolded profiles_ok_def] by (elim conjE)
qed

lemma profiles_ok_snoc:
  assumes "profiles_ok R rows" "pf_id q \<notin> pf_id ` set rows" "pf_user q \<notin> pf_user ` set rows" "pf_handle q = None"
  shows "profiles_ok R (rows @ [q])"
proof (rule profiles_okI)
  fix p h assume "p \<in> set (rows @ [q])" "pf_handle p = Some h"
  then have p: "p \<in> set rows" "pf_handle p = Some h" using assms(4) by auto
  have "pf_id r = pf_id p" if r: "r \<in> set (rows @ [q])" "pf_handle r = Some h" for r
  proof -
    have "r \<in> set rows" using r assms(4) by auto
    then show ?thesis using profiles_handle(2)[OF assms(1) p] r(2) by blast
  qed
  then show "h \<notin> R \<and> (\<forall>r \<in> set (rows @ [q]). pf_handle r = Some h \<longrightarrow> pf_id r = pf_id p)"
    using profiles_handle(1)[OF assms(1) p] by blast
next
  show "distinct (map pf_id (rows @ [q]))" using assms(2) profiles_distinct(1)[OF assms(1)] by simp
next
  show "distinct (map pf_user (rows @ [q]))" using assms(3) profiles_distinct(2)[OF assms(1)] by simp
qed

lemma update_row_ok:
  assumes ok: "profiles_ok R rows"
    and keys: "\<And>p. pf_id (f p) = pf_id p" "\<And>p. pf_user (f p) = pf_user p"
    and free: "\<And>p h q. p \<in> set rows \<Longrightarrow> pf_id p = pk \<Longrightarrow> pf_handle (f p) = Some h \<Longrightarrow>
      h \<notin> R \<and> (q \<in> set rows \<longrightarrow> pf_handle q = Some h \<longrightarrow> pf_id q = pk)"
  shows "profiles_ok R (update_where (\<lambda>p. pf_id p = pk) f rows)"
proof -
  let ?g = "\<lambda>p. if pf_id p = pk then f p else p"
  have ids: "pf_id (?g p) = pf_id p" for p by (simp add: keys)
  have unreserved: "h \<notin> R" if "p \<in> set rows" "pf_handle (?g p) = Some h" for p h
    using that free[of p h] profiles_handle(1)[OF ok that(1), of h] by (cases "pf_id p = pk") auto
  have unique: "pf_id q = pf_id p"
    if p: "p \<in> set rows" "pf_handle (?g p) = Some h" and q: "q \<in> set rows" "pf_handle (?g q) = Some h" for p q h
  proof (cases "pf_id p = pk")
    case True
    then show ?thesis using p q free[of p h q] by (cases "pf_id q = pk") simp_all
  next
    case False
    then show ?thesis using p q free[of q h p] profiles_handle(2)[OF ok p(1) _ q(1), of h]
      by (cases "pf_id q = pk") simp_all
  qed
  have member: "\<exists>q \<in> set rows. p = ?g q" if "p \<in> set (update_where (\<lambda>p. pf_id p = pk) f rows)" for p
    using that unfolding in_update_where by blast
  have handles: "h \<notin> R \<and> (\<forall>q \<in> set (update_where (\<lambda>p. pf_id p = pk) f rows). pf_handle q = Some h \<longrightarrow> pf_id q = pf_id p)"
    if p: "p \<in> set (update_where (\<lambda>p. pf_id p = pk) f rows)" "pf_handle p = Some h" for p h
  proof -
    obtain p0 where p0: "p0 \<in> set rows" "p = ?g p0" using member[OF p(1)] by blast
    have "pf_id q = pf_id p" if q: "q \<in> set (update_where (\<lambda>p. pf_id p = pk) f rows)" "pf_handle q = Some h" for q
    proof -
      obtain q0 where q0: "q0 \<in> set rows" "q = ?g q0" using member[OF q(1)] by blast
      have "pf_id q0 = pf_id p0"
        using unique[OF p0(1) _ q0(1)] p(2) q(2) unfolding p0(2) q0(2) by blast
      then show ?thesis unfolding p0(2) q0(2) ids .
    qed
    moreover have "h \<notin> R" using unreserved[OF p0(1)] p(2) unfolding p0(2) by blast
    ultimately show ?thesis by blast
  qed
  have "map pf_id (update_where (\<lambda>p. pf_id p = pk) f rows) = map pf_id rows"
    "map pf_user (update_where (\<lambda>p. pf_id p = pk) f rows) = map pf_user rows"
    by (simp_all add: map_update_where_key keys)
  then show ?thesis using profiles_distinct[OF ok] by (intro profiles_okI handles) simp_all
qed

lemma write_handle_ok:
  assumes "profiles_ok R rows" "h \<notin> R" "write_handle pk h rows = Some rows'"
  shows "profiles_ok R rows'"
proof -
  have "rows' = update_where (\<lambda>p. pf_id p = pk) (\<lambda>p. p\<lparr>pf_handle := Some h\<rparr>) rows"
    and "\<forall>q \<in> set rows. pf_handle q = Some h \<longrightarrow> pf_id q = pk"
    using assms(3) by (auto simp: write_handle_def split: if_splits)
  then show ?thesis using update_row_ok[OF assms(1), of "\<lambda>p. p\<lparr>pf_handle := Some h\<rparr>" pk] assms(2) by auto
qed

lemma set_avatar_ok: "profiles_ok R rows \<Longrightarrow> profiles_ok R (set_avatar_path pk path rows)"
proof -
  assume ok: "profiles_ok R rows"
  have "h \<notin> R \<and> (\<forall>q \<in> set rows. pf_handle q = Some h \<longrightarrow> pf_id q = pk)"
    if "p \<in> set rows" "pf_id p = pk" "pf_handle (p\<lparr>pf_avatar := Some path\<rparr>) = Some h" for p :: profile and h
  proof -
    have "pf_handle p = Some h" using that(3) by simp
    then show ?thesis using ok that(1,2) unfolding profiles_ok_def by blast
  qed
  then show ?thesis unfolding set_avatar_path_def
    by (intro update_row_ok[OF ok]) (simp_all del: profile.update_convs)
qed

lemma own_profile_None: "own_profile env rows = None \<Longrightarrow> pe_user env \<notin> pf_user ` set rows"
  by (auto simp: own_profile_def get_by_user_id_def find_None_iff profile_visible_def)

lemma own_profile_Some: "own_profile env rows = Some p \<Longrightarrow> p \<in> set rows \<and> pf_user p = pe_user env"
  by (auto simp: own_profile_def get_by_user_id_def find_Some_iff)

lemma get_or_create_ok:
  assumes "get_or_create env rows = Some (rows', p)" "profiles_ok R rows"
  shows "profiles_ok R rows' \<and> p \<in> set rows' \<and> pf_user p = pe_user env"
proof (cases "own_profile env rows")
  case None
  define q where "q = \<lparr>pf_id = pe_fresh env, pf_user = pe_user env, pf_email = pe_email env, pf_handle = None, pf_avatar = None\<rparr>"
  have q: "p = q" "rows' = rows @ [q]" "pf_id q \<notin> pf_id ` set rows"
    using assms(1) None unfolding get_or_create_def Let_def q_def by (auto split: if_splits)
  have u: "pf_user q \<notin> pf_user ` set rows" "pf_handle q = None" "pf_user q = pe_user env"
    using own_profile_None[OF None] by (simp_all add: q_def)
  have "profiles_ok R (rows @ [q])" using profiles_ok_snoc[OF assms(2) q(3)] u by blast
  then show ?thesis using q(1,2) u(3) by simp
next
  case (Some q)
  then show ?thesis using assms own_profile_Some[OF Some] by (auto simp: get_or_create_def)
qed

interpretation profile_names: handle_namespace "org_registry cfg reader db" "Some ''profiles''" "Some pk" for cfg reader db pk
proof
  have "{h. registry_taken (org_registry cfg reader db) (Some ''profiles'') h (Some pk)}
      \<subseteq> {h. registry_taken (org_registry cfg reader db) None h None}"
    by (auto simp: registry_taken_def registry_defs split: if_splits)
  then show "finite {h. registry_taken (org_registry cfg reader db) (Some ''profiles'') h (Some pk)}"
    using org_handles.taken_finite finite_subset by blast
qed

lemma auto_handle_ok:
  assumes "auto_handle env p email rows = Some rows'" "profiles_ok (set (oc_reserved (pe_config env))) rows"
  shows "profiles_ok (set (oc_reserved (pe_config env))) rows'"
proof -
  let ?cfg = "with_handles env rows" and ?reader = "Some (pe_user env)"
  let ?T = "{h. registry_taken (org_registry ?cfg ?reader (pe_orgs env)) (Some ''profiles'') h (Some (pf_id p))}"
  have "?T \<subseteq> set (oc_reserved ?cfg @ map or_handle (od_orgs (pe_orgs env)) @ map fst (oc_profile_handles ?cfg))"
    by (force simp: registry_taken_def registry_defs split: if_splits)
  then have "card ?T \<le> namespace_size ?cfg (pe_orgs env)"
    unfolding namespace_size_def by (meson card_length card_mono finite_set order_trans)
  then have "card ?T < Suc (namespace_size ?cfg (pe_orgs env))" by simp
  from profile_names.first_free[OF this, of "handle_seed email"] obtain m where
    m: "unique_handle (Suc (namespace_size ?cfg (pe_orgs env))) (profile_registry env rows) (Some ''profiles'')
        (Some (pf_id p)) (handle_seed email) = Some (handle_candidate (handle_seed email) m)"
    "handle_is_available (profile_registry env rows) (Some ''profiles'') (Some (pf_id p)) (handle_candidate (handle_seed email) m)"
    unfolding profile_registry_def by blast
  have "handle_candidate (handle_seed email) m \<notin> set (oc_reserved (pe_config env))"
    using available_unreserved m(2) unfolding profile_registry_def with_handles_def by fastforce
  then show ?thesis using assms m(1) write_handle_ok by (auto simp: auto_handle_def)
qed

text \<open>Every way a route changes the rows keeps them well formed.\<close>

definition keeps_profiles :: "'s profile_env \<Rightarrow> profile list \<Rightarrow> profile list \<Rightarrow> bool" where
  "keeps_profiles env rows rows' \<longleftrightarrow> (profiles_ok (set (oc_reserved (pe_config env))) rows \<longrightarrow>
     profiles_ok (set (oc_reserved (pe_config env))) rows')"

lemma keeps_refl [simp]: "keeps_profiles env rows rows"
  by (simp add: keeps_profiles_def)

lemma keeps_trans: "keeps_profiles env a b \<Longrightarrow> keeps_profiles env b c \<Longrightarrow> keeps_profiles env a c"
  by (simp add: keeps_profiles_def)

lemma with_auto_keeps: "get_with_auto_handle env rows = Some (rows', p) \<Longrightarrow> keeps_profiles env rows rows'"
  using auto_handle_ok[of env _ "pe_email env" rows]
  by (auto simp: get_with_auto_handle_def keeps_profiles_def split: option.splits if_splits)

lemma context_keeps: "profile_context env f k rows = Some (rows', page) \<Longrightarrow> keeps_profiles env rows rows'"
  using with_auto_keeps[of env rows] by (auto simp: profile_context_def Let_def split: option.splits if_splits)

lemma draw_keeps: "keeps_profiles env (pw_profiles w) (pw_profiles (fst (draw_page env look status note w)))"
  using context_keeps by (auto simp: draw_page_def split: prod.splits option.splits)

lemma error_keeps: "keeps_profiles env (pw_profiles w) (pw_profiles (fst (profile_error env look key m status w)))"
  using draw_keeps[of env w look status "Some (key, m)"] by (auto simp: profile_error_def split: prod.splits)

lemma rolled_back_keeps:
  "keeps_profiles env (pw_profiles w) (pw_profiles (fst r)) \<Longrightarrow> keeps_profiles env (pw_profiles w) (pw_profiles (fst (rolled_back w r)))"
  by (auto simp: rolled_back_def split: prod.splits)

lemma page_keeps: "keeps_profiles env (pw_profiles w) (pw_profiles (fst (profile_page env look flash w)))"
proof (cases "pe_json env")
  case True
  then show ?thesis using with_auto_keeps[of env "pw_profiles w"]
    by (auto simp: profile_page_def crashed_def split: option.splits)
next
  case False
  then show ?thesis using draw_keeps[of env w look 200] by (simp add: profile_page_def case_prod_beta)
qed

lemma sensitive_keeps:
  "keeps_profiles env (pw_profiles w) (pw_profiles (fst (sensitive_change env look key failed what message flash ceremony w)))"
proof -
  obtain s c where sc: "ceremony (pw_server w) = (s, c)" by force
  show ?thesis using error_keeps[of env "w\<lparr>pw_server := s\<rparr>" look key _ 400]
    by (auto simp: sensitive_change_def sc Let_def crashed_def split: option.splits)
qed

lemma server_error_keeps:
  "keeps_profiles env (pw_profiles w) (pw_profiles (fst (profile_error env look key m status (w\<lparr>pw_server := s\<rparr>))))"
  using error_keeps[of env "w\<lparr>pw_server := s\<rparr>" look key m status] by simp

lemma avatar_keeps: "keeps_profiles env (pw_profiles w) (pw_profiles (fst (avatar_upload env look media content w)))"
proof (cases "get_or_create env (pw_profiles w)")
  case None
  then show ?thesis using error_keeps[of env w look "''avatar_error''" _ 400]
    by (auto simp: avatar_upload_def crashed_def Let_def split: option.splits sum.splits)
next
  case (Some rp)
  obtain rows p where rp: "rp = (rows, p)" by force
  have "keeps_profiles env (pw_profiles w) (set_avatar_path (pf_id p) path rows)" for path
    using get_or_create_ok Some rp set_avatar_ok unfolding keeps_profiles_def by blast
  then show ?thesis using Some rp error_keeps[of env w look "''avatar_error''" _ 400]
    by (auto simp: avatar_upload_def crashed_def Let_def split: option.splits sum.splits)
qed

lemma update_keeps: "keeps_profiles env (pw_profiles w) (pw_profiles (fst (profile_update env look body w)))"
proof (cases "get_or_create env (pw_profiles w)")
  case None
  then show ?thesis by (auto simp: profile_update_def crashed_def)
next
  case (Some rp)
  obtain rows p where rp: "rp = (rows, p)" by force
  define handle where "handle = lower (strip body)"
  define w1 where "w1 = w\<lparr>pw_profiles := rows\<rparr>"
  have rows: "keeps_profiles env (pw_profiles w) rows"
    using get_or_create_ok Some rp unfolding keeps_profiles_def by blast
  have refused: "keeps_profiles env (pw_profiles w) (pw_profiles (fst (rolled_back w (profile_error env look ''error'' m status w1))))" for m status
    using keeps_trans[OF rows] error_keeps[of env w1 look "''error''" m status]
    by (intro rolled_back_keeps) (simp add: w1_def)
  have unres: "handle \<notin> set (oc_reserved (pe_config env))" if "validate_handle (profile_registry env rows) handle = None"
    using that by (auto simp: validate_handle_def is_reserved_def profile_registry_def with_handles_def org_registry_def
        register_open_list_def split: if_splits)
  have written: "keeps_profiles env (pw_profiles w) rows'"
    if "write_handle (pf_id p) handle rows = Some rows'" "validate_handle (profile_registry env rows) handle = None" for rows'
    using keeps_trans[OF rows] write_handle_ok that unres unfolding keeps_profiles_def by blast
  have drawn: "keeps_profiles env (pw_profiles w) (pw_profiles (fst (case draw_page env look 200 shown (w\<lparr>pw_profiles := rows'\<rparr>) of
      (w3, reply) \<Rightarrow> rolled_back w (w3, facts, reply))))"
    if "keeps_profiles env (pw_profiles w) rows'" for rows' shown facts
    using rolled_back_keeps[of env w] keeps_trans[OF that] draw_keeps[of env "w\<lparr>pw_profiles := rows'\<rparr>" look 200 shown]
    by (auto split: prod.splits)
  show ?thesis
    using refused written drawn unfolding profile_update_def Some rp option.case prod.case Let_def handle_def w1_def
    by (auto simp: crashed_def split: option.splits if_splits)
qed

section \<open>Histories\<close>

datatype profile_request =
    ShowProfile "string option"
  | ChangePassword string string
  | ChangeEmail string string
  | PasskeyOptions
  | PasskeyVerify string json
  | PasskeyDelete uuid
  | TwofaEnroll
  | TwofaVerify string string
  | UploadAvatar string string
  | ShowAvatar uuid
  | UpdateHandle string
  | AccountGone uuid

fun profile_act :: "(totp_enrollment \<Rightarrow> string) \<Rightarrow> 's page_lookups \<Rightarrow> 's profile_env \<Rightarrow> profile_request \<Rightarrow> 's profile_world \<Rightarrow> 's profile_result" where
  "profile_act encode look env (ShowProfile flash) w = profile_page env look flash w" |
  "profile_act encode look env (ChangePassword current new_password) w = password_change env look current new_password w" |
  "profile_act encode look env (ChangeEmail new_email current) w = email_change env look new_email current w" |
  "profile_act encode look env PasskeyOptions w = passkey_options env w" |
  "profile_act encode look env (PasskeyVerify challenge credential) w = passkey_verify env challenge credential w" |
  "profile_act encode look env (PasskeyDelete i) w = passkey_delete env look i w" |
  "profile_act encode look env TwofaEnroll w = twofa_enroll encode env look w" |
  "profile_act encode look env (TwofaVerify factor code) w = twofa_verify env look factor code w" |
  "profile_act encode look env (UploadAvatar media content) w = avatar_upload env look media content w" |
  "profile_act encode look env (ShowAvatar user) w = avatar_image env user w" |
  "profile_act encode look env (UpdateHandle handle) w = profile_update env look handle w" |
  "profile_act encode look env (AccountGone user) w = (forget_profile user w, [], PMessage [])"

definition profile_run :: "(totp_enrollment \<Rightarrow> string) \<Rightarrow> 's page_lookups \<Rightarrow> ('s profile_env \<times> profile_request) list \<Rightarrow> 's profile_world \<Rightarrow> 's profile_world" where
  "profile_run encode look steps w = fold (\<lambda>(env, rq) w. fst (profile_act encode look env rq w)) steps w"

lemma forget_keeps: "keeps_profiles env rows (delete_where (\<lambda>p. pf_user p = user) rows)"
  unfolding keeps_profiles_def profiles_ok_def by (auto simp: in_delete_where distinct_map_delete_where)

lemma profile_act_keeps: "keeps_profiles env (pw_profiles w) (pw_profiles (fst (profile_act encode look env rq w)))"
proof (cases rq)
  case PasskeyOptions
  then show ?thesis by (auto simp: passkey_options_def crashed_def split: option.splits prod.splits sum.splits client_error.splits)
next
  case (PasskeyVerify challenge credential)
  then show ?thesis by (auto simp: passkey_verify_def crashed_def split: option.splits prod.splits sum.splits client_error.splits)
next
  case (PasskeyDelete i)
  then show ?thesis
    by (auto simp: passkey_delete_def crashed_def server_error_keeps split: option.splits prod.splits sum.splits client_error.splits)
next
  case TwofaEnroll
  then show ?thesis
    by (auto simp: twofa_enroll_def crashed_def server_error_keeps split: option.splits prod.splits sum.splits client_error.splits)
next
  case (TwofaVerify factor code)
  then show ?thesis
    by (auto simp: twofa_verify_def crashed_def server_error_keeps split: option.splits prod.splits sum.splits client_error.splits)
next
  case (ShowAvatar user)
  then show ?thesis by (auto simp: avatar_image_def crashed_def split: option.splits prod.splits sum.splits)
qed (simp_all add: page_keeps password_change_def email_change_def error_keeps sensitive_keeps avatar_keeps update_keeps
    forget_profile_def forget_keeps Let_def)

text \<open>
  C32.  The unique column: under any history of requests, whoever makes them, no two profiles hold one
  handle and none holds a reserved word, and an account has at most one profile; a request that writes
  a taken handle fails instead.
\<close>

theorem profile_handles_stay_unique:
  assumes "profiles_ok R (pw_profiles w)"
    and "\<forall>(env, rq) \<in> set steps. set (oc_reserved (pe_config env)) = R"
  shows "profiles_ok R (pw_profiles (profile_run encode look steps w))"
  using assms
proof (induction steps arbitrary: w)
  case (Cons step steps)
  obtain env rq where step: "step = (env, rq)" by force
  have "set (oc_reserved (pe_config env)) = R" using Cons.prems(2) step by simp
  then have "profiles_ok R (pw_profiles (fst (profile_act encode look env rq w)))"
    using profile_act_keeps[of env w encode look rq] Cons.prems(1) unfolding keeps_profiles_def by blast
  then show ?case using Cons.IH[of "fst (profile_act encode look env rq w)"] Cons.prems(2) step
    by (simp add: profile_run_def)
qed (simp add: profile_run_def)

definition sample_profile_env :: "uuid \<Rightarrow> string \<Rightarrow> nat profile_env" where
  "sample_profile_env user email = \<lparr>pe_user = user, pe_email = email, pe_token = ''t'', pe_cookie_token = [],
     pe_json = True, pe_settings = \<lparr>ps_email_change = True, ps_account_deletion = True, ps_avatar = True, ps_handle = True\<rparr>,
     pe_users = \<lparr>us_session_ttl = 0, us_two_factor = False, us_passkeys = False, us_resend_confirmation = True,
       us_user_management = True, us_oauth_google = False, us_oauth_github = False\<rparr>,
     pe_config = \<lparr>oc_reserved = [''static''], oc_profile_handles = [], oc_timezones = [], oc_max_owned = 0,
       oc_max_invitations = 0, oc_auto_personal = True\<rparr>,
     pe_orgs = \<lparr>od_orgs = [], od_members = [], od_invitations = [], od_users = []\<rparr>,
     pe_server = (\<lambda>call s. (s + 1, Some \<lparr>ha_status = 200, ha_body = None, ha_empty = True\<rparr>)),
     pe_sign_in = (\<lambda>e p s. (s, if p = ''old'' then SignInSession \<lparr>at_access = ''a'', at_refresh = ''r''\<rparr> else SignInApiError 400)),
     pe_publishable = ''k'', pe_trouble = (\<lambda>call p. None), pe_fresh = user + 100\<rparr>"

definition sample_profile_world :: "nat profile_world" where
  "sample_profile_world = \<lparr>pw_profiles = [], pw_server = 0, pw_objects = []\<rparr>"

text \<open>Two accounts that do not see each other ask for one handle.\<close>

lemma profile_handles_stay_unique_witness:
  "profiles_ok {''static''} (pw_profiles (profile_run te_uri (\<lambda>s. (Inr None, Inr JNull))
     [(sample_profile_env 1 ''a@x'', UpdateHandle ''Ann''), (sample_profile_env 2 ''b@x'', UpdateHandle ''ann'')]
     sample_profile_world))"
  by (rule profile_handles_stay_unique) (simp_all add: profiles_ok_def sample_profile_world_def sample_profile_env_def)

section \<open>The avatar\<close>

lemma uuid_str_no_dot: "CHR ''.'' \<notin> set (uuid_str u)"
proof -
  have "c \<in> set (uuid_str u) \<Longrightarrow> c = CHR ''-'' \<or> c \<in> set (hex_digits 32 u)" for c
    unfolding uuid_str_def Let_def by (auto dest: in_set_takeD in_set_dropD)
  then show ?thesis using hex_digits_plain[of "CHR ''.''" 32 u] by blast
qed

lemma last_segment_avatar: "CHR ''.'' \<notin> set ext \<Longrightarrow> last_segment (avatar_path user ext) = ext"
proof -
  assume ext: "CHR ''.'' \<notin> set ext"
  have "avatar_path user ext = (''avatars/'' @ uuid_str user) @ CHR ''.'' # ext" by (simp add: avatar_path_def)
  moreover have "CHR ''.'' \<notin> set (''avatars/'' @ uuid_str user)" using uuid_str_no_dot by simp
  ultimately show ?thesis unfolding last_segment_def by (simp add: split_on_append_sep split_on_no_sep[OF ext])
qed

lemma avatar_media_inverse:
  assumes "map_of avatar_ext media = Some ext"
  shows "dict_get avatar_media ext d = media" "CHR ''.'' \<notin> set ext"
  using assms by (auto simp: avatar_ext_def avatar_media_def dict_get_def split: if_splits)

lemma find_by_user:
  assumes "profiles_ok R rows" "p \<in> set rows" "P p" "\<And>q. P q \<Longrightarrow> pf_user q = pf_user p"
  shows "List.find P rows = Some p"
proof -
  obtain q where q: "List.find P rows = Some q" "q \<in> set rows" "P q"
    using assms(2,3) by (cases "List.find P rows") (auto simp: find_None_iff find_Some_iff)
  then show ?thesis using profiles_same_user[OF assms(1) q(2) assms(2) assms(4)] by simp
qed

text \<open>What an accepted upload leaves: the row points at the object, every other object is as it was.\<close>

lemma upload_refused_no_facts: "fst (snd (profile_error env look key m status w)) = []"
  by (simp add: profile_error_def split: prod.splits)

lemma avatar_upload_accepted:
  assumes "avatar_upload env look media content w = (w', facts, reply)" "facts \<noteq> []"
  obtains ext rows p where "map_of avatar_ext media = Some ext"
    "get_or_create env (pw_profiles w) = Some (rows, p)"
    "pw_profiles w' = set_avatar_path (pf_id p) (avatar_path (pe_user env) ext) rows"
    "pw_objects w' = bucket_put (avatar_path (pe_user env) ext) (media, content) (pw_objects w)"
proof -
  have facts: "fst (snd (avatar_upload env look media content w)) \<noteq> []" using assms by simp
  obtain ext where ext: "map_of avatar_ext media = Some ext"
    using facts by (cases "map_of avatar_ext media")
      (simp_all add: avatar_upload_def upload_refused_no_facts split: if_splits)
  let ?up = "storage_upload (pe_trouble env) True (avatar_path (pe_user env) ext) (media, content) (pw_objects w)"
  have size: "content \<noteq> []" "\<not> avatar_max_bytes < length content" "ps_avatar (pe_settings env)"
    using facts by (simp_all add: avatar_upload_def ext upload_refused_no_facts split: if_splits)
  obtain objs where objs: "?up = Inr objs"
    using facts by (cases ?up) (simp_all add: avatar_upload_def ext size crashed_def Let_def)
  obtain rows p where rows: "get_or_create env (pw_profiles w) = Some (rows, p)"
    using facts by (cases "get_or_create env (pw_profiles w)") (auto simp: avatar_upload_def ext size objs crashed_def Let_def)
  have "objs = bucket_put (avatar_path (pe_user env) ext) (media, content) (pw_objects w)"
    using objs by (simp add: storage_upload_def storage_call_def split: option.splits)
  moreover have "w' = w\<lparr>pw_objects := objs, pw_profiles := set_avatar_path (pf_id p) (avatar_path (pe_user env) ext) rows\<rparr>"
    using assms(1) by (simp add: avatar_upload_def ext size objs rows Let_def)
  ultimately show ?thesis using that[OF ext rows] by simp
qed

text \<open>
  C33.  An avatar the upload accepts is the one every account that sees the profile is served, with its
  media type, and nobody else is; the objects at other paths stay, an avatar of another format among
  them.
\<close>

theorem avatar_roundtrip:
  assumes "profiles_ok R (pw_profiles w)"
    and "avatar_upload env look media content w = (w', facts, reply)" "facts \<noteq> []"
    and "ps_avatar (pe_settings reader)" "\<forall>p. pe_trouble reader ''download'' p = None"
  shows "avatar_image reader (pe_user env) w' = (w', [],
      if profile_visible (Some (pe_user reader)) (pe_orgs reader) (pe_user env) then PImage media content else profile_not_found)
    \<and> (\<forall>q. q \<noteq> avatar_path (pe_user env) (dict_get avatar_ext media []) \<longrightarrow>
        bucket_get q (pw_objects w') = bucket_get q (pw_objects w))"
proof -
  obtain ext rows p where up: "map_of avatar_ext media = Some ext"
    "get_or_create env (pw_profiles w) = Some (rows, p)"
    "pw_profiles w' = set_avatar_path (pf_id p) (avatar_path (pe_user env) ext) rows"
    "pw_objects w' = bucket_put (avatar_path (pe_user env) ext) (media, content) (pw_objects w)"
    using avatar_upload_accepted[OF assms(2,3)] .
  let ?path = "avatar_path (pe_user env) ext"
  have made: "profiles_ok R rows" "p \<in> set rows" "pf_user p = pe_user env"
    using get_or_create_ok[OF up(2) assms(1)] by blast+
  define p' where "p' = p\<lparr>pf_avatar := Some ?path\<rparr>"
  have p': "p' \<in> set (pw_profiles w')" "pf_user p' = pe_user env" "pf_avatar p' = Some ?path"
    using made(2,3) unfolding up(3) set_avatar_path_def p'_def in_update_where by (auto intro!: bexI[of _ p])
  have ok: "profiles_ok R (pw_profiles w')" unfolding up(3) by (rule set_avatar_ok[OF made(1)])
  let ?seen = "profile_visible (Some (pe_user reader)) (pe_orgs reader) (pe_user env)"
  have row: "get_by_user_id (Some (pe_user reader)) (pe_orgs reader) (pe_user env) (pw_profiles w') = (if ?seen then Some p' else None)"
  proof (cases ?seen)
    case True
    then show ?thesis unfolding get_by_user_id_def using find_by_user[OF ok p'(1)] p'(2) by simp
  qed (simp add: get_by_user_id_def find_None_iff)
  have path: "?path \<noteq> []" by (simp add: avatar_path_def)
  have object: "storage_download (pe_trouble reader) ?path (pw_objects w') = Inr (media, content)"
    using assms(5) by (simp add: storage_download_def storage_call_def up(4) bucket_get_put)
  have media: "dict_get avatar_media (last_segment ?path) ''image/png'' = media"
    using avatar_media_inverse[OF up(1)] last_segment_avatar by simp
  have "avatar_image reader (pe_user env) w' = (w', [], if ?seen then PImage media content else profile_not_found)"
    unfolding avatar_image_def row using assms(4) p'(3) path object media by simp
  moreover have "bucket_get q (pw_objects w') = bucket_get q (pw_objects w)"
    if "q \<noteq> avatar_path (pe_user env) (dict_get avatar_ext media [])" for q
    using that up(1) unfolding up(4) bucket_get_put by (simp add: dict_get_def)
  ultimately show ?thesis by blast
qed

lemma avatar_roundtrip_witness:
  "avatar_image (sample_profile_env 1 ''a@x'') 1 (fst (avatar_upload (sample_profile_env 1 ''a@x'') (\<lambda>s. (Inr None, Inr JNull))
      ''image/webp'' ''bytes'' sample_profile_world))
    = (fst (avatar_upload (sample_profile_env 1 ''a@x'') (\<lambda>s. (Inr None, Inr JNull)) ''image/webp'' ''bytes'' sample_profile_world),
       [], PImage ''image/webp'' ''bytes'')"
proof -
  let ?env = "sample_profile_env 1 ''a@x''" and ?look = "\<lambda>s. (Inr None, Inr JNull)"
  have up: "avatar_upload ?env ?look ''image/webp'' ''bytes'' sample_profile_world
      = (fst (avatar_upload ?env ?look ''image/webp'' ''bytes'' sample_profile_world), [AvatarUpdated 1], PMessage ''Avatar updated.'')"
    by (simp add: avatar_upload_def sample_profile_env_def sample_profile_world_def avatar_ext_def avatar_max_bytes_def
        storage_upload_def storage_call_def get_or_create_def own_profile_def get_by_user_id_def Let_def)
  show ?thesis
    using avatar_roundtrip[of "{}", OF _ up, of ?env]
    by (simp add: profiles_ok_def sample_profile_world_def sample_profile_env_def profile_visible_def)
qed

section \<open>The current password\<close>

lemma draw_server [simp]: "pw_server (fst (draw_page env look status shown w)) = pw_server w"
  by (simp add: draw_page_def split: prod.splits option.splits)

lemma error_server [simp]: "pw_server (fst (profile_error env look key m status w)) = pw_server w"
  using draw_server[of env look status "Some (key, m)" w]
  by (cases "draw_page env look status (Some (key, m)) w") (simp add: profile_error_def)

lemma sensitive_facts:
  "fst (snd (sensitive_change env look key failed what message flash ceremony w))
    = (if snd (ceremony (pw_server w)) = CeremonyDone () then [what] else [])"
  "pw_server (fst (sensitive_change env look key failed what message flash ceremony w)) = fst (ceremony (pw_server w))"
  by (auto simp: sensitive_change_def ceremony_error_def crashed_def upload_refused_no_facts Let_def
      split: prod.splits option.splits ceremony.splits)

lemma after_update_user:
  assumes "sign_in email current s = (s1, answer)"
  shows "snd (after_password sign_in email current (update_user server k token body fallback) s) = CeremonyDone () \<longleftrightarrow>
      (\<exists>t. answer = SignInSession t) \<and> (\<exists>res. snd (server \<lparr>gc_method = ''PUT'', gc_path = ''/auth/v1/user'',
        gc_headers = auth_headers k token, gc_json = Some body\<rparr> s1) = Some res \<and> ha_status res < 400)"
    and "fst (after_password sign_in email current (update_user server k token body fallback) s) =
      (if \<exists>t. answer = SignInSession t then fst (server \<lparr>gc_method = ''PUT'', gc_path = ''/auth/v1/user'',
        gc_headers = auth_headers k token, gc_json = Some body\<rparr> s1) else s1)"
  using assms by (auto simp: after_password_def verify_password_def update_user_def and_then_def send_def reading_def bind_err_def
      split: prod.splits option.splits sign_in_answer.splits sum.splits client_error.splits)

text \<open>The call that changes the account, and what the routes ask GoTrue to set.\<close>

definition account_call :: "'s profile_env \<Rightarrow> json \<Rightarrow> gotrue_call" where
  "account_call env body = \<lparr>gc_method = ''PUT'', gc_path = ''/auth/v1/user'',
     gc_headers = auth_headers (pe_publishable env) (pe_cookie_token env), gc_json = Some body\<rparr>"

text \<open>
  C34.  On the profile page a password or an address changes only after the current password opened a
  session.  A form with a blank current password, or with nothing to change to, reaches the server in
  no way; without a session the server has seen nothing but the attempt to sign in; with one it sees
  that attempt and the one change, and the change is recorded exactly when the server took it.  (The
  reset by a recovery link is a route of its own, which no password guards.)
\<close>

theorem account_changes_need_the_password:
  assumes "pe_sign_in env (pe_email env) current (pw_server w) = (s1, answer)"
  shows "(let after = password_change env look current new_password w;
            put = pe_server env (account_call env (JObj [(''password'', JStr new_password)])) s1;
            opened = (\<exists>t. answer = SignInSession t);
            asked = (current \<noteq> [] \<and> new_password \<noteq> []) in
     pw_server (fst after) = (if \<not> asked then pw_server w else if opened then fst put else s1)
     \<and> fst (snd after) = (if asked \<and> opened \<and> (\<exists>res. snd put = Some res \<and> ha_status res < 400)
         then [PasswordChanged (pe_user env)] else []))
   \<and> (let after = email_change env look new_email current w;
            put = pe_server env (account_call env (JObj [(''email'', JStr (lower (strip new_email)))])) s1;
            opened = (\<exists>t. answer = SignInSession t);
            asked = (ps_email_change (pe_settings env) \<and> lower (strip new_email) \<noteq> [] \<and> current \<noteq> []) in
     pw_server (fst after) = (if \<not> asked then pw_server w else if opened then fst put else s1)
     \<and> fst (snd after) = (if asked \<and> opened \<and> (\<exists>res. snd put = Some res \<and> ha_status res < 400)
         then [EmailChangeRequested (pe_user env) (lower (strip new_email))] else []))"
proof (rule conjI, goal_cases)
  case 1
  show ?case
    by (cases "current = [] \<or> new_password = []")
      (auto simp: Let_def password_change_def sensitive_facts change_password_def update_password_def
        after_update_user[where sign_in = "pe_sign_in env", OF assms] account_call_def upload_refused_no_facts)
next
  case 2
  show ?case
    by (cases "lower (strip new_email) = [] \<or> current = []")
      (auto simp: Let_def email_change_def sensitive_facts change_email_def request_email_change_def
        after_update_user[where sign_in = "pe_sign_in env", OF assms] account_call_def upload_refused_no_facts)
qed

lemma account_changes_need_the_password_witness:
  "fst (snd (password_change (sample_profile_env 1 ''a@x'') (\<lambda>s. (Inr None, Inr JNull)) ''guess'' ''new'' sample_profile_world)) = []
   \<and> fst (snd (password_change (sample_profile_env 1 ''a@x'') (\<lambda>s. (Inr None, Inr JNull)) ''old'' ''new'' sample_profile_world))
     = [PasswordChanged 1]"
  using account_changes_need_the_password[of "sample_profile_env 1 ''a@x''" "''guess''" sample_profile_world 0 "SignInApiError 400"
      "\<lambda>s. (Inr None, Inr JNull)" "''new''" "[]"]
    account_changes_need_the_password[of "sample_profile_env 1 ''a@x''" "''old''" sample_profile_world 0
      "SignInSession \<lparr>at_access = ''a'', at_refresh = ''r''\<rparr>" "\<lambda>s. (Inr None, Inr JNull)" "''new''" "[]"]
  by (simp add: sample_profile_env_def sample_profile_world_def Let_def)

end
