(* ===== verification/Issues.thy ===== *)
theory Issues
  imports Py_Datetime
begin

text \<open>
  \<open>apps/issues\<close>: the issues tracker.  A captured exception is folded into the issue of its stack
  fingerprint, which has a lifecycle; the console lists, pages and triages.  An exception is what
  \<open>traceback\<close> reads off it: its type, its frames as file and function, its message and its printed form.
  The hash is a parameter.  A transaction that fails is \<open>None\<close>.
\<close>

section \<open>Rows\<close>

datatype issue_status = StNew | StUnresolved | StResolved | StIgnored | StRegressed

definition status_value :: "issue_status \<Rightarrow> string" where
  "status_value s = (case s of StNew \<Rightarrow> ''new'' | StUnresolved \<Rightarrow> ''unresolved'' | StResolved \<Rightarrow> ''resolved''
     | StIgnored \<Rightarrow> ''ignored'' | StRegressed \<Rightarrow> ''regressed'')"

definition issue_statuses :: "issue_status list" where
  "issue_statuses = [StNew, StUnresolved, StResolved, StIgnored, StRegressed]"

record issue =
  iss_id :: uuid
  iss_fingerprint :: string
  iss_title :: string
  iss_status :: issue_status
  iss_count :: nat
  iss_first_seen :: instant
  iss_last_seen :: instant
  iss_first_release :: string
  iss_last_release :: string
  iss_resolved_in :: "string option"

record occurrence =
  ocr_id :: uuid
  ocr_issue :: uuid
  ocr_created_at :: instant
  ocr_context :: payload

record issue_db =
  idb_issues :: "issue list"
  idb_occurrences :: "occurrence list"

datatype issue_fact =
    IssueOpened uuid string
  | IssueRegressed uuid string "string option" string
  | IssueStatusChanged uuid uuid string string

section \<open>Fingerprints\<close>

record raised =
  rs_type :: string
  rs_frames :: "(string \<times> string) list"
  rs_message :: string
  rs_printed :: string

definition in_app_marker :: string where "in_app_marker = ''/apps/''"
definition top_frames :: nat where "top_frames = 5"
definition title_max :: nat where "title_max = 200"
definition stack_max :: nat where "stack_max = 8000"

definition last_n :: "nat \<Rightarrow> 'a list \<Rightarrow> 'a list" where
  "last_n n xs = drop (length xs - n) xs"

text \<open>What follows the last \<open>m\<close> in a text.\<close>

fun after_last :: "string \<Rightarrow> string \<Rightarrow> string option" where
  "after_last m [] = None" |
  "after_last m (c # s) = (case after_last m s of Some r \<Rightarrow> Some r
     | None \<Rightarrow> if startswith (c # s) m then Some (drop (length m) (c # s)) else None)"

definition normalize_path :: "string \<Rightarrow> string" where
  "normalize_path filename = (case after_last in_app_marker filename of
       Some rest \<Rightarrow> ''apps/'' @ rest
     | None \<Rightarrow> last (split_on CHR ''/'' filename))"

definition in_app_frames :: "raised \<Rightarrow> string list" where
  "in_app_frames exc =
     (let ours = filter (\<lambda>f. contains (fst f) in_app_marker) (rs_frames exc);
          picked = (if ours = [] then rs_frames exc else ours) in
      map (\<lambda>f. normalize_path (fst f) @ '':'' @ snd f) (last_n top_frames picked))"

definition issue_fingerprint :: "(string \<Rightarrow> string) \<Rightarrow> raised \<Rightarrow> string option \<Rightarrow> string" where
  "issue_fingerprint sha256 exc override = sha256 (case override of
       Some key \<Rightarrow> if key \<noteq> [] then key else join_with ''|'' (rs_type exc # in_app_frames exc)
     | None \<Rightarrow> join_with ''|'' (rs_type exc # in_app_frames exc))"

definition title_for :: "raised \<Rightarrow> string" where
  "title_for exc = take title_max (rs_type exc @ '': '' @ rs_message exc)"

definition formatted_stack :: "raised \<Rightarrow> string" where
  "formatted_stack exc = last_n stack_max (rs_printed exc)"

definition status_after_occurrence :: "issue_status \<Rightarrow> string option \<Rightarrow> string \<Rightarrow> issue_status" where
  "status_after_occurrence current resolved_in seen_version =
     (if current = StResolved \<and> seen_version \<noteq> (case resolved_in of Some r \<Rightarrow> r | None \<Rightarrow> [])
      then StRegressed else current)"

section \<open>The tracker\<close>

record seen_occurrence =
  so_issue :: issue
  so_opened :: bool
  so_regressed :: bool

definition see_occurrence :: "instant \<Rightarrow> uuid \<times> uuid \<Rightarrow> string \<Rightarrow> string \<Rightarrow> string \<Rightarrow> payload \<Rightarrow> issue_db
    \<Rightarrow> (issue_db \<times> seen_occurrence) option" where
  "see_occurrence now fresh fp title version context db =
     (let found = row_by iss_fingerprint fp (idb_issues db);
          start = (case found of
              None \<Rightarrow> \<lparr>iss_id = fst fresh, iss_fingerprint = fp, iss_title = title, iss_status = StNew, iss_count = 0,
                iss_first_seen = now, iss_last_seen = now, iss_first_release = version, iss_last_release = version,
                iss_resolved_in = None\<rparr>
            | Some i \<Rightarrow> i\<lparr>iss_status := status_after_occurrence (iss_status i) (iss_resolved_in i) version\<rparr>);
          i = start\<lparr>iss_count := iss_count start + 1, iss_last_seen := now, iss_last_release := version\<rparr>;
          o' = \<lparr>ocr_id = snd fresh, ocr_issue = iss_id i, ocr_created_at = now, ocr_context = context\<rparr> in
      if found = None \<and> fst fresh \<in> iss_id ` set (idb_issues db) \<or> snd fresh \<in> ocr_id ` set (idb_occurrences db)
      then None
      else Some (\<lparr>idb_issues = (if found = None then idb_issues db @ [i]
                    else update_where (\<lambda>r. iss_fingerprint r = fp) (\<lambda>_. i) (idb_issues db)),
                  idb_occurrences = idb_occurrences db @ [o']\<rparr>,
        \<lparr>so_issue = i, so_opened = (found = None),
         so_regressed = (case found of None \<Rightarrow> False
           | Some old \<Rightarrow> iss_status i = StRegressed \<and> iss_status old \<noteq> iss_status i)\<rparr>))"

text \<open>What the facts are bound to: the request of the failure, never its actor.\<close>

definition originating_request :: "(json \<Rightarrow> string) \<Rightarrow> payload \<Rightarrow> (string, string) dict" where
  "originating_request str context = List.map_filter (\<lambda>k. case map_of context k of
       None \<Rightarrow> None | Some JNull \<Rightarrow> None | Some v \<Rightarrow> Some (k, str v)) [''request_id'', ''request_name'']"

record tracker_env =
  te_sha256 :: "string \<Rightarrow> string"
  te_version :: string
  te_now :: instant
  te_fresh :: "uuid \<times> uuid"

definition track :: "tracker_env \<Rightarrow> raised \<Rightarrow> payload \<Rightarrow> issue_db \<Rightarrow> (issue_db \<times> issue_fact list) option" where
  "track env exc context db =
     (case see_occurrence (te_now env) (te_fresh env) (issue_fingerprint (te_sha256 env) exc None) (title_for exc)
         (te_version env) (AList.update ''stack'' (JStr (formatted_stack exc)) context) db of
        None \<Rightarrow> None
      | Some (db', seen) \<Rightarrow>
          (let i = so_issue seen in
           Some (db', (if so_opened seen then [IssueOpened (iss_id i) (iss_title i)] else [])
             @ (if so_regressed seen then [IssueRegressed (iss_id i) (iss_title i) (iss_resolved_in i) (te_version env)] else []))))"

section \<open>The repository\<close>

definition open_statuses :: "issue_status list" where
  "open_statuses = [StNew, StUnresolved, StRegressed]"

definition list_issues :: "issue_status option \<Rightarrow> nat \<Rightarrow> issue_db \<Rightarrow> issue list" where
  "list_issues status limit db = take limit (sort_key (\<lambda>i. - iss_last_seen i)
     (filter (\<lambda>i. case status of None \<Rightarrow> True | Some s \<Rightarrow> iss_status i = s) (idb_issues db)))"

definition get_issue :: "uuid \<Rightarrow> issue_db \<Rightarrow> issue option" where
  "get_issue i db = row_by iss_id i (idb_issues db)"

definition set_status :: "uuid \<Rightarrow> issue_status \<Rightarrow> string \<Rightarrow> issue_db \<Rightarrow> issue_db" where
  "set_status i status version db = db\<lparr>idb_issues := update_where (\<lambda>r. iss_id r = i)
     (\<lambda>r. r\<lparr>iss_status := status, iss_resolved_in := (if status = StResolved then Some version else None)\<rparr>) (idb_issues db)\<rparr>"

definition occurrences_page :: "uuid \<Rightarrow> uuid option \<Rightarrow> nat \<Rightarrow> issue_db \<Rightarrow> occurrence list \<times> uuid option" where
  "occurrences_page i before limit db =
     (let found = take (limit + 1) (sort_key (\<lambda>o'. - int (ocr_id o')) (filter (\<lambda>o'. ocr_issue o' = i
            \<and> (case before of None \<Rightarrow> True | Some b \<Rightarrow> ocr_id o' < b)) (idb_occurrences db))) in
      (take limit found, if limit < length found then Some (ocr_id (found ! (limit - 1))) else None))"

definition issue_daily_counts :: "instant \<Rightarrow> int \<Rightarrow> uuid \<Rightarrow> issue_db \<Rightarrow> (date, nat) dict" where
  "issue_daily_counts now n i db =
     (let rows = filter (\<lambda>o'. ocr_issue o' = i \<and> now - days (n - 1) \<le> ocr_created_at o') (idb_occurrences db) in
      map (\<lambda>d. (d, count_where (\<lambda>o'. date_of (ocr_created_at o') = d) rows)) (remdups (map (date_of \<circ> ocr_created_at) rows)))"

definition unresolved_count :: "issue_db \<Rightarrow> nat" where
  "unresolved_count db = count_where (\<lambda>i. iss_status i \<in> set open_statuses) (idb_issues db)"

definition purge_old_occurrences :: "instant \<Rightarrow> int \<Rightarrow> issue_db \<Rightarrow> issue_db" where
  "purge_old_occurrences now retention db =
     db\<lparr>idb_occurrences := delete_where (\<lambda>o'. ocr_created_at o' < now - days retention) (idb_occurrences db)\<rparr>"

section \<open>The console\<close>

datatype issue_reply =
    IssueError int string
  | IssueList "issue list"
  | IssueDetail issue "occurrence list" "uuid option" "nat list option"
  | IssueRead issue

definition triage_statuses :: "issue_status list" where
  "triage_statuses = [StResolved, StIgnored, StUnresolved]"

definition known_status :: "string \<Rightarrow> issue_status list \<Rightarrow> issue_status option" where
  "known_status raw allowed = List.find (\<lambda>s. status_value s = raw) allowed"

definition spark_days :: nat where "spark_days = 14"

definition list_issues_route :: "string \<Rightarrow> issue_db \<Rightarrow> issue_reply" where
  "list_issues_route status_filter db =
     (if status_filter = [] then IssueList (list_issues None 100 db)
      else (case known_status status_filter issue_statuses of
          None \<Rightarrow> IssueError 400 ''Unknown status''
        | Some s \<Rightarrow> IssueList (list_issues (Some s) 100 db)))"

text \<open>The full page also draws a bar for each of the last days, today's last.\<close>

definition issue_detail :: "bool \<Rightarrow> instant \<Rightarrow> uuid \<Rightarrow> uuid option \<Rightarrow> issue_db \<Rightarrow> issue_reply" where
  "issue_detail full now i before db = (case get_issue i db of
       None \<Rightarrow> IssueError 404 ''Not found''
     | Some r \<Rightarrow> (case occurrences_page i before 20 db of (page, next_before) \<Rightarrow>
         IssueDetail r page next_before
           (if full then Some (map (\<lambda>k. dict_get (issue_daily_counts now (int spark_days) i db)
              (date_of now - int (spark_days - 1) + int k) 0) [0..<spark_days]) else None)))"

definition set_issue_status :: "uuid \<Rightarrow> string \<Rightarrow> uuid \<Rightarrow> string \<Rightarrow> issue_db \<Rightarrow> issue_db \<times> issue_fact list \<times> issue_reply" where
  "set_issue_status admin version i raw db = (case known_status raw triage_statuses of
       None \<Rightarrow> (db, [], IssueError 400 ''Unknown status'')
     | Some status \<Rightarrow> (case get_issue i db of
           None \<Rightarrow> (db, [], IssueError 404 ''Not found'')
         | Some r \<Rightarrow> (set_status i status version db, [IssueStatusChanged admin i (iss_title r) (status_value status)],
             IssueRead (r\<lparr>iss_status := status, iss_resolved_in := (if status = StResolved then Some version else None)\<rparr>))))"

section \<open>Alerts, retention and the overview\<close>

record issues_settings =
  is_retention_days :: int
  is_alerting :: bool
  is_alert_email :: string

definition send_alert :: "issues_settings \<Rightarrow> string \<Rightarrow> uuid \<Rightarrow> (string \<times> string \<times> string) option" where
  "send_alert st subject i =
     (if \<not> is_alerting st \<or> is_alert_email st = [] then None
      else Some (is_alert_email st, subject, subject @ [CHR 0x0A, CHR 0x0A] @ ''See /console/issues/'' @ uuid_str i
        @ '' for the stack and context.''))"

definition alert_opened :: "issues_settings \<Rightarrow> issue_fact \<Rightarrow> (string \<times> string \<times> string) option" where
  "alert_opened st f = (case f of IssueOpened i title \<Rightarrow> send_alert st (''New issue: '' @ title) i | _ \<Rightarrow> None)"

definition alert_regressed :: "issues_settings \<Rightarrow> issue_fact \<Rightarrow> (string \<times> string \<times> string) option" where
  "alert_regressed st f = (case f of IssueRegressed i title r v \<Rightarrow> send_alert st (''Regressed issue: '' @ title) i | _ \<Rightarrow> None)"

definition issues_card :: "issue_db \<Rightarrow> string list" where
  "issues_card db = (if unresolved_count db = 0 then [''No open issues'']
     else [str_nat (unresolved_count db) @ '' unresolved''])"

end
