(* ===== verification/Issues_History.thy ===== *)
theory Issues_History
  imports Issues
begin

text \<open>
  What the tracker guarantees: the table is an automaton per fingerprint, the pages of an issue's
  occurrences miss and repeat none, and a fingerprint does not depend on where the code is installed.
\<close>

section \<open>Histories\<close>

datatype issue_step =
    Sighting tracker_env raised payload
  | Triage uuid string uuid string
  | PurgeOccurrences instant int

definition issue_act :: "issue_step \<Rightarrow> issue_db \<Rightarrow> (issue_db \<times> issue_fact list) option" where
  "issue_act step db = (case step of
       Sighting env exc context \<Rightarrow> track env exc context db
     | Triage admin version i raw \<Rightarrow> (case set_issue_status admin version i raw db of (db', facts, reply) \<Rightarrow> Some (db', facts))
     | PurgeOccurrences now retention \<Rightarrow> Some (purge_old_occurrences now retention db, []))"

text \<open>The transactions that commit, one after the other, with the facts they record.\<close>

fun issue_run :: "issue_step list \<Rightarrow> issue_db \<times> issue_fact list \<Rightarrow> (issue_db \<times> issue_fact list) option" where
  "issue_run [] w = Some w" |
  "issue_run (step # steps) w = (case issue_act step (fst w) of
       None \<Rightarrow> None
     | Some (db, facts) \<Rightarrow> issue_run steps (db, snd w @ facts))"

section \<open>The lifecycle of one fingerprint\<close>

record lifecycle =
  lc_id :: uuid
  lc_title :: string
  lc_status :: issue_status
  lc_resolved_in :: "string option"
  lc_sightings :: nat

text \<open>The state of the issue of fingerprint \<open>F\<close> and the facts about it, by its own steps alone.\<close>

fun lifecycle_step :: "string \<Rightarrow> issue_step \<Rightarrow> lifecycle option \<times> issue_fact list \<Rightarrow> lifecycle option \<times> issue_fact list" where
  "lifecycle_step F (Sighting env exc context) (st, facts) =
     (if issue_fingerprint (te_sha256 env) exc None \<noteq> F then (st, facts)
      else (case st of
          None \<Rightarrow> (Some \<lparr>lc_id = fst (te_fresh env), lc_title = title_for exc, lc_status = StNew, lc_resolved_in = None, lc_sightings = 1\<rparr>,
            facts @ [IssueOpened (fst (te_fresh env)) (title_for exc)])
        | Some l \<Rightarrow>
            (if lc_status l = StResolved \<and> lc_resolved_in l \<noteq> Some (te_version env)
             then (Some (l\<lparr>lc_status := StRegressed, lc_sightings := lc_sightings l + 1\<rparr>),
               facts @ [IssueRegressed (lc_id l) (lc_title l) (lc_resolved_in l) (te_version env)])
             else (Some (l\<lparr>lc_sightings := lc_sightings l + 1\<rparr>), facts))))" |
  "lifecycle_step F (Triage admin version i raw) (st, facts) =
     (case (st, known_status raw triage_statuses) of
        (Some l, Some s) \<Rightarrow>
          (if lc_id l = i
           then (Some (l\<lparr>lc_status := s, lc_resolved_in := (if s = StResolved then Some version else None)\<rparr>),
             facts @ [IssueStatusChanged admin i (lc_title l) (status_value s)])
           else (st, facts))
      | _ \<Rightarrow> (st, facts))" |
  "lifecycle_step F (PurgeOccurrences now retention) (st, facts) = (st, facts)"

definition lifecycle_of :: "issue \<Rightarrow> lifecycle" where
  "lifecycle_of i = \<lparr>lc_id = iss_id i, lc_title = iss_title i, lc_status = iss_status i, lc_resolved_in = iss_resolved_in i,
     lc_sightings = iss_count i\<rparr>"

definition issue_of :: "string \<Rightarrow> issue_db \<Rightarrow> lifecycle option" where
  "issue_of F db = map_option lifecycle_of (row_by iss_fingerprint F (idb_issues db))"

fun fact_issue :: "issue_fact \<Rightarrow> uuid" where
  "fact_issue (IssueOpened i title) = i" |
  "fact_issue (IssueRegressed i title r v) = i" |
  "fact_issue (IssueStatusChanged admin i title s) = i"

definition facts_of :: "string \<Rightarrow> issue_db \<times> issue_fact list \<Rightarrow> issue_fact list" where
  "facts_of F w = (case issue_of F (fst w) of None \<Rightarrow> []
     | Some l \<Rightarrow> filter (\<lambda>f. fact_issue f = lc_id l) (snd w))"

text \<open>
  A table as the transactions leave it: one row per identifier and per fingerprint, a resolved issue
  knows its release, and no fact is about an issue there is not.
\<close>

definition issues_ok :: "issue_db \<times> issue_fact list \<Rightarrow> bool" where
  "issues_ok w \<longleftrightarrow> distinct (map iss_id (idb_issues (fst w))) \<and> distinct (map iss_fingerprint (idb_issues (fst w)))
     \<and> (\<forall>i \<in> set (idb_issues (fst w)). iss_status i = StResolved \<longrightarrow> iss_resolved_in i \<noteq> None)
     \<and> (\<forall>f \<in> set (snd w). fact_issue f \<in> iss_id ` set (idb_issues (fst w)))"

lemma row_by_replace:
  "key x = c \<Longrightarrow> row_by key k (update_where (\<lambda>r. key r = c) (\<lambda>_. x) rows)
    = (if k = c then map_option (\<lambda>_. x) (row_by key c rows) else row_by key k rows)"
  by (induction rows) auto

lemma map_replace:
  assumes "distinct (map key rows)" "r \<in> set rows" "f x = f r"
  shows "map f (update_where (\<lambda>q. key q = key r) (\<lambda>_. x) rows) = map f rows"
proof -
  have "q = r" if "q \<in> set rows" "key q = key r" for q using that assms(1,2) by (metis distinct_map inj_onD)
  then show ?thesis using assms(3) unfolding update_where_def by (auto simp: comp_def)
qed

lemma lifecycle_sel [simp]:
  "lc_id (lifecycle_of i) = iss_id i" "lc_title (lifecycle_of i) = iss_title i" "lc_status (lifecycle_of i) = iss_status i"
  "lc_resolved_in (lifecycle_of i) = iss_resolved_in i" "lc_sightings (lifecycle_of i) = iss_count i"
  by (simp_all add: lifecycle_of_def)

lemma issues_okD:
  assumes "issues_ok w"
  shows "distinct (map iss_id (idb_issues (fst w)))" "distinct (map iss_fingerprint (idb_issues (fst w)))"
    "i \<in> set (idb_issues (fst w)) \<Longrightarrow> iss_status i = StResolved \<Longrightarrow> iss_resolved_in i \<noteq> None"
    "f \<in> set (snd w) \<Longrightarrow> fact_issue f \<in> iss_id ` set (idb_issues (fst w))"
  using assms by (auto simp: issues_ok_def)

lemma other_issue:
  assumes "distinct (map iss_id rows)" "row_by iss_fingerprint F rows = Some q" "r \<in> set rows" "iss_fingerprint r \<noteq> F"
  shows "iss_id q \<noteq> iss_id r"
proof
  assume "iss_id q = iss_id r"
  then have "q = r" using assms row_by_SomeD[OF assms(2)] by (metis distinct_map inj_onD)
  then show False using assms(4) row_by_SomeD[OF assms(2)] by blast
qed

text \<open>The first sighting of a fingerprint.\<close>

lemma opened_step:
  assumes ok: "issues_ok (db, facts)"
    and new: "row_by iss_fingerprint (iss_fingerprint i) (idb_issues db) = None" "iss_id i \<notin> iss_id ` set (idb_issues db)"
      "iss_status i = StNew"
    and db': "idb_issues db' = idb_issues db @ [i]"
    and fs: "\<And>f. f \<in> set fs \<Longrightarrow> fact_issue f = iss_id i"
  shows "issues_ok (db', facts @ fs)"
    and "issue_of F db' = (if F = iss_fingerprint i then Some (lifecycle_of i) else issue_of F db)"
    and "facts_of F (db', facts @ fs) = (if F = iss_fingerprint i then fs else facts_of F (db, facts))"
proof -
  note d = issues_okD[OF ok, simplified]
  have old: "iss_id i \<noteq> fact_issue f" if "f \<in> set facts" for f using d(4)[OF that] new(2) by auto
  show "issues_ok (db', facts @ fs)"
    using d new fs old unfolding issues_ok_def fst_conv snd_conv db' by (auto simp: row_by_None_iff)
  show look: "issue_of F db' = (if F = iss_fingerprint i then Some (lifecycle_of i) else issue_of F db)"
    using new(1) unfolding issue_of_def db' row_by_append by (auto split: option.splits)
  show "facts_of F (db', facts @ fs) = (if F = iss_fingerprint i then fs else facts_of F (db, facts))"
  proof (cases "F = iss_fingerprint i")
    case True
    moreover have "filter (\<lambda>f. fact_issue f = iss_id i) facts = []" using old by (force simp: filter_empty_conv)
    ultimately show ?thesis using fs unfolding facts_of_def fst_conv snd_conv look by (simp add: filter_id_conv)
  next
    case False
    have "filter (\<lambda>f. fact_issue f = lc_id l) fs = []" if "issue_of F db = Some l" for l
    proof -
      have "lc_id l \<in> iss_id ` set (idb_issues db)" using that row_by_SomeD by (fastforce simp: issue_of_def)
      then show ?thesis using fs new(2) by (force simp: filter_empty_conv)
    qed
    then show ?thesis unfolding facts_of_def fst_conv snd_conv look using False by (auto split: option.splits)
  qed
qed

text \<open>A row of the table is replaced.\<close>

lemma replaced_step:
  assumes ok: "issues_ok (db, facts)" and r: "r \<in> set (idb_issues db)"
    and same: "iss_id x = iss_id r" "iss_fingerprint x = iss_fingerprint r"
    and resolved: "iss_status x = StResolved \<longrightarrow> iss_resolved_in x \<noteq> None"
    and db': "idb_issues db' = update_where (\<lambda>q. iss_fingerprint q = iss_fingerprint r) (\<lambda>_. x) (idb_issues db)"
    and fs: "\<And>f. f \<in> set fs \<Longrightarrow> fact_issue f = iss_id r"
  shows "issues_ok (db', facts @ fs)"
    and "issue_of F db' = (if F = iss_fingerprint r then Some (lifecycle_of x) else issue_of F db)"
    and "facts_of F (db', facts @ fs) = facts_of F (db, facts) @ (if F = iss_fingerprint r then fs else [])"
proof -
  note d = issues_okD[OF ok, simplified]
  have here: "row_by iss_fingerprint (iss_fingerprint r) (idb_issues db) = Some r"
    using row_by_eq_Some[OF d(2)] r by blast
  have ids: "map iss_id (idb_issues db') = map iss_id (idb_issues db)"
    and fps: "map iss_fingerprint (idb_issues db') = map iss_fingerprint (idb_issues db)"
    unfolding db' by (rule map_replace[OF d(2) r], simp add: same)+
  have idset: "iss_id ` set (idb_issues db') = iss_id ` set (idb_issues db)" using ids by (metis set_map)
  have res: "iss_resolved_in i \<noteq> None" if "i \<in> set (idb_issues db')" "iss_status i = StResolved" for i
    using that d(3)[of i] resolved unfolding db' in_update_where by (auto split: if_splits)
  have about: "fact_issue f \<in> iss_id ` set (idb_issues db)" if "f \<in> set (facts @ fs)" for f
    using that d(4)[of f] fs[of f] r by auto
  show "issues_ok (db', facts @ fs)"
    unfolding issues_ok_def fst_conv snd_conv ids fps idset using d(1,2) res about by blast
  show look: "issue_of F db' = (if F = iss_fingerprint r then Some (lifecycle_of x) else issue_of F db)"
    unfolding issue_of_def db' row_by_replace[of iss_fingerprint, OF same(2)] using here by simp
  have mine: "issue_of (iss_fingerprint r) db = Some (lifecycle_of r)" using here by (simp add: issue_of_def)
  show "facts_of F (db', facts @ fs) = facts_of F (db, facts) @ (if F = iss_fingerprint r then fs else [])"
  proof (cases "F = iss_fingerprint r")
    case True
    then show ?thesis using fs mine unfolding facts_of_def fst_conv snd_conv look by (simp add: same filter_id_conv)
  next
    case False
    have "filter (\<lambda>f. fact_issue f = lc_id l) fs = []" if "issue_of F db = Some l" for l
      using that other_issue[OF d(1) _ r] False fs by (fastforce simp: issue_of_def filter_empty_conv)
    then show ?thesis using False unfolding facts_of_def fst_conv snd_conv look by (auto split: option.splits)
  qed
qed


lemma track_step:
  assumes ok: "issues_ok (db, facts)" and run: "track env exc context db = Some (db', fs)"
  shows "issues_ok (db', facts @ fs) \<and> (issue_of F db', facts_of F (db', facts @ fs))
    = lifecycle_step F (Sighting env exc context) (issue_of F db, facts_of F (db, facts))"
proof -
  define fp where "fp = issue_fingerprint (te_sha256 env) exc None"
  show ?thesis
  proof (cases "row_by iss_fingerprint fp (idb_issues db)")
    case None
    define i where "i = \<lparr>iss_id = fst (te_fresh env), iss_fingerprint = fp, iss_title = title_for exc, iss_status = StNew,
      iss_count = 1, iss_first_seen = te_now env, iss_last_seen = te_now env, iss_first_release = te_version env,
      iss_last_release = te_version env, iss_resolved_in = None\<rparr>"
    have out: "iss_id i \<notin> iss_id ` set (idb_issues db)" "idb_issues db' = idb_issues db @ [i]"
      "fs = [IssueOpened (iss_id i) (title_for exc)]"
      using run None by (auto simp: track_def see_occurrence_def fp_def[symmetric] i_def Let_def split: if_splits)
    have i: "iss_fingerprint i = fp" "iss_status i = StNew" by (simp_all add: i_def)
    have mine: "issue_of fp db = None" using None by (simp add: issue_of_def)
    have about: "fact_issue f = iss_id i" if "f \<in> set fs" for f using that out(3) by simp
    note now = opened_step(1)[where fs = fs, OF ok None[folded i(1)] out(1) i(2) out(2) about]
      opened_step(2,3)[where fs = fs and F = F, OF ok None[folded i(1)] out(1) i(2) out(2) about]
    have none: "facts_of fp (db, facts) = []" using mine by (simp add: facts_of_def)
    have new: "lifecycle_of i = \<lparr>lc_id = fst (te_fresh env), lc_title = title_for exc, lc_status = StNew,
        lc_resolved_in = None, lc_sightings = 1\<rparr>" "iss_id i = fst (te_fresh env)"
      by (simp_all add: i_def lifecycle_of_def)
    show ?thesis
    proof (cases "F = fp")
      case True
      then show ?thesis using now mine none out(3) by (simp add: fp_def[symmetric] i(1) new)
    next
      case False
      then show ?thesis using now by (simp add: fp_def[symmetric] i(1))
    qed
  next
    case (Some r)
    define s where "s = status_after_occurrence (iss_status r) (iss_resolved_in r) (te_version env)"
    define x where "x = r\<lparr>iss_status := s, iss_count := iss_count r + 1, iss_last_seen := te_now env, iss_last_release := te_version env\<rparr>"
    have r: "r \<in> set (idb_issues db)" "iss_fingerprint r = fp" using row_by_SomeD[OF Some] by blast+
    have out: "idb_issues db' = update_where (\<lambda>q. iss_fingerprint q = iss_fingerprint r) (\<lambda>_. x) (idb_issues db)"
      "fs = (if s = StRegressed \<and> iss_status r \<noteq> s then [IssueRegressed (iss_id r) (iss_title r) (iss_resolved_in r) (te_version env)] else [])"
      using run Some r(2) by (auto simp: track_def see_occurrence_def fp_def[symmetric] x_def s_def Let_def split: if_splits)
    have known: "iss_status r = StResolved \<Longrightarrow> iss_resolved_in r \<noteq> None" using issues_okD(3)[OF ok, simplified, OF r(1)] by simp
    have s: "s = (if iss_status r = StResolved \<and> iss_resolved_in r \<noteq> Some (te_version env) then StRegressed else iss_status r)"
      using known unfolding s_def status_after_occurrence_def by (auto split: option.splits)
    have x: "iss_id x = iss_id r" "iss_fingerprint x = iss_fingerprint r" "iss_status x = StResolved \<longrightarrow> iss_resolved_in x \<noteq> None"
      using known s by (auto simp: x_def)
    have mine: "issue_of fp db = Some (lifecycle_of r)" using Some by (simp add: issue_of_def)
    have about: "fact_issue f = iss_id r" if "f \<in> set fs" for f using that out(2) by (auto split: if_splits)
    show ?thesis
      using replaced_step(1)[where fs = fs, OF ok r(1) x out(1) about] replaced_step(2,3)[where fs = fs and F = F, OF ok r(1) x out(1) about] mine r(2) unfolding out(2) s
      by (auto simp: fp_def[symmetric] x_def lifecycle_of_def s)
  qed
qed

lemma triage_step:
  assumes ok: "issues_ok (db, facts)" and run: "set_issue_status admin version i raw db = (db', fs, reply)"
  shows "issues_ok (db', facts @ fs) \<and> (issue_of F db', facts_of F (db', facts @ fs))
    = lifecycle_step F (Triage admin version i raw) (issue_of F db, facts_of F (db, facts))"
proof (cases "known_status raw triage_statuses")
  case None
  then show ?thesis using ok run by (auto simp: set_issue_status_def split: option.splits)
next
  case (Some s)
  show ?thesis
  proof (cases "get_issue i db")
    case None
    then have "lc_id l \<noteq> i" if "issue_of F db = Some l" for l
      using that row_by_SomeD[of iss_fingerprint F "idb_issues db"] by (auto simp: get_issue_def row_by_None_iff issue_of_def)
    then show ?thesis using ok run None Some by (auto simp: set_issue_status_def split: option.splits)
  next
    case (Some r)
    define x where "x = r\<lparr>iss_status := s, iss_resolved_in := (if s = StResolved then Some version else None)\<rparr>"
    have r: "r \<in> set (idb_issues db)" "iss_id r = i" using row_by_SomeD Some by (fastforce simp: get_issue_def)+
    note d = issues_okD[OF ok, simplified]
    have out: "fs = [IssueStatusChanged admin i (iss_title r) (status_value s)]" "db' = set_status i s version db"
      using run \<open>known_status raw triage_statuses = Some s\<close> Some by (simp_all add: set_issue_status_def)
    have "q = r" if "q \<in> set (idb_issues db)" "iss_id q = i \<or> iss_fingerprint q = iss_fingerprint r" for q
      using that d(1,2) r by (metis distinct_map inj_onD)
    then have rows: "idb_issues db' = update_where (\<lambda>q. iss_fingerprint q = iss_fingerprint r) (\<lambda>_. x) (idb_issues db)"
      using r(2) unfolding out(2) set_status_def update_where_def by (auto simp: x_def)
    have x: "iss_id x = iss_id r" "iss_fingerprint x = iss_fingerprint r" "iss_status x = StResolved \<longrightarrow> iss_resolved_in x \<noteq> None"
      by (simp_all add: x_def)
    have about: "fact_issue f = iss_id r" if "f \<in> set fs" for f using that out(1) r(2) by simp
    have here: "row_by iss_fingerprint (iss_fingerprint r) (idb_issues db) = Some r" using row_by_eq_Some[OF d(2)] r(1) by blast
    have other: "lc_id l \<noteq> i" if "issue_of F db = Some l" "F \<noteq> iss_fingerprint r" for l
      using that other_issue[OF d(1) _ r(1)] r(2) by (auto simp: issue_of_def)
    note now = replaced_step(1)[where fs = fs, OF ok r(1) x rows about] replaced_step(2,3)[where fs = fs and F = F, OF ok r(1) x rows about]
    show ?thesis
    proof (cases "F = iss_fingerprint r")
      case True
      then have "issue_of F db = Some (lifecycle_of r)" using here by (simp add: issue_of_def)
      then show ?thesis
        using now True \<open>known_status raw triage_statuses = Some s\<close> r(2) out(1)
        by (simp add: x_def lifecycle_of_def)
    next
      case False
      then show ?thesis
        using now \<open>known_status raw triage_statuses = Some s\<close> other[OF _ False]
        by (auto split: option.splits)
    qed
  qed
qed

lemma purge_step:
  "issues_ok (db, facts) \<Longrightarrow> issues_ok (purge_old_occurrences now retention db, facts)"
  "issue_of F (purge_old_occurrences now retention db) = issue_of F db"
  "facts_of F (purge_old_occurrences now retention db, facts) = facts_of F (db, facts)"
  by (simp_all add: purge_old_occurrences_def issues_ok_def issue_of_def facts_of_def split: option.splits)

lemma issue_act_step:
  assumes "issues_ok w" "issue_act step (fst w) = Some (db', fs)"
  shows "issues_ok (db', snd w @ fs) \<and> (issue_of F db', facts_of F (db', snd w @ fs))
    = lifecycle_step F step (issue_of F (fst w), facts_of F w)"
  using assms track_step[where db = "fst w" and facts = "snd w"] triage_step[where db = "fst w" and facts = "snd w"]
    purge_step(1)[where db = "fst w" and facts = "snd w"] purge_step(2,3)
  by (cases step) (auto simp: issue_act_def split: prod.splits)

lemma issue_run_refines:
  "issues_ok w \<Longrightarrow> issue_run steps w = Some w' \<Longrightarrow>
    issues_ok w' \<and> (issue_of F (fst w'), facts_of F w') = fold (lifecycle_step F) steps (issue_of F (fst w), facts_of F w)"
proof (induction steps arbitrary: w)
  case (Cons step steps)
  then obtain db fs where act: "issue_act step (fst w) = Some (db, fs)" by (auto split: option.splits)
  note moved = issue_act_step[OF Cons.prems(1) act, of F]
  have rest: "issue_run steps (db, snd w @ fs) = Some w'" using Cons.prems(2) act by simp
  show ?case using Cons.IH[OF conjunct1[OF moved] rest] conjunct2[OF moved] by simp
qed simp

text \<open>
  C36.  The tables of the tracker are, for every fingerprint, one automaton: after any history of
  sightings, verdicts and purges the issue of a fingerprint is where its own steps lead it (opened by
  its first sighting, regressed exactly when a resolved one is seen on another release than its fix,
  otherwise only moved by an administrator, one more sighting counted each time), and the facts about
  it are exactly the ones of those transitions.
\<close>

theorem issue_lifecycle_refines:
  assumes "issue_run steps (\<lparr>idb_issues = [], idb_occurrences = []\<rparr>, []) = Some (db, facts)"
  shows "(issue_of F db, facts_of F (db, facts)) = fold (lifecycle_step F) steps (None, [])"
proof -
  have "issues_ok (\<lparr>idb_issues = [], idb_occurrences = []\<rparr>, [])" by (simp add: issues_ok_def)
  from issue_run_refines[OF this assms, of F] show ?thesis by (simp add: issue_of_def facts_of_def)
qed


definition sample_raised :: "string \<Rightarrow> raised" where
  "sample_raised message = \<lparr>rs_type = ''ValueError'', rs_frames = [(''/srv/app/apps/todo/infra/router.py'', ''create'')],
     rs_message = message, rs_printed = message\<rparr>"

definition sample_tracker :: "string \<Rightarrow> uuid \<Rightarrow> tracker_env" where
  "sample_tracker version n = \<lparr>te_sha256 = id, te_version = version, te_now = int n, te_fresh = (n, n + 100)\<rparr>"

text \<open>An error seen, resolved, seen again on the next release.\<close>

lemma issue_lifecycle_refines_witness:
  "case issue_run [Sighting (sample_tracker ''v1'' 1) (sample_raised ''a'') [], Triage 9 ''v1'' 1 ''resolved'',
      Sighting (sample_tracker ''v1'' 2) (sample_raised ''b'') [], Sighting (sample_tracker ''v2'' 3) (sample_raised ''c'') []]
      (\<lparr>idb_issues = [], idb_occurrences = []\<rparr>, []) of
     None \<Rightarrow> False
   | Some w \<Rightarrow> issue_of ''ValueError|apps/todo/infra/router.py:create'' (fst w)
       = Some \<lparr>lc_id = 1, lc_title = ''ValueError: a'', lc_status = StRegressed, lc_resolved_in = Some ''v1'', lc_sightings = 3\<rparr>"
proof -
  let ?steps = "[Sighting (sample_tracker ''v1'' 1) (sample_raised ''a'') [], Triage 9 ''v1'' 1 ''resolved'',
      Sighting (sample_tracker ''v1'' 2) (sample_raised ''b'') [], Sighting (sample_tracker ''v2'' 3) (sample_raised ''c'') []]"
  let ?F = "''ValueError|apps/todo/infra/router.py:create''"
  have fp: "issue_fingerprint id (sample_raised m) None = ?F" for m
    unfolding issue_fingerprint_def sample_raised_def in_app_frames_def by code_simp
  have "issue_run ?steps (\<lparr>idb_issues = [], idb_occurrences = []\<rparr>, []) \<noteq> None"
    by code_simp
  then obtain db facts where run: "issue_run ?steps (\<lparr>idb_issues = [], idb_occurrences = []\<rparr>, []) = Some (db, facts)" by fast
  have "fold (lifecycle_step ?F) ?steps (None, []) = (Some \<lparr>lc_id = 1, lc_title = ''ValueError: a'', lc_status = StRegressed,
      lc_resolved_in = Some ''v1'', lc_sightings = 3\<rparr>,
      [IssueOpened 1 ''ValueError: a'', IssueStatusChanged 9 1 ''ValueError: a'' ''resolved'', IssueRegressed 1 ''ValueError: a'' (Some ''v1'') ''v2''])"
    by code_simp
  then show ?thesis using issue_lifecycle_refines[OF run, of ?F] run by simp
qed

section \<open>The pages of an issue\<close>

text \<open>Following the cursors.\<close>

fun occurrence_walk :: "nat \<Rightarrow> uuid \<Rightarrow> uuid option \<Rightarrow> nat \<Rightarrow> issue_db \<Rightarrow> occurrence list" where
  "occurrence_walk 0 i before limit db = []" |
  "occurrence_walk (Suc fuel) i before limit db = (case occurrences_page i before limit db of
       (page, None) \<Rightarrow> page
     | (page, Some b) \<Rightarrow> page @ occurrence_walk fuel i (Some b) limit db)"

definition newest_occurrences :: "uuid \<Rightarrow> issue_db \<Rightarrow> occurrence list" where
  "newest_occurrences i db = sort_key (\<lambda>o'. - int (ocr_id o')) (filter (\<lambda>o'. ocr_issue o' = i) (idb_occurrences db))"

lemma newest_descending:
  assumes "distinct (map ocr_id (idb_occurrences db))"
  shows "sorted_wrt (\<lambda>x y. ocr_id y < ocr_id x) (newest_occurrences i db)"
proof -
  let ?S = "newest_occurrences i db"
  have "sorted (map (\<lambda>o'. - int (ocr_id o')) ?S)" by (simp add: newest_occurrences_def)
  moreover have "distinct (map (\<lambda>o'. - int (ocr_id o')) ?S)"
  proof -
    have "mset ?S = mset (filter (\<lambda>o'. ocr_issue o' = i) (idb_occurrences db))" by (simp add: newest_occurrences_def)
    moreover have "distinct (map ocr_id (filter (\<lambda>o'. ocr_issue o' = i) (idb_occurrences db)))"
      by (rule distinct_map_filter[OF assms])
    ultimately have "distinct (map ocr_id ?S)" by (metis mset_eq_imp_distinct_iff mset_map)
    then show ?thesis by (simp add: distinct_map inj_on_def)
  qed
  ultimately have "sorted_wrt (<) (map (\<lambda>o'. - int (ocr_id o')) ?S)" by (simp add: strict_sorted_iff)
  then show ?thesis by (simp add: sorted_wrt_map)
qed

lemma filter_below:
  assumes "sorted_wrt (\<lambda>x y. f y < (f x :: nat)) S" "0 < k" "k \<le> length S"
  shows "filter (\<lambda>x. f x < f (S ! (k - 1))) S = drop k S"
proof -
  have above: "f (S ! (k - 1)) \<le> f x" if x: "x \<in> set (take k S)" for x
  proof -
    obtain j where l: "j < length (take k S)" "take k S ! j = x"
      using x unfolding in_set_conv_nth by blast
    have "j < k" using l(1) unfolding length_take by linarith
    with l(2) have j: "j < k" "x = S ! j" by (simp_all only: nth_take)
    show ?thesis
    proof (cases "j = k - 1")
      case False
      then have "j < k - 1" "k - 1 < length S" using j(1) assms(2,3) by linarith+
      from sorted_wrt_nth_less[OF assms(1) this] show ?thesis unfolding j(2) by (rule less_imp_le)
    qed (simp add: j(2))
  qed
  have below: "f x < f (S ! (k - 1))" if x: "x \<in> set (drop k S)" for x
  proof -
    obtain i where i: "i < length (drop k S)" "drop k S ! i = x"
      using x unfolding in_set_conv_nth by blast
    then have i: "k - 1 < k + i" "k + i < length S" "S ! (k + i) = x" using assms(2,3) by simp_all
    from sorted_wrt_nth_less[OF assms(1) i(1,2)] show ?thesis unfolding i(3) .
  qed
  have "filter (\<lambda>x. f x < f (S ! (k - 1))) (take k S @ drop k S) = drop k S"
    unfolding filter_append using above below by (fastforce simp: filter_empty_conv filter_id_conv)
  then show ?thesis by simp
qed

lemma page_from:
  assumes "distinct (map ocr_id (idb_occurrences db))" "k \<le> length (newest_occurrences i db)"
  shows "occurrences_page i (if k = 0 then None else Some (ocr_id (newest_occurrences i db ! (k - 1)))) limit db
    = (take limit (drop k (newest_occurrences i db)),
       if limit < length (newest_occurrences i db) - k
       then Some (ocr_id (take (limit + 1) (drop k (newest_occurrences i db)) ! (limit - 1))) else None)"
proof -
  let ?S = "newest_occurrences i db" and ?before = "if k = 0 then None else Some (ocr_id (newest_occurrences i db ! (k - 1)))"
  have "sort_key (\<lambda>o'. - int (ocr_id o')) (filter (\<lambda>o'. ocr_issue o' = i
      \<and> (case ?before of None \<Rightarrow> True | Some b \<Rightarrow> ocr_id o' < b)) (idb_occurrences db))
    = filter (\<lambda>o'. case ?before of None \<Rightarrow> True | Some b \<Rightarrow> ocr_id o' < b) ?S"
    unfolding newest_occurrences_def filter_sort by (simp add: conj_commute)
  also have "\<dots> = drop k ?S" using filter_below[OF newest_descending[OF assms(1)], of k] assms(2) by (cases "k = 0") simp_all
  finally show ?thesis by (simp add: occurrences_page_def Let_def min_def)
qed

text \<open>
  C37.  Following the cursors from the newest page shows every occurrence of an issue exactly once, newest
  first, whatever the size of a page, and comes to an end.
\<close>

theorem occurrence_pages_complete:
  assumes "distinct (map ocr_id (idb_occurrences db))" "0 < limit" "length (newest_occurrences i db) < fuel"
  shows "occurrence_walk fuel i None limit db = newest_occurrences i db"
proof -
  let ?S = "newest_occurrences i db"
  have "occurrence_walk n i (if k = 0 then None else Some (ocr_id (?S ! (k - 1)))) limit db = drop k ?S"
    if "k \<le> length ?S" "length ?S - k < n" for k n
    using that
  proof (induction n arbitrary: k)
    case (Suc n)
    show ?case
    proof (cases "limit < length ?S - k")
      case True
      have cursor: "take (limit + 1) (drop k ?S) ! (limit - 1) = ?S ! (k + limit - 1)" using assms(2) True by simp
      have "occurrence_walk n i (Some (ocr_id (?S ! (k + limit - 1)))) limit db = drop (k + limit) ?S"
        using Suc.IH[of "k + limit"] True assms(2) Suc.prems by simp
      moreover have whole: "take limit (drop k ?S) @ drop (k + limit) ?S = drop k ?S"
        by (metis add.commute append_take_drop_id drop_drop)
      ultimately show ?thesis using page_from[OF assms(1) Suc.prems(1), of limit] True cursor
          whole
        by simp
    next
      case False
      then show ?thesis using page_from[OF assms(1) Suc.prems(1), of limit] by simp
    qed
  qed simp
  from this[of 0 fuel] show ?thesis using assms(3) by simp
qed

lemma occurrence_pages_complete_witness:
  "map ocr_id (occurrence_walk 9 1 None 2 \<lparr>idb_issues = [], idb_occurrences =
     map (\<lambda>n. \<lparr>ocr_id = n, ocr_issue = 1, ocr_created_at = 0, ocr_context = []\<rparr>) [3, 1, 5, 2, 4]\<rparr>) = [5, 4, 3, 2, 1]"
proof -
  let ?db = "\<lparr>idb_issues = [], idb_occurrences =
     map (\<lambda>n. \<lparr>ocr_id = n, ocr_issue = 1, ocr_created_at = 0, ocr_context = []\<rparr>) [3, 1, 5, 2, 4]\<rparr>"
  have "map ocr_id (newest_occurrences 1 ?db) = [5, 4, 3, 2, 1]" "length (newest_occurrences 1 ?db) = 5"
    by (simp_all add: newest_occurrences_def)
  then show ?thesis using occurrence_pages_complete[of ?db 2 1 9] by simp
qed

section \<open>Fingerprints\<close>

lemma after_last_append: "after_last m s = Some r \<Longrightarrow> after_last m (t @ s) = Some r"
  by (induction t) simp_all

text \<open>Where the code is installed does not matter: only what is below \<open>apps\<close> does.\<close>

lemma normalize_path_below:
  assumes "after_last in_app_marker (CHR ''/'' # rest) = None"
  shows "normalize_path (root @ ''/apps'' @ CHR ''/'' # rest) = ''apps/'' @ rest"
proof -
  have skip: "after_last m (c # s) = None" if "after_last m s = None" "\<not> startswith (c # s) m" for m s and c :: char
    using that by simp
  have hit: "after_last m (c # s) = Some (drop (length m) (c # s))" if "after_last m s = None" "startswith (c # s) m"
    for m s and c :: char using that by simp
  have below: "after_last in_app_marker (CHR ''a'' # CHR ''p'' # CHR ''p'' # CHR ''s'' # CHR ''/'' # rest) = None"
    by (intro skip assms) (simp_all add: in_app_marker_def)
  have here: "startswith (''/apps/'' @ rest) in_app_marker" "drop (length in_app_marker) (''/apps/'' @ rest) = rest"
    by (simp_all add: in_app_marker_def startswith_iff)
  have "after_last in_app_marker (''/apps/'' @ rest) = Some rest"
    using hit[OF below, of "CHR ''/''"] here by (simp del: after_last.simps)
  then have "after_last in_app_marker (root @ ''/apps/'' @ rest) = Some rest" by (rule after_last_append)
  then show ?thesis by (simp add: normalize_path_def del: after_last.simps)
qed

end
