(* ===== verification/Timeline.thy ===== *)
theory Timeline
  imports Event_Journal
begin

text \<open>
  \<open>apps/timeline\<close>: one list over three sources, the log lines (\<open>apps/shared/logs/repository.py\<close>), the
  journal of facts and the occurrences of the issues (\<open>apps/issues/contract/queries.py\<close>).  Each source is
  asked for its own newest rows under the filter; the reader merges, filters once more, sorts and cuts.
  Postgres' rendering of a document as text and Python's of a value as text are parameters.  An uncaught
  error (an identifier that is none) is \<open>None\<close>.
\<close>

section \<open>The log lines\<close>

record log_line =
  ll_ts :: instant
  ll_level :: string
  ll_logger :: string
  ll_name :: string
  ll_org_id :: "string option"
  ll_user_id :: "string option"
  ll_request_id :: "string option"
  ll_instance :: string
  ll_payload :: payload

definition default_window :: int where "default_window = days 2"
definition log_reserved :: "string list" where
  "log_reserved = [''timestamp'', ''level'', ''logger'', ''event'', ''org_id'', ''user_id'', ''request_id'']"
definition max_statement_params :: nat where "max_statement_params = 32767"

record text_rules =
  tx_of :: "json \<Rightarrow> string"
  tx_document :: "payload \<Rightarrow> string"
  tx_iso :: "string \<Rightarrow> instant option"

text \<open>\<open>str(line.get(key) or default)\<close>, \<open>_as_text\<close>, \<open>_parse_ts\<close> and the columns of a line.\<close>

definition falsy :: "json \<Rightarrow> bool" where
  "falsy v \<longleftrightarrow> v \<in> {JNull, JBool False, JNum 0, JStr [], JArr [], JObj []}"

definition text_or :: "text_rules \<Rightarrow> payload \<Rightarrow> string \<Rightarrow> string \<Rightarrow> string" where
  "text_or tx line key fallback = (case map_of line key of
       None \<Rightarrow> fallback | Some v \<Rightarrow> if falsy v then fallback else tx_of tx v)"

definition as_text :: "text_rules \<Rightarrow> payload \<Rightarrow> string \<Rightarrow> string option" where
  "as_text tx line key = (case map_of line key of None \<Rightarrow> None | Some JNull \<Rightarrow> None | Some v \<Rightarrow> Some (tx_of tx v))"

definition parse_log_ts :: "text_rules \<Rightarrow> instant \<Rightarrow> json option \<Rightarrow> instant option" where
  "parse_log_ts tx now v = (case v of Some (JStr s) \<Rightarrow> tx_iso tx s | _ \<Rightarrow> Some now)"

definition log_columns :: "text_rules \<Rightarrow> instant \<Rightarrow> string \<Rightarrow> payload \<Rightarrow> log_line option" where
  "log_columns tx now instance line = map_option (\<lambda>ts.
     \<lparr>ll_ts = ts, ll_level = text_or tx line ''level'' ''info'', ll_logger = text_or tx line ''logger'' [],
      ll_name = text_or tx line ''event'' [], ll_org_id = as_text tx line ''org_id'', ll_user_id = as_text tx line ''user_id'',
      ll_request_id = as_text tx line ''request_id'', ll_instance = instance,
      ll_payload = filter (\<lambda>kv. fst kv \<notin> set log_reserved) line\<rparr>) (parse_log_ts tx now (map_of line ''timestamp''))"

text \<open>A batch is inserted in statements of at most so many rows: ten columns, one parameter each.\<close>

function chunks_of :: "nat \<Rightarrow> 'a list \<Rightarrow> 'a list list" where
  "chunks_of n xs = (if xs = [] \<or> n = 0 then [] else take n xs # chunks_of n (drop n xs))"
  by pat_completeness auto
termination
  by (relation "measure (\<lambda>(n, xs). length xs)") auto

declare chunks_of.simps [simp del]

definition log_append :: "text_rules \<Rightarrow> instant \<Rightarrow> string \<Rightarrow> payload list \<Rightarrow> log_line list \<Rightarrow> log_line list option" where
  "log_append tx now instance lines table =
     (let rows = map (log_columns tx now instance) lines in
      if None \<in> set rows then None
      else Some (table @ concat (chunks_of (max_statement_params div 10) (map the rows))))"

text \<open>
  \<open>roll_log_partitions\<close>: what is older than the first day kept goes, whichever partition holds it; the
  answer counts only the rows deleted one by one, those of the default partition.
\<close>

definition log_roll :: "(log_line \<Rightarrow> bool) \<Rightarrow> date \<Rightarrow> int \<Rightarrow> log_line list \<Rightarrow> log_line list \<times> nat" where
  "log_roll in_default today retention table =
     (let expired = (\<lambda>l. ll_ts l < start_of_day (today - retention)) in
      (delete_where expired table, count_where (\<lambda>l. expired l \<and> in_default l) table))"

definition log_purge :: "(log_line \<Rightarrow> bool) \<Rightarrow> instant \<Rightarrow> int \<Rightarrow> log_line list \<Rightarrow> log_line list \<times> nat" where
  "log_purge in_default now retention table = log_roll in_default (date_of now) retention table"

definition counted_by_payload_key ::
  "string \<Rightarrow> string list \<Rightarrow> instant \<Rightarrow> instant \<Rightarrow> int \<Rightarrow> log_line list \<Rightarrow> ((string \<times> instant) \<times> nat) list" where
  "counted_by_payload_key key names since until bucket table =
     (let held = (\<lambda>l. case map_of (ll_payload l) key of Some (JStr s) \<Rightarrow> s | _ \<Rightarrow> []);
          slot = (\<lambda>l. ll_ts l div seconds bucket * seconds bucket);
          rows = filter (\<lambda>l. since \<le> ll_ts l \<and> ll_ts l \<le> until \<and> ll_name l \<in> set names \<and> held l \<noteq> []) table in
      if names = [] then []
      else map (\<lambda>k. (k, count_where (\<lambda>l. (held l, slot l) = k) rows)) (remdups (map (\<lambda>l. (held l, slot l)) rows)))"

section \<open>The filter\<close>

datatype timeline_source = FromLogs | FromBusiness | FromIssues

definition source_value :: "timeline_source \<Rightarrow> string" where
  "source_value s = (case s of FromLogs \<Rightarrow> ''logs'' | FromBusiness \<Rightarrow> ''business'' | FromIssues \<Rightarrow> ''issue'')"

text \<open>An empty text is no filter, as \<open>None\<close> is.\<close>

record timeline_filter =
  tf_source :: string
  tf_app :: string
  tf_level :: string
  tf_org_id :: string
  tf_user_id :: string
  tf_entity_id :: string
  tf_request_id :: string
  tf_text :: string
  tf_from :: "instant option"
  tf_to :: "instant option"
  tf_before :: "instant option"
  tf_sort :: string
  tf_descending :: bool

definition wants :: "timeline_filter \<Rightarrow> timeline_source \<Rightarrow> bool" where
  "wants flt s \<longleftrightarrow> tf_source flt = [] \<or> tf_source flt = source_value s"

definition is_narrowed :: "timeline_filter \<Rightarrow> bool" where
  "is_narrowed flt \<longleftrightarrow> tf_org_id flt \<noteq> [] \<or> tf_user_id flt \<noteq> [] \<or> tf_entity_id flt \<noteq> [] \<or> tf_request_id flt \<noteq> [] \<or> tf_text flt \<noteq> []"

definition orders_whole_window :: "timeline_filter \<Rightarrow> bool" where
  "orders_whole_window flt \<longleftrightarrow> tf_sort flt = ''ts'' \<and> tf_descending flt"

definition upper_bound :: "timeline_filter \<Rightarrow> instant option" where
  "upper_bound flt = (case (tf_to flt, tf_before flt) of
       (Some a, Some b) \<Rightarrow> Some (min a b) | (Some a, None) \<Rightarrow> Some a | (None, b) \<Rightarrow> b)"

definition within :: "instant option \<Rightarrow> instant option \<Rightarrow> instant \<Rightarrow> bool" where
  "within lo hi t \<longleftrightarrow> (case lo of None \<Rightarrow> True | Some a \<Rightarrow> a \<le> t) \<and> (case hi of None \<Rightarrow> True | Some b \<Rightarrow> t \<le> b)"

section \<open>The sources\<close>

definition log_floor :: "instant \<Rightarrow> timeline_filter \<Rightarrow> instant option" where
  "log_floor now flt = (case tf_from flt of Some t \<Rightarrow> Some t
     | None \<Rightarrow> if is_narrowed flt then None else Some (now - default_window))"

definition log_matches :: "text_rules \<Rightarrow> instant \<Rightarrow> timeline_filter \<Rightarrow> log_line \<Rightarrow> bool" where
  "log_matches tx now flt l \<longleftrightarrow>
     within (log_floor now flt) (upper_bound flt) (ll_ts l)
   \<and> (tf_level flt = [] \<or> ll_level l = lower (tf_level flt))
   \<and> (tf_org_id flt = [] \<or> ll_org_id l = Some (tf_org_id flt))
   \<and> (tf_user_id flt = [] \<or> ll_user_id l = Some (tf_user_id flt))
   \<and> (tf_request_id flt = [] \<or> ll_request_id l = Some (tf_request_id flt))
   \<and> (tf_text flt = [] \<or>
        (let like = like_fragment (tf_text flt); hit = (\<lambda>t. case t of None \<Rightarrow> False | Some s \<Rightarrow> ilike s like) in
         ilike (ll_name l) like \<or> ilike (ll_logger l) like \<or> ilike (tx_document tx (ll_payload l)) like
         \<or> hit (ll_org_id l) \<or> hit (ll_user_id l) \<or> hit (ll_request_id l)))"

definition search_logs :: "text_rules \<Rightarrow> instant \<Rightarrow> timeline_filter \<Rightarrow> nat \<Rightarrow> log_line list \<Rightarrow> log_line list" where
  "search_logs tx now flt limit table = take limit (sort_key (\<lambda>l. - ll_ts l) (filter (log_matches tx now flt) table))"

text \<open>One sighting with the title of its issue, as the join returns it.\<close>

record sighting =
  sg_id :: uuid
  sg_ts :: instant
  sg_title :: string
  sg_context :: payload
  sg_issue_id :: uuid

definition context_text :: "text_rules \<Rightarrow> payload \<Rightarrow> string \<Rightarrow> string option" where
  "context_text tx context key = (case map_of context key of None \<Rightarrow> None | Some JNull \<Rightarrow> None
     | Some (JStr s) \<Rightarrow> Some s | Some v \<Rightarrow> Some (tx_of tx v))"

definition issue_matches :: "text_rules \<Rightarrow> timeline_filter \<Rightarrow> sighting \<Rightarrow> bool" where
  "issue_matches tx flt s \<longleftrightarrow>
     within (tf_from flt) (upper_bound flt) (sg_ts s)
   \<and> (tf_org_id flt = [] \<or> context_text tx (sg_context s) ''org_id'' = Some (tf_org_id flt))
   \<and> (tf_user_id flt = [] \<or> context_text tx (sg_context s) ''user_id'' = Some (tf_user_id flt))
   \<and> (tf_request_id flt = [] \<or> context_text tx (sg_context s) ''request_id'' = Some (tf_request_id flt))
   \<and> (tf_text flt = [] \<or> ilike (sg_title s) (like_fragment (tf_text flt))
        \<or> ilike (tx_document tx (sg_context s)) (like_fragment (tf_text flt)))"

definition search_issue_occurrences :: "text_rules \<Rightarrow> timeline_filter \<Rightarrow> nat \<Rightarrow> sighting list \<Rightarrow> sighting list" where
  "search_issue_occurrences tx flt limit table =
     take limit (sort_key (\<lambda>s. - int (sg_id s)) (filter (issue_matches tx flt) table))"

text \<open>The query of the journal: its identifiers are parsed.\<close>

definition filter_uuid :: "string \<Rightarrow> uuid option option" where
  "filter_uuid s = (if s = [] then Some None else map_option Some (uuid_parse s))"

definition business_query :: "timeline_filter \<Rightarrow> event_query option" where
  "business_query flt = (case (filter_uuid (tf_org_id flt), filter_uuid (tf_user_id flt), filter_uuid (tf_entity_id flt),
        filter_uuid (tf_request_id flt)) of
       (Some o', Some u, Some e, Some r) \<Rightarrow> Some \<lparr>eq_org_id = o', eq_user_id = u, eq_entity_id = e, eq_request_id = r,
          eq_app = [], eq_text = tf_text flt, eq_from = tf_from flt, eq_to = upper_bound flt\<rparr>
     | _ \<Rightarrow> None)"

section \<open>The entries\<close>

record timeline_entry =
  te_ts :: instant
  te_source :: timeline_source
  te_level :: string
  te_name :: string
  te_app :: string
  te_org_id :: "string option"
  te_org_name :: "string option"
  te_user_id :: "string option"
  te_user_name :: "string option"
  te_entity_id :: "string option"
  te_entity_name :: "string option"
  te_request_id :: "string option"
  te_request_name :: "string option"
  te_issue_id :: "string option"
  te_payload :: payload

definition app_of :: "string \<Rightarrow> string" where
  "app_of logger = (case split_on CHR ''.'' logger of
       head # next # _ \<Rightarrow> if head = ''apps'' \<and> join_with ''.'' (tl (split_on CHR ''.'' logger)) \<noteq> [] then next else head
     | ws \<Rightarrow> hd ws)"

definition business_level :: string where "business_level = ''info''"

definition from_log_line :: "log_line \<Rightarrow> timeline_entry" where
  "from_log_line l = \<lparr>te_ts = ll_ts l, te_source = FromLogs, te_level = ll_level l, te_name = ll_name l,
     te_app = app_of (ll_logger l), te_org_id = ll_org_id l, te_org_name = None, te_user_id = ll_user_id l,
     te_user_name = None, te_entity_id = None, te_entity_name = None, te_request_id = ll_request_id l,
     te_request_name = None, te_issue_id = None, te_payload = ll_payload l\<rparr>"

definition from_event :: "business_event \<Rightarrow> timeline_entry" where
  "from_event r = \<lparr>te_ts = be_created_at r, te_source = FromBusiness, te_level = business_level, te_name = be_kind r,
     te_app = be_app_name r, te_org_id = map_option uuid_str (be_org_id r), te_org_name = be_org_name r,
     te_user_id = map_option uuid_str (be_user_id r), te_user_name = be_user_name r,
     te_entity_id = map_option uuid_str (be_entity_id r), te_entity_name = be_entity_name r,
     te_request_id = map_option uuid_str (be_request_id r), te_request_name = be_request_name r,
     te_issue_id = None, te_payload = be_payload r\<rparr>"

text \<open>The model refuses an identifier that is neither a text nor nothing.\<close>

definition id_or_none :: "payload \<Rightarrow> string \<Rightarrow> string option option" where
  "id_or_none context key = (case map_of context key of None \<Rightarrow> Some None | Some JNull \<Rightarrow> Some None
     | Some (JStr s) \<Rightarrow> Some (Some s) | Some _ \<Rightarrow> None)"

definition from_issue :: "text_rules \<Rightarrow> sighting \<Rightarrow> timeline_entry option" where
  "from_issue tx s = (case (id_or_none (sg_context s) ''org_id'', id_or_none (sg_context s) ''user_id'',
        id_or_none (sg_context s) ''request_id'') of
       (Some o', Some u, Some r) \<Rightarrow> Some \<lparr>te_ts = sg_ts s, te_source = FromIssues, te_level = ''error'', te_name = sg_title s,
          te_app = app_of (text_or tx (sg_context s) ''logger'' []), te_org_id = o', te_org_name = None, te_user_id = u,
          te_user_name = None, te_entity_id = None, te_entity_name = None, te_request_id = r, te_request_name = None,
          te_issue_id = Some (uuid_str (sg_issue_id s)), te_payload = sg_context s\<rparr>
     | _ \<Rightarrow> None)"

section \<open>Merging\<close>

record timeline_world =
  tw_logs :: "log_line list"
  tw_journal :: "business_event list"
  tw_sightings :: "sighting list"

text \<open>A stable sort by a pair of keys is two stable sorts; \<open>reverse\<close> keeps equal rows in their order.\<close>

definition sort_value :: "string \<Rightarrow> timeline_entry \<Rightarrow> string" where
  "sort_value key e =
     (if key = ''source'' then source_value (te_source e) else if key = ''level'' then te_level e
      else if key = ''name'' then te_name e
      else (case (if key = ''org'' then te_org_id e else if key = ''user'' then te_user_id e
                  else if key = ''entity'' then te_entity_id e else te_request_id e) of None \<Rightarrow> [] | Some v \<Rightarrow> v))"

definition text_sort_keys :: "string list" where
  "text_sort_keys = [''source'', ''level'', ''org'', ''name'', ''user'', ''entity'', ''request'']"

definition sorted_entries :: "timeline_filter \<Rightarrow> timeline_entry list \<Rightarrow> timeline_entry list" where
  "sorted_entries flt es =
     (let by_key = (\<lambda>xs. if tf_sort flt \<in> set text_sort_keys then sort_key (sort_value (tf_sort flt)) (sort_key te_ts xs)
            else sort_key te_ts xs) in
      if tf_descending flt then rev (by_key (rev es)) else by_key es)"

definition kept :: "timeline_filter \<Rightarrow> timeline_entry \<Rightarrow> bool" where
  "kept flt e \<longleftrightarrow> (tf_app flt = [] \<or> te_app e = tf_app flt) \<and> (tf_entity_id flt = [] \<or> te_entity_id e = Some (tf_entity_id flt))
     \<and> (case tf_before flt of None \<Rightarrow> True | Some c \<Rightarrow> te_ts e < c)"

text \<open>Every value there, or none.\<close>

definition all_some :: "'a option list \<Rightarrow> 'a list option" where
  "all_some xs = (if None \<in> set xs then None else Some (map the xs))"

definition log_entries :: "text_rules \<Rightarrow> instant \<Rightarrow> timeline_filter \<Rightarrow> nat \<Rightarrow> timeline_world \<Rightarrow> timeline_entry list" where
  "log_entries tx now flt limit w =
     (if wants flt FromLogs then map from_log_line (search_logs tx now flt limit (tw_logs w)) else [])"

definition business_entries :: "text_rules \<Rightarrow> timeline_filter \<Rightarrow> nat \<Rightarrow> timeline_world \<Rightarrow> timeline_entry list option" where
  "business_entries tx flt limit w =
     (if wants flt FromBusiness \<and> tf_level flt \<in> {[], business_level}
      then map_option (\<lambda>q. map from_event (search_events (tx_document tx) q limit 0 (tw_journal w))) (business_query flt)
      else Some [])"

definition issue_entries :: "text_rules \<Rightarrow> timeline_filter \<Rightarrow> nat \<Rightarrow> timeline_world \<Rightarrow> timeline_entry list option" where
  "issue_entries tx flt limit w =
     (if wants flt FromIssues \<and> tf_level flt \<in> {[], ''error''}
      then all_some (map (from_issue tx) (search_issue_occurrences tx flt limit (tw_sightings w)))
      else Some [])"

definition timeline_search :: "text_rules \<Rightarrow> instant \<Rightarrow> timeline_filter \<Rightarrow> nat \<Rightarrow> timeline_world \<Rightarrow> timeline_entry list option" where
  "timeline_search tx now flt limit w =
     (case (business_entries tx flt limit w, issue_entries tx flt limit w) of
        (Some facts, Some sightings) \<Rightarrow>
          Some (take limit (sorted_entries flt (filter (kept flt) (log_entries tx now flt limit w @ facts @ sightings))))
      | _ \<Rightarrow> None)"

section \<open>The cursor\<close>

definition page_size :: nat where "page_size = 100"

definition next_cursor :: "timeline_entry list \<Rightarrow> timeline_filter \<Rightarrow> instant option" where
  "next_cursor entries flt =
     (if length entries < page_size \<or> \<not> orders_whole_window flt then None else Some (te_ts (last entries)))"


lemma concat_chunks: "0 < n \<Longrightarrow> concat (chunks_of n xs) = xs"
proof (induction n xs rule: chunks_of.induct)
  case (1 n xs)
  show ?case
  proof (cases "xs = []")
    case True
    then show ?thesis by (subst chunks_of.simps) simp
  next
    case False
    then have "concat (chunks_of n (drop n xs)) = drop n xs" using 1 by blast
    moreover have "chunks_of n xs = take n xs # chunks_of n (drop n xs)" using False 1(2) by (subst chunks_of.simps) simp
    ultimately show ?thesis by simp
  qed
qed

text \<open>Every line of a batch gets its row, in order, however many statements it takes.\<close>

lemma log_append_keeps_all:
  assumes "log_append tx now instance lines table = Some table'"
  shows "map Some table' = map Some table @ map (log_columns tx now instance) lines"
proof -
  have none: "None \<notin> set (map (log_columns tx now instance) lines)"
    using assms by (auto simp: log_append_def Let_def split: if_splits)
  have "0 < max_statement_params div 10" by (simp add: max_statement_params_def)
  then have "table' = table @ map the (map (log_columns tx now instance) lines)"
    using assms none by (simp add: log_append_def Let_def concat_chunks split: if_splits)
  moreover have "Some (the (log_columns tx now instance l)) = log_columns tx now instance l" if "l \<in> set lines" for l
  proof -
    have "log_columns tx now instance l \<noteq> None" using none that by (metis image_eqI list.set_map)
    then show ?thesis by simp
  qed
  ultimately show ?thesis by simp
qed

end
