(* ===== verification/Timeline_Pages.thy ===== *)
theory Timeline_Pages
  imports Timeline
begin

text \<open>
  What the pages of the Timeline show: the first page of the newest-first order, exact up to the time
  between a fact's instant and the minting of its identifier, an older page, which may jump over lines
  for good, and the list of log lines alone, which ends with its second page.
\<close>

section \<open>Nearly newest first\<close>

text \<open>Ascending in the opposite of the instant is newest first.\<close>

definition age :: "timeline_entry \<Rightarrow> int" where
  "age e = - te_ts e"

text \<open>No later entry is newer by more than \<open>d\<close>.\<close>

definition nearly :: "int \<Rightarrow> timeline_entry list \<Rightarrow> bool" where
  "nearly d es \<longleftrightarrow> sorted_wrt (\<lambda>a b. b \<le> a + d) (map te_ts es)"

lemma nearly_cut:
  assumes "nearly d es" "e \<in> set (drop n es)"
  shows "n \<le> length (filter (\<lambda>x. te_ts e - d \<le> te_ts x) (take n es))"
proof -
  have "nearly d (take n es @ drop n es)" using assms(1) by simp
  then have "te_ts e - d \<le> te_ts x" if "x \<in> set (take n es)" for x
    using assms(2) that by (fastforce simp: nearly_def sorted_wrt_append simp del: append_take_drop_id)
  then have "filter (\<lambda>x. te_ts e - d \<le> te_ts x) (take n es) = take n es" by (intro filter_True) blast
  moreover have "n \<le> length es" using assms(2) by (cases "n \<le> length es") auto
  ultimately show ?thesis by simp
qed

lemma newest_bound:
  assumes "sorted_wrt (\<lambda>x y. te_ts y \<le> te_ts x) es" "n \<le> length (filter (\<lambda>y. t \<le> te_ts y) es)" "x \<in> set (take n es)"
  shows "t \<le> te_ts x"
  using assms
proof (induction es arbitrary: n)
  case (Cons e es)
  show ?case
  proof (cases "t \<le> te_ts e")
    case True
    then show ?thesis using Cons by (cases n) auto
  next
    case False
    then have "filter (\<lambda>y. t \<le> te_ts y) (e # es) = []" using Cons.prems(1) by (fastforce simp: filter_empty_conv)
    then show ?thesis using Cons.prems(2,3) by simp
  qed
qed simp

section \<open>The order of a page\<close>

lemma sorted_entries_mset [simp]: "mset (sorted_entries flt es) = mset es"
  by (simp add: sorted_entries_def Let_def)

lemma sorted_entries_set: "set (sorted_entries flt es) = set es"
  by (metis set_mset_mset sorted_entries_mset)

lemma sorted_entries_length: "length (sorted_entries flt es) = length es"
  by (metis size_mset sorted_entries_mset)

lemma newest_first_ages:
  assumes "orders_whole_window flt"
  shows "map age (sorted_entries flt es) = sort (map age es)"
proof (rule properties_for_sort[symmetric])
  have "sorted_entries flt es = rev (sort_key te_ts (rev es))"
    using assms by (simp add: sorted_entries_def orders_whole_window_def text_sort_keys_def)
  then show "sorted (map age (sorted_entries flt es))"
    using sorted_sort_key[of te_ts "rev es"] by (simp add: sorted_wrt_map sorted_wrt_rev age_def rev_map[symmetric])
qed simp

lemma newest_first_descending:
  assumes "orders_whole_window flt"
  shows "sorted_wrt (\<lambda>x y. te_ts y \<le> te_ts x) (sorted_entries flt es)"
proof -
  have "sorted (map age (sorted_entries flt es))" using newest_first_ages[OF assms] by simp
  then show ?thesis by (simp add: sorted_wrt_map age_def)
qed


section \<open>The first page\<close>

text \<open>The whole list: a limit no source reaches.\<close>

definition no_limit :: "timeline_world \<Rightarrow> nat" where
  "no_limit w = length (tw_logs w) + length (tw_journal w) + length (tw_sightings w)"

definition timeline_all :: "text_rules \<Rightarrow> instant \<Rightarrow> timeline_filter \<Rightarrow> timeline_world \<Rightarrow> timeline_entry list option" where
  "timeline_all tx now flt w = timeline_search tx now flt (no_limit w) w"

text \<open>
  The two tables that are read in the order of their identifiers: an identifier is minted at the insert,
  the instant of the row is its transaction's start.  Where no row waits longer than \<open>d\<close> between the
  two, an earlier identifier has no instant later by more than \<open>d\<close>.
\<close>

definition minted_within :: "int \<Rightarrow> timeline_world \<Rightarrow> bool" where
  "minted_within d w \<longleftrightarrow> (\<forall>r \<in> set (tw_journal w). \<forall>q \<in> set (tw_journal w). be_id r \<le> be_id q \<longrightarrow> be_created_at r \<le> be_created_at q + d)
     \<and> (\<forall>r \<in> set (tw_sightings w). \<forall>q \<in> set (tw_sightings w). sg_id r \<le> sg_id q \<longrightarrow> sg_ts r \<le> sg_ts q + d)"

lemma take_limit: "length xs \<le> m \<Longrightarrow> take n (take m xs) = take n xs"
  by (metis take_all)

lemma log_entries_prefix:
  assumes "0 \<le> d"
  shows "\<exists>A. nearly d A \<and> length A \<le> length (tw_logs w) \<and> log_entries tx now flt (no_limit w) w = A \<and> log_entries tx now flt n w = take n A"
proof -
  let ?S = "sort_key (\<lambda>l. - ll_ts l) (filter (log_matches tx now flt) (tw_logs w))"
  have "length ?S \<le> length (tw_logs w)" by simp
  then have "length ?S \<le> no_limit w" unfolding no_limit_def by linarith
  then have "search_logs tx now flt (no_limit w) (tw_logs w) = ?S" by (simp add: search_logs_def)
  moreover have "sorted (map (\<lambda>l. - ll_ts l) ?S)" by (rule sorted_sort_key)
  then have "sorted_wrt (\<lambda>a b. ll_ts b \<le> ll_ts a + d) ?S"
    unfolding sorted_wrt_map by (rule sorted_wrt_mono_rel[rotated]) (use assms in simp)
  then have "nearly d (map from_log_line ?S)" by (simp add: nearly_def sorted_wrt_map from_log_line_def)
  ultimately show ?thesis unfolding log_entries_def search_logs_def
    by (cases "wants flt FromLogs") (simp_all add: take_map nearly_def)
qed

lemma business_entries_prefix:
  assumes "business_entries tx flt (no_limit w) w = Some B" "minted_within d w"
  shows "nearly d B \<and> length B \<le> length (tw_journal w) \<and> business_entries tx flt n w = Some (take n B)"
proof (cases "wants flt FromBusiness \<and> tf_level flt \<in> {[], business_level}")
  case False
  then show ?thesis using assms(1) by (auto simp: business_entries_def nearly_def)
next
  case True
  obtain q where q: "business_query flt = Some q" using assms(1) True by (auto simp: business_entries_def)
  let ?S = "sort_key (\<lambda>r. - int (be_id r)) (filter (event_matches (tx_document tx) q) (tw_journal w))"
  have "length ?S \<le> length (tw_journal w)" by simp
  then have "length ?S \<le> no_limit w" unfolding no_limit_def by linarith
  then have B: "B = map from_event ?S" using assms(1) True q by (simp add: business_entries_def search_events_def)
  have "sorted (map (\<lambda>r. - int (be_id r)) ?S)" by (rule sorted_sort_key)
  then have "sorted_wrt (\<lambda>a b. be_created_at b \<le> be_created_at a + d) ?S"
    unfolding sorted_wrt_map
  proof (rule sorted_wrt_mono_rel[rotated])
    fix a b assume "a \<in> set ?S" "b \<in> set ?S" "- int (be_id a) \<le> - int (be_id b)"
    then have "a \<in> set (tw_journal w)" "b \<in> set (tw_journal w)" "be_id b \<le> be_id a" by simp_all
    then show "be_created_at b \<le> be_created_at a + d" using assms(2) unfolding minted_within_def by blast
  qed
  then have "nearly d B" by (simp add: B nearly_def sorted_wrt_map from_event_def)
  moreover have "length B \<le> length (tw_journal w)" by (simp add: B)
  ultimately show ?thesis using True q unfolding B by (simp add: business_entries_def search_events_def take_map)
qed

lemma all_some_take: "all_some xs = Some ys \<Longrightarrow> all_some (take n xs) = Some (take n ys)"
  by (auto simp: all_some_def take_map dest: in_set_takeD split: if_splits)

lemma all_some_map:
  assumes "all_some (map f xs) = Some ys" "\<And>x y. x \<in> set xs \<Longrightarrow> f x = Some y \<Longrightarrow> g y = h x"
  shows "map g ys = map h xs"
proof -
  have "\<exists>y. f x = Some y" if "x \<in> set xs" for x
  proof -
    have "None \<notin> f ` set xs" using assms(1) by (auto simp: all_some_def split: if_splits)
    then have "f x \<noteq> None" using that by (metis image_eqI)
    then show ?thesis by blast
  qed
  then show ?thesis using assms by (auto simp: all_some_def split: if_splits)
qed

lemma from_issue_ts: "from_issue tx s = Some e \<Longrightarrow> te_ts e = sg_ts s \<and> te_source e = FromIssues"
  by (auto simp: from_issue_def split: option.splits prod.splits)

lemma issue_entries_prefix:
  assumes "issue_entries tx flt (no_limit w) w = Some C" "minted_within d w"
  shows "nearly d C \<and> length C \<le> length (tw_sightings w) \<and> issue_entries tx flt n w = Some (take n C)"
proof (cases "wants flt FromIssues \<and> tf_level flt \<in> {[], ''error''}")
  case False
  then show ?thesis using assms(1) by (auto simp: issue_entries_def nearly_def)
next
  case True
  let ?S = "sort_key (\<lambda>s. - int (sg_id s)) (filter (issue_matches tx flt) (tw_sightings w))"
  have "length ?S \<le> length (tw_sightings w)" by simp
  then have "length ?S \<le> no_limit w" unfolding no_limit_def by linarith
  then have C: "all_some (map (from_issue tx) ?S) = Some C"
    using assms(1) True by (simp add: issue_entries_def search_issue_occurrences_def)
  have "sorted (map (\<lambda>s. - int (sg_id s)) ?S)" by (rule sorted_sort_key)
  then have "sorted_wrt (\<lambda>a b. sg_ts b \<le> sg_ts a + d) ?S"
    unfolding sorted_wrt_map
  proof (rule sorted_wrt_mono_rel[rotated])
    fix a b assume "a \<in> set ?S" "b \<in> set ?S" "- int (sg_id a) \<le> - int (sg_id b)"
    then have "a \<in> set (tw_sightings w)" "b \<in> set (tw_sightings w)" "sg_id b \<le> sg_id a" by simp_all
    then show "sg_ts b \<le> sg_ts a + d" using assms(2) unfolding minted_within_def by blast
  qed
  moreover have "map te_ts C = map sg_ts ?S" using all_some_map[OF C, of te_ts sg_ts] from_issue_ts by simp
  ultimately have "nearly d C" by (simp add: nearly_def sorted_wrt_map)
  moreover have "length C \<le> length (tw_sightings w)" using C by (auto simp: all_some_def split: if_splits)
  ultimately show ?thesis using True all_some_take[OF C]
    by (simp add: issue_entries_def search_issue_occurrences_def take_map)
qed

lemma mset_take_le: "mset (take n xs) \<subseteq># mset xs"
  by (metis append_take_drop_id mset_append mset_subset_eq_add_left)

text \<open>The rows a cut list leaves out, and the order of what it keeps.\<close>

lemma cut_newest:
  fixes A B C :: "timeline_entry list" and n :: nat
  assumes "orders_whole_window flt" "nearly d A" "nearly d B" "nearly d C" "0 \<le> d"
  defines "S \<equiv> sorted_entries flt (take n A @ take n B @ take n C)"
  shows "\<exists>rest. mset (A @ B @ C) = mset (take n S @ rest)
    \<and> (\<forall>e \<in> set rest. \<forall>x \<in> set (take n S). te_ts e \<le> te_ts x + d)"
proof -
  have desc: "sorted_wrt (\<lambda>x y. te_ts y \<le> te_ts x) S" unfolding S_def by (rule newest_first_descending[OF assms(1)])
  let ?rest = "drop n S @ drop n A @ drop n B @ drop n C"
  have parts: "count (mset xs) v = count (mset (take n xs)) v + count (mset (drop n xs)) v" for v and xs :: "timeline_entry list"
    by (metis append_take_drop_id count_union mset_append)
  have "mset S = mset (take n A) + mset (take n B) + mset (take n C)" by (simp add: S_def)
  then have "count (mset S) v = count (mset (take n A)) v + count (mset (take n B)) v + count (mset (take n C)) v" for v by simp
  then have "count (mset (A @ B @ C)) v = count (mset (take n S @ ?rest)) v" for v
    using parts[of S v] parts[of A v] parts[of B v] parts[of C v] by simp
  then have "mset (A @ B @ C) = mset (take n S @ ?rest)" by (rule multiset_eqI)
  moreover have "te_ts e \<le> te_ts x + d" if e: "e \<in> set ?rest" and x: "x \<in> set (take n S)" for e x
  proof (cases "e \<in> set (drop n S)")
    case True
    have "sorted_wrt (\<lambda>x y. te_ts y \<le> te_ts x) (take n S @ drop n S)" using desc by simp
    then show ?thesis using True x assms(5) by (fastforce simp: sorted_wrt_append simp del: append_take_drop_id)
  next
    case False
    let ?P = "\<lambda>y. te_ts e - d \<le> te_ts y"
    have "length (filter ?P S) = length (filter ?P (take n A @ take n B @ take n C))"
      unfolding S_def by (metis mset_filter size_mset sorted_entries_mset)
    moreover have "n \<le> length (filter ?P (take n A)) \<or> n \<le> length (filter ?P (take n B)) \<or> n \<le> length (filter ?P (take n C))"
      using False e nearly_cut[OF assms(2), of e n] nearly_cut[OF assms(3), of e n] nearly_cut[OF assms(4), of e n]
      by auto
    ultimately have "n \<le> length (filter ?P S)" by auto
    from newest_bound[OF desc this x] show ?thesis by simp
  qed
  ultimately show ?thesis by blast
qed

lemma newest_exact:
  assumes "mset all = mset (page @ rest)" "sorted (map age all)" "sorted (map age page)"
    and "\<forall>e \<in> set rest. \<forall>x \<in> set page. te_ts e \<le> te_ts x" "length page = min n (length all)"
  shows "map te_ts page = take n (map te_ts all)"
proof -
  let ?rest = "sort (map age rest)"
  have "sorted (map age page @ ?rest)"
    using assms(3,4) by (auto simp: sorted_append age_def)
  moreover have "mset (map age page @ ?rest) = mset (map age all)" using assms(1) by simp
  ultimately have "map age all = map age page @ ?rest"
    using assms(2) properties_for_sort[of "map age page @ ?rest" "map age all"] by (metis sorted_sort_id)
  then have "take n (map age all) = map age page"
    using assms(5) arg_cong[OF assms(1), of size] by (cases "n \<le> length all") auto
  then have "map uminus (take n (map age all)) = map uminus (map age page)" by simp
  then show ?thesis by (simp add: take_map[symmetric] comp_def age_def)
qed

text \<open>
  C38.  The first page of the Timeline, newest first and without a filter that is applied after the
  sources are cut (an app, an entity).  Its rows are rows of the whole list, newest first, as many as
  the limit where there are as many; and a row that is not on it is at most \<open>d\<close> newer than any row
  shown, \<open>d\<close> being the longest time any row of the journal or of the sightings waited between its
  instant and its identifier.  Where none waited, the page shows exactly the newest instants.
\<close>

theorem first_page_newest:
  assumes "timeline_all tx now flt w = Some all" "minted_within d w" "0 \<le> d"
    and "orders_whole_window flt" "tf_app flt = []" "tf_entity_id flt = []" "tf_before flt = None"
  shows "\<exists>page. timeline_search tx now flt limit w = Some page
    \<and> mset page \<subseteq># mset all \<and> length page = min limit (length all)
    \<and> sorted_wrt (\<lambda>x y. te_ts y \<le> te_ts x) page
    \<and> (\<forall>e \<in># mset all - mset page. \<forall>x \<in> set page. te_ts e \<le> te_ts x + d)
    \<and> (d = 0 \<longrightarrow> map te_ts page = take limit (map te_ts all))"
proof -
  obtain B C where BC: "business_entries tx flt (no_limit w) w = Some B" "issue_entries tx flt (no_limit w) w = Some C"
    using assms(1) by (auto simp: timeline_all_def timeline_search_def split: option.splits)
  obtain A where A: "nearly d A" "length A \<le> length (tw_logs w)" "log_entries tx now flt (no_limit w) w = A" "log_entries tx now flt limit w = take limit A"
    using log_entries_prefix[OF assms(3), of w tx now flt limit] by blast
  note B = business_entries_prefix[OF BC(1) assms(2), of limit]
  note C = issue_entries_prefix[OF BC(2) assms(2), of limit]
  have kept: "filter (kept flt) es = es" for es using assms(5-7) by (simp add: kept_def)
  define page where "page = take limit (sorted_entries flt (take limit A @ take limit B @ take limit C))"
  have search: "timeline_search tx now flt limit w = Some page"
    using A(4) B C by (simp add: timeline_search_def kept page_def)
  have whole: "all = take (no_limit w) (sorted_entries flt (A @ B @ C))"
    using assms(1) A(3) BC by (simp add: timeline_all_def timeline_search_def kept)
  have "length A + length B + length C \<le> no_limit w" using A(2) B C unfolding no_limit_def by linarith
  then have all: "all = sorted_entries flt (A @ B @ C)" using whole size_mset[of "sorted_entries flt (A @ B @ C)"] by simp
  obtain rest where rest: "mset all = mset (page @ rest)" "\<forall>e \<in> set rest. \<forall>x \<in> set page. te_ts e \<le> te_ts x + d"
    using cut_newest[OF assms(4) A(1) conjunct1[OF B] conjunct1[OF C] assms(3), of limit] by (auto simp: all page_def)
  have part: "mset page \<subseteq># mset all" "mset all - mset page = mset rest" using rest(1) by simp_all
  have desc: "sorted_wrt (\<lambda>x y. te_ts y \<le> te_ts x) page" "sorted (map age page)" "sorted (map age all)"
    unfolding page_def all using newest_first_descending[OF assms(4)] newest_first_ages[OF assms(4)]
    by (simp_all add: sorted_wrt_take take_map[symmetric])
  have len: "length page = min limit (length all)" by (simp add: page_def all sorted_entries_length min_def)
  have "map te_ts page = take limit (map te_ts all)" if "d = 0"
    using newest_exact[OF rest(1) desc(3,2) _ len] rest(2) that by simp
  then show ?thesis using search part rest(2) desc(1) len by auto
qed


section \<open>An older page\<close>

lemma from_log_line_sel [simp]: "te_ts (from_log_line l) = ll_ts l" "te_source (from_log_line l) = FromLogs"
  by (simp_all add: from_log_line_def)

lemma search_logs_descending: "sorted_wrt (\<lambda>x y. ll_ts y \<le> ll_ts x) (search_logs tx now flt limit table)"
proof -
  have "sorted (map (\<lambda>l. - ll_ts l) (sort_key (\<lambda>l. - ll_ts l) (filter (log_matches tx now flt) table)))"
    by (rule sorted_sort_key)
  then have "sorted_wrt (\<lambda>x y. ll_ts y \<le> ll_ts x) (sort_key (\<lambda>l. - ll_ts l) (filter (log_matches tx now flt) table))"
    unfolding sorted_wrt_map by (simp only: neg_le_iff_le)
  then show ?thesis unfolding search_logs_def by (rule sorted_wrt_take)
qed

lemma descending_last:
  "sorted_wrt (\<lambda>x y. f y \<le> (f x :: int)) xs \<Longrightarrow> x \<in> set xs \<Longrightarrow> f (last xs) \<le> f x"
proof (induction xs)
  case (Cons a xs)
  then show ?case by (cases "xs = []") auto
qed simp

text \<open>The entries of the other two sources are neither lines nor made of lines.\<close>

lemma business_source: "business_entries tx flt n w = Some B \<Longrightarrow> e \<in> set B \<Longrightarrow> te_source e = FromBusiness"
  by (auto simp: business_entries_def from_event_def split: if_splits)

lemma issue_source:
  assumes "issue_entries tx flt n w = Some C" "e \<in> set C"
  shows "te_source e = FromIssues"
proof -
  have "wants flt FromIssues \<and> tf_level flt \<in> {[], ''error''}"
    using assms by (auto simp: issue_entries_def split: if_splits)
  then have all: "all_some (map (from_issue tx) (search_issue_occurrences tx flt n (tw_sightings w))) = Some C"
    using assms(1) by (simp add: issue_entries_def)
  have "map te_source C = map (\<lambda>_. FromIssues) (search_issue_occurrences tx flt n (tw_sightings w))"
    by (rule all_some_map[OF all]) (use from_issue_ts in blast)
  then have "set (map te_source C) \<subseteq> {FromIssues}" by auto
  then show ?thesis using assms(2) by auto
qed

text \<open>What a page can hold: entries strictly older than its cursor, and of the lines only the fetched ones.\<close>

lemma page_before_cursor:
  "timeline_search tx now flt limit w = Some page \<Longrightarrow> tf_before flt = Some c \<Longrightarrow> e \<in> set page \<Longrightarrow> te_ts e < c"
  by (auto simp: timeline_search_def kept_def sorted_entries_set dest!: in_set_takeD split: option.splits)

lemma page_lines:
  assumes "timeline_search tx now flt limit w = Some page" "from_log_line l \<in> set page"
  shows "from_log_line l \<in> from_log_line ` set (search_logs tx now flt limit (tw_logs w))"
proof -
  obtain B C where BC: "business_entries tx flt limit w = Some B" "issue_entries tx flt limit w = Some C"
    "page = take limit (sorted_entries flt (filter (kept flt) (log_entries tx now flt limit w @ B @ C)))"
    using assms(1) by (auto simp: timeline_search_def split: option.splits)
  have "from_log_line l \<in> set (log_entries tx now flt limit w @ B @ C)"
    using assms(2) unfolding BC(3) by (auto simp: sorted_entries_set dest!: in_set_takeD)
  moreover have "from_log_line l \<notin> set B" "from_log_line l \<notin> set C"
    using business_source[OF BC(1), of "from_log_line l"] issue_source[OF BC(2), of "from_log_line l"] by auto
  ultimately show ?thesis by (auto simp: log_entries_def split: if_splits)
qed

text \<open>
  C39.  A page below a line.  The cursor's own line is fetched again and dropped, so one line less than the
  limit is left; when the next older entry of the other sources is older than every line fetched, it
  takes the free place, the next cursor is its instant, and every line between it and the lines fetched
  is neither on this page nor on any later one.
\<close>

theorem older_page_jumps:
  assumes "orders_whole_window flt" "tf_app flt = []" "tf_entity_id flt = []" "tf_before flt = Some c" "wants flt FromLogs"
    and "lines = search_logs tx now flt limit (tw_logs w)" "length lines = limit" "\<exists>l \<in> set lines. ll_ts l = c"
    and "business_entries tx flt limit w = Some facts" "issue_entries tx flt limit w = Some sightings"
    and "facts @ sightings \<noteq> []" "\<forall>e \<in> set (facts @ sightings). te_ts e < ll_ts (last lines)"
  shows "\<exists>page. timeline_search tx now flt limit w = Some page \<and> te_ts (last page) < ll_ts (last lines)
    \<and> (\<forall>l. te_ts (last page) < ll_ts l \<and> ll_ts l < ll_ts (last lines) \<longrightarrow> from_log_line l \<notin> set page
        \<and> (\<forall>now' flt' limit' b page'. tf_before flt' = Some b \<and> b \<le> te_ts (last page)
             \<and> timeline_search tx now' flt' limit' w = Some page' \<longrightarrow> from_log_line l \<notin> set page'))"
proof -
  define K where "K = filter (kept flt) (map from_log_line lines)"
  define E where "E = filter (kept flt) (facts @ sightings)"
  define page where "page = take limit (sorted_entries flt (K @ E))"
  have search: "timeline_search tx now flt limit w = Some page"
    using assms(5,6,9,10) by (simp add: timeline_search_def log_entries_def page_def K_def E_def)
  have desc: "sorted_wrt (\<lambda>x y. ll_ts y \<le> ll_ts x) lines" unfolding assms(6) by (rule search_logs_descending)
  have low: "ll_ts (last lines) \<le> ll_ts l" if "l \<in> set lines" for l by (rule descending_last[OF desc that])
  obtain l0 where l0: "l0 \<in> set lines" "ll_ts l0 = c" using assms(8) by blast
  have kept: "kept flt e \<longleftrightarrow> te_ts e < c" for e using assms(2-4) by (simp add: kept_def)
  have E: "E = facts @ sightings"
    using assms(12) low[OF l0(1)] l0(2) unfolding E_def kept by (intro filter_True) fastforce
  have "length K < length lines"
    using l0 length_filter_less[of "from_log_line l0" "map from_log_line lines" "kept flt"] by (simp add: K_def kept)
  then have few: "length K < limit" using assms(7) by simp
  have some: "\<exists>e \<in> set page. te_ts e < ll_ts (last lines)"
  proof (rule ccontr)
    assume "\<not> ?thesis"
    then have all: "filter (\<lambda>e. ll_ts (last lines) \<le> te_ts e) page = page" by (intro filter_True) fastforce
    have "filter (\<lambda>e. ll_ts (last lines) \<le> te_ts e) E = []" using assms(12) unfolding E filter_empty_conv by (meson not_le)
    then have "length (filter (\<lambda>e. ll_ts (last lines) \<le> te_ts e) (K @ E)) \<le> length K" by simp
    moreover have "mset (filter (\<lambda>e. ll_ts (last lines) \<le> te_ts e) page) \<subseteq># mset (filter (\<lambda>e. ll_ts (last lines) \<le> te_ts e) (K @ E))"
      using mset_take_le[of limit "sorted_entries flt (K @ E)"] unfolding page_def mset_filter sorted_entries_mset
      by (intro multiset_filter_mono)
    then have "length (filter (\<lambda>e. ll_ts (last lines) \<le> te_ts e) page) \<le> length (filter (\<lambda>e. ll_ts (last lines) \<le> te_ts e) (K @ E))"
      using size_mset_mono by (metis size_mset)
    ultimately have "length page \<le> length K" unfolding all by linarith
    moreover have "length page = min limit (length (K @ E))"
      by (simp add: page_def sorted_entries_length min.commute)
    moreover have "0 < length E" using assms(11) E by simp
    ultimately show False using few unfolding length_append by linarith
  qed
  have "sorted_wrt (\<lambda>x y. te_ts y \<le> te_ts x) page"
    unfolding page_def by (intro sorted_wrt_take newest_first_descending[OF assms(1)])
  then have last: "te_ts (last page) < ll_ts (last lines)" using some descending_last by fastforce
  have "from_log_line l \<notin> set page" if "ll_ts l < ll_ts (last lines)" for l
  proof
    assume "from_log_line l \<in> set page"
    from page_lines[OF search this] obtain k where "k \<in> set lines" "from_log_line l = from_log_line k"
      unfolding assms(6) by blast
    then show False using low[of k] that by (metis from_log_line_sel(1) not_le)
  qed
  moreover have "from_log_line l \<notin> set page'"
    if "tf_before flt' = Some b" "b \<le> t" "timeline_search tx now' flt' limit' w = Some page'" "t < ll_ts l" for l t flt' b page' now' limit'
    using page_before_cursor[OF that(3,1), of "from_log_line l"] that(2,4) by auto
  ultimately show ?thesis using search last by blast
qed


text \<open>
  C40.  A list of log lines alone (the filter of the source) ends with its second page: a full first page
  offers a cursor, the page below it fetches the cursor's own line again, is short of the limit by it,
  and a page short of the limit offers no cursor, however many older lines there are.
\<close>

theorem lines_end_with_second_page:
  assumes "tf_source flt = ''logs''" "orders_whole_window flt"
    and "timeline_search tx now flt page_size w = Some page" "next_cursor page flt = Some c"
    and "timeline_search tx now' (flt\<lparr>tf_before := Some c\<rparr>) page_size w = Some page'" "now \<le> now'"
  shows "next_cursor page' (flt\<lparr>tf_before := Some c\<rparr>) = None"
proof -
  let ?older = "flt\<lparr>tf_before := Some c\<rparr>"
  let ?lines = "search_logs tx now' ?older page_size (tw_logs w)"
  have only: "wants flt FromLogs" "\<not> wants flt FromBusiness" "\<not> wants flt FromIssues"
    "wants ?older FromLogs" "\<not> wants ?older FromBusiness" "\<not> wants ?older FromIssues"
    using assms(1) by (simp_all add: wants_def source_value_def)
  have page': "page' = take page_size (sorted_entries ?older (filter (kept ?older) (map from_log_line ?lines)))"
    using assms(5) only by (simp add: timeline_search_def log_entries_def business_entries_def issue_entries_def)
  have c: "page \<noteq> []" "te_ts (last page) = c" using assms(4) by (auto simp: next_cursor_def page_size_def split: if_splits)
  have page: "page = take page_size (sorted_entries flt (filter (kept flt) (map from_log_line (search_logs tx now flt page_size (tw_logs w)))))"
    using assms(3) only by (simp add: timeline_search_def log_entries_def business_entries_def issue_entries_def)
  have "last page \<in> set page" using c(1) by simp
  then have "last page \<in> set (sorted_entries flt (filter (kept flt) (map from_log_line (search_logs tx now flt page_size (tw_logs w)))))"
    by (subst (asm) (2) page) (rule in_set_takeD)
  then obtain l0 where l0: "l0 \<in> set (search_logs tx now flt page_size (tw_logs w))" "ll_ts l0 = c"
    using c(2) by (auto simp: sorted_entries_set)
  then have m0: "l0 \<in> set (tw_logs w)" "log_matches tx now flt l0" by (auto simp: search_logs_def dest!: in_set_takeD)
  have "length (filter (kept ?older) (map from_log_line ?lines)) < page_size"
  proof (cases "?lines = []")
    case False
    have matched: "log_matches tx now' ?older l" if "l \<in> set ?lines" for l
      using that by (auto simp: search_logs_def dest!: in_set_takeD)
    have upper: "ll_ts l \<le> c" if "l \<in> set ?lines" for l
      using matched[OF that] by (auto simp: log_matches_def within_def upper_bound_def split: option.splits)
    have low: "within (log_floor now' ?older) None (ll_ts l)" if "l \<in> set ?lines" for l
      using matched[OF that] by (simp add: log_matches_def within_def)
    obtain h where h: "h \<in> set ?lines" using False by (cases ?lines) auto
    have "within (log_floor now' ?older) (upper_bound ?older) c"
      using low[OF h] upper[OF h] m0(2) l0(2) by (auto simp: log_matches_def within_def upper_bound_def split: option.splits)
    then have "log_matches tx now' ?older l0" using m0(2) l0(2) by (simp add: log_matches_def)
    then have there: "l0 \<in> set (filter (log_matches tx now' ?older) (tw_logs w))" using m0(1) by simp
    let ?S = "sort_key (\<lambda>l. - ll_ts l) (filter (log_matches tx now' ?older) (tw_logs w))"
    have "hd ?lines = hd ?S" using False by (simp add: search_logs_def)
    moreover have "ll_ts l \<le> ll_ts (hd ?S)" if "l \<in> set ?S" for l
      using sorted_sort_key[of "\<lambda>l. - ll_ts l" "filter (log_matches tx now' ?older) (tw_logs w)"] that by (cases ?S) auto
    ultimately have "c \<le> ll_ts (hd ?lines)" using there l0(2) by fastforce
    then have "\<not> kept ?older (from_log_line (hd ?lines))" by (simp add: kept_def)
    then have "length (filter (kept ?older) (map from_log_line ?lines)) < length (map from_log_line ?lines)"
      using False by (intro length_filter_less[of "from_log_line (hd ?lines)"]) auto
    also have "\<dots> \<le> page_size" by (simp add: search_logs_def)
    finally show ?thesis .
  qed (simp add: page_size_def)
  then have "length page' < page_size"
    unfolding page' length_take sorted_entries_length by (rule min.strict_coboundedI1)
  then show ?thesis by (simp add: next_cursor_def)
qed


section \<open>Examples\<close>

definition demo_rules :: text_rules where
  "demo_rules = \<lparr>tx_of = (\<lambda>v. []), tx_document = (\<lambda>d. []), tx_iso = (\<lambda>s. None)\<rparr>"

definition demo_filter :: timeline_filter where
  "demo_filter = \<lparr>tf_source = [], tf_app = [], tf_level = [], tf_org_id = [], tf_user_id = [], tf_entity_id = [],
     tf_request_id = [], tf_text = [], tf_from = Some 0, tf_to = None, tf_before = None, tf_sort = ''ts'', tf_descending = True\<rparr>"

definition demo_line :: "instant \<Rightarrow> log_line" where
  "demo_line t = \<lparr>ll_ts = t, ll_level = ''info'', ll_logger = ''apps.todo'', ll_name = ''line'', ll_org_id = None,
     ll_user_id = None, ll_request_id = None, ll_instance = ''i'', ll_payload = []\<rparr>"

definition demo_fact :: "uuid \<Rightarrow> instant \<Rightarrow> business_event" where
  "demo_fact i t = \<lparr>be_id = i, be_created_at = t, be_app_name = ''todo'', be_verb = ''created'', be_icon = [], be_user_id = None,
     be_user_name = None, be_org_id = None, be_org_name = None, be_entity_id = None, be_entity_name = None, be_request_id = None,
     be_request_name = None, be_ip_address = None, be_payload = [], be_checked_at = None\<rparr>"

text \<open>Six lines and an older fact, two rows a page.\<close>

definition demo_timeline :: timeline_world where
  "demo_timeline = \<lparr>tw_logs = map demo_line [9, 8, 7, 6, 5, 4], tw_journal = [demo_fact 1 1], tw_sightings = []\<rparr>"

lemmas demo_timeline_defs = demo_rules_def demo_filter_def demo_line_def demo_fact_def demo_timeline_def

lemma demo_all: "map_option (map te_ts) (timeline_all demo_rules 9 demo_filter demo_timeline) = Some [9, 8, 7, 6, 5, 4, 1]"
  by code_simp

text \<open>A fact of a transaction that began at 1 and was recorded, with the identifier 3, after one of instant 5.\<close>

definition late_fact :: timeline_world where
  "late_fact = \<lparr>tw_logs = [], tw_journal = [demo_fact 1 2, demo_fact 2 5, demo_fact 3 1], tw_sightings = []\<rparr>"

text \<open>The fact at 5 is missing from a page of one row, which shows the one at 1: four off, the longest wait.\<close>

lemma first_page_newest_witness:
  "(\<exists>page. timeline_search demo_rules 9 demo_filter 2 demo_timeline = Some page \<and> map te_ts page = [9, 8])
   \<and> minted_within 4 late_fact
   \<and> (\<exists>page. timeline_search demo_rules 9 demo_filter 1 late_fact = Some page \<and> length page = 1 \<and> (\<forall>x \<in> set page. 5 \<le> te_ts x + 4))"
proof -
  have flt: "orders_whole_window demo_filter" "tf_app demo_filter = []" "tf_entity_id demo_filter = []" "tf_before demo_filter = None"
    by (simp_all add: orders_whole_window_def demo_filter_def)
  obtain all where all: "timeline_all demo_rules 9 demo_filter demo_timeline = Some all" "map te_ts all = [9, 8, 7, 6, 5, 4, 1]"
    using demo_all by (cases "timeline_all demo_rules 9 demo_filter demo_timeline") simp_all
  have "minted_within 0 demo_timeline" by (simp add: minted_within_def demo_timeline_def)
  from first_page_newest[OF all(1) this order_refl flt, of 2] have 1:
    "\<exists>page. timeline_search demo_rules 9 demo_filter 2 demo_timeline = Some page \<and> map te_ts page = [9, 8]"
    using all(2) by fastforce
  have "map_option (map te_ts) (timeline_all demo_rules 9 demo_filter late_fact) = Some [5, 2, 1]" by code_simp
  then obtain known where known: "timeline_all demo_rules 9 demo_filter late_fact = Some known" "map te_ts known = [5, 2, 1]"
    by (cases "timeline_all demo_rules 9 demo_filter late_fact") simp_all
  have late: "minted_within 4 late_fact" by (simp add: minted_within_def late_fact_def demo_fact_def)
  from first_page_newest[OF known(1) late _ flt, of 1] obtain page where page:
    "timeline_search demo_rules 9 demo_filter 1 late_fact = Some page" "mset page \<subseteq># mset known"
    "length page = min 1 (length known)" "\<forall>e \<in># mset known - mset page. \<forall>x \<in> set page. te_ts e \<le> te_ts x + 4"
    by auto
  obtain a b c where abc: "known = [a, b, c]" "te_ts a = 5" using known(2) by (auto simp: map_eq_Cons_conv)
  obtain x where x: "page = [x]" using page(3) abc(1) by (cases page) auto
  have "5 \<le> te_ts x + 4"
  proof (cases "x = a")
    case False
    then have "a \<in># mset known - mset page" using abc(1) x by auto
    then show ?thesis using page(4) abc(2) x by fastforce
  qed (use abc(2) in simp)
  then show ?thesis using 1 late page(1) x by simp
qed

text \<open>The page below instant 8 is the line at 7 and the fact at 1; the lines from 6 on are gone.\<close>

lemma older_page_jumps_witness:
  "\<exists>page. timeline_search demo_rules 9 (demo_filter\<lparr>tf_before := Some 8\<rparr>) 2 demo_timeline = Some page
    \<and> te_ts (last page) < 7 \<and> (te_ts (last page) < 4 \<longrightarrow> (\<forall>t \<in> {4, 5, 6}. from_log_line (demo_line t) \<notin> set page))"
proof -
  let ?flt = "demo_filter\<lparr>tf_before := Some 8\<rparr>"
  have lines: "search_logs demo_rules 9 ?flt 2 (tw_logs demo_timeline) = [demo_line 8, demo_line 7]" by code_simp
  obtain f where facts: "business_entries demo_rules ?flt 2 demo_timeline = Some [f]" "te_ts f = 1"
  proof -
    have "map_option (map te_ts) (business_entries demo_rules ?flt 2 demo_timeline) = Some [1]" by code_simp
    then show ?thesis using that by (cases "business_entries demo_rules ?flt 2 demo_timeline") auto
  qed
  have none: "issue_entries demo_rules ?flt 2 demo_timeline = Some []" by code_simp
  have flt: "orders_whole_window ?flt" "tf_app ?flt = []" "tf_entity_id ?flt = []" "tf_before ?flt = Some 8" "wants ?flt FromLogs"
    by (simp_all add: orders_whole_window_def demo_filter_def wants_def)
  have "length [demo_line 8, demo_line 7] = 2" "\<exists>l \<in> set [demo_line 8, demo_line 7]. ll_ts l = 8" "[f] @ [] \<noteq> []"
    "\<forall>e \<in> set ([f] @ []). te_ts e < ll_ts (last [demo_line 8, demo_line 7])"
    using facts(2) by (simp_all add: demo_line_def)
  from older_page_jumps[OF flt lines[symmetric] this(1,2) facts(1) none this(3,4)]
  show ?thesis by (fastforce simp: demo_line_def)
qed

text \<open>A hundred and fifty lines: the first page ends at instant 51, the second one offers no more.\<close>

definition demo_lines :: timeline_world where
  "demo_lines = \<lparr>tw_logs = map (demo_line \<circ> int) (rev [1..<151]), tw_journal = [], tw_sightings = []\<rparr>"

lemma demo_lines_first_page:
  "timeline_search demo_rules 150 (demo_filter\<lparr>tf_source := ''logs''\<rparr>) page_size demo_lines
    = Some (map from_log_line (take page_size (tw_logs demo_lines)))"
proof -
  let ?flt = "demo_filter\<lparr>tf_source := ''logs''\<rparr>" and ?L = "tw_logs demo_lines"
  have "filter (log_matches demo_rules 150 ?flt) ?L = ?L"
    by (rule filter_True) (auto simp: demo_lines_def log_matches_def within_def log_floor_def upper_bound_def demo_filter_def demo_line_def)
  moreover have "sorted (map (\<lambda>l. - ll_ts l) ?L)"
  proof -
    have "map (\<lambda>l. - ll_ts l) ?L = rev (map (\<lambda>n. - int n) [1..<151])" by (simp add: demo_lines_def demo_line_def rev_map)
    then show ?thesis by (simp only: sorted_wrt_rev sorted_wrt_map) (rule sorted_wrt_mono_rel[OF _ sorted_wrt_upt], simp)
  qed
  ultimately have logs: "search_logs demo_rules 150 ?flt page_size ?L = take page_size ?L"
    by (simp add: search_logs_def sort_key_id_if_sorted)
  have "kept ?flt e" for e by (simp add: kept_def demo_filter_def)
  then have kept: "filter (kept ?flt) es = es" for es by simp
  have order: "sorted_entries ?flt es = es" if "sorted (map te_ts (rev es))" for es
    using that by (simp add: sorted_entries_def text_sort_keys_def demo_filter_def sort_key_id_if_sorted)
  have "sorted (map te_ts (rev (map from_log_line (take page_size ?L))))"
  proof -
    have "map te_ts (map from_log_line ?L) = rev (map int [1..<151])" by (simp add: demo_lines_def demo_line_def rev_map)
    then have "sorted_wrt (\<ge>) (map te_ts (map from_log_line ?L))"
      by (simp only: sorted_wrt_rev sorted_wrt_map) (rule sorted_wrt_mono_rel[OF _ sorted_wrt_upt], simp)
    then show ?thesis by (simp only: rev_map[symmetric] sorted_wrt_rev take_map[symmetric] sorted_wrt_take)
  qed
  note sorted = order[OF this]
  have "length (map from_log_line (take page_size ?L)) \<le> page_size" by simp
  then show ?thesis
    using logs by (simp add: timeline_search_def log_entries_def business_entries_def issue_entries_def wants_def source_value_def
        kept sorted)
qed

lemma demo_lines_cursor: "next_cursor (map from_log_line (take page_size (tw_logs demo_lines))) (demo_filter\<lparr>tf_source := ''logs''\<rparr>) = Some 51"
proof -
  have "length (take 100 (tw_logs demo_lines)) = 100" "last (take 100 (tw_logs demo_lines)) = tw_logs demo_lines ! 99"
    by (simp_all add: demo_lines_def last_conv_nth)
  moreover have "tw_logs demo_lines ! 99 = demo_line 51" by (simp add: demo_lines_def rev_nth)
  moreover have "take 100 (tw_logs demo_lines) \<noteq> []" by (simp add: demo_lines_def)
  ultimately show ?thesis
    by (simp add: next_cursor_def page_size_def orders_whole_window_def demo_filter_def last_map demo_line_def)
qed

lemma lines_end_with_second_page_witness:
  "let flt = demo_filter\<lparr>tf_source := ''logs''\<rparr> in
   case timeline_search demo_rules 150 (flt\<lparr>tf_before := Some 51\<rparr>) page_size demo_lines of
     None \<Rightarrow> False
   | Some page' \<Rightarrow> next_cursor page' (flt\<lparr>tf_before := Some 51\<rparr>) = None"
proof -
  let ?flt = "demo_filter\<lparr>tf_source := ''logs''\<rparr>"
  have "timeline_search demo_rules 150 (?flt\<lparr>tf_before := Some 51\<rparr>) page_size demo_lines \<noteq> None"
    by (simp add: timeline_search_def business_entries_def issue_entries_def wants_def source_value_def)
  then obtain page' where older: "timeline_search demo_rules 150 (?flt\<lparr>tf_before := Some 51\<rparr>) page_size demo_lines = Some page'" by blast
  have "tf_source ?flt = ''logs''" "orders_whole_window ?flt" by (simp_all add: demo_filter_def orders_whole_window_def)
  from lines_end_with_second_page[OF this demo_lines_first_page demo_lines_cursor older order_refl] show ?thesis
    by (simp add: older Let_def)
qed

end
