(* ===== verification/Timeline_Screen.thy ===== *)
theory Timeline_Screen
  imports Timeline Request_Log
begin

text \<open>
  The rest of \<open>apps/timeline\<close>: the activity chart, the facets of the filter pills, the labels, the query
  string, the screen and the export, and the settings the app pushes to the log pipeline.
\<close>

section \<open>The activity chart\<close>

datatype grain = ByHour | ByDay | ByWeek | ByMonth

definition grain_value :: "grain \<Rightarrow> string" where
  "grain_value g = (case g of ByHour \<Rightarrow> ''hour'' | ByDay \<Rightarrow> ''day'' | ByWeek \<Rightarrow> ''week'' | ByMonth \<Rightarrow> ''month'')"

definition grains :: "grain list" where "grains = [ByHour, ByDay, ByWeek, ByMonth]"

definition grain_window :: "grain \<Rightarrow> int" where
  "grain_window g = (case g of ByHour \<Rightarrow> seconds (24 * 3600) | ByDay \<Rightarrow> days 14 | ByWeek \<Rightarrow> days (12 * 7) | ByMonth \<Rightarrow> days 366)"

definition grain_span :: "grain \<Rightarrow> nat" where
  "grain_span g = (case g of ByHour \<Rightarrow> 24 | ByDay \<Rightarrow> 14 | ByWeek \<Rightarrow> 12 | ByMonth \<Rightarrow> 12)"

text \<open>\<open>%Y-%m-%d %H:00\<close>, \<open>%G-W%V\<close> (the year and week of the day's Thursday) and \<open>%Y-%m\<close>.\<close>

definition hour_key :: "instant \<Rightarrow> string" where
  "hour_key ts = date_isoformat (date_of ts) @ '' '' @ zero_pad 2 (ts mod days 1 div seconds 3600) @ '':00''"

definition week_key :: "date \<Rightarrow> string" where
  "week_key d = (let thursday = d - weekday d + 3; year = fst (ord2ymd thursday) in
     zero_pad 4 year @ ''-W'' @ zero_pad 2 ((thursday - ymd2ord (year, 1, 1)) div 7 + 1))"

definition month_key :: "int \<times> nat \<Rightarrow> string" where
  "month_key ym = zero_pad 4 (fst ym) @ ''-'' @ zero_pad 2 (int (snd ym))"

definition bucket_key :: "instant \<Rightarrow> grain \<Rightarrow> string" where
  "bucket_key ts g = (case g of ByHour \<Rightarrow> hour_key ts | ByWeek \<Rightarrow> week_key (date_of ts)
     | ByMonth \<Rightarrow> month_key (month_of (date_of ts)) | ByDay \<Rightarrow> date_isoformat (date_of ts))"

type_synonym activity_counts = "(string, (string, nat) dict) dict"

definition count_entry :: "grain \<Rightarrow> timeline_entry \<Rightarrow> activity_counts \<Rightarrow> activity_counts" where
  "count_entry g e buckets =
     (let k = bucket_key (te_ts e) g; b = dict_get buckets k []; s = source_value (te_source e) in
      AList.update k (AList.update s (dict_get b s 0 + 1) b) buckets)"

definition activity_cap :: nat where "activity_cap = 20000"

definition chart_filter :: "instant \<Rightarrow> grain \<Rightarrow> timeline_filter \<Rightarrow> timeline_filter" where
  "chart_filter now g flt = (if tf_from flt = None then flt\<lparr>tf_from := Some (now - grain_window g)\<rparr> else flt)"

definition timeline_activity :: "text_rules \<Rightarrow> instant \<Rightarrow> timeline_filter \<Rightarrow> grain \<Rightarrow> timeline_world \<Rightarrow> activity_counts option" where
  "timeline_activity tx now flt g w =
     map_option (\<lambda>es. fold (count_entry g) es []) (timeline_search tx now (chart_filter now g flt) activity_cap w)"

fun months_back :: "nat \<Rightarrow> int \<times> nat \<Rightarrow> (int \<times> nat) list" where
  "months_back 0 ym = []" |
  "months_back (Suc n) (y, m) = months_back n (if m = 1 then (y - 1, 12) else (y, m - 1)) @ [(y, m)]"

definition axis_keys :: "grain \<Rightarrow> instant \<Rightarrow> string list" where
  "axis_keys g now =
     (let n = grain_span g; ago = rev [0..<n]; today = date_of now in
      case g of
        ByHour \<Rightarrow> map (\<lambda>i. hour_key (now div seconds 3600 * seconds 3600 - seconds (3600 * int i))) ago
      | ByWeek \<Rightarrow> map (\<lambda>i. week_key (today - weekday today - 7 * int i)) ago
      | ByMonth \<Rightarrow> map month_key (months_back n (month_of today))
      | ByDay \<Rightarrow> map (\<lambda>i. date_isoformat (today - int i)) ago)"

definition bucket_label :: "string \<Rightarrow> grain \<Rightarrow> string" where
  "bucket_label key g = (case g of
       ByHour \<Rightarrow> take 5 (drop 11 key)
     | ByWeek \<Rightarrow> join_with ''-'' (tl (split_on CHR ''-'' key))
     | ByMonth \<Rightarrow> key
     | ByDay \<Rightarrow> drop 5 key)"

definition source_series :: "(string \<times> string) list" where
  "source_series = [(''logs'', ''Logs''), (''business'', ''Business''), (''issue'', ''Issue'')]"

definition activity_chart :: "activity_counts \<Rightarrow> grain \<Rightarrow> instant \<Rightarrow> (string \<times> nat list) list \<times> string list" where
  "activity_chart counts g now =
     (let keys = axis_keys g now in
      (map (\<lambda>(source, label). (label, map (\<lambda>k. dict_get (dict_get counts k []) source 0) keys)) source_series,
       map (\<lambda>k. bucket_label k g) keys))"

section \<open>Facets\<close>

definition tally_values :: "string list \<Rightarrow> (string, nat) dict" where
  "tally_values vs = fold (\<lambda>v counts. AList.update v (dict_get counts v 0 + 1) counts) vs []"

text \<open>Most frequent first, then by value.\<close>

definition ranked :: "(string, nat) dict \<Rightarrow> (string \<times> nat) list" where
  "ranked counts = sort_key (\<lambda>kv. - int (snd kv)) (sort_key fst counts)"

definition entry_tally :: "(timeline_entry \<Rightarrow> string option) \<Rightarrow> timeline_entry list \<Rightarrow> (string \<times> nat) list" where
  "entry_tally pick es = ranked (tally_values (filter (\<lambda>v. v \<noteq> []) (List.map_filter pick es)))"

definition request_desc :: "text_rules \<Rightarrow> timeline_entry \<Rightarrow> string option" where
  "request_desc tx e = (case te_request_name e of
       Some n \<Rightarrow> if n \<noteq> [] then Some n else
         (case (map_of (te_payload e) ''method'', map_of (te_payload e) ''path'') of
            (Some m, Some p) \<Rightarrow> if falsy m \<or> falsy p then None else Some (tx_of tx m @ '' '' @ tx_of tx p)
          | _ \<Rightarrow> None)
     | None \<Rightarrow>
         (case (map_of (te_payload e) ''method'', map_of (te_payload e) ''path'') of
            (Some m, Some p) \<Rightarrow> if falsy m \<or> falsy p then None else Some (tx_of tx m @ '' '' @ tx_of tx p)
          | _ \<Rightarrow> None))"

definition request_ids :: "timeline_entry list \<Rightarrow> string list" where
  "request_ids es = filter (\<lambda>v. v \<noteq> []) (List.map_filter te_request_id es)"

text \<open>The first description met labels a request.\<close>

definition request_label :: "text_rules \<Rightarrow> timeline_entry list \<Rightarrow> string \<Rightarrow> string" where
  "request_label tx es rid =
     (case List.map_filter (\<lambda>e. if te_request_id e = Some rid then request_desc tx e else None) es of
        d # _ \<Rightarrow> d | [] \<Rightarrow> rid)"

definition request_facet :: "text_rules \<Rightarrow> timeline_entry list \<Rightarrow> (string \<times> nat \<times> string) list" where
  "request_facet tx es = map (\<lambda>(rid, n). (rid, n, request_label tx es rid)) (ranked (tally_values (request_ids es)))"

record facet_values =
  tfc_source :: "(string \<times> nat) list"
  tfc_app :: "(string \<times> nat) list"
  tfc_level :: "(string \<times> nat) list"
  tfc_org :: "(string \<times> nat) list"
  tfc_user :: "(string \<times> nat) list"
  tfc_request :: "(string \<times> nat \<times> string) list"

definition facets_cap :: nat where "facets_cap = 2000"

definition facet_filter :: "timeline_filter \<Rightarrow> timeline_filter" where
  "facet_filter flt = flt\<lparr>tf_source := [], tf_app := [], tf_level := [], tf_org_id := [], tf_user_id := [], tf_request_id := []\<rparr>"

definition facets_of :: "text_rules \<Rightarrow> timeline_entry list \<Rightarrow> facet_values" where
  "facets_of tx es = \<lparr>tfc_source = entry_tally (\<lambda>e. Some (source_value (te_source e))) es,
     tfc_app = entry_tally (\<lambda>e. Some (te_app e)) es, tfc_level = entry_tally (\<lambda>e. Some (te_level e)) es,
     tfc_org = entry_tally te_org_id es, tfc_user = entry_tally te_user_id es, tfc_request = request_facet tx es\<rparr>"

definition timeline_facets :: "text_rules \<Rightarrow> instant \<Rightarrow> timeline_filter \<Rightarrow> timeline_world \<Rightarrow> facet_values option" where
  "timeline_facets tx now flt w = map_option (facets_of tx) (timeline_search tx now (facet_filter flt) facets_cap w)"

section \<open>The query string\<close>

record timeline_query =
  tq_source :: string
  tq_app :: string
  tq_level :: string
  tq_org_id :: string
  tq_user_id :: string
  tq_entity_id :: string
  tq_request_id :: string
  tq_q :: string
  tq_from_dt :: string
  tq_to_dt :: string
  tq_sort :: string
  tq_dir :: string
  tq_before :: string

text \<open>A bound is read off the wall clock it shows, as UTC; a malformed one is an uncaught error.\<close>

definition query_bound :: "(string \<Rightarrow> instant option) \<Rightarrow> string \<Rightarrow> instant option option" where
  "query_bound wall value = (if value = [] then Some None else map_option Some (wall value))"

definition to_filter :: "(string \<Rightarrow> instant option) \<Rightarrow> timeline_query \<Rightarrow> timeline_filter option" where
  "to_filter wall q = (case (query_bound wall (tq_from_dt q), query_bound wall (tq_to_dt q), query_bound wall (tq_before q)) of
       (Some lo, Some hi, Some before) \<Rightarrow> Some \<lparr>tf_source = tq_source q, tf_app = tq_app q, tf_level = tq_level q,
          tf_org_id = tq_org_id q, tf_user_id = tq_user_id q, tf_entity_id = tq_entity_id q, tf_request_id = tq_request_id q,
          tf_text = tq_q q, tf_from = lo, tf_to = hi, tf_before = before,
          tf_sort = (if tq_sort q = [] then ''ts'' else tq_sort q), tf_descending = (tq_dir q \<noteq> ''asc'')\<rparr>
     | _ \<Rightarrow> None)"

definition active_filters :: "timeline_query \<Rightarrow> (string, string) dict" where
  "active_filters q = filter (\<lambda>kv. snd kv \<noteq> []) [(''source'', tq_source q), (''app'', tq_app q), (''level'', tq_level q),
     (''org_id'', tq_org_id q), (''user_id'', tq_user_id q), (''entity_id'', tq_entity_id q), (''request_id'', tq_request_id q),
     (''q'', tq_q q), (''from_dt'', tq_from_dt q), (''to_dt'', tq_to_dt q)]"

section \<open>Labels\<close>

definition short_id :: "string \<Rightarrow> string" where "short_id v = take 8 v"

text \<open>Handles and addresses by identifier: what the lookups return, parameters.\<close>

definition org_label :: "(uuid \<Rightarrow> string option) \<Rightarrow> string \<Rightarrow> string" where
  "org_label handles v = (case uuid_parse v of None \<Rightarrow> short_id v
     | Some i \<Rightarrow> (case handles i of Some h \<Rightarrow> h | None \<Rightarrow> short_id v))"

definition user_label :: "(uuid \<Rightarrow> string option) \<Rightarrow> string \<Rightarrow> string" where
  "user_label emails v = (case uuid_parse v of None \<Rightarrow> short_id v
     | Some i \<Rightarrow> (case emails i of Some e \<Rightarrow> if e = [] then short_id v else e | None \<Rightarrow> short_id v))"

definition facet_ids :: "(string \<times> nat) list \<Rightarrow> timeline_entry list \<Rightarrow> (timeline_entry \<Rightarrow> string option) \<Rightarrow> string \<Rightarrow> string set" where
  "facet_ids facet es pick selected = fst ` set facet \<union> {v \<in> set (List.map_filter pick es). v \<noteq> []}
     \<union> (if selected = [] then {} else {selected})"

text \<open>The visible rows' descriptions win over the facet's.\<close>

definition request_routes :: "text_rules \<Rightarrow> (string \<times> nat \<times> string) list \<Rightarrow> timeline_entry list \<Rightarrow> (string, string) dict" where
  "request_routes tx facet es =
     fold (\<lambda>e routes. case (te_request_id e, request_desc tx e) of
         (Some rid, Some d) \<Rightarrow> if rid = [] \<or> d = [] then routes else AList.update rid d routes
       | _ \<Rightarrow> routes) es (map (\<lambda>(rid, n, label). (rid, label)) facet)"

definition route_label :: "(string, string) dict \<Rightarrow> string \<Rightarrow> string" where
  "route_label routes rid = (case map_of routes rid of Some d \<Rightarrow> if d = [] then short_id rid else d | None \<Rightarrow> short_id rid)"

section \<open>The screen and the export\<close>

record timeline_page =
  tp_entries :: "timeline_entry list"
  tp_activity :: activity_counts
  tp_facets :: facet_values
  tp_chart :: "(string \<times> nat list) list \<times> string list"
  tp_routes :: "(string, string) dict"
  tp_next_before :: "string option"
  tp_exact_order :: bool
  tp_log_window_bounded :: bool

definition grain_of :: "string \<Rightarrow> grain" where
  "grain_of bucket = (case List.find (\<lambda>g. grain_value g = bucket) grains of Some g \<Rightarrow> g | None \<Rightarrow> ByDay)"

definition timeline_screen :: "text_rules \<Rightarrow> (string \<Rightarrow> instant option) \<Rightarrow> instant \<Rightarrow> timeline_query \<Rightarrow> string \<Rightarrow> timeline_world
    \<Rightarrow> timeline_page option" where
  "timeline_screen tx wall now q bucket w = (case to_filter wall q of
       None \<Rightarrow> None
     | Some flt \<Rightarrow> (case (timeline_search tx now flt page_size w, timeline_activity tx now flt (grain_of bucket) w, timeline_facets tx now flt w) of
           (Some es, Some counts, Some facets) \<Rightarrow>
             Some \<lparr>tp_entries = es, tp_activity = counts, tp_facets = facets,
               tp_chart = activity_chart counts (grain_of bucket) now, tp_routes = request_routes tx (tfc_request facets) es,
               tp_next_before = map_option isoformat (next_cursor es flt), tp_exact_order = orders_whole_window flt,
               tp_log_window_bounded = (\<not> is_narrowed flt \<and> tf_from flt = None)\<rparr>
         | _ \<Rightarrow> None))"

definition export_limit :: nat where "export_limit = 5000"

definition export_rows :: "text_rules \<Rightarrow> (string \<Rightarrow> instant option) \<Rightarrow> instant \<Rightarrow> timeline_query \<Rightarrow> timeline_world \<Rightarrow> timeline_entry list option" where
  "export_rows tx wall now q w = (case to_filter wall q of
       None \<Rightarrow> None | Some flt \<Rightarrow> timeline_search tx now flt export_limit w)"

definition csv_columns :: "string list" where
  "csv_columns = [''ts'', ''source'', ''level'', ''name'', ''org_id'', ''org_name'', ''user_id'', ''user_name'', ''entity_id'', ''request_id'']"

definition csv_cells :: "(instant \<Rightarrow> string) \<Rightarrow> timeline_entry \<Rightarrow> string list" where
  "csv_cells dump e = (let cell = (\<lambda>v. case v of None \<Rightarrow> [] | Some s \<Rightarrow> s) in
     [dump (te_ts e), source_value (te_source e), te_level e, te_name e, cell (te_org_id e), cell (te_org_name e),
      cell (te_user_id e), cell (te_user_name e), cell (te_entity_id e), cell (te_request_id e)])"

text \<open>The dialect of \<open>csv\<close>: a field is quoted when it has to be, its quotes doubled.\<close>

definition csv_quote :: char where "csv_quote = CHR 0x22"

definition csv_field :: "string \<Rightarrow> string" where
  "csv_field s =
     (if list_ex (\<lambda>c. c \<in> {CHR '','', csv_quote, CHR 0x0A, CHR 0x0D}) s
      then csv_quote # concat (map (\<lambda>c. if c = csv_quote then [c, c] else [c]) s) @ [csv_quote] else s)"

definition csv_line :: "string list \<Rightarrow> string" where
  "csv_line cells = join_with '','' (map csv_field cells) @ [CHR 0x0D, CHR 0x0A]"

definition csv_export :: "(instant \<Rightarrow> string) \<Rightarrow> timeline_entry list \<Rightarrow> string" where
  "csv_export dump es = csv_line csv_columns @ concat (map (csv_line \<circ> csv_cells dump) es)"

section \<open>The settings pushed to the log pipeline\<close>

definition log_levels :: "string list" where "log_levels = [''INFO'', ''WARNING'', ''ERROR'']"

record observability =
  ob_level :: string
  ob_heavy :: heavy_request

definition apply_observability :: "string \<Rightarrow> int \<Rightarrow> int \<Rightarrow> observability \<Rightarrow> observability" where
  "apply_observability level queries ms ob =
     ob\<lparr>ob_level := level, ob_heavy := apply_heavy_request_thresholds (nat queries) ms (ob_heavy ob)\<rparr>"

definition value_or :: "(string, string) dict \<Rightarrow> string \<Rightarrow> string \<Rightarrow> string" where
  "value_or values key fallback = (case map_of values key of None \<Rightarrow> fallback | Some v \<Rightarrow> if v = [] then fallback else v)"

definition reload_observability :: "string \<Rightarrow> (string, string) dict \<Rightarrow> observability \<Rightarrow> observability option" where
  "reload_observability target values ob =
     (if target \<noteq> ''timeline'' then Some ob
      else (case (py_int (value_or values ''heavy_request_queries'' (str_nat default_heavy_queries)),
              py_int (value_or values ''heavy_request_ms'' (str_int default_heavy_ms))) of
          (Some queries, Some ms) \<Rightarrow> Some (apply_observability (value_or values ''log_level'' ''INFO'') queries ms ob)
        | _ \<Rightarrow> None))"

section \<open>The counts are counts\<close>

lemma fold_count_entry:
  "dict_get (dict_get (fold (count_entry g) es buckets) k []) s 0
    = dict_get (dict_get buckets k []) s 0 + count_where (\<lambda>e. bucket_key (te_ts e) g = k \<and> source_value (te_source e) = s) es"
  by (induction es arbitrary: buckets) (auto simp: count_entry_def dict_get_update Let_def)

text \<open>A bar of the chart is the number of rows of its source in its period.\<close>

lemma activity_counts_rows:
  "timeline_search tx now (chart_filter now g flt) activity_cap w = Some es \<Longrightarrow>
    map_option (\<lambda>counts. dict_get (dict_get counts k []) s 0) (timeline_activity tx now flt g w)
      = Some (count_where (\<lambda>e. bucket_key (te_ts e) g = k \<and> source_value (te_source e) = s) es)"
  by (simp add: timeline_activity_def fold_count_entry) (simp add: dict_get_def)

lemma fold_tally:
  "dict_get (fold (\<lambda>v counts. AList.update v (dict_get counts v 0 + 1) counts) vs d) k 0
    = dict_get d k 0 + count_where (\<lambda>v. v = k) vs"
  by (induction vs arbitrary: d) (auto simp: dict_get_update)

lemma tally_values_counts: "dict_get (tally_values vs) k 0 = count_where (\<lambda>v. v = k) vs"
  unfolding tally_values_def fold_tally by (simp add: dict_get_def)

lemma fold_tally_keys:
  "fst ` set (fold (\<lambda>v counts. AList.update v (dict_get counts v 0 + 1) counts) vs d) = fst ` set d \<union> set vs"
  by (induction vs arbitrary: d) (auto simp: dom_update)

lemma fold_tally_distinct:
  "distinct (map fst d) \<Longrightarrow> distinct (map fst (fold (\<lambda>v counts. AList.update v (dict_get counts v 0 + 1) counts) vs d))"
  by (induction vs arbitrary: d) (simp_all add: distinct_update)

lemma tally_values_keys: "set (map fst (tally_values vs)) = set vs" "distinct (map fst (tally_values vs))"
proof -
  show "set (map fst (tally_values vs)) = set vs" unfolding tally_values_def set_map fold_tally_keys by simp
  show "distinct (map fst (tally_values vs))" unfolding tally_values_def by (rule fold_tally_distinct) simp
qed

lemma tally_values_entry: "kv \<in> set (tally_values vs) \<Longrightarrow> snd kv = count_where (\<lambda>u. u = fst kv) vs"
proof -
  assume "kv \<in> set (tally_values vs)"
  then have "map_of (tally_values vs) (fst kv) = Some (snd kv)" using tally_values_keys(2) by (intro map_of_is_SomeI) simp_all
  then show ?thesis using tally_values_counts[of vs "fst kv"] by (simp add: dict_get_def)
qed

text \<open>A facet offers every value met once, with the number of its rows, the most frequent first.\<close>

lemma entry_tally_exact:
  fixes pick es
  defines "met \<equiv> filter (\<lambda>v. v \<noteq> []) (List.map_filter pick es)"
  shows "set (entry_tally pick es) = {(v, count_where (\<lambda>u. u = v) met) | v. v \<in> set met}"
    and "sorted_wrt (\<lambda>a b. snd b \<le> snd a) (entry_tally pick es)"
proof -
  let ?d = "tally_values met"
  have "set (entry_tally pick es) = set ?d" by (simp add: entry_tally_def ranked_def met_def)
  also have "\<dots> = {(v, count_where (\<lambda>u. u = v) met) | v. v \<in> set met}"
  proof (intro set_eqI iffI)
    fix kv assume kv: "kv \<in> set ?d"
    then have "fst kv \<in> set met" using tally_values_keys(1)[of met] by (metis list.set_map image_eqI)
    then show "kv \<in> {(v, count_where (\<lambda>u. u = v) met) | v. v \<in> set met}" using tally_values_entry[OF kv] by (cases kv) auto
  next
    fix kv assume "kv \<in> {(v, count_where (\<lambda>u. u = v) met) | v. v \<in> set met}"
    then obtain v where v: "kv = (v, count_where (\<lambda>u. u = v) met)" "v \<in> set (map fst ?d)" using tally_values_keys(1)[of met] by auto
    then obtain q where q: "q \<in> set ?d" "fst q = v" by auto
    then have "snd q = count_where (\<lambda>u. u = v) met" using tally_values_entry[OF q(1)] by simp
    then have "q = kv" using q(2) v(1) by (simp add: prod_eq_iff)
    then show "kv \<in> set ?d" using q(1) by simp
  qed
  finally show "set (entry_tally pick es) = {(v, count_where (\<lambda>u. u = v) met) | v. v \<in> set met}" .
  have "sorted (map (\<lambda>kv. - int (snd kv)) (entry_tally pick es))" by (simp add: entry_tally_def ranked_def)
  then show "sorted_wrt (\<lambda>a b. snd b \<le> snd a) (entry_tally pick es)" by (simp add: sorted_wrt_map)
qed

end
