(* ===== verification/Spec2Isabelle.thy ===== *)
theory Spec2Isabelle
  imports Task_Worker Task_Drain Event_Delivery Event_Bus Rate_Limit Slugs Log_Sink Capture Live_Settings Org_Requests Auth_Signin
    Admin_Requests Learning_Review Todo Page_Access Event_Roundtrip Metrics_Screen Calendar_Views Activity Task_History
    Files_History Profile_History Issues_History Timeline_Pages Timeline_Screen
begin

text \<open>
  A verification development for labase, a server-rendered web application in Python (FastAPI,
  SQLModel) on Postgres and Supabase.  All paths are under \<open>src/\<close>.

  \<^bold>\<open>The program.\<close>  Each app of \<open>apps/\<close> mounts routes on one host.  A request runs in one database
  transaction under row-level security; what it does is recorded as business facts in a journal, in the
  same transaction.  A listener reads the settled facts and puts one task per consumer into a durable
  queue; a worker runs the tasks, at least once, and a ledger makes each consumer's effect happen once.
  Besides, every process adopts changed settings from the facts, counts its requests, writes its log
  lines to the database and its captured exceptions to the trackers.

  \<^bold>\<open>How it is modelled.\<close>  A table is a list of records, a handler a function of the tables, the request
  and the outside world that returns the new tables, the facts and the answer; every early return and
  every exception is a branch.  Identifiers are natural numbers, instants are integers (microseconds),
  dates are ordinals, Python dictionaries are association lists in insertion order, and strings are lists
  of ASCII characters.  Code that is not in the repository is a parameter: GoTrue (a server with a
  state), Storage (\<open>Object_Store\<close>), time zones, PyJWT, text search, traceback formatting, hashes.

  \<^bold>\<open>The theories.\<close>
  \<^item> \<open>Prelude\<close>, \<open>Py_Text\<close>, \<open>Py_Datetime\<close>: the shared vocabulary, the SQL statements the repositories are
    written with, and what the code uses of Python's strings, integers and datetimes (the Gregorian
    calendar is proved to be a bijection of ordinals and dates).
  \<^item> \<open>Task_Queue\<close>, \<open>Task_Worker\<close>, \<open>Task_Drain\<close>, \<open>Loop_Health\<close>: \<open>apps/shared/queue.py\<close> and
    \<open>apps/shared/logs/loop.py\<close>.  \<open>task_row\<close> is a row of \<open>task_queue\<close>; \<open>claim\<close>, \<open>complete_task\<close>, \<open>retry_task\<close>,
    \<open>fail_task\<close> are the statements, \<open>worker_tick\<close> and \<open>drain_queue\<close> the worker.  What the worker needs of
    a handler is the locale \<open>task_handlers\<close>, what the drain needs is \<open>modest_worker\<close>; both are
    interpreted on \<open>registered_handlers\<close>, the handlers the whole program registers.
  \<^item> \<open>Event_Types\<close>, \<open>Event_Journal\<close>, \<open>Event_Listener\<close>, \<open>Event_Bus\<close>, \<open>Event_Delivery\<close>, \<open>Event_Roundtrip\<close>:
    \<open>apps/shared/events\<close>.  The catalogue and the wiring, the journal with its ledgers (the locale \<open>ledger\<close>)
    and cursors, one tick of the listener, the bus with its idempotent wrapper; then the step relation of
    concurrent transactions and ticks, and the path of one fact from the emitter to its consumer.
  \<^item> \<open>Rate_Limit\<close>, \<open>Slugs\<close>: \<open>apps/shared/http/limiter.py\<close>, \<open>apps/shared/integration/slugs.py\<close> (the locale
    \<open>handle_namespace\<close>).
  \<^item> \<open>Bounded_Buffer\<close>, \<open>Log_Sink\<close>, \<open>Capture\<close>, \<open>Dependency\<close>, \<open>Request_Log\<close>: \<open>apps/shared/logs\<close> and
    \<open>apps/shared/persistence/sql_stats.py\<close>; the two queues interpret one locale, \<open>bounded_queue\<close>.
  \<^item> \<open>Live_Settings\<close>: \<open>apps/shared/settings\<close> and the writes of \<open>apps/console\<close>.
  \<^item> \<open>Keep_One\<close>, \<open>Organizations\<close>, \<open>Org_Requests\<close>: \<open>apps/organizations\<close>; the last owner and the last
    administrator are one locale, \<open>keep_one\<close>.
  \<^item> \<open>Auth_Session\<close>, \<open>Auth_Signin\<close>, \<open>Gotrue_Client\<close>, \<open>Admin_Directory\<close>, \<open>Admin_Requests\<close>: \<open>apps/auth\<close> with the
    administrators' part of \<open>apps/console\<close>.
  \<^item> \<open>Profile\<close>, \<open>Profile_History\<close>, \<open>Object_Store\<close>, \<open>Files\<close>, \<open>Files_History\<close>: \<open>apps/profile\<close>, \<open>apps/files\<close>.
  \<^item> \<open>Positioned\<close>, \<open>Todo\<close>, \<open>Pages\<close>, \<open>Page_Access\<close>: \<open>apps/shared/persistence/repository.py\<close> (the locale
    \<open>positioned\<close>), \<open>apps/todo\<close>, \<open>apps/pages\<close>, \<open>apps/public\<close>.
  \<^item> \<open>Learning\<close>, \<open>Learning_Review\<close>: \<open>apps/learning\<close>; the repository's protocol is a locale that the SQL
    repository interprets.
  \<^item> \<open>Calendar\<close>, \<open>Calendar_Requests\<close>, \<open>Calendar_Views\<close>: \<open>apps/calendar\<close>.
  \<^item> \<open>Activity\<close>, \<open>Task_Strip\<close>, \<open>Task_History\<close>: the activity feed and \<open>apps/tasks\<close>.
  \<^item> \<open>Metrics\<close>, \<open>Metrics_Conservation\<close>, \<open>Metrics_Screen\<close>: \<open>apps/metrics\<close>.
  \<^item> \<open>Issues\<close>, \<open>Issues_History\<close>, \<open>Timeline\<close>, \<open>Timeline_Pages\<close>, \<open>Timeline_Screen\<close>: \<open>apps/issues\<close>, \<open>apps/timeline\<close>.

  \<^bold>\<open>What is shown.\<close>  The properties are marked C1 to C40 where they stand.
  \<^item> Delivery: no task is lost (C4), a claim is exact and exclusive (C13), the drain ends (C14), a fact is
    handed over exactly once while transactions stay within half the settle window (C1), and may be
    skipped beyond it (C15), a consumer takes effect once (C5), a fact survives its round trip (C10).
  \<^item> Rights: who becomes a member or an owner (C2, C3, C18, C19, C35), who administers the server (C9,
    C21), who a request is and how a session starts (C7, C8), what an outsider reads (C11), who changes a
    file (C29), a password or an address (C34).
  \<^item> Data: settings (C6, C20), handles (C16, C32), tasks (C12), cards (C22), events of the calendar (C24 to
    C26), files and links (C30, C31), avatars (C33), issues (C36, C37).
  \<^item> Observation: log lines (C17), load (C23), streaks (C27), the film strip (C28), the Timeline (C38 to C40).

  Several of them state what the code does where it does not do what it means to (C15, C20, C24, C35, C39,
  C40); the side conditions of others mark such places too (C1, C8, C23, C26, C38).

  \<^bold>\<open>Bounds and fuel.\<close>  Loops that the code bounds are structural.  \<open>drain_queue\<close> runs on fuel, and C14
  computes how much is enough; the search for a free handle takes one more than the size of the namespace,
  and the walks over the pages of accounts and of sightings (C21, C37) have their bounds in the statements.

  \<^bold>\<open>What is taken for granted.\<close>  A transaction is atomic; statements of one request see its own writes;
  requests that take the advisory lock of the administrators are sequential, those of the organisations are
  modelled one after the other (what two at once can do to the last owner is a lemma of \<open>Org_Requests\<close>).
  A failed call to Storage has had no effect; the files' histories have the other case as a step whose
  transaction does not commit.  The process is never killed inside a model's step, except where the step
  relation says so (transactions of \<open>Event_Delivery\<close>, flushes of \<open>Metrics\<close>).

  \<^bold>\<open>What is not modelled.\<close>  The rendering of pages and templates, the browser's code, the parsing of requests
  by the framework, the assembly of the apps at start, the environment and its checks, mail over SMTP, the
  issuing of API keys, the log chain's processors, the read-only screens of the console, the migrations
  beyond the functions, triggers, indexes and policies the components rely on, and the scripts.
\<close>

end
